(* ===== verification/Prelude.thy ===== *)
theory Prelude
  imports Main "HOL-Library.Word" "HOL-Library.Char_ord"
begin

text \<open>
  What the components of the model share: the machine-integer types of the code, the
  computations that may throw (a state-and-exception type with its sequencing operator), and
  the generic lemmas on lists that the byte-buffer and container proofs rest on.
\<close>

named_theorems sx_simps \<open>unfolding of state-and-exception computations\<close>
named_theorems ow_simps \<open>lemmas on overwriting a stretch of a list\<close>

section \<open>Machine integers\<close>

type_synonym u8 = "8 word"
type_synonym u16 = "16 word"
type_synonym u32 = "32 word"
type_synonym u64 = "64 word"

text \<open>Subtraction of \<^verbatim>\<open>size_t\<close> and \<^verbatim>\<open>uint64_t\<close> values held as natural numbers: it wraps at $2^{64}$.\<close>

definition sub64 :: "nat \<Rightarrow> nat \<Rightarrow> nat" where
  "sub64 a b = (a + 2 ^ 64 - b mod 2 ^ 64) mod 2 ^ 64"

lemma sub64_le [simp]:
  assumes "b \<le> a" "a < 2 ^ 64"
  shows "sub64 a b = a - b"
proof -
  have "a + 2 ^ 64 - b mod 2 ^ 64 = (a - b) + 2 ^ 64"
    using assms by simp
  then have "sub64 a b = (a - b) mod 2 ^ 64"
    by (simp add: sub64_def del: diff_add_assoc2 Nat.add_diff_assoc2)
  then show ?thesis
    using assms by simp
qed

lemma sub64_underflow:
  assumes "a < b" "b < 2 ^ 64"
  shows "sub64 a b = a + 2 ^ 64 - b"
  using assms by (simp add: sub64_def)

lemma unat_bound: "unat (v :: 'a :: len word) < 2 ^ LENGTH('a)"
  by (rule unsigned_less)

lemma unat_drop_bit_div: "unat (drop_bit n (v :: 'a :: len word)) = unat v div 2 ^ n"
  by (simp add: unat_drop_bit_eq drop_bit_nat_def)

text \<open>The conversions to \<^verbatim>\<open>int\<close> and to \<^verbatim>\<open>int64_t\<close>.\<close>

definition int32 :: "int \<Rightarrow> int" where
  "int32 k = (k + 2 ^ 31) mod 2 ^ 32 - 2 ^ 31"

definition int64 :: "int \<Rightarrow> int" where
  "int64 k = (k + 2 ^ 63) mod 2 ^ 64 - 2 ^ 63"

lemma int32_small: "- (2 ^ 31) \<le> k \<Longrightarrow> k < 2 ^ 31 \<Longrightarrow> int32 k = k"
  by (simp add: int32_def)

lemma int64_small: "- (2 ^ 63) \<le> k \<Longrightarrow> k < 2 ^ 63 \<Longrightarrow> int64 k = k"
  by (simp add: int64_def)

section \<open>Computations that may throw\<close>

text \<open>
  A member function that may throw takes the object and returns the exception or the value,
  with the object as the call leaves it: a C++ exception does not undo what was written.
\<close>

type_synonym ('s, 'e, 'a) sx = "'s \<Rightarrow> ('e + 'a) \<times> 's"

definition sx_return :: "'a \<Rightarrow> ('s, 'e, 'a) sx" where
  "sx_return a s = (Inr a, s)"

definition sx_throw :: "'e \<Rightarrow> ('s, 'e, 'a) sx" where
  "sx_throw e s = (Inl e, s)"

definition sx_bind :: "('s, 'e, 'a) sx \<Rightarrow> ('a \<Rightarrow> ('s, 'e, 'b) sx) \<Rightarrow> ('s, 'e, 'b) sx" where
  "sx_bind m f s = (case m s of (Inl e, s') \<Rightarrow> (Inl e, s') | (Inr a, s') \<Rightarrow> f a s')"

lemma sx_return_apply [simp, sx_simps]: "sx_return a s = (Inr a, s)"
  by (simp add: sx_return_def)

lemma sx_throw_apply [simp, sx_simps]: "sx_throw e s = (Inl e, s)"
  by (simp add: sx_throw_def)

lemma sx_bind_Inr [sx_simps]: "m s = (Inr a, s') \<Longrightarrow> sx_bind m f s = f a s'"
  by (simp add: sx_bind_def)

lemma sx_bind_Inl [sx_simps]: "m s = (Inl e, s') \<Longrightarrow> sx_bind m f s = (Inl e, s')"
  by (simp add: sx_bind_def)

lemma sx_bind_return [simp]: "sx_bind m sx_return = m"
  by (rule ext) (auto simp: sx_bind_def split: prod.splits sum.splits)

lemma sx_return_bind [simp]: "sx_bind (sx_return a) f = f a"
  by (rule ext) (simp add: sx_bind_def)

lemma sx_bind_assoc: "sx_bind (sx_bind m f) g = sx_bind m (\<lambda>a. sx_bind (f a) g)"
  by (rule ext) (auto simp: sx_bind_def split: prod.splits sum.splits)

section \<open>Overwriting a stretch of a list\<close>

text \<open>The \<^verbatim>\<open>memcpy\<close> of \<open>ys\<close> into \<open>xs\<close> at offset \<open>p\<close>.\<close>

definition overwrite :: "'a list \<Rightarrow> nat \<Rightarrow> 'a list \<Rightarrow> 'a list" where
  "overwrite xs p ys = take p xs @ ys @ drop (p + length ys) xs"

lemma length_overwrite [simp]:
  "p + length ys \<le> length xs \<Longrightarrow> length (overwrite xs p ys) = length xs"
  by (simp add: overwrite_def)

lemma overwrite_Nil [simp]: "overwrite xs p [] = xs"
  by (simp add: overwrite_def)

lemma take_overwrite [ow_simps]:
  "p + length ys \<le> length xs \<Longrightarrow> n \<le> p \<Longrightarrow> take n (overwrite xs p ys) = take n xs"
  by (simp add: overwrite_def min_def)

lemma drop_overwrite [ow_simps]:
  "p + length ys \<le> length xs \<Longrightarrow> p + length ys \<le> n \<Longrightarrow>
     drop n (overwrite xs p ys) = drop n xs"
  by (simp add: overwrite_def)

lemma read_overwrite [ow_simps]:
  "p + length ys \<le> length xs \<Longrightarrow> take (length ys) (drop p (overwrite xs p ys)) = ys"
  by (simp add: overwrite_def)

lemma overwrite_overwrite_inside:
  "p \<le> length xs \<Longrightarrow> overwrite (overwrite xs p ys) (p + length ys) zs = overwrite xs p (ys @ zs)"
  by (simp add: overwrite_def add.assoc [symmetric]) (simp add: add.commute add.left_commute)

lemma overwrite_overwrite [ow_simps]:
  "p + length ys + length zs \<le> length xs
     \<Longrightarrow> overwrite (overwrite xs p ys) (p + length ys) zs = overwrite xs p (ys @ zs)"
  by (rule overwrite_overwrite_inside) simp

lemma overwrite_append2 [ow_simps]:
  "overwrite (xs @ zs) (length xs + p) ys = xs @ overwrite zs p ys"
  by (simp add: overwrite_def add.assoc)

lemma overwrite_append1 [ow_simps]:
  "p + length ys \<le> length xs \<Longrightarrow> overwrite (xs @ zs) p ys = overwrite xs p ys @ zs"
  by (simp add: overwrite_def)

section \<open>Lists of blocks of one size\<close>

lemma length_concat_blocks:
  "\<forall>x \<in> set xss. length x = b \<Longrightarrow> length (concat xss) = b * length xss"
  by (induction xss) simp_all

lemma drop_concat_blocks:
  assumes "\<forall>x \<in> set xss. length x = b" "i < length xss" "o' \<le> b"
  shows "drop (i * b + o') (concat xss) = drop o' (xss ! i) @ concat (drop (Suc i) xss)"
  using assms
proof (induction xss arbitrary: i)
  case Nil
  then show ?case by simp
next
  case (Cons x xss)
  then show ?case
    by (cases i) auto
qed

lemma concat_update_blocks:
  assumes "\<forall>x \<in> set xss. length x = b" "i < length xss" "o' + length ys \<le> b"
  shows "concat (xss[i := overwrite (xss ! i) o' ys]) = overwrite (concat xss) (i * b + o') ys"
  using assms
proof (induction xss arbitrary: i)
  case Nil
  then show ?case by simp
next
  case (Cons x xss)
  show ?case
  proof (cases i)
    case 0
    with Cons.prems show ?thesis by (simp add: ow_simps)
  next
    case (Suc j)
    have x: "length x = b" using Cons.prems by simp
    have "concat ((x # xss)[i := overwrite ((x # xss) ! i) o' ys])
        = x @ overwrite (concat xss) (j * b + o') ys"
      using Suc Cons by simp
    also have "\<dots> = overwrite (x @ concat xss) (length x + (j * b + o')) ys"
      by (simp add: overwrite_append2)
    finally show ?thesis
      using Suc x by (simp add: add.assoc add.commute add.left_commute)
  qed
qed

end
