(* ===== verification/Endian.thy ===== *)
theory Endian
  imports Prelude
begin

text \<open>
  \<^verbatim>\<open>server/endian.h\<close>: the two byte orders, the byte swap of a 2, 4 or 8 byte value and the
  conditional swaps. A value in memory is the list of its bytes in the byte order of the host,
  which the header takes from the compiler (\<^verbatim>\<open>WILL_BYTE_ORDER\<close>) and which is an argument here:
  what holds, holds on either kind of machine.
\<close>

section \<open>Byte orders and the bytes of a value\<close>

datatype endian = LITTLE_ENDIAN | BIG_ENDIAN

fun le_bytes :: "nat \<Rightarrow> nat \<Rightarrow> u8 list" where
  "le_bytes 0 v = []"
| "le_bytes (Suc n) v = of_nat (v mod 256) # le_bytes n (v div 256)"

lemma le_bytes_numeral [simp]:
  "le_bytes (numeral k) v = of_nat (v mod 256) # le_bytes (pred_numeral k) (v div 256)"
  by (subst numeral_eq_Suc) (rule le_bytes.simps(2))

fun of_le_bytes :: "u8 list \<Rightarrow> nat" where
  "of_le_bytes [] = 0"
| "of_le_bytes (b # bs) = unat b + 256 * of_le_bytes bs"

definition mem_bytes :: "endian \<Rightarrow> nat \<Rightarrow> nat \<Rightarrow> u8 list" where
  "mem_bytes h n v = (if h = LITTLE_ENDIAN then le_bytes n v else rev (le_bytes n v))"

definition of_mem_bytes :: "endian \<Rightarrow> u8 list \<Rightarrow> nat" where
  "of_mem_bytes h bs = (if h = LITTLE_ENDIAN then of_le_bytes bs else of_le_bytes (rev bs))"

lemma length_le_bytes [simp]: "length (le_bytes n v) = n"
  by (induction n arbitrary: v) simp_all

lemma length_mem_bytes [simp]: "length (mem_bytes h n v) = n"
  by (simp add: mem_bytes_def)

lemma unat_of_nat_u8: "unat (of_nat (v mod 256) :: u8) = v mod 256"
  by (simp add: unat_of_nat take_bit_eq_mod)

lemma of_le_bytes_le_bytes: "of_le_bytes (le_bytes n v) = v mod 256 ^ n"
proof (induction n arbitrary: v)
  case 0
  then show ?case by simp
next
  case (Suc n)
  have "of_le_bytes (le_bytes (Suc n) v) = v mod 256 + 256 * (v div 256 mod 256 ^ n)"
    by (simp only: le_bytes.simps of_le_bytes.simps unat_of_nat_u8 Suc.IH)
  also have "\<dots> = v mod (256 * 256 ^ n)"
    by (simp add: mod_mult2_eq)
  finally show ?case by simp
qed

lemma of_le_bytes_bound: "of_le_bytes bs < 256 ^ length bs"
proof (induction bs)
  case Nil
  then show ?case by simp
next
  case (Cons b bs)
  have "unat b < 256" using unat_bound [of b] by simp
  then have "unat b + 256 * of_le_bytes bs < 256 * Suc (of_le_bytes bs)" by simp
  also have "\<dots> \<le> 256 * 256 ^ length bs" using Cons.IH by (intro mult_le_mono) simp_all
  finally show ?case by simp
qed

lemma le_bytes_of_le_bytes: "length bs = n \<Longrightarrow> le_bytes n (of_le_bytes bs) = bs"
proof (induction bs arbitrary: n)
  case Nil
  then show ?case by simp
next
  case (Cons b bs)
  have "unat b < 256" using unat_bound [of b] by simp
  then have "(unat b + 256 * of_le_bytes bs) mod 256 = unat b"
    and "(unat b + 256 * of_le_bytes bs) div 256 = of_le_bytes bs"
    by simp_all
  with Cons show ?case by auto
qed

lemma of_mem_bytes_mem_bytes [simp]: "of_mem_bytes h (mem_bytes h n v) = v mod 256 ^ n"
  by (simp add: of_mem_bytes_def mem_bytes_def of_le_bytes_le_bytes)

section \<open>The byte swap\<close>

definition byteswap_bytes :: "nat \<Rightarrow> nat \<Rightarrow> nat" where
  "byteswap_bytes n v = of_le_bytes (rev (le_bytes n v))"

text \<open>The three overloads of \<^verbatim>\<open>byteswap\<close>, by the size of the value.\<close>

definition byteswap64 :: "u64 \<Rightarrow> u64" where
  "byteswap64 value = of_nat (byteswap_bytes 8 (unat value))"

definition byteswap32 :: "u32 \<Rightarrow> u32" where
  "byteswap32 value = of_nat (byteswap_bytes 4 (unat value))"

definition byteswap16 :: "u16 \<Rightarrow> u16" where
  "byteswap16 value = of_nat (byteswap_bytes 2 (unat value))"

definition byteswapOnLittleEndian16 :: "endian \<Rightarrow> u16 \<Rightarrow> u16" where
  "byteswapOnLittleEndian16 h t = (if h = BIG_ENDIAN then t else byteswap16 t)"

definition byteswapOnLittleEndian32 :: "endian \<Rightarrow> u32 \<Rightarrow> u32" where
  "byteswapOnLittleEndian32 h t = (if h = BIG_ENDIAN then t else byteswap32 t)"

definition byteswapOnBigEndian16 :: "endian \<Rightarrow> u16 \<Rightarrow> u16" where
  "byteswapOnBigEndian16 h t = (if h = BIG_ENDIAN then byteswap16 t else t)"

definition byteswapOnBigEndian32 :: "endian \<Rightarrow> u32 \<Rightarrow> u32" where
  "byteswapOnBigEndian32 h t = (if h = BIG_ENDIAN then byteswap32 t else t)"

lemma byteswap_bytes_bound: "byteswap_bytes n v < 256 ^ n"
  using of_le_bytes_bound [of "rev (le_bytes n v)"] by (simp add: byteswap_bytes_def)

lemma le_bytes_byteswap [simp]: "le_bytes n (byteswap_bytes n v) = rev (le_bytes n v)"
  by (simp add: byteswap_bytes_def le_bytes_of_le_bytes)

lemma byteswap_bytes_invol: "byteswap_bytes n (byteswap_bytes n v) = v mod 256 ^ n"
proof -
  have "byteswap_bytes n (byteswap_bytes n v) = of_le_bytes (rev (rev (le_bytes n v)))"
    by (simp only: byteswap_bytes_def [of n "byteswap_bytes n v"] le_bytes_byteswap)
  then show ?thesis by (simp add: of_le_bytes_le_bytes)
qed

lemma mem_bytes_byteswap:
  "mem_bytes h n (byteswap_bytes n v) = rev (mem_bytes h n v)"
  by (simp add: mem_bytes_def)

lemma unat_byteswap64: "unat (byteswap64 v) = byteswap_bytes 8 (unat v)"
  using byteswap_bytes_bound [of 8 "unat v"]
  by (simp add: byteswap64_def unat_of_nat take_bit_eq_mod)

lemma unat_byteswap32: "unat (byteswap32 v) = byteswap_bytes 4 (unat v)"
  using byteswap_bytes_bound [of 4 "unat v"]
  by (simp add: byteswap32_def unat_of_nat take_bit_eq_mod)

lemma unat_byteswap16: "unat (byteswap16 v) = byteswap_bytes 2 (unat v)"
  using byteswap_bytes_bound [of 2 "unat v"]
  by (simp add: byteswap16_def unat_of_nat take_bit_eq_mod)

lemmas unat_byteswap = unat_byteswap64 unat_byteswap32 unat_byteswap16

lemma byteswap64_invol [simp]: "byteswap64 (byteswap64 v) = v"
  using unat_bound [of v]
  by (simp add: byteswap_bytes_invol unat_byteswap64 byteswap64_def [of "byteswap64 v"])

lemma byteswap32_invol [simp]: "byteswap32 (byteswap32 v) = v"
  using unat_bound [of v]
  by (simp add: byteswap_bytes_invol unat_byteswap32 byteswap32_def [of "byteswap32 v"])

lemma byteswap16_invol [simp]: "byteswap16 (byteswap16 v) = v"
  using unat_bound [of v]
  by (simp add: byteswap_bytes_invol unat_byteswap16 byteswap16_def [of "byteswap16 v"])

lemma byteswapOnLittleEndian_invol [simp]:
  "byteswapOnLittleEndian16 h (byteswapOnLittleEndian16 h v) = v"
  "byteswapOnLittleEndian32 h (byteswapOnLittleEndian32 h w) = w"
  by (simp_all add: byteswapOnLittleEndian16_def byteswapOnLittleEndian32_def)

end
