(* ===== verification/ByteStore.thy ===== *)
theory ByteStore
  imports Prelude
begin

text \<open>
  The interface between the typed readers and writers of \<^verbatim>\<open>ByteArray\<close> and the buffer beneath
  them: a sequence of bytes with a cursor, \<open>put\<close> overwriting at the cursor and extending the
  sequence, \<open>get\<close> reading at it. A typed value is a list of bytes, so what a codec has to know
  of the buffer is these laws. \<open>room\<close> is the side condition under which reading zero bytes is
  defined; \<open>mode\<close> is what of the state a codec may look at, and no operation changes it.
\<close>

locale byte_store =
  fixes put :: "u8 list \<Rightarrow> ('s, 'e, unit) sx"
    and get :: "nat \<Rightarrow> ('s, 'e, u8 list) sx"
    and seek :: "nat \<Rightarrow> ('s, 'e, unit) sx"
    and content :: "'s \<Rightarrow> u8 list"
    and pos :: "'s \<Rightarrow> nat"
    and inv :: "'s \<Rightarrow> bool"
    and room :: "'s \<Rightarrow> bool"
    and mode :: "'s \<Rightarrow> 'm"
  assumes inv_pos: "inv s \<Longrightarrow> pos s \<le> length (content s)"
    and put_ok: "inv s \<Longrightarrow> \<exists>s'. put bs s = (Inr (), s') \<and> inv s'
      \<and> content s' = overwrite (content s) (pos s) bs \<and> pos s' = pos s + length bs
      \<and> mode s' = mode s"
    and get_ok: "inv s \<Longrightarrow> pos s + n \<le> length (content s) \<Longrightarrow> 0 < n \<or> room s \<Longrightarrow>
      \<exists>s'. get n s = (Inr (take n (drop (pos s) (content s))), s') \<and> inv s'
        \<and> content s' = content s \<and> pos s' = pos s + n \<and> mode s' = mode s"
    and seek_ok: "inv s \<Longrightarrow> p \<le> length (content s) \<Longrightarrow>
      \<exists>s'. seek p s = (Inr (), s') \<and> inv s' \<and> content s' = content s \<and> pos s' = p
        \<and> mode s' = mode s"
begin

text \<open>
  In mode \<open>m\<close>, \<open>w\<close> writes exactly \<open>bs\<close>; \<open>r\<close> reads exactly \<open>bs\<close>, wherever they stand, and
  returns \<open>v\<close>.
\<close>

definition writes :: "'m \<Rightarrow> ('s, 'e, unit) sx \<Rightarrow> u8 list \<Rightarrow> bool" where
  "writes m w bs \<longleftrightarrow> (\<forall>s. inv s \<longrightarrow> mode s = m \<longrightarrow> (\<exists>s'. w s = (Inr (), s') \<and> inv s'
     \<and> content s' = overwrite (content s) (pos s) bs \<and> pos s' = pos s + length bs
     \<and> mode s' = m))"

definition stands :: "'s \<Rightarrow> u8 list \<Rightarrow> bool" where
  "stands s bs \<longleftrightarrow> inv s \<and> pos s + length bs \<le> length (content s)
     \<and> take (length bs) (drop (pos s) (content s)) = bs"

definition reads :: "'m \<Rightarrow> ('s, 'e, 'a) sx \<Rightarrow> u8 list \<Rightarrow> 'a \<Rightarrow> bool" where
  "reads m r bs v \<longleftrightarrow> (\<forall>s. stands s bs \<longrightarrow> mode s = m \<longrightarrow> (\<exists>s'. r s = (Inr v, s') \<and> inv s'
     \<and> content s' = content s \<and> pos s' = pos s + length bs \<and> mode s' = m))"

lemma writes_put [intro]: "writes m (put bs) bs"
  using put_ok by (auto simp: writes_def)

lemma writes_in_mode:
  "(\<And>s. mode s = m \<Longrightarrow> w s = w' s) \<Longrightarrow> writes m w' bs \<Longrightarrow> writes m w bs"
  by (simp add: writes_def)

lemma writes_seq:
  assumes "writes m w as" "writes m w' bs"
  shows "writes m (sx_bind w (\<lambda>_. w')) (as @ bs)"
  unfolding writes_def
proof (intro allI impI)
  fix s
  assume s: "inv s" "mode s = m"
  from assms(1) s obtain s1 where s1: "w s = (Inr (), s1)" "inv s1" "mode s1 = m"
    "content s1 = overwrite (content s) (pos s) as" "pos s1 = pos s + length as"
    unfolding writes_def by blast
  from assms(2) s1(2,3) obtain s2 where s2: "w' s1 = (Inr (), s2)" "inv s2" "mode s2 = m"
    "content s2 = overwrite (content s1) (pos s1) bs" "pos s2 = pos s1 + length bs"
    unfolding writes_def by blast
  have "overwrite (overwrite (content s) (pos s) as) (pos s + length as) bs
      = overwrite (content s) (pos s) (as @ bs)"
    using inv_pos [OF s(1)] by (simp add: overwrite_def ac_simps)
  with s1 s2 show "\<exists>s'. sx_bind w (\<lambda>_. w') s = (Inr (), s') \<and> inv s'
      \<and> content s' = overwrite (content s) (pos s) (as @ bs) \<and> pos s' = pos s + length (as @ bs)
      \<and> mode s' = m"
    by (simp add: sx_bind_def)
qed

lemma reads_get [intro]: "bs \<noteq> [] \<Longrightarrow> length bs = n \<Longrightarrow> reads m (get n) bs bs"
  using get_ok by (fastforce simp: reads_def stands_def)

lemma reads_in_mode:
  assumes "reads m r bs v" "\<And>s. mode s = m \<Longrightarrow> f v s = (Inr u, s)"
  shows "reads m (sx_bind r f) bs u"
  unfolding reads_def
proof (intro allI impI)
  fix s
  assume "stands s bs" "mode s = m"
  with assms(1) obtain s1 where "r s = (Inr v, s1)" "inv s1" "content s1 = content s"
    "pos s1 = pos s + length bs" "mode s1 = m"
    unfolding reads_def by blast
  with assms(2) show "\<exists>s'. sx_bind r f s = (Inr u, s') \<and> inv s' \<and> content s' = content s
      \<and> pos s' = pos s + length bs \<and> mode s' = m"
    by (simp add: sx_bind_def)
qed

lemma reads_return: "reads m r bs v \<Longrightarrow> reads m (sx_bind r (\<lambda>x. sx_return (f x))) bs (f v)"
  by (rule reads_in_mode) simp_all

lemma stands_appendD:
  assumes "stands s (as @ bs)"
  shows "stands s as" "take (length bs) (drop (pos s + length as) (content s)) = bs"
proof -
  let ?r = "drop (pos s) (content s)"
  have t: "take (length as + length bs) ?r = as @ bs"
    using assms by (simp add: stands_def)
  have "take (length as) ?r = take (length as) (take (length as + length bs) ?r)"
    by simp
  also have "\<dots> = as" unfolding t by simp
  finally show "stands s as" using assms by (simp add: stands_def)
  have "take (length bs) (drop (length as) ?r) = drop (length as) (take (length as + length bs) ?r)"
    by (simp add: drop_take)
  also have "\<dots> = bs" unfolding t by simp
  finally show "take (length bs) (drop (pos s + length as) (content s)) = bs"
    by (simp add: add.commute)
qed

lemma stands_step:
  assumes "stands s (as @ bs)" "inv s'" "content s' = content s" "pos s' = pos s + length as"
  shows "stands s' bs"
  using assms stands_appendD(2) [OF assms(1)] by (simp add: stands_def)

lemma reads_bind:
  assumes "reads m r as v" "reads m (f v) bs u"
  shows "reads m (sx_bind r f) (as @ bs) u"
  unfolding reads_def
proof (intro allI impI)
  fix s
  assume s: "stands s (as @ bs)" "mode s = m"
  from stands_appendD(1) [OF s(1)] s(2) assms(1) obtain s1 where s1: "r s = (Inr v, s1)" "inv s1"
    "content s1 = content s" "pos s1 = pos s + length as" "mode s1 = m"
    unfolding reads_def by blast
  from stands_step [OF s(1) s1(2-4)] s1(5) assms(2) obtain s2 where "f v s1 = (Inr u, s2)" "inv s2"
    "content s2 = content s1" "pos s2 = pos s1 + length bs" "mode s2 = m"
    unfolding reads_def by blast
  with s1 show "\<exists>s'. sx_bind r f s = (Inr u, s') \<and> inv s' \<and> content s' = content s
      \<and> pos s' = pos s + length (as @ bs) \<and> mode s' = m"
    by (simp add: sx_bind_def)
qed

text \<open>
  Writing, going back to where the writing began, and reading what was written or a prefix of it.
\<close>

lemma round_trip_prefix:
  assumes "inv s" "writes (mode s) w (bs @ cs)" "reads (mode s) r bs v"
  shows "\<exists>s'. sx_bind w (\<lambda>_. sx_bind (seek (pos s)) (\<lambda>_. r)) s = (Inr v, s') \<and> inv s'
    \<and> content s' = overwrite (content s) (pos s) (bs @ cs) \<and> pos s' = pos s + length bs"
proof -
  from assms(2) [unfolded writes_def] assms(1) obtain s1 where s1: "w s = (Inr (), s1)" "inv s1"
    "content s1 = overwrite (content s) (pos s) (bs @ cs)" "mode s1 = mode s"
    by blast
  have le: "pos s \<le> length (content s)" using assms(1) by (rule inv_pos)
  then have "pos s \<le> length (content s1)" using s1 by (simp add: overwrite_def)
  from seek_ok [OF s1(2) this] obtain s2 where s2: "seek (pos s) s1 = (Inr (), s2)" "inv s2"
    "content s2 = content s1" "pos s2 = pos s" "mode s2 = mode s1" by blast
  have "stands s2 (bs @ cs)"
    using s1 s2 le by (simp add: stands_def overwrite_def)
  then have "stands s2 bs" by (rule stands_appendD)
  with assms(3) s1(4) s2(5) obtain s3 where "r s2 = (Inr v, s3)" "inv s3"
    "content s3 = content s2" "pos s3 = pos s2 + length bs"
    unfolding reads_def by fastforce
  with s1 s2 show ?thesis by (simp add: sx_bind_def)
qed

lemmas round_trip = round_trip_prefix [where cs = "[]", simplified]

end

end
