(* ===== verification/ByteArray.thy ===== *)
theory ByteArray
  imports Endian ByteStore
begin

text \<open>
  \<^verbatim>\<open>server/bytearray.h\<close> and \<^verbatim>\<open>server/bytearray.cc\<close>: the chain of memory blocks behind
  \<^verbatim>\<open>ByteArray\<close>, its cursor, and the operations that move bytes in and out of it. The typed
  readers and writers are in the theory \<open>ByteCodec\<close>.

  The chain from \<^verbatim>\<open>m_root\<close> is the list of its blocks, a node pointer is the index of its block
  and the null pointer is \<open>None\<close>; dereferencing it is the error \<open>NullDeref\<close>. What \<^verbatim>\<open>new char[s]\<close>
  returns is unspecified in C++: it is the function \<open>new_char\<close> of the state, of which only the
  length of its results is known.
\<close>

section \<open>The state\<close>

datatype ba_error = OutOfRange | LengthError | NullDeref | NegativeWrite | Diverges

record bytearray =
  m_baseSize :: nat
  m_position :: nat
  m_capacity :: nat
  m_size :: nat
  m_endian :: endian
  m_root :: "u8 list list"
  m_cur :: "nat option"
  new_char :: "nat \<Rightarrow> u8 list"

type_synonym 'a ba = "(bytearray, ba_error, 'a) sx"

definition ByteArray :: "(nat \<Rightarrow> u8 list) \<Rightarrow> nat \<Rightarrow> bytearray" where
  "ByteArray heap base_size =
     \<lparr>m_baseSize = base_size, m_position = 0, m_capacity = base_size, m_size = 0,
      m_endian = BIG_ENDIAN, m_root = [heap base_size], m_cur = Some 0, new_char = heap\<rparr>"

definition isLittleEndian :: "bytearray \<Rightarrow> bool" where
  "isLittleEndian b \<longleftrightarrow> m_endian b = LITTLE_ENDIAN"

definition setIsLittleEndian :: "bool \<Rightarrow> bytearray \<Rightarrow> bytearray" where
  "setIsLittleEndian val b =
     (if val then b\<lparr>m_endian := LITTLE_ENDIAN\<rparr> else b\<lparr>m_endian := BIG_ENDIAN\<rparr>)"

definition getReadSize :: "bytearray \<Rightarrow> nat" where
  "getReadSize b = m_size b - m_position b"

definition getCapacity :: "bytearray \<Rightarrow> nat" where
  "getCapacity b = m_capacity b - m_position b"

definition next_node :: "u8 list list \<Rightarrow> nat \<Rightarrow> nat option" where
  "next_node root i = (if Suc i < length root then Some (Suc i) else None)"

section \<open>The operations\<close>

definition ba_clear :: "bytearray \<Rightarrow> bytearray" where
  "ba_clear b = b\<lparr>m_position := 0, m_size := 0, m_capacity := m_baseSize b,
     m_root := take 1 (m_root b), m_cur := Some 0\<rparr>"

text \<open>The destructor: the blocks it deletes, in their order.\<close>

function (sequential) dtor_loop :: "u8 list list \<Rightarrow> nat option \<Rightarrow> nat list" where
  "dtor_loop root None = []"
| "dtor_loop root (Some i) = i # dtor_loop root (next_node root i)"
  by pat_completeness auto

termination
  by (relation "measure (\<lambda>(root, tmp). case tmp of None \<Rightarrow> 0 | Some i \<Rightarrow> Suc (length root - i))")
    (auto simp: next_node_def)

definition ba_dtor :: "bytearray \<Rightarrow> nat list" where
  "ba_dtor b = dtor_loop (m_root b) (Some 0)"

text \<open>
  \<^verbatim>\<open>ceil(1.0 * sz / m_baseSize)\<close> is computed on doubles; it is the exact quotient rounded up
  for every sz below $2^{52}$.
\<close>

definition addCapacity :: "nat \<Rightarrow> bytearray \<Rightarrow> bytearray" where
  "addCapacity sz b =
     (if sz = 0 then b
      else let old_cap = getCapacity b in
        if old_cap \<ge> sz then b
        else let count = (sz - old_cap + m_baseSize b - 1) div m_baseSize b;
                 b' = b\<lparr>m_root := m_root b @ replicate count (new_char b (m_baseSize b)),
                        m_capacity := m_capacity b + count * m_baseSize b\<rparr>
             in if old_cap = 0
                then b'\<lparr>m_cur := (if count = 0 then None else Some (length (m_root b)))\<rparr>
                else b')"

text \<open>The loop of \<^verbatim>\<open>write\<close>: \<open>buf\<close> is what is left to copy and \<open>i\<close> is \<^verbatim>\<open>m_cur\<close>.\<close>

function write_loop :: "u8 list \<Rightarrow> nat \<Rightarrow> nat \<Rightarrow> nat \<Rightarrow> unit ba" where
  "write_loop buf npos ncap i b =
     (if buf = [] then (Inr (), b)
      else if ncap \<ge> length buf then
        (Inr (), b\<lparr>m_root := (m_root b)[i := overwrite (m_root b ! i) npos buf],
                   m_cur := (if length (m_root b ! i) = npos + length buf
                             then next_node (m_root b) i else Some i),
                   m_position := m_position b + length buf\<rparr>)
      else
        (let b' = b\<lparr>m_root := (m_root b)[i := overwrite (m_root b ! i) npos (take ncap buf)],
                    m_cur := next_node (m_root b) i,
                    m_position := m_position b + ncap\<rparr>
         in case next_node (m_root b) i of
              None \<Rightarrow> (Inl NullDeref, b')
            | Some j \<Rightarrow> write_loop (drop ncap buf) 0 (length (m_root b ! j)) j b'))"
  by pat_completeness auto
termination
  by (relation "measure (\<lambda>(buf, npos, ncap, i, b). length (m_root b) - i)")
    (auto simp: next_node_def split: if_splits)

declare write_loop.simps [simp del]

definition ba_write :: "u8 list \<Rightarrow> unit ba" where
  "ba_write buf b =
     (if buf = [] then (Inr (), b)
      else let b1 = addCapacity (length buf) b in
        case m_cur b1 of
          None \<Rightarrow> (Inl NullDeref, b1)
        | Some i \<Rightarrow>
            let npos = m_position b1 mod m_baseSize b1;
                ncap = length (m_root b1 ! i) - npos
            in case write_loop buf npos ncap i b1 of
                 (Inl e, b2) \<Rightarrow> (Inl e, b2)
               | (Inr u, b2) \<Rightarrow>
                   (Inr u, if m_position b2 > m_size b2
                           then b2\<lparr>m_size := m_position b2\<rparr> else b2))"

function read_loop :: "nat \<Rightarrow> nat \<Rightarrow> nat \<Rightarrow> nat \<Rightarrow> u8 list ba" where
  "read_loop sz npos ncap i b =
     (if sz = 0 then (Inr [], b)
      else if ncap \<ge> sz then
        (Inr (take sz (drop npos (m_root b ! i))),
         b\<lparr>m_cur := (if length (m_root b ! i) = npos + sz
                     then next_node (m_root b) i else Some i),
           m_position := m_position b + sz\<rparr>)
      else
        (let b' = b\<lparr>m_cur := next_node (m_root b) i, m_position := m_position b + ncap\<rparr>
         in case next_node (m_root b) i of
              None \<Rightarrow> (Inl NullDeref, b')
            | Some j \<Rightarrow>
                (case read_loop (sz - ncap) 0 (length (m_root b ! j)) j b' of
                   (Inl e, b2) \<Rightarrow> (Inl e, b2)
                 | (Inr ys, b2) \<Rightarrow> (Inr (take ncap (drop npos (m_root b ! i)) @ ys), b2))))"
  by pat_completeness auto
termination
  by (relation "measure (\<lambda>(sz, npos, ncap, i, b). length (m_root b) - i)")
    (auto simp: next_node_def split: if_splits)

declare read_loop.simps [simp del]

definition ba_read :: "nat \<Rightarrow> u8 list ba" where
  "ba_read sz b =
     (if sz > getReadSize b then (Inl OutOfRange, b)
      else case m_cur b of
        None \<Rightarrow> (Inl NullDeref, b)
      | Some i \<Rightarrow>
          let npos = m_position b mod m_baseSize b;
              ncap = length (m_root b ! i) - npos
          in read_loop sz npos ncap i b)"

text \<open>The \<^verbatim>\<open>const\<close> overload: it starts in the current block whatever \<open>position\<close> is.\<close>

definition read_at :: "nat \<Rightarrow> nat \<Rightarrow> bytearray \<Rightarrow> ba_error + u8 list" where
  "read_at sz position b =
     (if sz > sub64 (m_size b) position then Inl OutOfRange
      else case m_cur b of
        None \<Rightarrow> Inl NullDeref
      | Some i \<Rightarrow>
          let npos = position mod m_baseSize b;
              ncap = length (m_root b ! i) - npos
          in fst (read_loop sz npos ncap i b))"

text \<open>The block that holds offset \<open>v\<close> counted from block \<open>i\<close>.\<close>

fun seek_node :: "u8 list list \<Rightarrow> nat \<Rightarrow> nat \<Rightarrow> ba_error + nat option" where
  "seek_node [] i v = Inl NullDeref"
| "seek_node (n # ns) i v =
     (if v > length n then seek_node ns (Suc i) (v - length n)
      else if v = length n then Inr (if ns = [] then None else Some (Suc i))
      else Inr (Some i))"

definition setPosition :: "nat \<Rightarrow> unit ba" where
  "setPosition v b =
     (if v > m_capacity b then (Inl OutOfRange, b)
      else let b1 = b\<lparr>m_position := v, m_size := (if v > m_size b then v else m_size b)\<rparr>
           in case seek_node (m_root b) 0 v of
                Inl e \<Rightarrow> (Inl e, b1)
              | Inr c \<Rightarrow> (Inr (), b1\<lparr>m_cur := c\<rparr>))"

text \<open>
  The bytes \<^verbatim>\<open>writeToFile\<close> hands to the file stream. The lengths are signed; the conversion
  \<^verbatim>\<open>int diff\<close> and the \<^verbatim>\<open>int64_t\<close> values do not overflow for the sizes a process can hold.
\<close>

function writeToFile_loop :: "int \<Rightarrow> int \<Rightarrow> nat option \<Rightarrow> bytearray \<Rightarrow> ba_error + u8 list" where
  "writeToFile_loop read_size pos cur b =
     (if read_size \<le> 0 then Inr []
      else let diff = pos mod int (m_baseSize b);
               len = (if read_size > int (m_baseSize b) then int (m_baseSize b) else read_size) - diff
           in case cur of
                None \<Rightarrow> Inl NullDeref
              | Some i \<Rightarrow>
                  if len < 0 then Inl NegativeWrite
                  else if i < length (m_root b) then
                    (case writeToFile_loop (read_size - len) (pos + len) (next_node (m_root b) i) b of
                       Inl e \<Rightarrow> Inl e
                     | Inr ys \<Rightarrow> Inr (take (nat len) (drop (nat diff) (m_root b ! i)) @ ys))
                  else Inl NullDeref)"
  by pat_completeness auto
termination
  by (relation "measure (\<lambda>(read_size, pos, cur, b).
        case cur of None \<Rightarrow> 0 | Some i \<Rightarrow> Suc (length (m_root b) - i))")
    (auto simp: next_node_def split: if_splits)

declare writeToFile_loop.simps [simp del]

definition writeToFile :: "bytearray \<Rightarrow> ba_error + u8 list" where
  "writeToFile b = writeToFile_loop (int (getReadSize b)) (int (m_position b)) (m_cur b) b"

text \<open>\<^verbatim>\<open>readFromFile\<close> on a file that opens and holds \<open>file\<close>: blocks of \<^verbatim>\<open>m_baseSize\<close> until the end.\<close>

function readFromFile :: "u8 list \<Rightarrow> bool ba" where
  "readFromFile file b =
     (if m_baseSize b = 0 then (Inl Diverges, b)
      else if length file < m_baseSize b then sx_bind (ba_write file) (\<lambda>_. sx_return True) b
      else (case ba_write (take (m_baseSize b) file) b of
              (Inl e, b') \<Rightarrow> (Inl e, b')
            | (Inr u, b') \<Rightarrow> readFromFile (drop (m_baseSize b) file) b'))"
  by pat_completeness auto
termination
  by (relation "measure (\<lambda>(file, b). length file)") auto

declare readFromFile.simps [simp del]

definition toString :: "bytearray \<Rightarrow> ba_error + u8 list" where
  "toString b = (if getReadSize b = 0 then Inr [] else read_at (getReadSize b) (m_position b) b)"

definition hex_digit :: "nat \<Rightarrow> char" where
  "hex_digit d = ''0123456789abcdef'' ! d"

text \<open>\<^verbatim>\<open>setw(2) setfill('0') hex\<close> on one byte, and the byte's separator; \<^verbatim>\<open>endl\<close> before every 32nd.\<close>

fun hex_bytes :: "nat \<Rightarrow> u8 list \<Rightarrow> string" where
  "hex_bytes i [] = ''''"
| "hex_bytes i (c # cs) =
     (if i > 0 \<and> i mod 32 = 0 then [CHR 0x0A] else [])
     @ [hex_digit (unat c div 16), hex_digit (unat c mod 16), CHR '' '']
     @ hex_bytes (Suc i) cs"

definition toHexString :: "bytearray \<Rightarrow> ba_error + string" where
  "toHexString b = (case toString b of Inl e \<Rightarrow> Inl e | Inr str \<Rightarrow> Inr (hex_bytes 0 str))"

text \<open>An \<^verbatim>\<open>iovec\<close> points into the chain: its block, the offset in the block and its length.\<close>

record iovec =
  iov_node :: nat
  iov_off :: nat
  iov_len :: nat

function iov_loop :: "nat \<Rightarrow> nat \<Rightarrow> nat \<Rightarrow> nat \<Rightarrow> u8 list list \<Rightarrow> ba_error + iovec list" where
  "iov_loop len npos ncap i root =
     (if len = 0 then Inr []
      else if ncap \<ge> len then Inr [\<lparr>iov_node = i, iov_off = npos, iov_len = len\<rparr>]
      else case next_node root i of
             None \<Rightarrow> Inl NullDeref
           | Some j \<Rightarrow>
               (case iov_loop (len - ncap) 0 (length (root ! j)) j root of
                  Inl e \<Rightarrow> Inl e
                | Inr vs \<Rightarrow> Inr (\<lparr>iov_node = i, iov_off = npos, iov_len = ncap\<rparr> # vs)))"
  by pat_completeness auto
termination
  by (relation "measure (\<lambda>(len, npos, ncap, i, root). length root - i)")
    (auto simp: next_node_def split: if_splits)

declare iov_loop.simps [simp del]

definition getReadBuffers :: "nat \<Rightarrow> bytearray \<Rightarrow> ba_error + nat \<times> iovec list" where
  "getReadBuffers len0 b =
     (let len = (if len0 > getReadSize b then getReadSize b else len0)
      in if len = 0 then Inr (0, [])
         else case m_cur b of
           None \<Rightarrow> Inl NullDeref
         | Some i \<Rightarrow>
             let npos = m_position b mod m_baseSize b in
             map_sum id (Pair len) (iov_loop len npos (length (m_root b ! i) - npos) i (m_root b)))"

text \<open>\<open>count\<close> steps along the chain from block \<open>i\<close>.\<close>

fun skip_nodes :: "u8 list list \<Rightarrow> nat \<Rightarrow> nat option \<Rightarrow> ba_error + nat option" where
  "skip_nodes root 0 cur = Inr cur"
| "skip_nodes root (Suc count) None = Inl NullDeref"
| "skip_nodes root (Suc count) (Some i) = skip_nodes root count (next_node root i)"

definition getReadBuffers_at :: "nat \<Rightarrow> nat \<Rightarrow> bytearray \<Rightarrow> ba_error + nat \<times> iovec list" where
  "getReadBuffers_at len0 position b =
     (let len = (if len0 > getReadSize b then getReadSize b else len0)
      in if len = 0 then Inr (0, [])
         else case skip_nodes (m_root b) (position div m_baseSize b) (Some 0) of
           Inl e \<Rightarrow> Inl e
         | Inr None \<Rightarrow> Inl NullDeref
         | Inr (Some i) \<Rightarrow>
             let npos = position mod m_baseSize b in
             map_sum id (Pair len) (iov_loop len npos (length (m_root b ! i) - npos) i (m_root b)))"

definition getWriteBuffers :: "nat \<Rightarrow> (nat \<times> iovec list) ba" where
  "getWriteBuffers len b =
     (if len = 0 then (Inr (0, []), b)
      else let b1 = addCapacity len b in
        case m_cur b1 of
          None \<Rightarrow> (Inl NullDeref, b1)
        | Some i \<Rightarrow>
            let npos = m_position b1 mod m_baseSize b1 in
            (map_sum id (Pair len)
               (iov_loop len npos (length (m_root b1 ! i) - npos) i (m_root b1)), b1))"

section \<open>The representation invariant and the bytes it stands for\<close>

text \<open>
  The current block is the one that holds the position; at the very end of the chain the cursor is
  the null pointer.
\<close>

definition cur_of :: "nat \<Rightarrow> nat \<Rightarrow> nat \<Rightarrow> nat option" where
  "cur_of base n pos = (if pos < base * n then Some (pos div base) else None)"

definition ba_inv :: "bytearray \<Rightarrow> bool" where
  "ba_inv b \<longleftrightarrow>
     0 < m_baseSize b \<and> (\<forall>n. length (new_char b n) = n) \<and>
     m_root b \<noteq> [] \<and> (\<forall>x \<in> set (m_root b). length x = m_baseSize b) \<and>
     m_capacity b = m_baseSize b * length (m_root b) \<and>
     m_position b \<le> m_size b \<and> m_size b \<le> m_capacity b \<and>
     m_cur b = cur_of (m_baseSize b) (length (m_root b)) (m_position b)"

definition ba_data :: "bytearray \<Rightarrow> u8 list" where
  "ba_data b = concat (m_root b)"

text \<open>The bytes written so far, which is what a client sees of the object.\<close>

definition ba_content :: "bytearray \<Rightarrow> u8 list" where
  "ba_content b = take (m_size b) (ba_data b)"

lemma ba_invD:
  assumes "ba_inv b"
  shows "0 < m_baseSize b" "length (new_char b n) = n" "m_root b \<noteq> []"
    "x \<in> set (m_root b) \<Longrightarrow> length x = m_baseSize b"
    "m_capacity b = m_baseSize b * length (m_root b)"
    "m_position b \<le> m_size b" "m_size b \<le> m_capacity b" "m_position b \<le> m_capacity b"
    "m_cur b = cur_of (m_baseSize b) (length (m_root b)) (m_position b)"
  using assms by (auto simp: ba_inv_def)

lemma length_ba_data [simp]: "ba_inv b \<Longrightarrow> length (ba_data b) = m_capacity b"
  by (simp add: ba_data_def ba_inv_def length_concat_blocks)

lemma length_ba_content [simp]: "ba_inv b \<Longrightarrow> length (ba_content b) = m_size b"
  by (simp add: ba_content_def ba_invD(7))

lemma div_mod_less: "0 < base \<Longrightarrow> p < base * n \<Longrightarrow> p div base < n" for p base n :: nat
  by (simp add: less_mult_imp_div_less mult.commute)

lemma cur_of_inside:
  assumes "o' < base" "i < n"
  shows "cur_of base n (i * base + o') = Some i"
proof -
  have "i * base + o' < Suc i * base" using assms by simp
  also have "\<dots> \<le> n * base" using assms by (intro mult_le_mono) simp_all
  finally show ?thesis using assms by (simp add: cur_of_def mult.commute)
qed

lemma cur_of_boundary:
  assumes "0 < base" "i < length root"
  shows "cur_of base (length root) (i * base + base) = next_node root i"
proof (cases "Suc i < length root")
  case True
  with assms show ?thesis
    using cur_of_inside [of 0 base "Suc i" "length root"] by (simp add: next_node_def add.commute)
next
  case False
  with assms have "length root = Suc i" by simp
  then show ?thesis by (simp add: next_node_def cur_of_def add.commute)
qed

lemma ByteArray_inv:
  assumes "0 < base" "\<forall>n. length (heap n) = n"
  shows "ba_inv (ByteArray heap base)"
  using assms by (simp add: ba_inv_def ByteArray_def cur_of_def)

section \<open>Growing the chain\<close>

lemma addCapacity_frame [simp]:
  "m_baseSize (addCapacity n b) = m_baseSize b" "m_position (addCapacity n b) = m_position b"
  "m_size (addCapacity n b) = m_size b" "m_endian (addCapacity n b) = m_endian b"
  "new_char (addCapacity n b) = new_char b"
  by (simp_all add: addCapacity_def Let_def)

lemma ceil_div_bounds:
  assumes "0 < (base :: nat)"
  shows "n \<le> (n + base - 1) div base * base"
proof -
  have "n + base - 1 < (n + base - 1) div base * base + base"
    using assms by (metis mod_less_divisor div_mult_mod_eq nat_add_left_cancel_less)
  then show ?thesis using assms by simp
qed

lemma addCapacity_grow:
  assumes "ba_inv b" "m_capacity b - m_position b < n"
  obtains k where "0 < k" "m_root (addCapacity n b)
      = m_root b @ replicate k (new_char b (m_baseSize b))"
    "m_capacity (addCapacity n b) = m_capacity b + k * m_baseSize b"
    "m_position b + n \<le> m_capacity b + k * m_baseSize b"
    "m_cur (addCapacity n b)
      = (if m_position b = m_capacity b then Some (length (m_root b)) else m_cur b)"
proof -
  note inv = ba_invD [OF assms(1)]
  define need where "need = n - (m_capacity b - m_position b)"
  define k where "k = (need + m_baseSize b - 1) div m_baseSize b"
  have need: "0 < need" using assms(2) by (simp add: need_def)
  have "need \<le> k * m_baseSize b"
    using ceil_div_bounds [OF inv(1), of need] by (simp add: k_def)
  with need have "0 < k" and "m_position b + n \<le> m_capacity b + k * m_baseSize b"
    using inv(8) by (auto simp: need_def intro: Nat.gr0I)
  moreover have "addCapacity n b = (let b' = b\<lparr>m_root := m_root b @ replicate k (new_char b (m_baseSize b)),
        m_capacity := m_capacity b + k * m_baseSize b\<rparr>
      in if m_position b = m_capacity b then b'\<lparr>m_cur := Some (length (m_root b))\<rparr> else b')"
    using assms(2) inv(8) \<open>0 < k\<close>
    by (auto simp: addCapacity_def getCapacity_def Let_def k_def need_def)
  ultimately show ?thesis by (intro that [of k]) (auto simp: Let_def)
qed

lemma addCapacity_id:
  "n \<le> m_capacity b - m_position b \<Longrightarrow> addCapacity n b = b"
  by (simp add: addCapacity_def getCapacity_def)

text \<open>The blocks \<^verbatim>\<open>addCapacity\<close> chains to a buffer of base size \<open>base\<close> with \<open>room\<close> bytes left.\<close>

definition new_blocks :: "nat \<Rightarrow> nat \<Rightarrow> nat \<Rightarrow> nat" where
  "new_blocks base room n = (if n \<le> room then 0 else (n - room + base - 1) div base)"

lemma addCapacity_inv:
  assumes "ba_inv b"
  shows "ba_inv (addCapacity n b)"
    and "ba_data (addCapacity n b) = ba_data b @ concat (replicate
      (new_blocks (m_baseSize b) (m_capacity b - m_position b) n) (new_char b (m_baseSize b)))"
    and "m_position b + n \<le> m_capacity (addCapacity n b)"
proof -
  note inv = ba_invD [OF assms]
  let ?new = "concat (replicate (new_blocks (m_baseSize b) (m_capacity b - m_position b) n)
      (new_char b (m_baseSize b)))"
  have "ba_inv (addCapacity n b) \<and> ba_data (addCapacity n b) = ba_data b @ ?new \<and>
      m_position b + n \<le> m_capacity (addCapacity n b)"
  proof (cases "m_capacity b - m_position b < n")
    case False
    then show ?thesis using assms inv(8) by (auto simp: addCapacity_id new_blocks_def)
  next
    case True
    from addCapacity_grow [OF assms True] obtain k where k: "0 < k"
      "m_root (addCapacity n b) = m_root b @ replicate k (new_char b (m_baseSize b))"
      "m_capacity (addCapacity n b) = m_capacity b + k * m_baseSize b"
      "m_position b + n \<le> m_capacity b + k * m_baseSize b"
      "m_cur (addCapacity n b)
        = (if m_position b = m_capacity b then Some (length (m_root b)) else m_cur b)" .
    have cap: "m_capacity (addCapacity n b)
        = m_baseSize b * length (m_root (addCapacity n b))"
      using inv(5) k by (simp add: algebra_simps)
    moreover have "m_cur (addCapacity n b) = cur_of (m_baseSize b)
        (length (m_root (addCapacity n b))) (m_position b)"
      using k inv True by (auto simp: cur_of_def algebra_simps)
    moreover have "m_size b \<le> m_capacity (addCapacity n b)"
      using inv(7) k by simp
    moreover have "m_root (addCapacity n b) = m_root b @ replicate
        (new_blocks (m_baseSize b) (m_capacity b - m_position b) n) (new_char b (m_baseSize b))"
      using True by (simp add: addCapacity_def getCapacity_def new_blocks_def Let_def)
    ultimately show ?thesis
      using k inv by (auto simp: ba_inv_def ba_data_def)
  qed
  then show "ba_inv (addCapacity n b)"
    and "ba_data (addCapacity n b) = ba_data b @ ?new"
    and "m_position b + n \<le> m_capacity (addCapacity n b)"
    by blast+
qed

section \<open>What the loops do\<close>

text \<open>The position of the loops: block \<open>i\<close>, offset \<open>npos\<close> in it, and enough blocks for \<open>n\<close> more bytes.\<close>

definition at_node :: "bytearray \<Rightarrow> nat \<Rightarrow> nat \<Rightarrow> nat \<Rightarrow> bool" where
  "at_node b i npos n \<longleftrightarrow>
     (\<forall>x \<in> set (m_root b). length x = m_baseSize b) \<and> i < length (m_root b) \<and>
     npos < m_baseSize b \<and> i * m_baseSize b + npos + n \<le> m_baseSize b * length (m_root b)"

lemma at_node_len: "at_node b i npos n \<Longrightarrow> length (m_root b ! i) = m_baseSize b"
  by (simp add: at_node_def)

lemma at_node_next:
  assumes "at_node b i npos n" "m_baseSize b - npos < n"
  shows "next_node (m_root b) i = Some (Suc i)"
    and "at_node b (Suc i) 0 (n - (m_baseSize b - npos))"
proof -
  have "i * m_baseSize b + m_baseSize b < m_baseSize b * length (m_root b)"
    using assms unfolding at_node_def by linarith
  then have "Suc i * m_baseSize b < length (m_root b) * m_baseSize b"
    by (simp add: mult.commute)
  then have "Suc i < length (m_root b)"
    by (simp only: mult_less_cancel2)
  then show "next_node (m_root b) i = Some (Suc i)"
    and "at_node b (Suc i) 0 (n - (m_baseSize b - npos))"
    using assms by (auto simp: at_node_def next_node_def)
qed

lemma at_node_end:
  assumes "at_node b i npos n" "n \<le> m_baseSize b - npos"
  shows "(if length (m_root b ! i) = npos + n then next_node (m_root b) i else Some i)
    = cur_of (m_baseSize b) (length (m_root b)) (i * m_baseSize b + npos + n)"
proof (cases "npos + n = m_baseSize b")
  case True
  then have eq: "i * m_baseSize b + npos + n = i * m_baseSize b + m_baseSize b" by simp
  show ?thesis
    using True assms cur_of_boundary [of "m_baseSize b" i "m_root b"]
    by (subst eq) (simp add: at_node_def)
next
  case False
  moreover have "npos < m_baseSize b" using assms(1) by (simp add: at_node_def)
  ultimately have "npos + n < m_baseSize b" using assms(2) by linarith
  with False assms show ?thesis
    using cur_of_inside [of "npos + n" "m_baseSize b" i "length (m_root b)"]
    by (simp add: at_node_def add.assoc)
qed

lemma write_loop_spec:
  assumes "at_node b i npos (length buf)" "ncap = m_baseSize b - npos" "buf \<noteq> []"
  shows "\<exists>R. write_loop buf npos ncap i b = (Inr (), b\<lparr>m_root := R,
      m_cur := cur_of (m_baseSize b) (length (m_root b)) (i * m_baseSize b + npos + length buf),
      m_position := m_position b + length buf\<rparr>)
    \<and> length R = length (m_root b) \<and> (\<forall>x \<in> set R. length x = m_baseSize b)
    \<and> concat R = overwrite (concat (m_root b)) (i * m_baseSize b + npos) buf"
  using assms
proof (induction buf npos ncap i b rule: write_loop.induct)
  case (1 buf npos ncap i b)
  note an = "1.prems"(1)
  have blk: "\<forall>x \<in> set (m_root b). length x = m_baseSize b" and i: "i < length (m_root b)"
    and npos: "npos < m_baseSize b"
    using an by (auto simp: at_node_def)
  show ?case
  proof (cases "length buf \<le> ncap")
    case True
    let ?R = "(m_root b)[i := overwrite (m_root b ! i) npos buf]"
    have "npos + length buf \<le> m_baseSize b" using True "1.prems"(2) npos by simp
    then have "concat ?R = overwrite (concat (m_root b)) (i * m_baseSize b + npos) buf"
      and "\<forall>x \<in> set ?R. length x = m_baseSize b"
      using blk i concat_update_blocks [of "m_root b" "m_baseSize b" i npos buf]
      by (auto dest!: set_update_subset_insert [THEN subsetD])
    moreover have "write_loop buf npos ncap i b = (Inr (), b\<lparr>m_root := ?R,
        m_cur := cur_of (m_baseSize b) (length (m_root b)) (i * m_baseSize b + npos + length buf),
        m_position := m_position b + length buf\<rparr>)"
      using True "1.prems" at_node_end [OF an]
      by (simp add: write_loop.simps [of buf npos "m_baseSize b - npos" i b])
    ultimately show ?thesis by auto
  next
    case False
    let ?R1 = "(m_root b)[i := overwrite (m_root b ! i) npos (take ncap buf)]"
    let ?b1 = "b\<lparr>m_root := ?R1, m_cur := next_node (m_root b) i, m_position := m_position b + ncap\<rparr>"
    have nx: "next_node (m_root b) i = Some (Suc i)"
      and an1: "at_node b (Suc i) 0 (length buf - ncap)"
      using at_node_next [OF an] False "1.prems"(2) by auto
    have fit: "npos + length (take ncap buf) = m_baseSize b"
      using False "1.prems"(2) npos by simp
    have R1: "concat ?R1 = overwrite (concat (m_root b)) (i * m_baseSize b + npos) (take ncap buf)"
      and blk1: "\<forall>x \<in> set ?R1. length x = m_baseSize b"
      using fit blk i concat_update_blocks [of "m_root b" "m_baseSize b" i npos "take ncap buf"]
      by (auto dest!: set_update_subset_insert [THEN subsetD])
    have an2: "at_node ?b1 (Suc i) 0 (length (drop ncap buf))"
      using an1 blk1 by (simp add: at_node_def)
    have ln: "length (m_root b ! Suc i) = m_baseSize ?b1"
      using at_node_len [OF an1] by simp
    obtain R where R: "write_loop (drop ncap buf) 0 (length (m_root b ! Suc i)) (Suc i) ?b1
        = (Inr (), ?b1\<lparr>m_root := R, m_cur := cur_of (m_baseSize b) (length (m_root b))
              (Suc i * m_baseSize b + 0 + length (drop ncap buf)),
            m_position := m_position ?b1 + length (drop ncap buf)\<rparr>)"
      "length R = length (m_root b)" "\<forall>x \<in> set R. length x = m_baseSize b"
      "concat R = overwrite (concat ?R1) (Suc i * m_baseSize b + 0) (drop ncap buf)"
      using "1.IH" [OF "1.prems"(3) False refl nx] an2 ln False by auto
    have eq: "Suc i * m_baseSize b = i * m_baseSize b + npos + length (take ncap buf)"
      using fit by simp
    have "i * m_baseSize b + npos + length buf \<le> length (concat (m_root b))"
      using an by (simp add: at_node_def length_concat_blocks [OF blk])
    then have "concat R = overwrite (concat (m_root b)) (i * m_baseSize b + npos)
        (take ncap buf @ drop ncap buf)"
      unfolding R(4) R1 by (subst eq, simp only: add_0_right)
        (rule overwrite_overwrite, use False in simp)
    moreover have "write_loop buf npos ncap i b
        = write_loop (drop ncap buf) 0 (length (m_root b ! Suc i)) (Suc i) ?b1"
      using False nx "1.prems"(3) by (simp add: write_loop.simps [of buf npos ncap i b] Let_def)
    moreover have "Suc i * m_baseSize b + 0 + length (drop ncap buf)
        = i * m_baseSize b + npos + length buf"
      unfolding eq using False by simp
    moreover have "m_position ?b1 + length (drop ncap buf) = m_position b + length buf"
      using False by simp
    ultimately have "write_loop buf npos ncap i b = (Inr (), b\<lparr>m_root := R,
        m_cur := cur_of (m_baseSize b) (length (m_root b)) (i * m_baseSize b + npos + length buf),
        m_position := m_position b + length buf\<rparr>)
      \<and> concat R = overwrite (concat (m_root b)) (i * m_baseSize b + npos) buf"
      by (simp only: R(1) append_take_drop_id) simp
    then show ?thesis using R(2,3) by auto
  qed
qed

lemma read_loop_spec:
  assumes "at_node b i npos n" "ncap = m_baseSize b - npos" "0 < n"
  shows "read_loop n npos ncap i b
    = (Inr (take n (drop (i * m_baseSize b + npos) (concat (m_root b)))),
       b\<lparr>m_cur := cur_of (m_baseSize b) (length (m_root b)) (i * m_baseSize b + npos + n),
         m_position := m_position b + n\<rparr>)"
  using assms
proof (induction n npos ncap i b rule: read_loop.induct)
  case (1 n npos ncap i b)
  note an = "1.prems"(1)
  have blk: "\<forall>x \<in> set (m_root b). length x = m_baseSize b" and i: "i < length (m_root b)"
    and npos: "npos < m_baseSize b"
    using an by (auto simp: at_node_def)
  have dr: "drop (i * m_baseSize b + npos) (concat (m_root b))
      = drop npos (m_root b ! i) @ concat (drop (Suc i) (m_root b))"
    using blk i npos by (intro drop_concat_blocks) auto
  have li: "length (m_root b ! i) = m_baseSize b" using at_node_len [OF an] .
  show ?case
  proof (cases "n \<le> ncap")
    case True
    then show ?thesis
      using "1.prems" at_node_end [OF an] li
      by (simp add: read_loop.simps [of n npos "m_baseSize b - npos" i b] dr)
  next
    case False
    let ?b1 = "b\<lparr>m_cur := next_node (m_root b) i, m_position := m_position b + ncap\<rparr>"
    have nx: "next_node (m_root b) i = Some (Suc i)"
      and an1: "at_node b (Suc i) 0 (n - ncap)"
      using at_node_next [OF an] False "1.prems"(2) by auto
    have an2: "at_node ?b1 (Suc i) 0 (n - ncap)"
      using an1 by (simp add: at_node_def)
    have dr2: "drop (Suc i * m_baseSize b + 0) (concat (m_root b)) = concat (drop (Suc i) (m_root b))"
      using drop_concat_blocks [OF blk, of "Suc i" 0] nx
      by (auto simp: next_node_def Cons_nth_drop_Suc [symmetric] split: if_splits)
    have ps: "Suc i * m_baseSize b + 0 + (n - ncap) = i * m_baseSize b + npos + n"
      and mp: "m_position ?b1 + (n - ncap) = m_position b + n"
      using False "1.prems"(2) npos by simp_all
    have R: "read_loop (n - ncap) 0 (length (m_root b ! Suc i)) (Suc i) ?b1
        = (Inr (take (n - ncap) (drop (Suc i * m_baseSize b + 0) (concat (m_root b)))),
           ?b1\<lparr>m_cur := cur_of (m_baseSize b) (length (m_root b)) (Suc i * m_baseSize b + 0 + (n - ncap)),
             m_position := m_position ?b1 + (n - ncap)\<rparr>)"
      using "1.IH" [OF _ False refl nx] "1.prems"(3) an2 at_node_len [OF an1] False by simp
    have "read_loop n npos ncap i b
        = (Inr (take ncap (drop npos (m_root b ! i)) @ take (n - ncap) (concat (drop (Suc i) (m_root b)))),
           ?b1\<lparr>m_cur := cur_of (m_baseSize b) (length (m_root b)) (i * m_baseSize b + npos + n),
             m_position := m_position b + n\<rparr>)"
      using False nx "1.prems"(3) R [unfolded dr2 ps mp]
      by (simp add: read_loop.simps [of n npos ncap i b] Let_def)
    moreover have "take ncap (drop npos (m_root b ! i)) @ take (n - ncap) (concat (drop (Suc i) (m_root b)))
        = take n (drop (i * m_baseSize b + npos) (concat (m_root b)))"
      unfolding dr using False li "1.prems"(2) by simp
    ultimately show ?thesis by simp
  qed
qed

section \<open>What the operations do\<close>

lemma at_node_cur:
  assumes "ba_inv b" "m_position b + n \<le> m_capacity b" "m_position b < m_capacity b"
  shows "m_cur b = Some (m_position b div m_baseSize b)"
    and "at_node b (m_position b div m_baseSize b) (m_position b mod m_baseSize b) n"
    and "length (m_root b ! (m_position b div m_baseSize b)) = m_baseSize b"
proof -
  note inv = ba_invD [OF assms(1)]
  show "m_cur b = Some (m_position b div m_baseSize b)"
    using inv assms(3) by (simp add: cur_of_def)
  have "m_position b div m_baseSize b < length (m_root b)"
    using assms(3) inv(1,5) by (intro div_mod_less) simp_all
  then show an: "at_node b (m_position b div m_baseSize b) (m_position b mod m_baseSize b) n"
    using inv(1,4,5) assms(2) by (simp add: at_node_def)
  show "length (m_root b ! (m_position b div m_baseSize b)) = m_baseSize b"
    by (rule at_node_len [OF an])
qed

lemma take_overwrite_extend:
  assumes "p \<le> n" "n \<le> length xs" "p + length ys \<le> length xs"
  shows "take (max n (p + length ys)) (overwrite xs p ys) = overwrite (take n xs) p ys"
proof (cases "n \<le> p + length ys")
  case True
  then have "drop (p + length ys) (take n xs) = []" by simp
  moreover have "ys \<noteq> [] \<longrightarrow> p < length xs"
    using assms(3) by (auto simp: neq_Nil_conv)
  ultimately show ?thesis using True assms by (auto simp: overwrite_def max_def min_def)
next
  case False
  have "min (length xs) p = p" "p + length ys + (n - p - length ys) = n"
    using assms False by simp_all
  with False assms show ?thesis
    by (simp add: overwrite_def max_def min_def drop_take take_Cons')
qed

lemma ba_write_spec:
  assumes "ba_inv b"
  shows "\<exists>b'. ba_write buf b = (Inr (), b') \<and> ba_inv b'
    \<and> ba_content b' = overwrite (ba_content b) (m_position b) buf
    \<and> m_position b' = m_position b + length buf
    \<and> m_size b' = max (m_size b) (m_position b + length buf)
    \<and> ba_data b' = overwrite (ba_data (addCapacity (length buf) b)) (m_position b) buf
    \<and> m_baseSize b' = m_baseSize b \<and> m_endian b' = m_endian b \<and> new_char b' = new_char b"
proof (cases "buf = []")
  case True
  then show ?thesis using assms
    by (simp add: ba_write_def ba_invD(6) max_absorb1 addCapacity_def)
next
  case False
  define b1 where "b1 = addCapacity (length buf) b"
  note add = addCapacity_inv [OF assms, of "length buf", folded b1_def]
  note inv1 = ba_invD [OF add(1)]
  have fr: "m_baseSize b1 = m_baseSize b" "m_position b1 = m_position b" "m_size b1 = m_size b"
    "m_endian b1 = m_endian b" "new_char b1 = new_char b"
    by (simp_all add: b1_def)
  have lt: "m_position b1 < m_capacity b1" and fit: "m_position b1 + length buf \<le> m_capacity b1"
    using add(3) False fr by (simp_all, cases buf) auto
  let ?i = "m_position b1 div m_baseSize b1" and ?o = "m_position b1 mod m_baseSize b1"
  note at = at_node_cur [OF add(1) fit lt]
  from write_loop_spec [OF at(2) refl False] obtain R where
    R: "write_loop buf ?o (m_baseSize b1 - ?o) ?i b1 = (Inr (), b1\<lparr>m_root := R,
        m_cur := cur_of (m_baseSize b1) (length (m_root b1)) (?i * m_baseSize b1 + ?o + length buf),
        m_position := m_position b1 + length buf\<rparr>)"
    "length R = length (m_root b1)" "\<forall>x \<in> set R. length x = m_baseSize b1"
    "concat R = overwrite (concat (m_root b1)) (?i * m_baseSize b1 + ?o) buf"
    by blast
  have eq: "?i * m_baseSize b1 + ?o = m_position b1" by simp
  define b' where "b' = b1\<lparr>m_root := R,
        m_cur := cur_of (m_baseSize b1) (length (m_root b1)) (m_position b1 + length buf),
        m_position := m_position b1 + length buf,
        m_size := max (m_size b1) (m_position b1 + length buf)\<rparr>"
  have w: "ba_write buf b = (Inr (), b')"
    using False at(1,3) R(1) eq
    by (auto simp: ba_write_def Let_def b1_def [symmetric] b'_def max_def)
  have inv': "ba_inv b'"
    using inv1 R fit by (auto simp: ba_inv_def b'_def)
  have dat: "ba_data b' = overwrite (ba_data b1) (m_position b1) buf"
    using R(4) eq by (simp add: ba_data_def b'_def)
  moreover obtain junk where "ba_data b1 = ba_data b @ junk" using add(2) by blast
  moreover have "m_size b \<le> length (ba_data b)"
    using assms ba_invD(7) [OF assms] by simp
  ultimately have "ba_content b' = overwrite (ba_content b) (m_position b) buf"
    using inv1(6,7) fit fr length_ba_data [OF add(1)]
      take_overwrite_extend [of "m_position b1" "m_size b1" "ba_data b1" buf]
    by (simp add: ba_content_def b'_def)
  with w inv' fr dat show ?thesis by (simp add: b'_def b1_def [symmetric])
qed

lemma ba_read_spec:
  assumes "ba_inv b" "m_position b + n \<le> m_size b" "0 < n \<or> m_position b < m_capacity b"
  shows "ba_read n b = (Inr (take n (drop (m_position b) (ba_content b))),
    b\<lparr>m_position := m_position b + n,
      m_cur := cur_of (m_baseSize b) (length (m_root b)) (m_position b + n)\<rparr>)"
proof -
  note inv = ba_invD [OF assms(1)]
  have lt: "m_position b < m_capacity b" and fit: "m_position b + n \<le> m_capacity b"
    and ng: "\<not> getReadSize b < n"
    using assms(2,3) inv(6,7) by (auto simp: getReadSize_def)
  let ?i = "m_position b div m_baseSize b" and ?o = "m_position b mod m_baseSize b"
  note at = at_node_cur [OF assms(1) fit lt]
  have eq: "?i * m_baseSize b + ?o = m_position b" by simp
  have tk: "take n (drop (m_position b) (ba_content b)) = take n (drop (m_position b) (ba_data b))"
    using assms(2) by (simp add: ba_content_def drop_take min_def)
  show ?thesis
  proof (cases "n = 0")
    case True
    then show ?thesis
      using at(1,3) ng inv lt by (simp add: ba_read_def Let_def read_loop.simps [of 0])
  next
    case False
    then show ?thesis
      using at(1,3) ng read_loop_spec [OF at(2) refl, unfolded eq] tk
      by (simp add: ba_read_def Let_def ba_data_def)
  qed
qed

lemma ba_read_inv:
  assumes "ba_inv b" "m_position b + n \<le> m_size b"
  shows "ba_inv (b\<lparr>m_position := m_position b + n,
      m_cur := cur_of (m_baseSize b) (length (m_root b)) (m_position b + n)\<rparr>)"
  using assms by (auto simp: ba_inv_def)

lemma ba_read_out_of_range: "getReadSize b < n \<Longrightarrow> ba_read n b = (Inl OutOfRange, b)"
  by (simp add: ba_read_def)

lemma seek_node_spec:
  assumes "\<forall>x \<in> set ns. length x = base" "0 < base" "v \<le> base * length ns" "ns \<noteq> []"
  shows "seek_node ns i v = Inr (if v < base * length ns then Some (i + v div base) else None)"
  using assms
proof (induction ns i v rule: seek_node.induct)
  case (1 i v)
  then show ?case by simp
next
  case (2 n ns i v)
  have n: "length n = base" using "2.prems" by simp
  show ?case
  proof (cases "base < v")
    case True
    then have "ns \<noteq> []" using "2.prems" by auto
    have "(v - base) div base = v div base - 1"
      using True "2.prems"(2) by (simp add: le_div_geq)
    moreover have "0 < v div base" using True "2.prems"(2) by (simp add: div_greater_zero_iff)
    ultimately show ?thesis
      using "2.IH" True n "2.prems" \<open>ns \<noteq> []\<close> by auto
  next
    case False
    then show ?thesis using n "2.prems" by (auto simp: Suc_leI)
  qed
qed

lemma setPosition_spec:
  assumes "ba_inv b" "v \<le> m_capacity b"
  shows "setPosition v b = (Inr (), b\<lparr>m_position := v, m_size := max (m_size b) v,
      m_cur := cur_of (m_baseSize b) (length (m_root b)) v\<rparr>)"
  using assms seek_node_spec [of "m_root b" "m_baseSize b" v 0]
  by (auto simp: setPosition_def ba_inv_def cur_of_def Let_def max_def)

lemma setPosition_inv:
  assumes "ba_inv b" "v \<le> m_capacity b"
  shows "ba_inv (b\<lparr>m_position := v, m_size := max (m_size b) v,
      m_cur := cur_of (m_baseSize b) (length (m_root b)) v\<rparr>)"
  using assms by (auto simp: ba_inv_def)

lemma ba_clear_inv: "ba_inv b \<Longrightarrow> ba_inv (ba_clear b) \<and> ba_content (ba_clear b) = []"
  by (cases "m_root b") (auto simp: ba_inv_def ba_clear_def cur_of_def ba_content_def)

text \<open>The destructor deletes each block exactly once.\<close>

lemma dtor_loop_upt: "i < length root \<Longrightarrow> dtor_loop root (Some i) = [i..<length root]"
proof (induction "length root - i" arbitrary: i)
  case (Suc n)
  then show ?case by (cases "Suc i < length root") (simp_all add: next_node_def upt_conv_Cons)
qed simp

lemma ba_dtor_blocks: "ba_inv b \<Longrightarrow> ba_dtor b = [0..<length (m_root b)]"
  unfolding ba_dtor_def by (rule dtor_loop_upt) (auto simp: ba_inv_def)

section \<open>The buffer is a byte store\<close>

interpretation ba: byte_store ba_write ba_read setPosition ba_content m_position ba_inv
  "\<lambda>b. m_position b < m_capacity b" m_endian
proof unfold_locales
  fix b :: bytearray and bs n p
  show "m_position b \<le> length (ba_content b)" if "ba_inv b"
    using that by (simp add: ba_invD(6))
  show "\<exists>b'. ba_write bs b = (Inr (), b') \<and> ba_inv b'
      \<and> ba_content b' = overwrite (ba_content b) (m_position b) bs
      \<and> m_position b' = m_position b + length bs \<and> m_endian b' = m_endian b" if "ba_inv b"
    using ba_write_spec [OF that] by blast
  show "\<exists>b'. ba_read n b = (Inr (take n (drop (m_position b) (ba_content b))), b') \<and> ba_inv b'
      \<and> ba_content b' = ba_content b \<and> m_position b' = m_position b + n
      \<and> m_endian b' = m_endian b"
    if "ba_inv b" "m_position b + n \<le> length (ba_content b)" "0 < n \<or> m_position b < m_capacity b"
    using that ba_read_spec [of b n] ba_read_inv [of b n]
    by (auto simp: ba_content_def ba_data_def ba_invD(7) length_ba_data [unfolded ba_data_def])
  show "\<exists>b'. setPosition p b = (Inr (), b') \<and> ba_inv b' \<and> ba_content b' = ba_content b
      \<and> m_position b' = p \<and> m_endian b' = m_endian b"
    if "ba_inv b" "p \<le> length (ba_content b)"
    using that setPosition_spec [of b p] setPosition_inv [of b p] ba_invD(7) [of b]
    by (auto simp: ba_content_def ba_data_def max_def length_ba_data [unfolded ba_data_def])
qed

end
