(* ===== verification/ByteCodec.thy ===== *)
theory ByteCodec
  imports ByteArray
begin

text \<open>
  The typed writers and readers of \<^verbatim>\<open>server/bytearray.cc\<close>: fixed-width integers in the object's
  byte order, zigzag and variable-length integers, and strings with a length prefix. A signed
  integer is the word with its two's complement bits, a float its bit pattern (the code copies it
  with \<^verbatim>\<open>memcpy\<close>), a \<^verbatim>\<open>std::string\<close> the list of its bytes; \<open>h\<close> is the byte order of the host.
\<close>

unbundle bit_operations_syntax

section \<open>Fixed-width integers\<close>

definition writeFint8 :: "u8 \<Rightarrow> unit ba" where
  "writeFint8 value = ba_write [value]"

definition writeFuint8 :: "u8 \<Rightarrow> unit ba" where
  "writeFuint8 value = ba_write [value]"

definition writeFint16 :: "endian \<Rightarrow> u16 \<Rightarrow> unit ba" where
  "writeFint16 h value b =
     (let value' = (if m_endian b \<noteq> h then byteswap16 value else value)
      in ba_write (mem_bytes h 2 (unat value')) b)"

definition writeFuint16 :: "endian \<Rightarrow> u16 \<Rightarrow> unit ba" where
  "writeFuint16 h value b =
     (let value' = (if m_endian b \<noteq> h then byteswap16 value else value)
      in ba_write (mem_bytes h 2 (unat value')) b)"

definition writeFint32 :: "endian \<Rightarrow> u32 \<Rightarrow> unit ba" where
  "writeFint32 h value b =
     (let value' = (if m_endian b \<noteq> h then byteswap32 value else value)
      in ba_write (mem_bytes h 4 (unat value')) b)"

definition writeFuint32 :: "endian \<Rightarrow> u32 \<Rightarrow> unit ba" where
  "writeFuint32 h value b =
     (let value' = (if m_endian b \<noteq> h then byteswap32 value else value)
      in ba_write (mem_bytes h 4 (unat value')) b)"

definition writeFint64 :: "endian \<Rightarrow> u64 \<Rightarrow> unit ba" where
  "writeFint64 h value b =
     (let value' = (if m_endian b \<noteq> h then byteswap64 value else value)
      in ba_write (mem_bytes h 8 (unat value')) b)"

definition writeFuint64 :: "endian \<Rightarrow> u64 \<Rightarrow> unit ba" where
  "writeFuint64 h value b =
     (let value' = (if m_endian b \<noteq> h then byteswap64 value else value)
      in ba_write (mem_bytes h 8 (unat value')) b)"

definition readFint8 :: "u8 ba" where
  "readFint8 = sx_bind (ba_read 1) (\<lambda>bs. sx_return (hd bs))"

definition readFuint8 :: "u8 ba" where
  "readFuint8 = sx_bind (ba_read 1) (\<lambda>bs. sx_return (hd bs))"

text \<open>The macro \<^verbatim>\<open>XX(type)\<close> for each width.\<close>

definition readFint16 :: "endian \<Rightarrow> u16 ba" where
  "readFint16 h = sx_bind (ba_read 2) (\<lambda>bs b.
     let v = of_nat (of_mem_bytes h bs)
     in (Inr (if m_endian b = h then v else byteswap16 v), b))"

definition readFuint16 :: "endian \<Rightarrow> u16 ba" where
  "readFuint16 h = sx_bind (ba_read 2) (\<lambda>bs b.
     let v = of_nat (of_mem_bytes h bs)
     in (Inr (if m_endian b = h then v else byteswap16 v), b))"

definition readFint32 :: "endian \<Rightarrow> u32 ba" where
  "readFint32 h = sx_bind (ba_read 4) (\<lambda>bs b.
     let v = of_nat (of_mem_bytes h bs)
     in (Inr (if m_endian b = h then v else byteswap32 v), b))"

definition readFuint32 :: "endian \<Rightarrow> u32 ba" where
  "readFuint32 h = sx_bind (ba_read 4) (\<lambda>bs b.
     let v = of_nat (of_mem_bytes h bs)
     in (Inr (if m_endian b = h then v else byteswap32 v), b))"

definition readFint64 :: "endian \<Rightarrow> u64 ba" where
  "readFint64 h = sx_bind (ba_read 8) (\<lambda>bs b.
     let v = of_nat (of_mem_bytes h bs)
     in (Inr (if m_endian b = h then v else byteswap64 v), b))"

definition readFuint64 :: "endian \<Rightarrow> u64 ba" where
  "readFuint64 h = sx_bind (ba_read 8) (\<lambda>bs b.
     let v = of_nat (of_mem_bytes h bs)
     in (Inr (if m_endian b = h then v else byteswap64 v), b))"

section \<open>Zigzag\<close>

text \<open>
  The arithmetic wraps, as the generated code does. In C++ the negation of the least value and the
  doubling of a signed value from \<open>2 ^ 30\<close> (\<open>2 ^ 62\<close>) on are signed overflows, whose result the
  language leaves undefined.
\<close>

definition EncodeZigzag32 :: "u32 \<Rightarrow> u32" where
  "EncodeZigzag32 v = (if sint v < 0 then (- v) * 2 - 1 else v * 2)"

definition EncodeZigzag64 :: "u64 \<Rightarrow> u64" where
  "EncodeZigzag64 v = (if sint v < 0 then (- v) * 2 - 1 else v * 2)"

definition DecodeZigzag32 :: "u32 \<Rightarrow> u32" where
  "DecodeZigzag32 v = drop_bit 1 v XOR - (v AND 1)"

definition DecodeZigzag64 :: "u64 \<Rightarrow> u64" where
  "DecodeZigzag64 v = drop_bit 1 v XOR - (v AND 1)"

section \<open>Variable-length integers\<close>

text \<open>The bytes the loop leaves in \<^verbatim>\<open>tmp\<close>.\<close>

function varint32_tmp :: "u32 \<Rightarrow> u8 list" where
  "varint32_tmp value =
     (if value \<ge> 0x80 then (ucast ((value AND 0x7F) OR 0x80)) # varint32_tmp (drop_bit 7 value)
      else [ucast value])"
  by pat_completeness auto
termination
  by (relation "measure unat") (auto simp: unat_drop_bit_div word_le_nat_alt)

declare varint32_tmp.simps [simp del]

function varint64_tmp :: "u64 \<Rightarrow> u8 list" where
  "varint64_tmp value =
     (if value \<ge> 0x80 then (ucast ((value AND 0x7F) OR 0x80)) # varint64_tmp (drop_bit 7 value)
      else [ucast value])"
  by pat_completeness auto
termination
  by (relation "measure unat") (auto simp: unat_drop_bit_div word_le_nat_alt)

declare varint64_tmp.simps [simp del]

definition writeUint32 :: "u32 \<Rightarrow> unit ba" where
  "writeUint32 value = ba_write (varint32_tmp value)"

definition writeInt32 :: "u32 \<Rightarrow> unit ba" where
  "writeInt32 value = writeUint32 (EncodeZigzag32 value)"

definition writeUint64 :: "u64 \<Rightarrow> unit ba" where
  "writeUint64 value = ba_write (varint64_tmp value)"

definition writeInt64 :: "u64 \<Rightarrow> unit ba" where
  "writeInt64 value = writeUint64 (EncodeZigzag64 value)"

function readUint32_loop :: "nat \<Rightarrow> u32 \<Rightarrow> u32 ba" where
  "readUint32_loop i result =
     (if i < 32 then
        sx_bind readFuint8 (\<lambda>b.
          if b < 0x80 then sx_return (result OR push_bit i (ucast b))
          else readUint32_loop (i + 7) (result OR push_bit i (ucast (b AND 0x7F))))
      else sx_return result)"
  by pat_completeness auto
termination
  by (relation "measure (\<lambda>(i, result). 32 - i)") auto

declare readUint32_loop.simps [simp del]

definition readUint32 :: "u32 ba" where
  "readUint32 = readUint32_loop 0 0"

definition readInt32 :: "u32 ba" where
  "readInt32 = sx_bind readUint32 (\<lambda>v. sx_return (DecodeZigzag32 v))"

function readUint64_loop :: "nat \<Rightarrow> u64 \<Rightarrow> u64 ba" where
  "readUint64_loop i result =
     (if i < 64 then
        sx_bind readFuint8 (\<lambda>b.
          if b < 0x80 then sx_return (result OR push_bit i (ucast b))
          else readUint64_loop (i + 7) (result OR push_bit i (ucast (b AND 0x7F))))
      else sx_return result)"
  by pat_completeness auto
termination
  by (relation "measure (\<lambda>(i, result). 64 - i)") auto

declare readUint64_loop.simps [simp del]

definition readUint64 :: "u64 ba" where
  "readUint64 = readUint64_loop 0 0"

definition readInt64 :: "u64 ba" where
  "readInt64 = sx_bind readUint64 (\<lambda>v. sx_return (DecodeZigzag64 v))"

section \<open>Floats and strings\<close>

definition writeFloat :: "endian \<Rightarrow> u32 \<Rightarrow> unit ba" where
  "writeFloat h value = writeFuint32 h value"

definition writeDouble :: "endian \<Rightarrow> u64 \<Rightarrow> unit ba" where
  "writeDouble h value = writeFuint64 h value"

definition readFloat :: "endian \<Rightarrow> u32 ba" where
  "readFloat h = readFuint32 h"

definition readDouble :: "endian \<Rightarrow> u64 ba" where
  "readDouble h = readFuint64 h"

text \<open>\<^verbatim>\<open>value.size()\<close> is converted to the width of the length field.\<close>

definition writeStringF16 :: "endian \<Rightarrow> u8 list \<Rightarrow> unit ba" where
  "writeStringF16 h value =
     sx_bind (writeFuint16 h (of_nat (length value))) (\<lambda>_. ba_write value)"

definition writeStringF32 :: "endian \<Rightarrow> u8 list \<Rightarrow> unit ba" where
  "writeStringF32 h value =
     sx_bind (writeFuint32 h (of_nat (length value))) (\<lambda>_. ba_write value)"

definition writeStringF64 :: "endian \<Rightarrow> u8 list \<Rightarrow> unit ba" where
  "writeStringF64 h value =
     sx_bind (writeFuint64 h (of_nat (length value))) (\<lambda>_. ba_write value)"

definition writeStringVint :: "u8 list \<Rightarrow> unit ba" where
  "writeStringVint value =
     sx_bind (writeUint64 (of_nat (length value))) (\<lambda>_. ba_write value)"

definition writeStringWithoutLength :: "u8 list \<Rightarrow> unit ba" where
  "writeStringWithoutLength value = ba_write value"

text \<open>\<^verbatim>\<open>buff.resize(len)\<close> throws beyond \<^verbatim>\<open>max_size()\<close>; an allocation that fails is not modelled.\<close>

definition string_max_size :: nat where
  "string_max_size = 2 ^ 63 - 1"

definition read_resized :: "nat \<Rightarrow> u8 list ba" where
  "read_resized len = (if len > string_max_size then sx_throw LengthError else ba_read len)"

definition readStringF16 :: "endian \<Rightarrow> u8 list ba" where
  "readStringF16 h = sx_bind (readFuint16 h) (\<lambda>len. read_resized (unat len))"

definition readStringF32 :: "endian \<Rightarrow> u8 list ba" where
  "readStringF32 h = sx_bind (readFuint32 h) (\<lambda>len. read_resized (unat len))"

definition readStringF64 :: "endian \<Rightarrow> u8 list ba" where
  "readStringF64 h = sx_bind (readFuint64 h) (\<lambda>len. read_resized (unat len))"

definition readStringVint :: "u8 list ba" where
  "readStringVint = sx_bind readUint64 (\<lambda>len. read_resized (unat len))"

section \<open>What each writer writes and each reader reads\<close>

named_theorems ba_writes \<open>the bytes a writer writes\<close>
named_theorems ba_reads \<open>the bytes a reader reads and the value it returns\<close>

lemma mem_bytes_swapped:
  "m \<noteq> h \<Longrightarrow> mem_bytes h n (byteswap_bytes n v) = mem_bytes m n v"
  by (cases m; cases h) (auto simp: mem_bytes_def)

lemma of_mem_bytes_swapped: "m \<noteq> h \<Longrightarrow> of_mem_bytes h (mem_bytes m n v) = byteswap_bytes n v"
  by (cases m; cases h) (auto simp: mem_bytes_def of_mem_bytes_def byteswap_bytes_def)

text \<open>The wire format is the object's byte order, on a host of either kind.\<close>

lemma writes_fixed [ba_writes]:
  "ba.writes m (writeFint8 v8) [v8]" "ba.writes m (writeFuint8 v8) [v8]"
  "ba.writes m (writeFint16 h v16) (mem_bytes m 2 (unat v16))"
  "ba.writes m (writeFuint16 h v16) (mem_bytes m 2 (unat v16))"
  "ba.writes m (writeFint32 h v32) (mem_bytes m 4 (unat v32))"
  "ba.writes m (writeFuint32 h v32) (mem_bytes m 4 (unat v32))"
  "ba.writes m (writeFint64 h v64) (mem_bytes m 8 (unat v64))"
  "ba.writes m (writeFuint64 h v64) (mem_bytes m 8 (unat v64))"
  by (auto simp: writeFint8_def writeFuint8_def writeFint16_def writeFuint16_def writeFint32_def
      writeFuint32_def writeFint64_def writeFuint64_def Let_def unat_byteswap mem_bytes_swapped
      intro!: ba.writes_in_mode [OF _ ba.writes_put])

lemma of_mem_bytes_word:
  "of_nat (of_mem_bytes m (mem_bytes m 2 (unat (v16 :: u16)))) = v16"
  "of_nat (of_mem_bytes m (mem_bytes m 4 (unat (v32 :: u32)))) = v32"
  "of_nat (of_mem_bytes m (mem_bytes m 8 (unat (v64 :: u64)))) = v64"
  using unat_bound [of v16] unat_bound [of v32] unat_bound [of v64] by simp_all

lemma of_mem_bytes_swapped_word:
  assumes "m \<noteq> h"
  shows "byteswap16 (of_nat (of_mem_bytes h (mem_bytes m 2 (unat v16)))) = v16"
    "byteswap32 (of_nat (of_mem_bytes h (mem_bytes m 4 (unat v32)))) = v32"
    "byteswap64 (of_nat (of_mem_bytes h (mem_bytes m 8 (unat v64)))) = v64"
  by (simp_all add: of_mem_bytes_swapped [OF assms] byteswap16_def [symmetric]
      byteswap32_def [symmetric] byteswap64_def [symmetric])

lemma reads_bytes: "ba.reads m (ba_read n) (mem_bytes m n v) (mem_bytes m n v)" if "0 < n"
  using that length_mem_bytes [of m n v] by (intro ba.reads_get) (auto simp del: length_mem_bytes)

lemma reads_fixed [ba_reads]:
  "ba.reads m readFint8 [v8] v8" "ba.reads m readFuint8 [v8] v8"
  "ba.reads m (readFint16 h) (mem_bytes m 2 (unat v16)) v16"
  "ba.reads m (readFuint16 h) (mem_bytes m 2 (unat v16)) v16"
  "ba.reads m (readFint32 h) (mem_bytes m 4 (unat v32)) v32"
  "ba.reads m (readFuint32 h) (mem_bytes m 4 (unat v32)) v32"
  "ba.reads m (readFint64 h) (mem_bytes m 8 (unat v64)) v64"
  "ba.reads m (readFuint64 h) (mem_bytes m 8 (unat v64)) v64"
  by (auto simp: readFint8_def readFuint8_def readFint16_def readFuint16_def readFint32_def
      readFuint32_def readFint64_def readFuint64_def Let_def of_mem_bytes_word
      of_mem_bytes_swapped_word simp del: of_mem_bytes_mem_bytes
      intro!: ba.reads_in_mode [OF reads_bytes] ba.reads_in_mode [OF ba.reads_get])

section \<open>Variable-length integers\<close>

lemma mask7: "(0x7F :: 'a :: len word) = mask 7"
  by (simp add: mask_eq_exp_minus_1)

lemma bit_0x80: "bit (0x80 :: 'a :: len word) n \<longleftrightarrow> 7 < LENGTH('a) \<and> n = 7"
  using bit_exp_iff [where ?'a = "'a word", of 7 n] by auto

lemma varint_head:
  fixes v :: u32 and w :: u64
  shows "\<not> (ucast ((v AND 0x7F) OR 0x80) :: u8) < 0x80" "\<not> (ucast ((w AND 0x7F) OR 0x80) :: u8) < 0x80"
    "ucast ((ucast ((v AND 0x7F) OR 0x80) :: u8) AND 0x7F) = v AND 0x7F"
    "ucast ((ucast ((w AND 0x7F) OR 0x80) :: u8) AND 0x7F) = w AND 0x7F"
proof -
  have ge: "\<not> x < 0x80" if "bit x 7" for x :: u8
  proof
    assume "x < 0x80"
    then have "unat x < 2 ^ 7" by (simp add: word_less_nat_alt)
    then have "\<not> bit (unat x) 7" by (simp add: bit_iff_odd)
    with that show False by (simp add: bit_unsigned_iff)
  qed
  have "bit (0x80 :: u32) 7" "bit (0x80 :: u64) 7" by simp_all
  then show "\<not> (ucast ((v AND 0x7F) OR 0x80) :: u8) < 0x80" "\<not> (ucast ((w AND 0x7F) OR 0x80) :: u8) < 0x80"
    by (auto intro!: ge simp: bit_simps)
  show "ucast ((ucast ((v AND 0x7F) OR 0x80) :: u8) AND 0x7F) = v AND 0x7F"
    by (rule bit_word_eqI)
      (auto simp only: bit_and_iff bit_or_iff bit_unsigned_iff bit_0x80 mask7 bit_mask_iff, auto)
  show "ucast ((ucast ((w AND 0x7F) OR 0x80) :: u8) AND 0x7F) = w AND 0x7F"
    by (rule bit_word_eqI)
      (auto simp only: bit_and_iff bit_or_iff bit_unsigned_iff bit_0x80 mask7 bit_mask_iff, auto)
qed

lemma varint_last:
  fixes v :: u32 and w :: u64
  shows "v < 0x80 \<Longrightarrow> (ucast v :: u8) < 0x80 \<and> ucast (ucast v :: u8) = v"
    "w < 0x80 \<Longrightarrow> (ucast w :: u8) < 0x80 \<and> ucast (ucast w :: u8) = w"
  by (auto simp: word_less_nat_alt unsigned_ucast_eq unsigned_take_bit_eq take_bit_nat_eq_self
      intro!: unsigned_word_eqI [where ?'a = nat])

lemma varint_split: "push_bit i (v AND 0x7F) OR push_bit (i + 7) (drop_bit 7 v) = push_bit i v"
  for v :: "'a :: len word"
proof (rule bit_word_eqI)
  fix n
  assume "n < LENGTH('a)"
  then show "bit (push_bit i (v AND 0x7F) OR push_bit (i + 7) (drop_bit 7 v)) n = bit (push_bit i v) n"
    by (cases "n < i + 7") (auto simp: mask7 bit_simps)
qed

lemma varint_writes [ba_writes]:
  "ba.writes m (writeUint32 v32) (varint32_tmp v32)"
  "ba.writes m (writeUint64 v64) (varint64_tmp v64)"
  by (auto simp: writeUint32_def writeUint64_def)

text \<open>
  The reader's loop undoes the writer's, from any shift \<open>i\<close> that leaves room for the value; the
  number of bytes follows from the same bound.
\<close>

lemma varint_room:
  fixes n i k :: nat
  assumes "128 \<le> n" "n * 2 ^ i < 2 ^ k"
  shows "n div 2 ^ 7 * 2 ^ (i + 7) < 2 ^ k" "i + 7 < k"
proof -
  have "n div 2 ^ 7 * 2 ^ (i + 7) = n div 128 * 128 * 2 ^ i"
    by (simp add: power_add mult.commute mult.left_commute)
  also have "\<dots> \<le> n * 2 ^ i"
    by (intro mult_le_mono1) simp
  finally show "n div 2 ^ 7 * 2 ^ (i + 7) < 2 ^ k"
    using assms(2) by simp
  have "(2 :: nat) ^ (i + 7) = 128 * 2 ^ i" by (simp add: power_add)
  also have "\<dots> \<le> n * 2 ^ i" using assms(1) by (intro mult_le_mono1)
  also note assms(2)
  finally show "i + 7 < k" by (rule power_less_imp_less_exp [rotated]) simp
qed

lemma reads_varint32_loop:
  "i < 32 \<Longrightarrow> unat v * 2 ^ i < 2 ^ 32 \<Longrightarrow>
     ba.reads m (readUint32_loop i r) (varint32_tmp v) (r OR push_bit i v)"
proof (induction v arbitrary: i r rule: varint32_tmp.induct)
  case (1 v)
  show ?case
  proof (cases "0x80 \<le> v")
    case True
    let ?h = "ucast ((v AND 0x7F) OR 0x80) :: u8"
    have "128 \<le> unat v" using True by (simp add: word_le_nat_alt)
    note room = varint_room [OF this "1.prems"(2)]
    have ih: "ba.reads m (readUint32_loop (i + 7) (r OR push_bit i (ucast (?h AND 0x7F))))
        (varint32_tmp (drop_bit 7 v)) (r OR push_bit i v)"
      using "1.IH" [OF True room(2), of "r OR push_bit i (ucast (?h AND 0x7F))"] room(1)
      by (simp only: varint_head(3) varint_split or.assoc unat_drop_bit_div)
    have "ba.reads m (readUint32_loop i r) ([?h] @ varint32_tmp (drop_bit 7 v)) (r OR push_bit i v)"
      unfolding readUint32_loop.simps [of i r] if_P [OF "1.prems"(1)]
      by (rule ba.reads_bind [OF reads_fixed(2)]) (simp only: varint_head(1) if_False ih)
    then show ?thesis using True by (simp add: varint32_tmp.simps [of v])
  next
    case False
    then have last: "(ucast v :: u8) < 0x80" "ucast (ucast v :: u8) = v"
      using varint_last(1) [of v] by (auto simp: not_le)
    have "ba.reads m (readUint32_loop i r) [ucast v] (r OR push_bit i v)"
      unfolding readUint32_loop.simps [of i r] if_P [OF "1.prems"(1)]
      by (rule ba.reads_in_mode [OF reads_fixed(2)]) (simp only: last if_True sx_return_apply)
    then show ?thesis using False by (simp add: varint32_tmp.simps [of v])
  qed
qed

lemma reads_varint64_loop:
  "i < 64 \<Longrightarrow> unat v * 2 ^ i < 2 ^ 64 \<Longrightarrow>
     ba.reads m (readUint64_loop i r) (varint64_tmp v) (r OR push_bit i v)"
proof (induction v arbitrary: i r rule: varint64_tmp.induct)
  case (1 v)
  show ?case
  proof (cases "0x80 \<le> v")
    case True
    let ?h = "ucast ((v AND 0x7F) OR 0x80) :: u8"
    have "128 \<le> unat v" using True by (simp add: word_le_nat_alt)
    note room = varint_room [OF this "1.prems"(2)]
    have ih: "ba.reads m (readUint64_loop (i + 7) (r OR push_bit i (ucast (?h AND 0x7F))))
        (varint64_tmp (drop_bit 7 v)) (r OR push_bit i v)"
      using "1.IH" [OF True room(2), of "r OR push_bit i (ucast (?h AND 0x7F))"] room(1)
      by (simp only: varint_head(4) varint_split or.assoc unat_drop_bit_div)
    have "ba.reads m (readUint64_loop i r) ([?h] @ varint64_tmp (drop_bit 7 v)) (r OR push_bit i v)"
      unfolding readUint64_loop.simps [of i r] if_P [OF "1.prems"(1)]
      by (rule ba.reads_bind [OF reads_fixed(2)]) (simp only: varint_head(2) if_False ih)
    then show ?thesis using True by (simp add: varint64_tmp.simps [of v])
  next
    case False
    then have last: "(ucast v :: u8) < 0x80" "ucast (ucast v :: u8) = v"
      using varint_last(2) [of v] by (auto simp: not_le)
    have "ba.reads m (readUint64_loop i r) [ucast v] (r OR push_bit i v)"
      unfolding readUint64_loop.simps [of i r] if_P [OF "1.prems"(1)]
      by (rule ba.reads_in_mode [OF reads_fixed(2)]) (simp only: last if_True sx_return_apply)
    then show ?thesis using False by (simp add: varint64_tmp.simps [of v])
  qed
qed

lemma reads_varint [ba_reads]:
  "ba.reads m readUint32 (varint32_tmp v32) v32"
  "ba.reads m readUint64 (varint64_tmp v64) v64"
  using reads_varint32_loop [of 0 v32 m 0] reads_varint64_loop [of 0 v64 m 0]
    unat_bound [of v32] unat_bound [of v64]
  by (simp_all add: readUint32_def readUint64_def)

lemma varint_length_bound:
  "0 < length (varint32_tmp v)" "i < 32 \<Longrightarrow> unat v * 2 ^ i < 2 ^ 32 \<Longrightarrow>
     7 * length (varint32_tmp v) + i < 32 + 7"
  "0 < length (varint64_tmp w)" "i < 64 \<Longrightarrow> unat w * 2 ^ i < 2 ^ 64 \<Longrightarrow>
     7 * length (varint64_tmp w) + i < 64 + 7"
proof -
  show "0 < length (varint32_tmp v)" "0 < length (varint64_tmp w)"
    by (simp_all add: varint32_tmp.simps [of v] varint64_tmp.simps [of w])
  show "7 * length (varint32_tmp v) + i < 32 + 7" if "i < 32" "unat v * 2 ^ i < 2 ^ 32"
    using that
  proof (induction v arbitrary: i rule: varint32_tmp.induct)
    case (1 v)
    show ?case
    proof (cases "0x80 \<le> v")
      case True
      then have "128 \<le> unat v" by (simp add: word_le_nat_alt)
      note room = varint_room [OF this "1.prems"(2)]
      show ?thesis
        using "1.IH" [OF True room(2)] room(1) True
        by (simp add: varint32_tmp.simps [of v] unat_drop_bit_div)
    qed (use "1.prems" in \<open>simp add: varint32_tmp.simps [of v]\<close>)
  qed
  show "7 * length (varint64_tmp w) + i < 64 + 7" if "i < 64" "unat w * 2 ^ i < 2 ^ 64"
    using that
  proof (induction w arbitrary: i rule: varint64_tmp.induct)
    case (1 w)
    show ?case
    proof (cases "0x80 \<le> w")
      case True
      then have "128 \<le> unat w" by (simp add: word_le_nat_alt)
      note room = varint_room [OF this "1.prems"(2)]
      show ?thesis
        using "1.IH" [OF True room(2)] room(1) True
        by (simp add: varint64_tmp.simps [of w] unat_drop_bit_div)
    qed (use "1.prems" in \<open>simp add: varint64_tmp.simps [of w]\<close>)
  qed
qed

section \<open>Zigzag\<close>

lemma zigzag_neg: "(- v) * 2 - 1 = NOT (push_bit 1 v)" for v :: "'a :: len word"
  by (simp add: push_bit_eq_mult not_eq_complement algebra_simps)

lemma bit_times_2: "bit (v * 2) m \<longleftrightarrow> m < LENGTH('a) \<and> 0 < m \<and> bit v (m - 1)"
  for v :: "'a :: len word"
  using bit_double_iff [of v m] by (auto simp: mult.commute)

lemma zigzag_decode_bits:
  fixes v :: "'a :: len word"
  shows "\<not> bit v (LENGTH('a) - 1) \<Longrightarrow>
      drop_bit 1 (push_bit 1 v) XOR - (push_bit 1 v AND 1) = v"
    and "bit v (LENGTH('a) - 1) \<Longrightarrow>
      drop_bit 1 (NOT (push_bit 1 v)) XOR - (NOT (push_bit 1 v) AND 1) = v"
proof -
  have e: "push_bit 1 v AND 1 = 0" and o': "NOT (push_bit 1 v) AND 1 = 1"
    by (rule bit_word_eqI, auto simp only: bit_and_iff bit_not_iff bit_push_bit_iff bit_1_iff, simp_all add: bit_0)+
  show "drop_bit 1 (push_bit 1 v) XOR - (push_bit 1 v AND 1) = v" if "\<not> bit v (LENGTH('a) - 1)"
    unfolding e
  proof (rule bit_word_eqI)
    fix n
    assume "n < LENGTH('a)"
    then show "bit (drop_bit 1 (push_bit 1 v) XOR - 0) n = bit v n"
      using that by (cases "n = LENGTH('a) - 1") (auto simp: bit_simps bit_times_2)
  qed
  show "drop_bit 1 (NOT (push_bit 1 v)) XOR - (NOT (push_bit 1 v) AND 1) = v"
    if "bit v (LENGTH('a) - 1)"
    unfolding o'
  proof (rule bit_word_eqI)
    fix n
    assume "n < LENGTH('a)"
    then show "bit (drop_bit 1 (NOT (push_bit 1 v)) XOR - 1) n = bit v n"
      using that by (cases "n = LENGTH('a) - 1") (auto simp: bit_simps bit_times_2)
  qed
qed

lemma sint_neg_iff_bit: "sint v < 0 \<longleftrightarrow> bit v (LENGTH('a) - 1)" for v :: "'a :: len word"
  by (simp add: bit_last_iff)

lemma double_push: "v * 2 = push_bit 1 v" for v :: "'a :: len word"
  by (simp add: push_bit_eq_mult)

lemma DecodeEncodeZigzag32 [simp]: "DecodeZigzag32 (EncodeZigzag32 v) = v"
  using zigzag_decode_bits [of v]
  unfolding DecodeZigzag32_def EncodeZigzag32_def zigzag_neg sint_neg_iff_bit
  unfolding double_push
  by (cases "bit v (LENGTH(32) - 1)") (simp_all only: if_True if_False not_False_eq_True)

lemma DecodeEncodeZigzag64 [simp]: "DecodeZigzag64 (EncodeZigzag64 v) = v"
  using zigzag_decode_bits [of v]
  unfolding DecodeZigzag64_def EncodeZigzag64_def zigzag_neg sint_neg_iff_bit
  unfolding double_push
  by (cases "bit v (LENGTH(64) - 1)") (simp_all only: if_True if_False not_False_eq_True)

lemma uint_of_int_id: "0 \<le> x \<Longrightarrow> x < 2 ^ LENGTH('a) \<Longrightarrow> uint (of_int x :: 'a :: len word) = x"
  by (simp add: unsigned_of_int take_bit_int_eq_self)

text \<open>The code of a value: twice its size, less one when it is negative.\<close>

lemma EncodeZigzag32_value:
  "uint (EncodeZigzag32 v) = (if sint v < 0 then - 2 * sint v - 1 else 2 * sint v)"
proof -
  have "of_int (if sint v < 0 then - 2 * sint v - 1 else 2 * sint v) = EncodeZigzag32 v"
    by (simp add: EncodeZigzag32_def mult.commute)
  moreover have "- (2 ^ 31) \<le> sint v" "sint v < 2 ^ 31"
    using sint_greater_eq [of v] sint_less [of v] by simp_all
  ultimately show ?thesis
    using uint_of_int_id [where ?'a = 32, of "if sint v < 0 then - 2 * sint v - 1 else 2 * sint v"]
    by (simp split: if_splits)
qed

lemma EncodeZigzag64_value:
  "uint (EncodeZigzag64 v) = (if sint v < 0 then - 2 * sint v - 1 else 2 * sint v)"
proof -
  have "of_int (if sint v < 0 then - 2 * sint v - 1 else 2 * sint v) = EncodeZigzag64 v"
    by (simp add: EncodeZigzag64_def mult.commute)
  moreover have "- (2 ^ 63) \<le> sint v" "sint v < 2 ^ 63"
    using sint_greater_eq [of v] sint_less [of v] by simp_all
  ultimately show ?thesis
    using uint_of_int_id [where ?'a = 64, of "if sint v < 0 then - 2 * sint v - 1 else 2 * sint v"]
    by (simp split: if_splits)
qed

lemma zigzag_writes [ba_writes]:
  "ba.writes m (writeInt32 v32) (varint32_tmp (EncodeZigzag32 v32))"
  "ba.writes m (writeInt64 v64) (varint64_tmp (EncodeZigzag64 v64))"
  by (simp_all add: writeInt32_def writeInt64_def varint_writes)

lemma zigzag_reads [ba_reads]:
  "ba.reads m readInt32 (varint32_tmp (EncodeZigzag32 v32)) v32"
  "ba.reads m readInt64 (varint64_tmp (EncodeZigzag64 v64)) v64"
  using ba.reads_return [OF reads_varint(1) [of m "EncodeZigzag32 v32"], of DecodeZigzag32]
    ba.reads_return [OF reads_varint(2) [of m "EncodeZigzag64 v64"], of DecodeZigzag64]
  by (simp_all add: readInt32_def readInt64_def)

section \<open>Strings\<close>

lemma string_writes [ba_writes]:
  "ba.writes m (writeStringF16 h s) (mem_bytes m 2 (unat (of_nat (length s) :: u16)) @ s)"
  "ba.writes m (writeStringF32 h s) (mem_bytes m 4 (unat (of_nat (length s) :: u32)) @ s)"
  "ba.writes m (writeStringF64 h s) (mem_bytes m 8 (unat (of_nat (length s) :: u64)) @ s)"
  "ba.writes m (writeStringVint s) (varint64_tmp (of_nat (length s)) @ s)"
  "ba.writes m (writeStringWithoutLength s) s"
  by (auto simp: writeStringF16_def writeStringF32_def writeStringF64_def writeStringVint_def
      writeStringWithoutLength_def intro!: ba.writes_seq writes_fixed varint_writes)

lemma reads_resized:
  "s \<noteq> [] \<Longrightarrow> length s = n \<Longrightarrow> n \<le> string_max_size \<Longrightarrow> ba.reads m (read_resized n) s s"
  by (auto simp: read_resized_def)

text \<open>The length field counts modulo its width: what is read back is a prefix of what was written.\<close>

lemma string_reads [ba_reads]:
  "unat (n16 :: u16) = length s \<Longrightarrow> s \<noteq> [] \<Longrightarrow>
     ba.reads m (readStringF16 h) (mem_bytes m 2 (unat n16) @ s) s"
  "unat (n32 :: u32) = length s \<Longrightarrow> s \<noteq> [] \<Longrightarrow>
     ba.reads m (readStringF32 h) (mem_bytes m 4 (unat n32) @ s) s"
  "unat (n64 :: u64) = length s \<Longrightarrow> s \<noteq> [] \<Longrightarrow> length s \<le> string_max_size \<Longrightarrow>
     ba.reads m (readStringF64 h) (mem_bytes m 8 (unat n64) @ s) s"
  "unat (n64 :: u64) = length s \<Longrightarrow> s \<noteq> [] \<Longrightarrow> length s \<le> string_max_size \<Longrightarrow>
     ba.reads m readStringVint (varint64_tmp n64 @ s) s"
proof -
  show "ba.reads m (readStringF16 h) (mem_bytes m 2 (unat n16) @ s) s"
    if "unat n16 = length s" "s \<noteq> []"
    unfolding readStringF16_def using that unat_bound [of n16]
    by (intro ba.reads_bind [OF reads_fixed(4)] reads_resized) (auto simp: string_max_size_def)
  show "ba.reads m (readStringF32 h) (mem_bytes m 4 (unat n32) @ s) s"
    if "unat n32 = length s" "s \<noteq> []"
    unfolding readStringF32_def using that unat_bound [of n32]
    by (intro ba.reads_bind [OF reads_fixed(6)] reads_resized) (auto simp: string_max_size_def)
  assume s: "unat n64 = length s" "s \<noteq> []" "length s \<le> string_max_size"
  show "ba.reads m (readStringF64 h) (mem_bytes m 8 (unat n64) @ s) s"
    unfolding readStringF64_def using s
    by (intro ba.reads_bind [OF reads_fixed(8)] reads_resized) auto
  show "ba.reads m readStringVint (varint64_tmp n64 @ s) s"
    unfolding readStringVint_def using s
    by (intro ba.reads_bind [OF reads_varint(2)] reads_resized) auto
qed

end
