(* ===== verification/ByteIov.thy ===== *)
theory ByteIov
  imports ByteArray
begin

text \<open>
  Vectored access to a \<^verbatim>\<open>ByteArray\<close>: what the buffers of \<^verbatim>\<open>getReadBuffers\<close> gather and what the
  kernel leaves in the chain when \<^verbatim>\<open>readv\<close> or \<^verbatim>\<open>recvmsg\<close> fills the buffers of \<^verbatim>\<open>getWriteBuffers\<close>.
\<close>

definition iov_bytes :: "u8 list list \<Rightarrow> iovec \<Rightarrow> u8 list" where
  "iov_bytes root v = take (iov_len v) (drop (iov_off v) (root ! iov_node v))"

text \<open>The buffers are filled in order; the last ones stay as they are when the data is short.\<close>

fun iov_scatter :: "iovec list \<Rightarrow> u8 list \<Rightarrow> u8 list list \<Rightarrow> u8 list list" where
  "iov_scatter [] bs root = root"
| "iov_scatter (v # vs) bs root = iov_scatter vs (drop (iov_len v) bs)
     (root[iov_node v := overwrite (root ! iov_node v) (iov_off v) (take (iov_len v) bs)])"

definition iov_fits :: "nat \<Rightarrow> nat \<Rightarrow> iovec \<Rightarrow> bool" where
  "iov_fits base n v \<longleftrightarrow> iov_node v < n \<and> 0 < iov_len v \<and> iov_off v + iov_len v \<le> base"

lemma iov_loop_spec:
  assumes "at_node b i npos n" "ncap = m_baseSize b - npos"
  shows "\<exists>vs. iov_loop n npos ncap i (m_root b) = Inr vs
    \<and> concat (map (iov_bytes (m_root b)) vs)
        = take n (drop (i * m_baseSize b + npos) (concat (m_root b)))
    \<and> sum_list (map iov_len vs) = n
    \<and> (\<forall>v \<in> set vs. iov_fits (m_baseSize b) (length (m_root b)) v)"
  using assms
proof (induction n npos ncap i "m_root b" rule: iov_loop.induct)
  case (1 n npos ncap i)
  note an = "1.prems"(1)
  have blk: "\<forall>x \<in> set (m_root b). length x = m_baseSize b" and i: "i < length (m_root b)"
    and npos: "npos < m_baseSize b"
    using an by (auto simp: at_node_def)
  have dr: "drop (i * m_baseSize b + npos) (concat (m_root b))
      = drop npos (m_root b ! i) @ concat (drop (Suc i) (m_root b))"
    using blk i npos by (intro drop_concat_blocks) auto
  have li: "length (m_root b ! i) = m_baseSize b" using at_node_len [OF an] .
  consider "n = 0" | "0 < n" "n \<le> ncap" | "ncap < n" by linarith
  then show ?case
  proof cases
    case 1
    then show ?thesis by (simp add: iov_loop.simps [of 0])
  next
    case 2
    then show ?thesis
      using "1.prems"(2) i li npos
      by (simp add: iov_loop.simps [of n npos "m_baseSize b - npos" i "m_root b"] iov_bytes_def dr
          iov_fits_def)
  next
    case 3
    have nx: "next_node (m_root b) i = Some (Suc i)"
      and an1: "at_node b (Suc i) 0 (n - ncap)"
      using at_node_next [OF an] 3 "1.prems"(2) by auto
    have dr2: "drop (Suc i * m_baseSize b + 0) (concat (m_root b)) = concat (drop (Suc i) (m_root b))"
      using drop_concat_blocks [OF blk, of "Suc i" 0] nx
      by (auto simp: next_node_def Cons_nth_drop_Suc [symmetric] split: if_splits)
    obtain vs where vs: "iov_loop (n - ncap) 0 (length (m_root b ! Suc i)) (Suc i) (m_root b) = Inr vs"
      "concat (map (iov_bytes (m_root b)) vs)
        = take (n - ncap) (drop (Suc i * m_baseSize b + 0) (concat (m_root b)))"
      "sum_list (map iov_len vs) = n - ncap"
      "\<forall>v \<in> set vs. iov_fits (m_baseSize b) (length (m_root b)) v"
      using "1.hyps" [OF _ _ nx an1] at_node_len [OF an1] 3 by auto
    have "iov_loop n npos ncap i (m_root b)
        = Inr (\<lparr>iov_node = i, iov_off = npos, iov_len = ncap\<rparr> # vs)"
      using 3 nx vs(1) by (simp add: iov_loop.simps [of n npos ncap i "m_root b"])
    moreover have "take ncap (drop npos (m_root b ! i)) @ take (n - ncap) (concat (drop (Suc i) (m_root b)))
        = take n (drop (i * m_baseSize b + npos) (concat (m_root b)))"
      unfolding dr using 3 li "1.prems"(2) by simp
    ultimately show ?thesis
      using vs(2) [unfolded dr2] vs(3,4) 3 i npos "1.prems"(2)
      by (simp add: iov_bytes_def iov_fits_def)
  qed
qed

lemma iov_scatter_spec:
  assumes "at_node b i npos n" "ncap = m_baseSize b - npos" "length bs \<le> n"
    "iov_loop n npos ncap i (m_root b) = Inr vs"
    "length root = length (m_root b)" "\<forall>x \<in> set root. length x = m_baseSize b"
  shows "concat (iov_scatter vs bs root) = overwrite (concat root) (i * m_baseSize b + npos) bs
    \<and> length (iov_scatter vs bs root) = length root
    \<and> (\<forall>x \<in> set (iov_scatter vs bs root). length x = m_baseSize b)"
  using assms
proof (induction n npos ncap i "m_root b" arbitrary: vs bs root rule: iov_loop.induct)
  case (1 n npos ncap i)
  note an = "1.prems"(1)
  have i: "i < length root" and npos: "npos < m_baseSize b"
    using an "1.prems"(5) by (auto simp: at_node_def)
  note blk = "1.prems"(6)
  let ?h = "\<lparr>iov_node = i, iov_off = npos, iov_len = min n ncap\<rparr>"
  let ?r = "root[i := overwrite (root ! i) npos (take (min n ncap) bs)]"
  have fit: "npos + length (take (min n ncap) bs) \<le> m_baseSize b"
    using "1.prems"(2) npos by simp
  have R: "concat ?r = overwrite (concat root) (i * m_baseSize b + npos) (take (min n ncap) bs)"
    and blkR: "\<forall>x \<in> set ?r. length x = m_baseSize b"
    using fit blk i concat_update_blocks [of root "m_baseSize b" i npos "take (min n ncap) bs"]
    by (auto dest!: set_update_subset_insert [THEN subsetD])
  consider "n = 0" | "0 < n" "n \<le> ncap" | "ncap < n" by linarith
  then show ?case
  proof cases
    case 1
    then have "vs = []" "bs = []"
      using "1.prems"(3,4) by (simp_all add: iov_loop.simps [of 0])
    then show ?thesis using blk by (simp add: overwrite_def)
  next
    case 2
    then have "vs = [?h]"
      using "1.prems"(4) by (simp add: iov_loop.simps [of n npos ncap i "m_root b"] min_absorb1)
    moreover have "take (min n ncap) bs = bs" using 2 "1.prems"(3) by simp
    ultimately show ?thesis using R blkR 2 by (simp add: min_absorb1)
  next
    case 3
    have nx: "next_node (m_root b) i = Some (Suc i)"
      and an1: "at_node b (Suc i) 0 (n - ncap)"
      using at_node_next [OF an] 3 "1.prems"(2) by auto
    obtain vs' where vs': "iov_loop (n - ncap) 0 (length (m_root b ! Suc i)) (Suc i) (m_root b) = Inr vs'"
      and vs: "vs = ?h # vs'"
      using "1.prems"(4) 3 nx
      by (auto simp: iov_loop.simps [of n npos ncap i "m_root b"] min_absorb2 split: sum.splits)
    have ih: "concat (iov_scatter vs' (drop ncap bs) ?r)
        = overwrite (concat ?r) (Suc i * m_baseSize b + 0) (drop ncap bs)
      \<and> length (iov_scatter vs' (drop ncap bs) ?r) = length ?r
      \<and> (\<forall>x \<in> set (iov_scatter vs' (drop ncap bs) ?r). length x = m_baseSize b)"
      by (rule "1.hyps" [OF _ _ nx an1]) (use 3 "1.prems"(3,5) vs' at_node_len [OF an1] blkR in auto)
    have "overwrite (concat ?r) (Suc i * m_baseSize b + 0) (drop ncap bs)
        = overwrite (concat root) (i * m_baseSize b + npos) bs"
    proof (cases "length bs \<le> ncap")
      case True
      then have "take (min n ncap) bs = bs" "drop ncap bs = []" using 3 by simp_all
      moreover have "overwrite xs p [] = xs" for xs :: "u8 list" and p by (simp add: overwrite_def)
      ultimately show ?thesis using R by (simp only:)
    next
      case False
      have eq: "Suc i * m_baseSize b + 0 = i * m_baseSize b + npos + length (take ncap bs)"
        using False "1.prems"(2) npos by simp
      have "i * m_baseSize b + npos + length bs \<le> length (concat root)"
        using an "1.prems"(3,5) by (simp add: at_node_def length_concat_blocks [OF blk])
      then have "overwrite (overwrite (concat root) (i * m_baseSize b + npos) (take ncap bs))
          (i * m_baseSize b + npos + length (take ncap bs)) (drop ncap bs)
        = overwrite (concat root) (i * m_baseSize b + npos) (take ncap bs @ drop ncap bs)"
        by (intro overwrite_overwrite) simp
      moreover have "min n ncap = ncap" using 3 by simp
      ultimately show ?thesis using R unfolding eq by (simp only: append_take_drop_id)
    qed
    moreover have "min n ncap = ncap" using 3 by simp
    then have "iov_scatter vs bs root = iov_scatter vs' (drop ncap bs) ?r" using vs by simp
    ultimately show ?thesis using ih by (simp only: length_list_update) blast
  qed
qed

text \<open>What \<^verbatim>\<open>getReadBuffers\<close> returns: the next \<open>len\<close> unread bytes, or all of them.\<close>

lemma getReadBuffers_spec:
  assumes "ba_inv b"
  shows "\<exists>vs. getReadBuffers len b = Inr (min len (getReadSize b), vs)
    \<and> concat (map (iov_bytes (m_root b)) vs) = take len (drop (m_position b) (ba_content b))
    \<and> sum_list (map iov_len vs) = min len (getReadSize b)
    \<and> (\<forall>v \<in> set vs. iov_fits (m_baseSize b) (length (m_root b)) v)"
proof (cases "min len (getReadSize b) = 0")
  case True
  then show ?thesis
    using assms by (auto simp: getReadBuffers_def getReadSize_def Let_def min_def split: if_splits)
next
  case False
  note inv = ba_invD [OF assms]
  let ?n = "min len (getReadSize b)"
  have lt: "m_position b < m_capacity b" and fit: "m_position b + ?n \<le> m_capacity b"
    using False inv(6,7) by (auto simp: getReadSize_def)
  note at = at_node_cur [OF assms fit lt]
  have eq: "m_position b div m_baseSize b * m_baseSize b + m_position b mod m_baseSize b
      = m_position b" by simp
  have n: "(if getReadSize b < len then getReadSize b else len) = ?n" by simp
  have tk: "take ?n (drop (m_position b) (concat (m_root b)))
      = take len (drop (m_position b) (ba_content b))"
    by (simp add: ba_content_def ba_data_def getReadSize_def drop_take)
  from iov_loop_spec [OF at(2) refl, unfolded eq tk] False at(1,3) show ?thesis
    unfolding getReadBuffers_def n by (auto simp: Let_def)
qed

text \<open>
  \<^verbatim>\<open>getWriteBuffers\<close>, a read of \<open>bs\<close> into the buffers, and \<^verbatim>\<open>setPosition\<close> behind what arrived.
\<close>

definition fill_iovecs :: "nat \<Rightarrow> u8 list \<Rightarrow> unit ba" where
  "fill_iovecs n bs = sx_bind (getWriteBuffers n) (\<lambda>(sz, vs) b.
     setPosition (m_position b + length bs) (b\<lparr>m_root := iov_scatter vs bs (m_root b)\<rparr>))"

lemma getWriteBuffers_spec:
  assumes "ba_inv b"
  shows "\<exists>vs. getWriteBuffers n b = (Inr (n, vs), addCapacity n b)
    \<and> sum_list (map iov_len vs) = n
    \<and> (\<forall>v \<in> set vs. iov_fits (m_baseSize b) (length (m_root (addCapacity n b))) v)
    \<and> (0 < n \<longrightarrow> iov_loop n (m_position b mod m_baseSize b) (m_baseSize b - m_position b mod m_baseSize b)
          (m_position b div m_baseSize b) (m_root (addCapacity n b)) = Inr vs)"
proof (cases "n = 0")
  case True
  then show ?thesis by (simp add: getWriteBuffers_def addCapacity_def)
next
  case False
  define b1 where "b1 = addCapacity n b"
  note add = addCapacity_inv [OF assms, of n, folded b1_def]
  have fr: "m_baseSize b1 = m_baseSize b" "m_position b1 = m_position b" by (simp_all add: b1_def)
  have "m_position b1 + n \<le> m_capacity b1" "m_position b1 < m_capacity b1"
    using add(3) False fr by simp_all
  note at = at_node_cur [OF add(1) this]
  from iov_loop_spec [OF at(2) refl] at(1,3) False fr show ?thesis
    by (auto simp: getWriteBuffers_def b1_def [symmetric] Let_def)
qed

lemma fill_iovecs_spec:
  assumes "ba_inv b" "length bs \<le> n" "0 < n"
  shows "\<exists>b'. fill_iovecs n bs b = (Inr (), b') \<and> ba_inv b'
    \<and> ba_content b' = overwrite (ba_content b) (m_position b) bs
    \<and> m_position b' = m_position b + length bs
    \<and> m_size b' = max (m_size b) (m_position b + length bs) \<and> m_endian b' = m_endian b
    \<and> m_baseSize b' = m_baseSize b"
proof -
  define b1 where "b1 = addCapacity n b"
  note add = addCapacity_inv [OF assms(1), of n, folded b1_def]
  note inv1 = ba_invD [OF add(1)]
  have fr: "m_baseSize b1 = m_baseSize b" "m_position b1 = m_position b" "m_size b1 = m_size b"
    "m_endian b1 = m_endian b"
    by (simp_all add: b1_def)
  have fit: "m_position b1 + n \<le> m_capacity b1" and lt: "m_position b1 < m_capacity b1"
    using add(3) assms(3) fr by simp_all
  note at = at_node_cur [OF add(1) fit lt]
  obtain vs where gw: "getWriteBuffers n b = (Inr (n, vs), b1)"
    and vs: "iov_loop n (m_position b1 mod m_baseSize b1) (m_baseSize b1 - m_position b1 mod m_baseSize b1)
          (m_position b1 div m_baseSize b1) (m_root b1) = Inr vs"
    using getWriteBuffers_spec [OF assms(1), of n] assms(3) fr by (auto simp: b1_def)
  define R where "R = iov_scatter vs bs (m_root b1)"
  have blk: "\<forall>x \<in> set (m_root b1). length x = m_baseSize b1" using inv1(4) by blast
  have R: "concat R = overwrite (concat (m_root b1)) (m_position b1) bs"
    "length R = length (m_root b1)" "\<forall>x \<in> set R. length x = m_baseSize b1"
    using iov_scatter_spec [OF at(2) refl assms(2) vs refl blk] by (simp_all add: R_def)
  define b2 where "b2 = b1\<lparr>m_root := R\<rparr>"
  have inv2: "ba_inv b2" using add(1) R by (auto simp: ba_inv_def b2_def)
  define p where "p = m_position b1 + length bs"
  have p: "p \<le> m_capacity b2" using fit assms(2) by (simp add: p_def b2_def)
  define b' where "b' = b2\<lparr>m_position := p, m_size := max (m_size b2) p,
      m_cur := cur_of (m_baseSize b2) (length (m_root b2)) p\<rparr>"
  have run: "fill_iovecs n bs b = (Inr (), b')"
    using setPosition_spec [OF inv2 p] gw
    by (simp add: fill_iovecs_def sx_bind_def R_def [symmetric] b2_def [symmetric] b'_def
        p_def [symmetric])
  have inv': "ba_inv b'" unfolding b'_def by (rule setPosition_inv [OF inv2 p])
  obtain junk where junk: "ba_data b1 = ba_data b @ junk" using add(2) by blast
  have "m_size b \<le> length (ba_data b)" using assms(1) ba_invD(7) [OF assms(1)] by simp
  then have "take (m_size b) (ba_data b1) = ba_content b"
    using junk by (simp add: ba_content_def)
  moreover have "ba_content b' = take (max (m_size b1) p) (overwrite (ba_data b1) (m_position b1) bs)"
    using R(1) by (simp add: ba_content_def ba_data_def b'_def b2_def)
  ultimately have "ba_content b' = overwrite (ba_content b) (m_position b) bs"
    using take_overwrite_extend [of "m_position b1" "m_size b1" "ba_data b1" bs]
      inv1(6,7) fr fit assms(2) length_ba_data [OF add(1)]
    by (simp add: p_def)
  with run inv' show ?thesis using fr by (auto simp: b'_def b2_def p_def)
qed

section \<open>The bytes \<^verbatim>\<open>writeToFile\<close> writes\<close>

text \<open>
  The block length is cut by the offset even when the rest of the data is shorter than a block, so
  the loop is right only when it starts on a block boundary or more than a block is left.
\<close>

lemma writeToFile_loop_spec:
  assumes "at_node b i npos n" "npos = 0 \<or> m_baseSize b < n"
  shows "writeToFile_loop (int n) (int (i * m_baseSize b + npos)) (Some i) b
    = Inr (take n (drop (i * m_baseSize b + npos) (concat (m_root b))))"
  using assms
proof (induction n arbitrary: i npos rule: less_induct)
  case (less n)
  note an = less.prems(1)
  have blk: "\<forall>x \<in> set (m_root b). length x = m_baseSize b" and i: "i < length (m_root b)"
    and npos: "npos < m_baseSize b"
    using an by (auto simp: at_node_def)
  have dr: "drop (i * m_baseSize b + npos) (concat (m_root b))
      = drop npos (m_root b ! i) @ concat (drop (Suc i) (m_root b))"
    using blk i npos by (intro drop_concat_blocks) auto
  have li: "length (m_root b ! i) = m_baseSize b" using at_node_len [OF an] .
  have diff: "int (i * m_baseSize b + npos) mod int (m_baseSize b) = int npos"
    using npos by (simp flip: of_nat_mod)
  consider "n = 0" | "0 < n" "n \<le> m_baseSize b - npos" | "m_baseSize b - npos < n" by linarith
  then show ?case
  proof cases
    case 1
    then show ?thesis by (simp add: writeToFile_loop.simps)
  next
    case 2
    then have "npos = 0" using less.prems(2) by auto
    then show ?thesis
      using 2 i li dr diff writeToFile_loop.simps [of 0]
      by (subst writeToFile_loop.simps) (auto simp: Let_def)
  next
    case 3
    let ?m = "m_baseSize b - npos"
    have nx: "next_node (m_root b) i = Some (Suc i)" and an1: "at_node b (Suc i) 0 (n - ?m)"
      using at_node_next [OF an] 3 by auto
    have dr2: "drop (Suc i * m_baseSize b) (concat (m_root b)) = concat (drop (Suc i) (m_root b))"
      using drop_concat_blocks [OF blk, of "Suc i" 0] nx
      by (auto simp: next_node_def Cons_nth_drop_Suc [symmetric] split: if_splits)
    have big: "m_baseSize b < n \<or> npos = 0 \<and> n = m_baseSize b"
      using less.prems(2) 3 by auto
    then have len: "(if int n > int (m_baseSize b) then int (m_baseSize b) else int n) - int npos = int ?m"
      using npos by auto
    have ps: "int (i * m_baseSize b + npos) + int ?m = int (Suc i * m_baseSize b + 0)"
      and nn: "int n - int ?m = int (n - ?m)"
      using npos 3 by auto
    have ih: "writeToFile_loop (int (n - ?m)) (int (Suc i * m_baseSize b + 0)) (Some (Suc i)) b
        = Inr (take (n - ?m) (concat (drop (Suc i) (m_root b))))"
      using less.IH [OF _ an1] 3 npos dr2 by simp
    have "writeToFile_loop (int n) (int (i * m_baseSize b + npos)) (Some i) b
        = Inr (take ?m (drop npos (m_root b ! i)) @ take (n - ?m) (concat (drop (Suc i) (m_root b))))"
      using 3 nx i npos ih
      by (subst writeToFile_loop.simps) (simp only: Let_def diff len ps nn, simp add: nat_diff_distrib')
    then show ?thesis unfolding dr using li 3 by simp
  qed
qed

lemma writeToFile_spec:
  assumes "ba_inv b" "m_position b mod m_baseSize b = 0 \<or> m_baseSize b < getReadSize b"
  shows "writeToFile b = Inr (drop (m_position b) (ba_content b))"
proof (cases "getReadSize b = 0")
  case True
  then show ?thesis
    using assms ba_invD(6) [OF assms(1)]
    by (simp add: writeToFile_def writeToFile_loop.simps getReadSize_def)
next
  case False
  note inv = ba_invD [OF assms(1)]
  have lt: "m_position b < m_capacity b" and fit: "m_position b + getReadSize b \<le> m_capacity b"
    using False inv(6,7) by (auto simp: getReadSize_def)
  note at = at_node_cur [OF assms(1) fit lt]
  have eq: "m_position b div m_baseSize b * m_baseSize b + m_position b mod m_baseSize b
      = m_position b" by simp
  show ?thesis
    using writeToFile_loop_spec [OF at(2) assms(2), unfolded eq] at(1)
    by (simp add: writeToFile_def ba_content_def ba_data_def getReadSize_def drop_take)
qed

end
