(* ===== verification/ByteProps.thy ===== *)
theory ByteProps
  imports ByteCodec ByteIov
begin

text \<open>
  The contract of \<^verbatim>\<open>ByteArray\<close>: a flat array of bytes with a cursor, which the chain of blocks
  implements operation by operation, and the properties of the typed readers and writers, of the
  scatter/gather views and of the file transfer.
\<close>

unbundle bit_operations_syntax

section \<open>The flat specification\<close>

record flat =
  fbase :: nat
  fpos :: nat
  fsize :: nat
  fdata :: "u8 list"
  forder :: endian
  ffresh :: "nat \<Rightarrow> u8 list"

definition abs_flat :: "bytearray \<Rightarrow> flat" where
  "abs_flat b = \<lparr>fbase = m_baseSize b, fpos = m_position b, fsize = m_size b,
     fdata = ba_data b, forder = m_endian b, ffresh = new_char b\<rparr>"

datatype ba_op = OpWrite "u8 list" | OpRead nat | OpSetPosition nat | OpClear | OpSetLittle bool

definition flat_grow :: "nat \<Rightarrow> flat \<Rightarrow> u8 list" where
  "flat_grow n f = fdata f @ concat (replicate
     (new_blocks (fbase f) (length (fdata f) - fpos f) n) (ffresh f (fbase f)))"

fun flat_op :: "ba_op \<Rightarrow> flat \<Rightarrow> (ba_error + u8 list) \<times> flat" where
  "flat_op (OpWrite buf) f =
     (Inr [], f\<lparr>fdata := overwrite (flat_grow (length buf) f) (fpos f) buf,
       fpos := fpos f + length buf, fsize := max (fsize f) (fpos f + length buf)\<rparr>)"
| "flat_op (OpRead n) f =
     (if fsize f - fpos f < n then (Inl OutOfRange, f)
      else if fpos f = length (fdata f) then (Inl NullDeref, f)
      else (Inr (take n (drop (fpos f) (fdata f))), f\<lparr>fpos := fpos f + n\<rparr>))"
| "flat_op (OpSetPosition v) f =
     (if length (fdata f) < v then (Inl OutOfRange, f)
      else (Inr [], f\<lparr>fpos := v, fsize := max (fsize f) v\<rparr>))"
| "flat_op OpClear f = (Inr [], f\<lparr>fpos := 0, fsize := 0, fdata := take (fbase f) (fdata f)\<rparr>)"
| "flat_op (OpSetLittle val) f =
     (Inr [], f\<lparr>forder := (if val then LITTLE_ENDIAN else BIG_ENDIAN)\<rparr>)"

fun ba_run_op :: "ba_op \<Rightarrow> u8 list ba" where
  "ba_run_op (OpWrite buf) = sx_bind (ba_write buf) (\<lambda>_. sx_return [])"
| "ba_run_op (OpRead n) = ba_read n"
| "ba_run_op (OpSetPosition v) = sx_bind (setPosition v) (\<lambda>_. sx_return [])"
| "ba_run_op OpClear = (\<lambda>b. (Inr [], ba_clear b))"
| "ba_run_op (OpSetLittle val) = (\<lambda>b. (Inr [], setIsLittleEndian val b))"

text \<open>A client's calls in order; a null dereference ends the program.\<close>

fun run_calls :: "('o \<Rightarrow> 's \<Rightarrow> (ba_error + 'r) \<times> 's) \<Rightarrow> 'o list \<Rightarrow> 's \<Rightarrow> (ba_error + 'r) list \<times> 's" where
  "run_calls f [] s = ([], s)"
| "run_calls f (c # cs) s =
     (case f c s of (r, s') \<Rightarrow>
        if r = Inl NullDeref then ([r], s')
        else (case run_calls f cs s' of (rs, s'') \<Rightarrow> (r # rs, s'')))"

lemma ba_run_op_refines:
  assumes "ba_inv b"
  shows "\<exists>r b'. ba_run_op c b = (r, b') \<and> flat_op c (abs_flat b) = (r, abs_flat b') \<and> ba_inv b'"
proof (cases c)
  case (OpWrite buf)
  from ba_write_spec [OF assms, of buf] addCapacity_inv(2) [OF assms, of "length buf"]
  show ?thesis
    by (auto simp: OpWrite sx_bind_def abs_flat_def flat_grow_def length_ba_data [OF assms])
next
  case (OpRead n)
  note inv = ba_invD [OF assms]
  show ?thesis
  proof (cases "getReadSize b < n")
    case True
    then show ?thesis
      using assms by (auto simp: OpRead ba_read_out_of_range abs_flat_def getReadSize_def)
  next
    case False
    then have le: "m_position b + n \<le> m_size b" using inv(6) by (simp add: getReadSize_def)
    show ?thesis
    proof (cases "m_position b = m_capacity b")
      case True
      then show ?thesis
        using False assms inv
        by (auto simp: OpRead ba_read_def abs_flat_def getReadSize_def cur_of_def length_ba_data)
    next
      case noend: False
      then have "0 < n \<or> m_position b < m_capacity b" using inv(8) by simp
      from ba_read_spec [OF assms le this] ba_read_inv [OF assms le] noend False
      show ?thesis
        by (auto simp: OpRead abs_flat_def getReadSize_def ba_content_def drop_take ba_data_def
            min_absorb1 length_ba_data [OF assms, unfolded ba_data_def] inv(7))
    qed
  qed
next
  case (OpSetPosition v)
  show ?thesis
  proof (cases "v \<le> m_capacity b")
    case True
    then show ?thesis
      using setPosition_spec [OF assms] setPosition_inv [OF assms]
      by (auto simp: OpSetPosition sx_bind_def abs_flat_def length_ba_data [OF assms] ba_data_def
          length_ba_data [OF assms, unfolded ba_data_def])
  next
    case False
    then show ?thesis
      using assms by (auto simp: OpSetPosition sx_bind_def setPosition_def abs_flat_def)
  qed
next
  case OpClear
  have "ba_data (ba_clear b) = take (m_baseSize b) (ba_data b)"
    using ba_invD [OF assms] by (cases "m_root b") (auto simp: ba_data_def ba_clear_def)
  then show ?thesis
    using ba_clear_inv [OF assms] by (auto simp: OpClear abs_flat_def ba_clear_def)
next
  case (OpSetLittle val)
  then show ?thesis
    using assms by (auto simp: setIsLittleEndian_def abs_flat_def ba_inv_def ba_data_def)
qed

lemma run_calls_refines:
  assumes "ba_inv b" "run_calls ba_run_op cs b = (rs, b')"
  shows "run_calls flat_op cs (abs_flat b) = (rs, abs_flat b') \<and> ba_inv b'"
  using assms
proof (induction cs arbitrary: b rs)
  case Nil
  then show ?case by simp
next
  case (Cons c cs)
  from ba_run_op_refines [OF Cons.prems(1), of c] obtain r b1 where
    "ba_run_op c b = (r, b1)" "flat_op c (abs_flat b) = (r, abs_flat b1)" "ba_inv b1" by blast
  with Cons.prems(2) Cons.IH [of b1] show ?case
    by (auto split: prod.splits if_splits)
qed

section \<open>The properties of the byte array\<close>

definition heap0 :: "nat \<Rightarrow> u8 list" where
  "heap0 n = replicate n 0"

lemma heap0_inv: "0 < base \<Longrightarrow> ba_inv (ByteArray heap0 base)"
  by (rule ByteArray_inv) (simp_all add: heap0_def)

text \<open>
  C8. For every sequence of client calls (\<open>write\<close>, \<open>read\<close>, \<open>setPosition\<close>, \<open>clear\<close>, change of
  byte order), the chained blocks behave as one flat array: each call returns the same result or
  error as on the flat array, whatever the block size and however a transfer falls on the block
  borders, and the representation invariant is kept.
\<close>

theorem byte_array_refines_flat_array:
  assumes "ba_inv b" "run_calls ba_run_op cs b = (rs, b')"
  shows "run_calls flat_op cs (abs_flat b) = (rs, abs_flat b') \<and> ba_inv b'"
  using assms by (rule run_calls_refines)

theorem byte_array_refines_flat_array_witness:
  "\<exists>rs b'. run_calls flat_op [OpWrite [1, 2, 3, 4, 5], OpSetPosition 1, OpRead 3]
      (abs_flat (ByteArray heap0 2)) = (rs, abs_flat b') \<and> ba_inv b'"
proof -
  obtain rs b' where "run_calls ba_run_op [OpWrite [1, 2, 3, 4, 5], OpSetPosition 1, OpRead 3]
      (ByteArray heap0 2) = (rs, b')"
    by (meson surj_pair)
  from byte_array_refines_flat_array [OF heap0_inv this] show ?thesis by auto
qed

text \<open>Write, return to where the writing began, and read.\<close>

definition write_back :: "unit ba \<Rightarrow> 'a ba \<Rightarrow> 'a ba" where
  "write_back w r b = sx_bind w (\<lambda>_. sx_bind (setPosition (m_position b)) (\<lambda>_. r)) b"

text \<open>The reader returns \<open>v\<close>, and exactly the bytes \<open>bs\<close> were written between the two positions.\<close>

definition round_trips :: "bytearray \<Rightarrow> unit ba \<Rightarrow> 'a ba \<Rightarrow> u8 list \<Rightarrow> 'a \<Rightarrow> bool" where
  "round_trips b w r bs v \<longleftrightarrow> (\<exists>b'. write_back w r b = (Inr v, b') \<and> ba_inv b'
     \<and> ba_content b' = overwrite (ba_content b) (m_position b) bs
     \<and> m_position b' = m_position b + length bs)"

lemma round_tripsI:
  assumes "ba_inv b" "ba.writes (m_endian b) w bs" "ba.reads (m_endian b) r bs v"
  shows "round_trips b w r bs v"
  using ba.round_trip [OF assms] by (auto simp: round_trips_def write_back_def)

text \<open>
  C31. Fixed-width integers round trip from any well-formed buffer at any position, and the bytes in
  between are the value in the object's byte order: this holds when writer and reader run on hosts
  of different byte order, so the format is portable.
\<close>

theorem fixed_width_round_trip:
  assumes "ba_inv b"
  shows "round_trips b (writeFuint16 h v16) (readFuint16 h') (mem_bytes (m_endian b) 2 (unat v16)) v16
    \<and> round_trips b (writeFint32 h v32) (readFint32 h') (mem_bytes (m_endian b) 4 (unat v32)) v32
    \<and> round_trips b (writeFuint32 h v32) (readFuint32 h') (mem_bytes (m_endian b) 4 (unat v32)) v32
    \<and> round_trips b (writeFint64 h v64) (readFint64 h') (mem_bytes (m_endian b) 8 (unat v64)) v64
    \<and> round_trips b (writeFuint64 h v64) (readFuint64 h') (mem_bytes (m_endian b) 8 (unat v64)) v64"
  by (intro conjI round_tripsI assms ba_writes ba_reads)

theorem fixed_width_round_trip_witness:
  "round_trips (ByteArray heap0 3) (writeFuint32 LITTLE_ENDIAN 0x01020304)
     (readFuint32 LITTLE_ENDIAN) [1, 2, 3, 4] 0x01020304"
  using fixed_width_round_trip [OF heap0_inv [of 3], where h = LITTLE_ENDIAN and h' = LITTLE_ENDIAN
      and ?v32.0 = "0x01020304"]
  by (simp add: mem_bytes_def ByteArray_def)

lemma unsigned_round_trip:
  assumes "ba_inv b"
  shows "round_trips b (writeUint32 v) readUint32 (varint32_tmp v) v
    \<and> 1 \<le> length (varint32_tmp v) \<and> length (varint32_tmp v) \<le> 5
    \<and> round_trips b (writeUint64 w) readUint64 (varint64_tmp w) w
    \<and> 1 \<le> length (varint64_tmp w) \<and> length (varint64_tmp w) \<le> 10"
proof (intro conjI)
  show "round_trips b (writeUint32 v) readUint32 (varint32_tmp v) v"
    "round_trips b (writeUint64 w) readUint64 (varint64_tmp w) w"
    by (intro round_tripsI assms varint_writes reads_varint)+
  show "1 \<le> length (varint32_tmp v)" "1 \<le> length (varint64_tmp w)"
    using varint_length_bound(1) [of v] varint_length_bound(3) [of w] by (simp_all add: Suc_leI)
  show "length (varint32_tmp v) \<le> 5" "length (varint64_tmp w) \<le> 10"
    using varint_length_bound(2) [of 0 v] varint_length_bound(4) [of 0 w]
      unat_bound [of v] unat_bound [of w] by simp_all
qed

lemma signed_round_trip:
  assumes "ba_inv b"
  shows "round_trips b (writeInt32 v) readInt32 (varint32_tmp (EncodeZigzag32 v)) v
    \<and> uint (EncodeZigzag32 v) = (if sint v < 0 then - 2 * sint v - 1 else 2 * sint v)
    \<and> round_trips b (writeInt64 w) readInt64 (varint64_tmp (EncodeZigzag64 w)) w
    \<and> uint (EncodeZigzag64 w) = (if sint w < 0 then - 2 * sint w - 1 else 2 * sint w)"
  by (intro conjI round_tripsI assms zigzag_writes zigzag_reads EncodeZigzag32_value EncodeZigzag64_value)

text \<open>
  C27. Variable-length integers round trip for every value, the 32-bit format taking between one and five bytes
  and the 64-bit format between one and ten. Signed ones, the least one included, go as the code that is twice the
  value, or twice its absolute value less one when it is negative, so that numbers of small size have short codes.
\<close>

theorem varint_round_trip:
  assumes "ba_inv b"
  shows "round_trips b (writeUint32 v) readUint32 (varint32_tmp v) v
    \<and> 1 \<le> length (varint32_tmp v) \<and> length (varint32_tmp v) \<le> 5
    \<and> round_trips b (writeUint64 w) readUint64 (varint64_tmp w) w
    \<and> 1 \<le> length (varint64_tmp w) \<and> length (varint64_tmp w) \<le> 10
    \<and> round_trips b (writeInt32 x) readInt32 (varint32_tmp (EncodeZigzag32 x)) x
    \<and> uint (EncodeZigzag32 x) = (if sint x < 0 then - 2 * sint x - 1 else 2 * sint x)
    \<and> round_trips b (writeInt64 y) readInt64 (varint64_tmp (EncodeZigzag64 y)) y
    \<and> uint (EncodeZigzag64 y) = (if sint y < 0 then - 2 * sint y - 1 else 2 * sint y)"
  using unsigned_round_trip [OF assms, of v w] signed_round_trip [OF assms, of x y] by blast

theorem varint_round_trip_witness:
  "round_trips (ByteArray heap0 2) (writeUint32 300) readUint32 (varint32_tmp 300) 300
    \<and> round_trips (ByteArray heap0 2) (writeInt32 (- 1)) readInt32 (varint32_tmp (EncodeZigzag32 (- 1))) (- 1)"
  using varint_round_trip [OF heap0_inv [of 2], of 300 0 "- 1" 0] by simp

text \<open>
  C28. Non-empty strings round trip in all four length formats, provided the length fits the length
  field (and \<^verbatim>\<open>max_size\<close>, for the 64-bit formats).
\<close>

theorem string_round_trip:
  assumes "ba_inv b" "s \<noteq> []"
  shows "(length s < 2 ^ 16 \<longrightarrow> (\<exists>bs. round_trips b (writeStringF16 h s) (readStringF16 h') (bs @ s) s))
    \<and> (length s < 2 ^ 32 \<longrightarrow> (\<exists>bs. round_trips b (writeStringF32 h s) (readStringF32 h') (bs @ s) s))
    \<and> (length s \<le> string_max_size \<longrightarrow>
        (\<exists>bs. round_trips b (writeStringF64 h s) (readStringF64 h') (bs @ s) s))
    \<and> (length s \<le> string_max_size \<longrightarrow>
        (\<exists>bs. round_trips b (writeStringVint s) readStringVint (bs @ s) s))"
proof -
  have fits: "unat (of_nat n :: 'a :: len word) = n" if "n < 2 ^ LENGTH('a)" for n
    using that by (simp add: unat_of_nat take_bit_nat_eq_self)
  note rt = round_tripsI [OF assms(1) string_writes(1) string_reads(1) [OF fits assms(2)]]
    round_tripsI [OF assms(1) string_writes(2) string_reads(2) [OF fits assms(2)]]
    round_tripsI [OF assms(1) string_writes(3) string_reads(3) [OF fits assms(2)]]
    round_tripsI [OF assms(1) string_writes(4) string_reads(4) [OF fits assms(2)]]
  have "length s < 2 ^ 64" if "length s \<le> string_max_size"
    using that by (simp add: string_max_size_def)
  then show ?thesis
    by (intro conjI impI exI) (rule rt; simp)+
qed

theorem string_round_trip_witness:
  "\<exists>bs. round_trips (ByteArray heap0 2) (writeStringF16 LITTLE_ENDIAN [65, 66, 67])
     (readStringF16 BIG_ENDIAN) (bs @ [65, 66, 67]) [65, 66, 67]"
  using string_round_trip [OF heap0_inv [of 2], of "[65, 66, 67]" LITTLE_ENDIAN BIG_ENDIAN] by simp

text \<open>
  C30. The buffers \<^verbatim>\<open>getReadBuffers\<close> returns lie inside the blocks of the chain, none of them is
  empty, and what they gather is the next \<open>len\<close> unread bytes (all of them when there are fewer),
  whose number is the value returned.
\<close>

theorem read_buffers_gather:
  assumes "ba_inv b"
  shows "\<exists>vs. getReadBuffers len b = Inr (min len (getReadSize b), vs)
    \<and> concat (map (iov_bytes (m_root b)) vs) = take len (drop (m_position b) (ba_content b))
    \<and> sum_list (map iov_len vs) = min len (getReadSize b)
    \<and> (\<forall>v \<in> set vs. iov_fits (m_baseSize b) (length (m_root b)) v)"
  by (rule getReadBuffers_spec [OF assms])

theorem read_buffers_gather_witness:
  "\<exists>vs. getReadBuffers 7 (ByteArray heap0 2) = Inr (0, vs)"
  using read_buffers_gather [OF heap0_inv [of 2], of 7] by (auto simp: getReadSize_def ByteArray_def)

text \<open>
  C29. Receiving into the buffers of \<^verbatim>\<open>getWriteBuffers\<close> and moving the position behind what arrived is
  the same as \<^verbatim>\<open>write\<close> of the received bytes: same content, position and size, also when fewer bytes
  arrive than were asked for.
\<close>

theorem write_buffers_scatter:
  assumes "ba_inv b" "length bs \<le> n" "0 < n"
  shows "\<exists>b1 b2. fill_iovecs n bs b = (Inr (), b1) \<and> ba_write bs b = (Inr (), b2)
    \<and> ba_inv b1 \<and> ba_content b1 = ba_content b2 \<and> m_position b1 = m_position b2
    \<and> m_size b1 = m_size b2"
  using fill_iovecs_spec [OF assms] ba_write_spec [OF assms(1), of bs] by fastforce

theorem write_buffers_scatter_witness:
  "\<exists>b1 b2. fill_iovecs 5 [1, 2, 3] (ByteArray heap0 2) = (Inr (), b1)
    \<and> ba_write [1, 2, 3] (ByteArray heap0 2) = (Inr (), b2)
    \<and> ba_inv b1 \<and> ba_content b1 = ba_content b2 \<and> m_position b1 = m_position b2
    \<and> m_size b1 = m_size b2"
  by (rule write_buffers_scatter [OF heap0_inv]) simp_all

text \<open>
  \<^verbatim>\<open>writeToFile\<close> writes exactly the unread bytes when the position is on a block boundary or
  more than one block of data is left.
\<close>

theorem write_to_file_unread_bytes:
  assumes "ba_inv b" "m_position b mod m_baseSize b = 0 \<or> m_baseSize b < getReadSize b"
  shows "writeToFile b = Inr (drop (m_position b) (ba_content b))"
  by (rule writeToFile_spec [OF assms])

theorem write_to_file_unread_bytes_witness: "writeToFile (ByteArray heap0 4) = Inr []"
  using write_to_file_unread_bytes [OF heap0_inv [of 4]] by (simp add: ByteArray_def ba_content_def)


section \<open>Where the code falls short\<close>

definition five_in_four :: bytearray where
  "five_in_four = snd (sx_bind (ba_write [1, 2, 3, 4, 5]) (\<lambda>_. setPosition 2) (ByteArray heap0 4))"

lemmas ba_run = five_in_four_def heap0_def ByteArray_def ba_write_def addCapacity_def
  getCapacity_def write_loop.simps next_node_def setPosition_def sx_bind_def ba_read_def
  read_loop.simps getReadSize_def overwrite_def Let_def writeToFile_def writeToFile_loop.simps
  read_at_def sub64_def

text \<open>
  From the offset 2 of a block of 4, with 3 bytes left: the first write is cut to one byte, and
  the second, in the next block, gets its length from the offset 3 of the position and is negative.
\<close>

lemma write_to_file_unaligned: "writeToFile five_in_four = Inl NegativeWrite"
  by (simp add: ba_run)

text \<open>The overload of \<^verbatim>\<open>read\<close> with a position reads from the current block, not from the position's.\<close>

lemma read_at_wrong_block:
  "read_at 1 0 (snd (sx_bind (ba_write [1, 2, 3, 4, 5]) (\<lambda>_. setPosition 2) (ByteArray heap0 2)))
     = Inr [3]"
  by (simp add: ba_run)

text \<open>
  An empty string whose length field fills the last block cannot be read back: the reader's
  \<^verbatim>\<open>read\<close> of zero bytes dereferences the null cursor.
\<close>

lemma empty_string_null_cursor:
  "fst (write_back (writeStringF16 LITTLE_ENDIAN []) (readStringF16 LITTLE_ENDIAN)
     (ByteArray heap0 2)) = Inl NullDeref"
  by (simp add: ba_run write_back_def writeStringF16_def readStringF16_def writeFuint16_def
      readFuint16_def mem_bytes_def of_mem_bytes_def byteswap16_def read_resized_def byteswap_bytes_def)

text \<open>
  \<^verbatim>\<open>writeStringF16\<close> keeps the length modulo \<open>2 ^ 16\<close>: what comes back of a longer string is a prefix.
\<close>

lemma string_length_truncated:
  assumes "ba_inv b" "length s = 2 ^ 16 + k" "0 < k" "k < 2 ^ 16"
  shows "\<exists>b'. write_back (writeStringF16 h s) (readStringF16 h') b = (Inr (take k s), b')"
proof -
  have "(of_nat (length s) :: u16) = of_nat k" by (simp add: assms(2))
  then have n: "unat (of_nat (length s) :: u16) = k"
    using assms(4) by (simp add: unat_of_nat take_bit_nat_eq_self)
  then have r: "ba.reads (m_endian b) (readStringF16 h')
      (mem_bytes (m_endian b) 2 (unat (of_nat (length s) :: u16)) @ take k s) (take k s)"
    using assms by (intro string_reads) auto
  have w: "ba.writes (m_endian b) (writeStringF16 h s)
      ((mem_bytes (m_endian b) 2 (unat (of_nat (length s) :: u16)) @ take k s) @ drop k s)"
    using string_writes(1) [of "m_endian b" h s] by simp
  from ba.round_trip_prefix [OF assms(1) w r] show ?thesis by (auto simp: write_back_def)
qed

end
