(* ===== verification/StdSet.thy ===== *)
theory StdSet
  imports Prelude
begin

text \<open>
  \<^verbatim>\<open>std::set\<close> with a comparator: the list of its elements in order. \<open>std_find\<close> returns the stored
  element that is equivalent to the one looked for, \<open>std_lower\<close> the elements before the lower
  bound. The comparator looks at the heap, so each operation takes it as it is at the call.
\<close>

fun std_insert :: "('a \<Rightarrow> 'a \<Rightarrow> bool) \<Rightarrow> 'a \<Rightarrow> 'a list \<Rightarrow> 'a list" where
  "std_insert cmp x [] = [x]"
| "std_insert cmp x (y # ys) =
     (if cmp x y then x # y # ys
      else if cmp y x then y # std_insert cmp x ys
      else y # ys)"

definition std_find :: "('a \<Rightarrow> 'a \<Rightarrow> bool) \<Rightarrow> 'a \<Rightarrow> 'a list \<Rightarrow> 'a option" where
  "std_find cmp x xs = List.find (\<lambda>y. \<not> cmp x y \<and> \<not> cmp y x) xs"

definition std_lower :: "('a \<Rightarrow> 'a \<Rightarrow> bool) \<Rightarrow> 'a \<Rightarrow> 'a list \<Rightarrow> 'a list" where
  "std_lower cmp x xs = takeWhile (\<lambda>y. cmp y x) xs"

named_theorems std_set_simps \<open>the laws of the ordered set\<close>

locale std_set =
  fixes cmp :: "'a \<Rightarrow> 'a \<Rightarrow> bool"
  assumes irrefl: "\<not> cmp x x"
    and trans: "cmp x y \<Longrightarrow> cmp y z \<Longrightarrow> cmp x z"
    and total: "x \<noteq> y \<Longrightarrow> cmp x y \<or> cmp y x"
begin

abbreviation ordered :: "'a list \<Rightarrow> bool" where
  "ordered xs \<equiv> sorted_wrt cmp xs"

lemma asym: "cmp x y \<Longrightarrow> \<not> cmp y x"
  using irrefl trans by blast

lemma equiv_iff: "\<not> cmp x y \<and> \<not> cmp y x \<longleftrightarrow> x = y"
  using irrefl total by blast

lemma set_insert: "set (std_insert cmp x xs) = insert x (set xs)"
  by (induction xs) (auto simp: equiv_iff dest: total)

lemma insert_ordered: "ordered xs \<Longrightarrow> ordered (std_insert cmp x xs)"
proof (induction xs)
  case Nil
  then show ?case by simp
next
  case (Cons y ys)
  then show ?case using trans [of x y] by (auto simp: set_insert)
qed

lemma ordered_distinct: "ordered xs \<Longrightarrow> distinct xs"
  by (induction xs) (auto simp: irrefl)

lemma find_member: "std_find cmp x xs = (if x \<in> set xs then Some x else None)"
  by (induction xs) (auto simp: std_find_def equiv_iff irrefl dest: total)

lemma lower_filter: "ordered xs \<Longrightarrow> std_lower cmp x xs = filter (\<lambda>y. cmp y x) xs"
proof (induction xs)
  case Nil
  then show ?case by (simp add: std_lower_def)
next
  case (Cons y ys)
  then show ?case
    using trans [of y _ x] by (fastforce simp: std_lower_def filter_empty_conv)
qed

lemma insert_hd:
  assumes "ordered xs"
  shows "hd (std_insert cmp x xs) = x \<longleftrightarrow> (\<forall>y \<in> set xs. y \<noteq> x \<longrightarrow> cmp x y)"
proof (cases xs)
  case Nil
  then show ?thesis by simp
next
  case (Cons y ys)
  then show ?thesis using assms trans [of x y] asym [of x y] equiv_iff [of x y] irrefl by auto
qed

lemma remove_ordered: "ordered xs \<Longrightarrow> ordered (remove1 x xs)"
  by (induction xs) (auto dest: set_remove1_subset [THEN subsetD])

end

text \<open>Changing the comparator at elements that are not in the list leaves it ordered.\<close>

lemma sorted_wrt_cong_on:
  "(\<And>x y. x \<in> set xs \<Longrightarrow> y \<in> set xs \<Longrightarrow> P x y = Q x y) \<Longrightarrow> sorted_wrt P xs = sorted_wrt Q xs"
  by (induction xs) auto

end
