(* ===== verification/Timer.thy ===== *)
theory Timer
  imports StdSet
begin

text \<open>
  \<^verbatim>\<open>server/timer.h\<close> and \<^verbatim>\<open>server/timer.cc\<close>: timers and their manager. A \<^verbatim>\<open>Timer::ptr\<close> is an
  address, \<open>timer_at\<close> the heap of timers, and \<open>m_timers\<close> the addresses in the set's order. Every
  operation runs under the manager's lock and is one step; \<open>now\<close> is the value
  \<^verbatim>\<open>GetElapsedMS()\<close> returned in it. Times are 64-bit words whose addition wraps.
\<close>

section \<open>The state\<close>

text \<open>A callback as given, or bound by \<^verbatim>\<open>addConditionTimer\<close> to the object its \<^verbatim>\<open>weak_ptr\<close> points to.\<close>

datatype 'f callback = Plain 'f | OnTimer nat 'f

fun run_callback :: "(nat \<Rightarrow> bool) \<Rightarrow> 'f callback \<Rightarrow> 'f list" where
  "run_callback alive (Plain f) = [f]"
| "run_callback alive (OnTimer weak_cond cb) = (if alive weak_cond then [cb] else [])"

record 'f timer =
  m_recurring :: bool
  m_ms :: u64
  m_next :: u64
  m_cb :: "'f callback option"

record 'f timer_manager =
  m_timers :: "nat list"
  m_tickled :: bool
  m_previouseTime :: u64
  timer_at :: "nat \<Rightarrow> 'f timer"

text \<open>\<^verbatim>\<open>erase(end())\<close> is undefined behaviour.\<close>

datatype timer_error = EraseEnd

definition timer_less :: "(nat \<Rightarrow> 'f timer) \<Rightarrow> nat \<Rightarrow> nat \<Rightarrow> bool" where
  "timer_less heap lhs rhs =
     (if m_next (heap lhs) < m_next (heap rhs) then True
      else if m_next (heap rhs) < m_next (heap lhs) then False
      else lhs < rhs)"

definition new_timer :: "u64 \<Rightarrow> u64 \<Rightarrow> 'f callback option \<Rightarrow> bool \<Rightarrow> 'f timer" where
  "new_timer now ms cb recurring =
     \<lparr>m_recurring = recurring, m_ms = ms, m_next = now + ms, m_cb = cb\<rparr>"

definition probe_timer :: "u64 \<Rightarrow> 'f timer" where
  "probe_timer next_ms = \<lparr>m_recurring = False, m_ms = 0, m_next = next_ms, m_cb = None\<rparr>"

definition TimerManager :: "u64 \<Rightarrow> 'f timer_manager" where
  "TimerManager now =
     \<lparr>m_timers = [], m_tickled = False, m_previouseTime = now, timer_at = (\<lambda>_. probe_timer 0)\<rparr>"

unbundle bit_operations_syntax

section \<open>The operations\<close>

text \<open>Insertion; the result says that \<^verbatim>\<open>onTimerInsertedAtFront\<close> is called.\<close>

definition addTimer_locked :: "nat \<Rightarrow> 'f timer_manager \<Rightarrow> bool \<times> 'f timer_manager" where
  "addTimer_locked val s =
     (let xs = std_insert (timer_less (timer_at s)) val (m_timers s);
          at_front = (hd xs = val \<and> \<not> m_tickled s);
          s' = s\<lparr>m_timers := xs\<rparr>
      in (at_front, if at_front then s'\<lparr>m_tickled := True\<rparr> else s'))"

text \<open>\<open>p\<close> is the address \<^verbatim>\<open>new\<close> returns.\<close>

definition addTimer :: "nat \<Rightarrow> u64 \<Rightarrow> u64 \<Rightarrow> 'f callback option \<Rightarrow> bool
    \<Rightarrow> 'f timer_manager \<Rightarrow> bool \<times> 'f timer_manager" where
  "addTimer p now ms cb recurring s =
     addTimer_locked p (s\<lparr>timer_at := (timer_at s)(p := new_timer now ms cb recurring)\<rparr>)"

definition addConditionTimer :: "nat \<Rightarrow> u64 \<Rightarrow> u64 \<Rightarrow> 'f \<Rightarrow> nat \<Rightarrow> bool
    \<Rightarrow> 'f timer_manager \<Rightarrow> bool \<times> 'f timer_manager" where
  "addConditionTimer p now ms cb weak_cond recurring s =
     addTimer p now ms (Some (OnTimer weak_cond cb)) recurring s"

definition cancel :: "nat \<Rightarrow> 'f timer_manager \<Rightarrow> (timer_error + bool) \<times> 'f timer_manager" where
  "cancel p s =
     (if m_cb (timer_at s p) \<noteq> None then
        let s1 = s\<lparr>timer_at := (timer_at s)(p := (timer_at s p)\<lparr>m_cb := None\<rparr>)\<rparr>
        in case std_find (timer_less (timer_at s1)) p (m_timers s1) of
             None \<Rightarrow> (Inl EraseEnd, s1)
           | Some it \<Rightarrow> (Inr True, s1\<lparr>m_timers := remove1 it (m_timers s1)\<rparr>)
      else (Inr False, s))"

definition refresh :: "nat \<Rightarrow> u64 \<Rightarrow> 'f timer_manager \<Rightarrow> bool \<times> 'f timer_manager" where
  "refresh p now s =
     (if m_cb (timer_at s p) = None then (False, s)
      else case std_find (timer_less (timer_at s)) p (m_timers s) of
        None \<Rightarrow> (False, s)
      | Some it \<Rightarrow>
          let heap = (timer_at s)(p := (timer_at s p)\<lparr>m_next := now + m_ms (timer_at s p)\<rparr>)
          in (True, s\<lparr>timer_at := heap,
               m_timers := std_insert (timer_less heap) p (remove1 it (m_timers s))\<rparr>))"

text \<open>The result, whether \<^verbatim>\<open>onTimerInsertedAtFront\<close> is called, and the state.\<close>

definition reset :: "nat \<Rightarrow> u64 \<Rightarrow> u64 \<Rightarrow> bool \<Rightarrow> 'f timer_manager \<Rightarrow> bool \<times> bool \<times> 'f timer_manager" where
  "reset p now ms from_now s =
     (if ms = m_ms (timer_at s p) \<and> \<not> from_now then (True, False, s)
      else if m_cb (timer_at s p) = None then (False, False, s)
      else case std_find (timer_less (timer_at s)) p (m_timers s) of
        None \<Rightarrow> (False, False, s)
      | Some it \<Rightarrow>
          let t = timer_at s p;
              start = (if from_now then now else m_next t - m_ms t)
          in (True, addTimer_locked p
               (s\<lparr>m_timers := remove1 it (m_timers s),
                  timer_at := (timer_at s)(p := t\<lparr>m_ms := ms, m_next := start + ms\<rparr>)\<rparr>)))"

definition getNextTimer :: "u64 \<Rightarrow> 'f timer_manager \<Rightarrow> u64 \<times> 'f timer_manager" where
  "getNextTimer now s =
     (let s' = s\<lparr>m_tickled := False\<rparr>
      in case m_timers s of
           [] \<Rightarrow> (NOT 0, s')
         | p # _ \<Rightarrow>
             (if m_next (timer_at s p) \<le> now then 0 else m_next (timer_at s p) - now, s'))"

definition hasTimer :: "'f timer_manager \<Rightarrow> bool" where
  "hasTimer s \<longleftrightarrow> m_timers s \<noteq> []"

definition detectClockRollover :: "u64 \<Rightarrow> 'f timer_manager \<Rightarrow> bool \<times> 'f timer_manager" where
  "detectClockRollover now s =
     (now < m_previouseTime s \<and> now < m_previouseTime s - 60 * 60 * 1000,
      s\<lparr>m_previouseTime := now\<rparr>)"

text \<open>The loop over \<^verbatim>\<open>expired\<close>.\<close>

fun fire :: "u64 \<Rightarrow> nat list \<Rightarrow> 'f timer_manager \<Rightarrow> 'f callback option list \<times> 'f timer_manager" where
  "fire now [] s = ([], s)"
| "fire now (p # ps) s =
     (let t = timer_at s p;
          s1 = (if m_recurring t then
                  let heap = (timer_at s)(p := t\<lparr>m_next := now + m_ms t\<rparr>)
                  in s\<lparr>timer_at := heap, m_timers := std_insert (timer_less heap) p (m_timers s)\<rparr>
                else s\<lparr>timer_at := (timer_at s)(p := t\<lparr>m_cb := None\<rparr>)\<rparr>)
      in case fire now ps s1 of (cbs, s2) \<Rightarrow> (m_cb t # cbs, s2))"

text \<open>\<open>q\<close> is the address of the temporary \<^verbatim>\<open>now_timer\<close>.\<close>

definition listExpiredCb :: "nat \<Rightarrow> u64 \<Rightarrow> 'f timer_manager \<Rightarrow> 'f callback option list \<times> 'f timer_manager" where
  "listExpiredCb q now s =
     (if m_timers s = [] then ([], s)
      else case detectClockRollover now s of (rollover, s1) \<Rightarrow>
        if \<not> rollover \<and> now < m_next (timer_at s1 (hd (m_timers s1))) then ([], s1)
        else
          let heap = (timer_at s1)(q := probe_timer now);
              xs = m_timers s1;
              before = (if rollover then xs else std_lower (timer_less heap) q xs);
              expired = before @ takeWhile (\<lambda>p. m_next (heap p) = now) (drop (length before) xs)
          in fire now expired (s1\<lparr>m_timers := drop (length expired) xs\<rparr>))"

section \<open>The comparator is a strict total order\<close>

interpretation ts: std_set "timer_less heap" for heap
  by unfold_locales (auto simp: timer_less_def split: if_splits)

lemma timer_less_cong:
  "m_next (h a) = m_next (h' a) \<Longrightarrow> m_next (h b) = m_next (h' b) \<Longrightarrow> timer_less h a b = timer_less h' a b"
  by (simp add: timer_less_def)

lemma ordered_other:
  assumes "sorted_wrt (timer_less h) xs" "p \<notin> set xs"
  shows "sorted_wrt (timer_less (h(p := t))) xs"
proof -
  have "sorted_wrt (timer_less (h(p := t))) xs = sorted_wrt (timer_less h) xs"
    by (rule sorted_wrt_cong_on, rule timer_less_cong) (use assms(2) in auto)
  with assms(1) show ?thesis by simp
qed

lemma ordered_same_next:
  "sorted_wrt (timer_less h) xs \<Longrightarrow> m_next t = m_next (h p) \<Longrightarrow> sorted_wrt (timer_less (h(p := t))) xs"
  by (subst sorted_wrt_cong_on [where Q = "timer_less h"]) (auto simp: timer_less_def)

section \<open>The invariant\<close>

text \<open>The set is in order, and a timer is in it exactly while it has a callback.\<close>

definition tm_inv :: "'f timer_manager \<Rightarrow> bool" where
  "tm_inv s \<longleftrightarrow> sorted_wrt (timer_less (timer_at s)) (m_timers s)
     \<and> (\<forall>p. m_cb (timer_at s p) \<noteq> None \<longleftrightarrow> p \<in> set (m_timers s))"

lemma tm_invD:
  assumes "tm_inv s"
  shows "sorted_wrt (timer_less (timer_at s)) (m_timers s)"
    "m_cb (timer_at s p) \<noteq> None \<longleftrightarrow> p \<in> set (m_timers s)" "distinct (m_timers s)"
  using assms ts.ordered_distinct by (auto simp: tm_inv_def)

lemma TimerManager_inv: "tm_inv (TimerManager now)"
  by (simp add: tm_inv_def TimerManager_def probe_timer_def)

lemma addTimer_locked_effect:
  "m_timers (snd (addTimer_locked p s)) = std_insert (timer_less (timer_at s)) p (m_timers s)"
  "timer_at (snd (addTimer_locked p s)) = timer_at s"
  by (simp_all add: addTimer_locked_def Let_def)

text \<open>Putting a timer with a callback into the set it is not in.\<close>

lemma insert_inv:
  assumes "sorted_wrt (timer_less (timer_at s)) (m_timers s)" "p \<notin> set (m_timers s)"
    "m_cb t \<noteq> None" "\<And>q. q \<noteq> p \<Longrightarrow> m_cb (timer_at s q) \<noteq> None \<longleftrightarrow> q \<in> set (m_timers s)"
    "m_timers s' = std_insert (timer_less (timer_at s')) p (m_timers s)"
    "timer_at s' = (timer_at s)(p := t)"
  shows "tm_inv s'"
  using assms ts.insert_ordered [OF ordered_other [OF assms(1,2)]]
  by (auto simp: tm_inv_def ts.set_insert)

lemma addTimer_inv:
  assumes "tm_inv s" "p \<notin> set (m_timers s)" "cb \<noteq> None"
  shows "tm_inv (snd (addTimer p now ms cb recurring s))"
proof (rule insert_inv [where s = s and p = p and t = "new_timer now ms cb recurring"])
  show "m_timers (snd (addTimer p now ms cb recurring s))
      = std_insert (timer_less (timer_at (snd (addTimer p now ms cb recurring s)))) p (m_timers s)"
    "timer_at (snd (addTimer p now ms cb recurring s)) = (timer_at s)(p := new_timer now ms cb recurring)"
    by (simp_all add: addTimer_def addTimer_locked_effect)
qed (use assms in \<open>auto simp: tm_inv_def new_timer_def\<close>)

lemma cancel_spec:
  assumes "tm_inv s"
  shows "fst (cancel p s) = Inr (p \<in> set (m_timers s))"
    and "tm_inv (snd (cancel p s))"
    and "m_timers (snd (cancel p s)) = remove1 p (m_timers s)"
    and "m_cb (timer_at (snd (cancel p s)) p) = None"
proof -
  note inv = tm_invD [OF assms]
  have ord: "sorted_wrt (timer_less ((timer_at s)(p := (timer_at s p)\<lparr>m_cb := None\<rparr>))) (m_timers s)"
    by (rule ordered_same_next [OF inv(1)]) simp
  show "fst (cancel p s) = Inr (p \<in> set (m_timers s))"
    "m_timers (snd (cancel p s)) = remove1 p (m_timers s)"
    "m_cb (timer_at (snd (cancel p s)) p) = None"
    using inv(2) [of p] by (auto simp: cancel_def ts.find_member Let_def remove1_idem)
  show "tm_inv (snd (cancel p s))"
    using assms inv(2,3) ts.remove_ordered [OF ord, of p]
    by (auto simp: cancel_def ts.find_member Let_def tm_inv_def)
qed

lemma remove1_inv:
  assumes "tm_inv s"
  shows "sorted_wrt (timer_less (timer_at s)) (remove1 p (m_timers s))" "p \<notin> set (remove1 p (m_timers s))"
    "q \<noteq> p \<Longrightarrow> m_cb (timer_at s q) \<noteq> None \<longleftrightarrow> q \<in> set (remove1 p (m_timers s))"
  using tm_invD [OF assms] ts.remove_ordered [of "timer_at s" "m_timers s" p] by auto

lemma refresh_inv:
  assumes "tm_inv s"
  shows "tm_inv (snd (refresh p now s))"
proof (cases "m_cb (timer_at s p) = None")
  case True
  then show ?thesis using assms by (simp add: refresh_def)
next
  case False
  then have p: "p \<in> set (m_timers s)" using tm_invD(2) [OF assms] by blast
  show ?thesis
    by (rule insert_inv [where s = "s\<lparr>m_timers := remove1 p (m_timers s)\<rparr>" and p = p
          and t = "(timer_at s p)\<lparr>m_next := now + m_ms (timer_at s p)\<rparr>"])
      (use remove1_inv [OF assms] False p in \<open>auto simp: refresh_def ts.find_member Let_def\<close>)
qed

lemma reset_inv:
  assumes "tm_inv s"
  shows "tm_inv (snd (snd (reset p now ms from_now s)))"
proof (cases "m_cb (timer_at s p) = None \<or> ms = m_ms (timer_at s p) \<and> \<not> from_now")
  case True
  then show ?thesis using assms by (auto simp: reset_def)
next
  case False
  then have p: "p \<in> set (m_timers s)" using tm_invD(2) [OF assms] by blast
  show ?thesis
    by (rule insert_inv [where s = "s\<lparr>m_timers := remove1 p (m_timers s)\<rparr>" and p = p
          and t = "timer_at (snd (snd (reset p now ms from_now s))) p"])
      (use remove1_inv [OF assms] False p in
        \<open>auto simp: reset_def ts.find_member Let_def addTimer_locked_effect\<close>)
qed

section \<open>Expiry\<close>

text \<open>The loop runs over timers that have been taken out of the set.\<close>

definition fired :: "u64 \<Rightarrow> nat list \<Rightarrow> (nat \<Rightarrow> 'f timer) \<Rightarrow> nat \<Rightarrow> 'f timer" where
  "fired now ps heap p =
     (if p \<notin> set ps then heap p
      else if m_recurring (heap p) then (heap p)\<lparr>m_next := now + m_ms (heap p)\<rparr>
      else (heap p)\<lparr>m_cb := None\<rparr>)"

lemma fire_spec:
  assumes "sorted_wrt (timer_less (timer_at s)) (m_timers s)" "distinct ps"
    "set ps \<inter> set (m_timers s) = {}"
    "\<And>p. m_cb (timer_at s p) \<noteq> None \<longleftrightarrow> p \<in> set (m_timers s) \<union> set ps"
  shows "fst (fire now ps s) = map (\<lambda>p. m_cb (timer_at s p)) ps"
    and "tm_inv (snd (fire now ps s))"
    and "set (m_timers (snd (fire now ps s)))
      = set (m_timers s) \<union> {p \<in> set ps. m_recurring (timer_at s p)}"
    and "timer_at (snd (fire now ps s)) = fired now ps (timer_at s)"
    and "m_tickled (snd (fire now ps s)) = m_tickled s"
proof -
  have "fst (fire now ps s) = map (\<lambda>p. m_cb (timer_at s p)) ps \<and> tm_inv (snd (fire now ps s))
    \<and> set (m_timers (snd (fire now ps s)))
        = set (m_timers s) \<union> {p \<in> set ps. m_recurring (timer_at s p)}
    \<and> timer_at (snd (fire now ps s)) = fired now ps (timer_at s)
    \<and> m_tickled (snd (fire now ps s)) = m_tickled s"
    using assms
  proof (induction ps arbitrary: s)
    case Nil
    then show ?case by (auto simp: tm_inv_def fired_def)
  next
    case (Cons p ps)
    define t where "t = timer_at s p"
    define t' where "t' = (if m_recurring t then t\<lparr>m_next := now + m_ms t\<rparr> else t\<lparr>m_cb := None\<rparr>)"
    define heap where "heap = (timer_at s)(p := t')"
    define s1 where "s1 = s\<lparr>timer_at := heap, m_timers := (if m_recurring t
        then std_insert (timer_less heap) p (m_timers s) else m_timers s)\<rparr>"
    have p: "p \<notin> set (m_timers s)" "p \<notin> set ps" using Cons.prems(2,3) by auto
    have run: "fire now (p # ps) s = (m_cb t # fst (fire now ps s1), snd (fire now ps s1))"
      by (simp add: s1_def heap_def t_def t'_def Let_def split: prod.split)
    have ord: "sorted_wrt (timer_less heap) (m_timers s)"
      unfolding heap_def by (rule ordered_other [OF Cons.prems(1) p(1)])
    have "sorted_wrt (timer_less (timer_at s1)) (m_timers s1)"
      using ord ts.insert_ordered [OF ord] by (simp add: s1_def)
    moreover have s1t: "set (m_timers s1) = set (m_timers s) \<union> (if m_recurring t then {p} else {})"
      by (simp add: s1_def ts.set_insert)
    then have "set ps \<inter> set (m_timers s1) = {}" using Cons.prems(3) p by auto
    moreover have "m_cb (timer_at s1 q) \<noteq> None \<longleftrightarrow> q \<in> set (m_timers s1) \<union> set ps" for q
      using Cons.prems(4) [of q] s1t p by (auto simp: s1_def heap_def t'_def t_def)
    ultimately have ih: "fst (fire now ps s1) = map (\<lambda>p. m_cb (timer_at s1 p)) ps
        \<and> tm_inv (snd (fire now ps s1))
        \<and> set (m_timers (snd (fire now ps s1)))
            = set (m_timers s1) \<union> {p \<in> set ps. m_recurring (timer_at s1 p)}
        \<and> timer_at (snd (fire now ps s1)) = fired now ps (timer_at s1)
        \<and> m_tickled (snd (fire now ps s1)) = m_tickled s1"
      using Cons.prems(2) by (intro Cons.IH) simp_all
    have same: "timer_at s1 q = timer_at s q" if "q \<in> set ps" for q
      using that p by (auto simp: s1_def heap_def)
    have "{q \<in> set ps. m_recurring (timer_at s1 q)} = {q \<in> set ps. m_recurring (timer_at s q)}"
      using same by auto
    moreover have "fired now ps (timer_at s1) = fired now (p # ps) (timer_at s)"
      using p by (auto simp: fired_def fun_eq_iff s1_def heap_def t'_def t_def)
    moreover have "map (\<lambda>p. m_cb (timer_at s1 p)) ps = map (\<lambda>p. m_cb (timer_at s p)) ps"
      using same by simp
    moreover have "m_tickled s1 = m_tickled s" by (simp add: s1_def)
    moreover have "set (m_timers s1) \<union> {q \<in> set ps. m_recurring (timer_at s q)}
        = set (m_timers s) \<union> {q \<in> set (p # ps). m_recurring (timer_at s q)}"
      unfolding s1t by (auto simp: t_def)
    ultimately show ?case using ih unfolding run by (simp add: t_def)
  qed
  then show "fst (fire now ps s) = map (\<lambda>p. m_cb (timer_at s p)) ps"
    and "tm_inv (snd (fire now ps s))"
    and "set (m_timers (snd (fire now ps s)))
      = set (m_timers s) \<union> {p \<in> set ps. m_recurring (timer_at s p)}"
    and "timer_at (snd (fire now ps s)) = fired now ps (timer_at s)"
    and "m_tickled (snd (fire now ps s)) = m_tickled s"
    by blast+
qed

lemma expired_prefix:
  assumes "sorted_wrt (timer_less heap) xs" "m_next (heap q) = now"
  shows "takeWhile (\<lambda>p. timer_less heap p q) xs
      @ takeWhile (\<lambda>p. m_next (heap p) = now) (dropWhile (\<lambda>p. timer_less heap p q) xs)
    = takeWhile (\<lambda>p. m_next (heap p) \<le> now) xs"
  using assms(1)
proof (induction xs)
  case Nil
  then show ?case by simp
next
  case (Cons y ys)
  show ?case
  proof (cases "timer_less heap y q")
    case True
    then show ?thesis using Cons assms(2) by (auto simp: timer_less_def split: if_splits)
  next
    case False
    then have ge: "now \<le> m_next (heap y)"
      using assms(2) by (auto simp: timer_less_def split: if_splits)
    have "m_next (heap y) \<le> m_next (heap z)" if "z \<in> set ys" for z
      using Cons.prems that by (auto simp: timer_less_def split: if_splits)
    with ge have "m_next (heap z) = now \<longleftrightarrow> m_next (heap z) \<le> now" if "z \<in> set (y # ys)" for z
      using that by fastforce
    then have "takeWhile (\<lambda>p. m_next (heap p) = now) (y # ys) = takeWhile (\<lambda>p. m_next (heap p) \<le> now) (y # ys)"
      by (intro takeWhile_cong) auto
    then show ?thesis using False by simp
  qed
qed

lemma due_prefix:
  "sorted_wrt (timer_less heap) xs \<Longrightarrow>
     takeWhile (\<lambda>p. m_next (heap p) \<le> now) xs = filter (\<lambda>p. m_next (heap p) \<le> now) xs"
proof (induction xs)
  case (Cons y ys)
  have "filter (\<lambda>p. m_next (heap p) \<le> now) ys = []" if "\<not> m_next (heap y) \<le> now"
    using that Cons.prems by (auto simp: filter_empty_conv timer_less_def split: if_splits)
  with Cons show ?case by auto
qed simp

lemma drop_takeWhile_split:
  "sorted_wrt (timer_less heap) xs \<Longrightarrow>
     drop (length (takeWhile (\<lambda>p. m_next (heap p) \<le> now) xs)) xs
       = filter (\<lambda>p. now < m_next (heap p)) xs"
proof (induction xs)
  case (Cons y ys)
  have "filter (\<lambda>p. now < m_next (heap p)) ys = ys" if "\<not> m_next (heap y) \<le> now"
    using that Cons.prems by (auto simp: filter_id_conv timer_less_def split: if_splits)
  with Cons show ?case by (auto simp: not_le)
qed simp

text \<open>The timers \<^verbatim>\<open>listExpiredCb\<close> takes out: all on a rollover of the clock, else those that are due.\<close>

definition expired :: "u64 \<Rightarrow> 'f timer_manager \<Rightarrow> nat list" where
  "expired now s = (if fst (detectClockRollover now s) then m_timers s
     else filter (\<lambda>p. m_next (timer_at s p) \<le> now) (m_timers s))"

lemma listExpiredCb_fire:
  assumes "tm_inv s" "q \<notin> set (m_timers s)" "m_timers s \<noteq> []"
  shows "listExpiredCb q now s = fire now (expired now s)
    (s\<lparr>m_previouseTime := now, m_timers := filter (\<lambda>p. p \<notin> set (expired now s)) (m_timers s)\<rparr>)"
proof -
  let ?xs = "m_timers s" and ?h = "timer_at s"
  let ?h' = "?h(q := probe_timer now)"
  note inv = tm_invD [OF assms(1)]
  define roll where "roll = fst (detectClockRollover now s)"
  have roll: "detectClockRollover now s = (roll, s\<lparr>m_previouseTime := now\<rparr>)"
    by (simp add: roll_def detectClockRollover_def)
  show ?thesis
  proof (cases roll)
    case True
    have "filter (\<lambda>p. p \<notin> set ?xs) ?xs = []" by (auto simp: filter_empty_conv)
    then show ?thesis using True assms(3) by (simp add: listExpiredCb_def roll expired_def Let_def)
  next
    case False
    have ex: "expired now s = filter (\<lambda>p. m_next (?h p) \<le> now) ?xs"
      using False by (simp add: expired_def roll)
    have rest: "filter (\<lambda>p. p \<notin> set (expired now s)) ?xs = filter (\<lambda>p. now < m_next (?h p)) ?xs"
      by (rule filter_cong) (auto simp: ex not_le)
    have ord': "sorted_wrt (timer_less ?h') ?xs" by (rule ordered_other [OF inv(1) assms(2)])
    have "?h' p = ?h p" if "p \<in> set ?xs" for p using that assms(2) by auto
    then have tw: "takeWhile (\<lambda>p. m_next (?h' p) \<le> now) ?xs = takeWhile (\<lambda>p. m_next (?h p) \<le> now) ?xs"
      by (intro takeWhile_cong) auto
    have pre: "std_lower (timer_less ?h') q ?xs @ takeWhile (\<lambda>p. m_next (?h' p) = now)
        (drop (length (std_lower (timer_less ?h') q ?xs)) ?xs) = expired now s"
      using expired_prefix [OF ord', of q now] due_prefix [OF inv(1)] tw
      by (simp add: std_lower_def dropWhile_eq_drop [symmetric] probe_timer_def ex)
    have len: "drop (length (expired now s)) ?xs = filter (\<lambda>p. p \<notin> set (expired now s)) ?xs"
      using drop_takeWhile_split [OF inv(1), of now] due_prefix [OF inv(1), of now] rest
      by (simp add: ex)
    show ?thesis
    proof (cases "now < m_next (?h (hd ?xs))")
      case True
      with assms(3) inv(1) have "\<not> m_next (?h p) \<le> now" if "p \<in> set ?xs" for p
        using that by (cases ?xs) (auto simp: timer_less_def split: if_splits)
      then have "expired now s = []" by (auto simp: ex filter_empty_conv)
      then show ?thesis
        using True False assms(3) by (simp add: listExpiredCb_def roll)
    next
      case nd: False
      have "listExpiredCb q now s = (let ex = std_lower (timer_less ?h') q ?xs
            @ takeWhile (\<lambda>p. m_next (?h' p) = now) (drop (length (std_lower (timer_less ?h') q ?xs)) ?xs)
          in fire now ex (s\<lparr>m_previouseTime := now, m_timers := drop (length ex) ?xs\<rparr>))"
        using False nd assms(3) by (simp add: listExpiredCb_def roll Let_def)
      then show ?thesis unfolding pre Let_def len .
    qed
  qed
qed

lemma listExpiredCb_spec:
  fixes s :: "'f timer_manager" and q :: nat and now :: u64
  assumes "tm_inv s" "q \<notin> set (m_timers s)"
  defines "s' \<equiv> snd (listExpiredCb q now s)"
  shows "fst (listExpiredCb q now s) = map (\<lambda>p. m_cb (timer_at s p)) (expired now s)"
    and "tm_inv s'"
    and "set (m_timers s') = {p \<in> set (m_timers s). p \<in> set (expired now s) \<longrightarrow> m_recurring (timer_at s p)}"
    and "timer_at s' = fired now (expired now s) (timer_at s)"
    and "m_tickled s' = m_tickled s"
proof -
  note inv = tm_invD [OF assms(1)]
  have sub: "set (expired now s) \<subseteq> set (m_timers s)" by (auto simp: expired_def)
  let ?s0 = "s\<lparr>m_previouseTime := now, m_timers := filter (\<lambda>p. p \<notin> set (expired now s)) (m_timers s)\<rparr>"
  have ord: "sorted_wrt (timer_less (timer_at ?s0)) (m_timers ?s0)"
    using inv(1) by (simp add: sorted_wrt_filter)
  have dist: "distinct (expired now s)" using inv(3) by (simp add: expired_def)
  have dom: "m_cb (timer_at ?s0 p) \<noteq> None \<longleftrightarrow> p \<in> set (m_timers ?s0) \<union> set (expired now s)" for p
    using inv(2) [of p] sub by auto
  note fs = fire_spec [OF ord dist _ dom, of now]
  have "fst (listExpiredCb q now s) = map (\<lambda>p. m_cb (timer_at s p)) (expired now s) \<and> tm_inv s'
    \<and> set (m_timers s') = {p \<in> set (m_timers s). p \<in> set (expired now s) \<longrightarrow> m_recurring (timer_at s p)}
    \<and> timer_at s' = fired now (expired now s) (timer_at s) \<and> m_tickled s' = m_tickled s"
  proof (cases "m_timers s = []")
    case True
    then show ?thesis
      using assms(1) by (auto simp: s'_def listExpiredCb_def expired_def fired_def fun_eq_iff)
  next
    case False
    show ?thesis
      using fs sub unfolding s'_def listExpiredCb_fire [OF assms(1,2) False] by auto
  qed
  then show "fst (listExpiredCb q now s) = map (\<lambda>p. m_cb (timer_at s p)) (expired now s)"
    and "tm_inv s'"
    and "set (m_timers s') = {p \<in> set (m_timers s). p \<in> set (expired now s) \<longrightarrow> m_recurring (timer_at s p)}"
    and "timer_at s' = fired now (expired now s) (timer_at s)"
    and "m_tickled s' = m_tickled s"
    by blast+
qed

end
