(* ===== verification/TimerProps.thy ===== *)
theory TimerProps
  imports Timer
begin

text \<open>
  Runs of timer operations and the properties of the timer manager: its invariant, what expires,
  and that a thread that waits for \<^verbatim>\<open>getNextTimer\<close> milliseconds never misses a timer.
\<close>

section \<open>Runs\<close>

text \<open>The operations of any number of threads, in the order in which they got the lock.\<close>

datatype 'f tm_op =
    AddTimer nat u64 u64 "'f callback" bool
  | Cancel nat
  | Refresh nat u64
  | Reset nat u64 u64 bool
  | Expire nat u64
  | GetNext u64

text \<open>The flag says that \<^verbatim>\<open>onTimerInsertedAtFront\<close> is called.\<close>

fun tm_apply :: "'f tm_op \<Rightarrow> 'f timer_manager \<Rightarrow> bool \<times> 'f timer_manager" where
  "tm_apply (AddTimer p now ms cb recurring) s = addTimer p now ms (Some cb) recurring s"
| "tm_apply (Cancel p) s = (False, snd (cancel p s))"
| "tm_apply (Refresh p now) s = (False, snd (refresh p now s))"
| "tm_apply (Reset p now ms from_now) s = snd (reset p now ms from_now s)"
| "tm_apply (Expire q now) s = (False, snd (listExpiredCb q now s))"
| "tm_apply (GetNext now) s = (False, snd (getNextTimer now s))"

fun tm_run :: "'f tm_op list \<Rightarrow> 'f timer_manager \<Rightarrow> bool list \<times> 'f timer_manager" where
  "tm_run [] s = ([], s)"
| "tm_run (x # xs) s =
     (case tm_apply x s of (b, s1) \<Rightarrow> case tm_run xs s1 of (bs, s2) \<Rightarrow> (b # bs, s2))"

text \<open>\<open>new\<close> returns an address that no timer of the set has.\<close>

fun fresh_op :: "'f timer_manager \<Rightarrow> 'f tm_op \<Rightarrow> bool" where
  "fresh_op s (AddTimer p now ms cb recurring) \<longleftrightarrow> p \<notin> set (m_timers s)"
| "fresh_op s (Expire q now) \<longleftrightarrow> q \<notin> set (m_timers s)"
| "fresh_op s _ \<longleftrightarrow> True"


fun run_ok :: "('f timer_manager \<Rightarrow> 'f tm_op \<Rightarrow> bool) \<Rightarrow> 'f tm_op list \<Rightarrow> 'f timer_manager \<Rightarrow> bool" where
  "run_ok P [] s \<longleftrightarrow> True"
| "run_ok P (x # xs) s \<longleftrightarrow> P s x \<and> run_ok P xs (snd (tm_apply x s))"

lemma getNextTimer_state: "snd (getNextTimer now s) = s\<lparr>m_tickled := False\<rparr>"
  by (simp add: getNextTimer_def Let_def split: list.split)

lemma tm_apply_inv: "tm_inv s \<Longrightarrow> fresh_op s x \<Longrightarrow> tm_inv (snd (tm_apply x s))"
  by (cases x) (simp_all add: addTimer_inv cancel_spec refresh_inv reset_inv listExpiredCb_spec, simp add: tm_inv_def getNextTimer_state)

lemma tm_run_inv: "tm_inv s \<Longrightarrow> run_ok fresh_op xs s \<Longrightarrow> tm_inv (snd (tm_run xs s))"
proof (induction xs arbitrary: s)
  case (Cons x xs)
  from Cons.prems Cons.IH [of "snd (tm_apply x s)"] tm_apply_inv [of s x] show ?case
    by (auto split: prod.split)
qed simp

section \<open>Waiting for the next timer\<close>

definition not_before :: "u64 \<Rightarrow> 'f timer_manager \<Rightarrow> bool" where
  "not_before d s \<longleftrightarrow> (\<forall>p \<in> set (m_timers s). d \<le> m_next (timer_at s p))"





text \<open>The time up to which a thread waits that got \<open>t\<close> from \<^verbatim>\<open>getNextTimer\<close>.\<close>

definition wait_until :: "u64 \<Rightarrow> u64 \<Rightarrow> u64" where
  "wait_until now t = (if t = - 1 then - 1 else now + t)"

lemma hd_earliest:
  assumes "tm_inv s" "m_timers s = p # ps" "r \<in> set (m_timers s)"
  shows "m_next (timer_at s p) \<le> m_next (timer_at s r)"
  using tm_invD(1) [OF assms(1)] assms(2,3) by (auto simp: timer_less_def split: if_splits)

lemma getNextTimer_not_before:
  assumes "tm_inv s" "getNextTimer now s = (t, s')" "t \<noteq> 0"
  shows "not_before (wait_until now t) s' \<and> \<not> m_tickled s' \<and> tm_inv s' \<and> m_timers s' = m_timers s
    \<and> timer_at s' = timer_at s"
proof (cases "m_timers s")
  case Nil
  then show ?thesis using assms by (auto simp: getNextTimer_def not_before_def tm_inv_def)
next
  case (Cons p ps)
  have t: "t = m_next (timer_at s p) - now"
    using assms(2,3) Cons by (auto simp: getNextTimer_def Let_def split: if_splits)
  then have eq: "now + t = m_next (timer_at s p)" by simp
  have "wait_until now t \<le> m_next (timer_at s p)"
  proof (cases "t = - 1")
    case True
    have "now < m_next (timer_at s p)"
      using assms(2,3) Cons by (auto simp: getNextTimer_def Let_def split: if_splits)
    moreover have "m_next (timer_at s p) = now - 1" using eq True by simp
    ultimately have "now = 0" by (cases "now = 0") (auto simp: word_less_nat_alt unat_minus_one)
    then show ?thesis using eq True by (simp add: wait_until_def)
  next
    case False
    then show ?thesis using eq by (simp add: wait_until_def)
  qed
  then show ?thesis
    using assms(1,2) hd_earliest [OF assms(1) Cons] Cons
    by (auto simp: getNextTimer_def not_before_def tm_inv_def Let_def intro: order_trans)
qed

section \<open>The properties of the timer manager\<close>

text \<open>A timer in an otherwise empty manager, for the witnesses.\<close>

definition one_timer :: "unit timer_manager" where
  "one_timer = snd (addTimer 7 100 50 (Some (Plain ())) True (TimerManager 100))"

lemma one_timer_inv: "tm_inv one_timer"
  unfolding one_timer_def by (rule addTimer_inv [OF TimerManager_inv]) (simp_all add: TimerManager_def)

lemma one_timer_simps:
  "m_timers one_timer = [7]" "m_next (timer_at one_timer 7) = 150" "m_ms (timer_at one_timer 7) = 50"
  "m_recurring (timer_at one_timer 7)" "m_cb (timer_at one_timer 7) = Some (Plain ())"
  "m_previouseTime one_timer = 100"
  by (simp_all add: one_timer_def addTimer_def addTimer_locked_def TimerManager_def new_timer_def)

text \<open>
  C25. In every run of the operations by any number of threads the set of timers is in order, without
  duplicates, and holds exactly the timers that have a callback; and \<^verbatim>\<open>cancel\<close>, in every state so
  reached, never erases \<^verbatim>\<open>end()\<close>.
\<close>

theorem timer_set_invariant:
  assumes "run_ok fresh_op ops (TimerManager now)"
  defines "s \<equiv> snd (tm_run ops (TimerManager now))"
  shows "sorted_wrt (timer_less (timer_at s)) (m_timers s) \<and> distinct (m_timers s)
    \<and> (\<forall>p. m_cb (timer_at s p) \<noteq> None \<longleftrightarrow> p \<in> set (m_timers s))
    \<and> (\<forall>p. fst (cancel p s) = Inr (p \<in> set (m_timers s)))"
proof -
  have "tm_inv s"
    unfolding s_def by (rule tm_run_inv [OF TimerManager_inv assms(1)])
  then show ?thesis using tm_invD [of s] cancel_spec(1) [of s] by blast
qed

theorem timer_set_invariant_witness:
  "distinct (m_timers (snd (tm_run [AddTimer 7 100 50 (Plain ()) True, AddTimer 3 100 20 (Plain ()) False,
     Reset 7 110 5 True, Expire 1 116, Cancel 3] (TimerManager 100))))"
  using timer_set_invariant [of "[AddTimer 7 100 50 (Plain ()) True, AddTimer 3 100 20 (Plain ()) False,
     Reset 7 110 5 True, Expire 1 116, Cancel 3]" 100]
  by (simp add: addTimer_def addTimer_locked_def TimerManager_def new_timer_def reset_def Let_def
      timer_less_def std_find_def)








text \<open>
  \<^verbatim>\<open>getNextTimer\<close> is exact: when it returns 0 a timer is due, when it returns the maximal value there
  is none, and otherwise no timer is due before \<open>now + t\<close> and at that time \<^verbatim>\<open>listExpiredCb\<close> returns
  at least one callback.
\<close>

theorem next_timer_exact:
  assumes "tm_inv s" "getNextTimer now s = (t, s1)" "t \<noteq> - 1" "q \<notin> set (m_timers s)"
  shows "(\<exists>p \<in> set (m_timers s1). m_next (timer_at s1 p) \<le> now + t)
    \<and> (t \<noteq> 0 \<longrightarrow> (\<forall>p \<in> set (m_timers s1). now + t \<le> m_next (timer_at s1 p)))
    \<and> (\<exists>cbs s2. listExpiredCb q (now + t) s1 = (cbs, s2) \<and> cbs \<noteq> [])"
proof -
  obtain p ps where xs: "m_timers s = p # ps"
    using assms(2,3) by (cases "m_timers s") (auto simp: getNextTimer_def)
  have s1: "s1 = s\<lparr>m_tickled := False\<rparr>" "m_next (timer_at s p) \<le> now + t"
    using assms(2) xs by (auto simp: getNextTimer_def Let_def split: if_splits)
  have inv1: "tm_inv s1" using assms(1) s1(1) by (simp add: tm_inv_def)
  have "expired (now + t) s1 \<noteq> []"
    using s1 xs by (auto simp: expired_def filter_empty_conv)
  moreover have "q \<notin> set (m_timers s1)" using assms(4) s1(1) by simp
  ultimately have "fst (listExpiredCb q (now + t) s1) \<noteq> []"
    using listExpiredCb_spec(1) [OF inv1] by simp
  then have "\<exists>cbs s2. listExpiredCb q (now + t) s1 = (cbs, s2) \<and> cbs \<noteq> []"
    by (cases "listExpiredCb q (now + t) s1") simp
  moreover have "\<forall>p \<in> set (m_timers s1). now + t \<le> m_next (timer_at s1 p)" if "t \<noteq> 0"
  proof -
    have "wait_until now t = now + t" using assms(3) by (simp add: wait_until_def)
    with getNextTimer_not_before [OF assms(1,2) that] have "not_before (now + t) s1" by simp
    then show ?thesis unfolding not_before_def .
  qed
  moreover have "\<exists>p \<in> set (m_timers s1). m_next (timer_at s1 p) \<le> now + t"
    using s1 xs by auto
  ultimately show ?thesis by blast
qed

theorem next_timer_exact_witness:
  "\<exists>cbs s2. listExpiredCb 1 150 (snd (getNextTimer 100 one_timer)) = (cbs, s2) \<and> cbs \<noteq> []"
  using next_timer_exact [OF one_timer_inv, of 100 50 "snd (getNextTimer 100 one_timer)" 1]
  by (simp add: getNextTimer_def one_timer_simps)

section \<open>Where the code falls short\<close>

text \<open>
  In the first hour of the clock the subtraction in \<^verbatim>\<open>detectClockRollover\<close> wraps, so that a thread
  whose \<open>now\<close> is one millisecond older than another thread's takes it for a rollover, and every
  timer fires at once.
\<close>

lemma rollover_in_first_hour:
  "fst (listExpiredCb 1 99 one_timer) = [Some (Plain ())] \<and> (99 :: u64) < m_next (timer_at one_timer 7)"
  using listExpiredCb_spec(1) [OF one_timer_inv, of 1 99]
  by (simp add: one_timer_simps expired_def detectClockRollover_def)

text \<open>A period so long that the time wraps is due at once: \<^verbatim>\<open>addTimer\<close> does not saturate.\<close>

lemma long_period_wraps:
  "m_next (new_timer 100 (- 50) cb False) = 50"
  by (simp add: new_timer_def)

end
