(* ===== verification/Mutex.thy ===== *)
theory Mutex
  imports Prelude
begin

text \<open>
  \<^verbatim>\<open>server/mutex.h\<close> and \<^verbatim>\<open>server/mutex.cc\<close>: the lock classes, the guards that hold them over a scope,
  and the counting semaphore. The pthread objects are modelled by what POSIX documents of them: who
  holds the lock, and whether a call can go on (\<open>None\<close> while it blocks). The client of the guards is
  a set of threads whose calls are interleaved.
\<close>

section \<open>The guards\<close>





















section \<open>Locks that exclude\<close>


section \<open>The lock classes\<close>





record rwlock =
  writer :: "nat option"
  readers :: "nat list"

definition RWMutex_init :: rwlock where
  "RWMutex_init = \<lparr>writer = None, readers = []\<rparr>"

definition RWMutex_rdlock :: "nat \<Rightarrow> rwlock \<Rightarrow> rwlock option" where
  "RWMutex_rdlock t m = (if writer m = None then Some (m\<lparr>readers := t # readers m\<rparr>) else None)"

definition RWMutex_wrlock :: "nat \<Rightarrow> rwlock \<Rightarrow> rwlock option" where
  "RWMutex_wrlock t m = (if writer m = None \<and> readers m = [] then Some (m\<lparr>writer := Some t\<rparr>) else None)"

definition RWMutex_unlock :: "nat \<Rightarrow> rwlock \<Rightarrow> rwlock" where
  "RWMutex_unlock t m =
     (if writer m = Some t then m\<lparr>writer := None\<rparr> else m\<lparr>readers := remove1 t (readers m)\<rparr>)"















section \<open>Readers and writers\<close>

text \<open>The calls of all threads on one \<^verbatim>\<open>RWMutex\<close>; reading and writing mark the threads that hold it.\<close>

inductive rw_run :: "rwlock \<Rightarrow> (nat \<Rightarrow> nat) \<Rightarrow> (nat \<Rightarrow> bool) \<Rightarrow> bool" where
  rw_start: "rw_run RWMutex_init (\<lambda>_. 0) (\<lambda>_. False)"
| rw_read: "rw_run m rd wt \<Longrightarrow> RWMutex_rdlock t m = Some m' \<Longrightarrow> rw_run m' (rd(t := Suc (rd t))) wt"
| rw_write: "rw_run m rd wt \<Longrightarrow> RWMutex_wrlock t m = Some m' \<Longrightarrow> rw_run m' rd (wt(t := True))"
| rw_unread: "rw_run m rd wt \<Longrightarrow> 0 < rd t \<Longrightarrow> rw_run (RWMutex_unlock t m) (rd(t := rd t - 1)) wt"
| rw_unwrite: "rw_run m rd wt \<Longrightarrow> wt t \<Longrightarrow> rw_run (RWMutex_unlock t m) rd (wt(t := False))"

lemma rw_run_inv:
  "rw_run m rd wt \<Longrightarrow> (\<forall>t. rd t = count_list (readers m) t) \<and> (\<forall>t. wt t \<longleftrightarrow> writer m = Some t)
    \<and> (writer m \<noteq> None \<longrightarrow> readers m = [])"
proof (induction rule: rw_run.induct)
  case rw_start
  then show ?case by (simp add: RWMutex_init_def)
next
  case (rw_read m rd wt t m')
  then show ?case by (auto simp: RWMutex_rdlock_def split: if_splits)
next
  case (rw_write m rd wt t m')
  then show ?case by (auto simp: RWMutex_wrlock_def split: if_splits)
next
  case (rw_unread m rd wt t)
  have cnt: "count_list (remove1 t xs) u = (if u = t then count_list xs u - 1 else count_list xs u)" for u xs
    by (induction xs) auto
  have "t \<in> set (readers m)"
    using rw_unread.IH rw_unread.hyps(2) by (metis count_list_0_iff less_numeral_extra(3))
  then have w: "writer m = None" using rw_unread.IH by auto
  show ?case using rw_unread.IH w by (simp add: RWMutex_unlock_def cnt)
next
  case (rw_unwrite m rd wt t)
  then show ?case by (auto simp: RWMutex_unlock_def)
qed

section \<open>The semaphore\<close>

definition Semaphore :: "nat \<Rightarrow> nat" where
  "Semaphore count = count"

definition Semaphore_wait :: "nat \<Rightarrow> nat option" where
  "Semaphore_wait n = (if n = 0 then None else Some (n - 1))"

definition Semaphore_notify :: "nat \<Rightarrow> nat" where
  "Semaphore_notify n = Suc n"

section \<open>The properties of the locks\<close>




end
