(* ===== verification/Fiber.thy ===== *)
theory Fiber
  imports Prelude
begin

text \<open>
  \<^verbatim>\<open>server/fiber.h\<close> and \<^verbatim>\<open>server/fiber.cc\<close>. A fiber object is an address. The context switches
  are modelled by flows of control: \<open>ctx\<close> says which flow goes on when the \<^verbatim>\<open>m_ctx\<close> of an object is
  switched to, \<open>executing\<close> which flow a thread runs. The flow of a fiber's own stack is \<open>Body\<close>, that
  of a thread's native stack \<open>Native\<close>. \<^verbatim>\<open>swapcontext\<close> stores the running flow in the first context and
  goes on with the second. A failed assertion aborts the program.
\<close>

datatype State = READY | RUNNING | TERM_STATE

datatype flow = Native nat | Body nat

datatype fiber_error = AssertFailed | NullFiber

record 'f fiber =
  fiber_id :: u64
  m_stacksize :: u32
  m_state :: State
  m_stack :: bool
  fiber_cb :: "'f option"
  m_runInScheduler :: bool
  ctx :: flow

text \<open>The static counters, the fibers, and the thread-local variables of each thread.\<close>

record 'f fiber_sys =
  s_fiber_id :: u64
  s_fiber_count :: u64
  fiber_at :: "nat \<Rightarrow> 'f fiber option"
  t_fiber :: "nat \<Rightarrow> nat option"
  t_thread_fiber :: "nat \<Rightarrow> nat option"
  t_scheduler_fiber :: "nat \<Rightarrow> nat option"
  executing :: "nat \<Rightarrow> flow"

type_synonym ('f, 'a) fb = "('f fiber_sys, fiber_error, 'a) sx"

definition g_fiber_stack_size :: u32 where
  "g_fiber_stack_size = 128 * 1024"

definition fiber_sys_init :: "'f fiber_sys" where
  "fiber_sys_init = \<lparr>s_fiber_id = 0, s_fiber_count = 0, fiber_at = (\<lambda>_. None), t_fiber = (\<lambda>_. None),
     t_thread_fiber = (\<lambda>_. None), t_scheduler_fiber = (\<lambda>_. None), executing = Native\<rparr>"

definition SetThis :: "nat \<Rightarrow> nat option \<Rightarrow> 'f fiber_sys \<Rightarrow> 'f fiber_sys" where
  "SetThis t f s = s\<lparr>t_fiber := (t_fiber s)(t := f)\<rparr>"

definition set_fiber :: "nat \<Rightarrow> 'f fiber \<Rightarrow> 'f fiber_sys \<Rightarrow> 'f fiber_sys" where
  "set_fiber p f s = s\<lparr>fiber_at := (fiber_at s)(p \<mapsto> f)\<rparr>"

definition swapcontext :: "nat \<Rightarrow> nat \<Rightarrow> nat \<Rightarrow> ('f, unit) fb" where
  "swapcontext t out inn s =
     (case (fiber_at s out, fiber_at s inn) of
        (Some f, Some g) \<Rightarrow>
          (let s1 = set_fiber out (f\<lparr>ctx := executing s t\<rparr>) s
           in (Inr (), s1\<lparr>executing := (executing s1)(t := ctx (the (fiber_at s1 inn)))\<rparr>))
      | _ \<Rightarrow> (Inl NullFiber, s))"

text \<open>The private constructor, at address \<open>p\<close> on thread \<open>t\<close>: the thread's own flow is a fiber.\<close>

definition Fiber_main :: "nat \<Rightarrow> nat \<Rightarrow> 'f fiber_sys \<Rightarrow> 'f fiber_sys" where
  "Fiber_main t p s =
     (let s1 = SetThis t (Some p) s;
          f = \<lparr>fiber_id = s_fiber_id s1, m_stacksize = 0, m_state = RUNNING, m_stack = False,
               fiber_cb = None, m_runInScheduler = False, ctx = executing s t\<rparr>
      in set_fiber p f (s1\<lparr>s_fiber_count := s_fiber_count s1 + 1, s_fiber_id := s_fiber_id s1 + 1\<rparr>))"

definition Fiber_GetThis :: "nat \<Rightarrow> nat \<Rightarrow> 'f fiber_sys \<Rightarrow> nat \<times> 'f fiber_sys" where
  "Fiber_GetThis t p s =
     (case t_fiber s t of
        Some f \<Rightarrow> (f, s)
      | None \<Rightarrow>
          let s1 = Fiber_main t p s
          in (p, s1\<lparr>t_thread_fiber := (t_thread_fiber s1)(t \<mapsto> p)\<rparr>))"

definition GetFiberId :: "nat \<Rightarrow> 'f fiber_sys \<Rightarrow> u64" where
  "GetFiberId t s =
     (case t_fiber s t of
        Some p \<Rightarrow> (case fiber_at s p of Some f \<Rightarrow> fiber_id f | None \<Rightarrow> 0)
      | None \<Rightarrow> 0)"

definition Fiber :: "nat \<Rightarrow> 'f \<Rightarrow> u32 \<Rightarrow> bool \<Rightarrow> 'f fiber_sys \<Rightarrow> 'f fiber_sys" where
  "Fiber p cb stacksize run_in_scheduler s =
     set_fiber p
       \<lparr>fiber_id = s_fiber_id s, m_stacksize = (if stacksize \<noteq> 0 then stacksize else g_fiber_stack_size),
        m_state = READY, m_stack = True, fiber_cb = Some cb, m_runInScheduler = run_in_scheduler,
        ctx = Body p\<rparr>
       (s\<lparr>s_fiber_id := s_fiber_id s + 1, s_fiber_count := s_fiber_count s + 1\<rparr>)"

definition fiber_destruct :: "nat \<Rightarrow> nat \<Rightarrow> ('f, unit) fb" where
  "fiber_destruct t p s =
     (case fiber_at s p of
        None \<Rightarrow> (Inl NullFiber, s)
      | Some f \<Rightarrow>
          let s1 = s\<lparr>s_fiber_count := s_fiber_count s - 1\<rparr>;
              gone = s1\<lparr>fiber_at := (fiber_at s1)(p := None)\<rparr>
          in if m_stack f then
               (if m_state f = TERM_STATE then (Inr (), gone) else (Inl AssertFailed, s1))
             else
               (if fiber_cb f \<noteq> None \<or> m_state f \<noteq> RUNNING then (Inl AssertFailed, s1)
                else (Inr (), if t_fiber s t = Some p then SetThis t None gone else gone)))"

definition fiber_reset :: "nat \<Rightarrow> 'f \<Rightarrow> ('f, unit) fb" where
  "fiber_reset p cb s =
     (case fiber_at s p of
        None \<Rightarrow> (Inl NullFiber, s)
      | Some f \<Rightarrow>
          if \<not> m_stack f \<or> m_state f \<noteq> TERM_STATE then (Inl AssertFailed, s)
          else (Inr (), set_fiber p (f\<lparr>fiber_cb := Some cb, ctx := Body p, m_state := READY\<rparr>) s))"

text \<open>The fiber a fiber is switched with: the scheduler's of the thread, or the thread's first one.\<close>

definition main_of :: "nat \<Rightarrow> 'f fiber \<Rightarrow> 'f fiber_sys \<Rightarrow> nat option" where
  "main_of t f s = (if m_runInScheduler f then t_scheduler_fiber s t else t_thread_fiber s t)"

text \<open>
  \<^verbatim>\<open>resume\<close> and \<^verbatim>\<open>yield\<close> have two parts that other threads see apart: what they do before \<^verbatim>\<open>swapcontext\<close>, which
  gives the two fibers to switch between, out of the first and into the second, and the switch itself.
\<close>

definition resume_begin :: "nat \<Rightarrow> nat \<Rightarrow> ('f, nat \<times> nat) fb" where
  "resume_begin t p s =
     (case fiber_at s p of
        None \<Rightarrow> (Inl NullFiber, s)
      | Some f \<Rightarrow>
          if m_state f = TERM_STATE \<or> m_state f = RUNNING then (Inl AssertFailed, s)
          else
            let s1 = set_fiber p (f\<lparr>m_state := RUNNING\<rparr>) (SetThis t (Some p) s)
            in case main_of t f s1 of
                 None \<Rightarrow> (Inl NullFiber, s1)
               | Some m \<Rightarrow> (Inr (m, p), s1))"

definition resume :: "nat \<Rightarrow> nat \<Rightarrow> ('f, unit) fb" where
  "resume t p s =
     (case resume_begin t p s of
        (Inl e, s1) \<Rightarrow> (Inl e, s1)
      | (Inr (out, inn), s1) \<Rightarrow> swapcontext t out inn s1)"

definition yield_begin :: "nat \<Rightarrow> nat \<Rightarrow> ('f, nat \<times> nat) fb" where
  "yield_begin t p s =
     (case fiber_at s p of
        None \<Rightarrow> (Inl NullFiber, s)
      | Some f \<Rightarrow>
          if m_state f \<noteq> RUNNING \<and> m_state f \<noteq> TERM_STATE then (Inl AssertFailed, s)
          else
            let s1 = SetThis t (t_thread_fiber s t) s;
                s2 = (if m_state f \<noteq> TERM_STATE then set_fiber p (f\<lparr>m_state := READY\<rparr>) s1 else s1)
            in case main_of t f s2 of
                 None \<Rightarrow> (Inl NullFiber, s2)
               | Some m \<Rightarrow> (Inr (p, m), s2))"

definition yield :: "nat \<Rightarrow> nat \<Rightarrow> ('f, unit) fb" where
  "yield t p s =
     (case yield_begin t p s of
        (Inl e, s1) \<Rightarrow> (Inl e, s1)
      | (Inr (out, inn), s1) \<Rightarrow> swapcontext t out inn s1)"

text \<open>
  The end of \<^verbatim>\<open>MainFunc\<close>: what is left to do when the callback of \<^verbatim>\<open>cur\<close> has returned, before its \<^verbatim>\<open>yield\<close> and with
  it.
\<close>

definition MainFunc_term :: "nat \<Rightarrow> ('f, unit) fb" where
  "MainFunc_term cur s =
     (case fiber_at s cur of
        None \<Rightarrow> (Inl NullFiber, s)
      | Some f \<Rightarrow> (Inr (), set_fiber cur (f\<lparr>fiber_cb := None, m_state := TERM_STATE\<rparr>) s))"

definition MainFunc_end :: "nat \<Rightarrow> nat \<Rightarrow> ('f, unit) fb" where
  "MainFunc_end t cur s =
     (case MainFunc_term cur s of
        (Inl e, s1) \<Rightarrow> (Inl e, s1)
      | (Inr u, s1) \<Rightarrow> yield t cur s1)"

lemmas fiber_begin_defs = SetThis_def set_fiber_def main_of_def resume_begin_def yield_begin_def
  MainFunc_term_def fiber_reset_def Let_def

lemmas fiber_defs = fiber_begin_defs swapcontext_def resume_def yield_def MainFunc_end_def

section \<open>Switching there and back\<close>

text \<open>
  On a thread, a fiber that is ready with its own flow, and the fiber it is switched with, which is
  another one.
\<close>

definition can_resume :: "nat \<Rightarrow> nat \<Rightarrow> nat \<Rightarrow> 'f fiber_sys \<Rightarrow> bool" where
  "can_resume t p m s \<longleftrightarrow> (\<exists>f g. fiber_at s p = Some f \<and> fiber_at s m = Some g \<and> m \<noteq> p
     \<and> m_state f = READY \<and> ctx f = Body p \<and> main_of t f s = Some m)"

text \<open>The system while the fiber runs: its caller's flow waits in the other fiber.\<close>

definition inside_of :: "nat \<Rightarrow> nat \<Rightarrow> nat \<Rightarrow> 'f fiber_sys \<Rightarrow> 'f fiber_sys" where
  "inside_of t p m s = s\<lparr>t_fiber := (t_fiber s)(t \<mapsto> p), executing := (executing s)(t := Body p),
     fiber_at := (fiber_at s)(p \<mapsto> (the (fiber_at s p))\<lparr>m_state := RUNNING\<rparr>,
                               m \<mapsto> (the (fiber_at s m))\<lparr>ctx := executing s t\<rparr>)\<rparr>"

lemma resume_step: "can_resume t p m s \<Longrightarrow> resume t p s = (Inr (), inside_of t p m s)"
  by (auto simp: can_resume_def inside_of_def fiber_defs fun_upd_twist split: if_splits)

text \<open>After it has given the thread back, in state \<open>st\<close> and with the callback \<open>cb\<close>.\<close>

definition back_from :: "nat \<Rightarrow> nat \<Rightarrow> nat \<Rightarrow> State \<Rightarrow> 'f option \<Rightarrow> 'f fiber_sys \<Rightarrow> 'f fiber_sys" where
  "back_from t p m st cb s = s\<lparr>t_fiber := (t_fiber s)(t := t_thread_fiber s t),
     fiber_at := (fiber_at s)(p \<mapsto> (the (fiber_at s p))\<lparr>fiber_cb := cb, m_state := st, ctx := Body p\<rparr>,
                               m \<mapsto> (the (fiber_at s m))\<lparr>ctx := executing s t\<rparr>)\<rparr>"

lemma yield_back:
  assumes "can_resume t p m s"
  shows "yield t p (inside_of t p m s)
    = (Inr (), back_from t p m READY (fiber_cb (the (fiber_at s p))) s)"
proof -
  from assms obtain f g where fg: "fiber_at s p = Some f" "fiber_at s m = Some g" "m \<noteq> p"
    "ctx f = Body p" "main_of t f s = Some m" "m_state f = READY"
    by (auto simp: can_resume_def)
  then show ?thesis
    by (auto simp: inside_of_def back_from_def fiber_defs fun_upd_twist split: if_splits)
qed

lemma finish_back:
  assumes "can_resume t p m s"
  shows "MainFunc_end t p (inside_of t p m s) = (Inr (), back_from t p m TERM_STATE None s)"
proof -
  from assms obtain f g where fg: "fiber_at s p = Some f" "fiber_at s m = Some g" "m \<noteq> p"
    "ctx f = Body p" "main_of t f s = Some m" "m_state f = READY"
    by (auto simp: can_resume_def)
  then show ?thesis
    by (auto simp: inside_of_def back_from_def fiber_defs fun_upd_twist split: if_splits)
qed

end
