(* ===== verification/FiberProps.thy ===== *)
theory FiberProps
  imports Fiber
begin

text \<open>
  The fibers of several threads as a step relation, in which the two parts of \<^verbatim>\<open>resume\<close> and of \<^verbatim>\<open>yield\<close> are steps of
  their own. The discipline it asks of its clients: a fiber is resumed from the flow of the fiber it will be switched
  back to, yields itself, and is resumed, reused, destroyed or made a scheduler's fiber only when no thread is on its
  stack any more. The last is what \<^verbatim>\<open>Scheduler::run\<close> does not see to: the end of the theory.
\<close>

section \<open>Steps\<close>

definition set_scheduler_fiber :: "nat \<Rightarrow> nat \<Rightarrow> 'f fiber_sys \<Rightarrow> 'f fiber_sys" where
  "set_scheduler_fiber t r s = s\<lparr>t_scheduler_fiber := (t_scheduler_fiber s)(t \<mapsto> r)\<rparr>"

text \<open>
  \<open>sw t\<close> is the switch the thread \<open>t\<close> is about to make, between the first part of \<^verbatim>\<open>resume\<close> or \<^verbatim>\<open>yield\<close> and its
  \<^verbatim>\<open>swapcontext\<close>: until then it is on the old stack.
\<close>

inductive fiber_step :: "'f fiber_sys \<Rightarrow> (nat \<Rightarrow> (nat \<times> nat) option)
    \<Rightarrow> 'f fiber_sys \<Rightarrow> (nat \<Rightarrow> (nat \<times> nat) option) \<Rightarrow> bool" where
  create: "fiber_at s p = None \<Longrightarrow> fiber_step s sw (Fiber p cb stacksize in_scheduler s) sw"
| this_thread: "sw t = None \<Longrightarrow> fiber_at s p = None \<Longrightarrow> executing s t = Native t \<Longrightarrow> t_fiber s t = None
    \<Longrightarrow> t_thread_fiber s t = None \<Longrightarrow> fiber_step s sw (snd (Fiber_GetThis t p s)) sw"
| scheduler_main: "sw t = None \<Longrightarrow> executing s t = Native t \<Longrightarrow> t_thread_fiber s t = Some r
    \<Longrightarrow> fiber_step s sw (set_scheduler_fiber t r s) sw"
| scheduler_root: "sw t = None \<Longrightarrow> executing s t = Native t \<Longrightarrow> t_thread_fiber s t \<noteq> None \<Longrightarrow> fiber_at s r = Some f
    \<Longrightarrow> m_stack f \<Longrightarrow> \<not> m_runInScheduler f \<Longrightarrow> m_state f = READY \<Longrightarrow> \<forall>u. executing s u \<noteq> Body r
    \<Longrightarrow> \<forall>u. t_scheduler_fiber s u \<noteq> Some r \<Longrightarrow> fiber_step s sw (set_scheduler_fiber t r s) sw"
| resume_begins: "sw t = None \<Longrightarrow> fiber_at s p = Some f \<Longrightarrow> main_of t f s = Some m \<Longrightarrow> fiber_at s m = Some g
    \<Longrightarrow> executing s t = ctx g \<Longrightarrow> \<forall>u. t_scheduler_fiber s u = Some p \<longrightarrow> u = t \<Longrightarrow> \<forall>u. executing s u \<noteq> Body p
    \<Longrightarrow> resume_begin t p s = (Inr ab, s') \<Longrightarrow> fiber_step s sw s' (sw(t \<mapsto> ab))"
| yield_begins: "sw t = None \<Longrightarrow> executing s t = Body p \<Longrightarrow> yield_begin t p s = (Inr ab, s')
    \<Longrightarrow> fiber_step s sw s' (sw(t \<mapsto> ab))"
| end_begins: "sw t = None \<Longrightarrow> executing s t = Body p \<Longrightarrow> MainFunc_term p s = (Inr (), s1)
    \<Longrightarrow> yield_begin t p s1 = (Inr ab, s') \<Longrightarrow> fiber_step s sw s' (sw(t \<mapsto> ab))"
| switched: "sw t = Some (a, b) \<Longrightarrow> swapcontext t a b s = (Inr (), s') \<Longrightarrow> fiber_step s sw s' (sw(t := None))"
| reused: "\<forall>u. executing s u \<noteq> Body p \<Longrightarrow> fiber_reset p cb s = (Inr (), s') \<Longrightarrow> fiber_step s sw s' sw"
| destroyed: "\<forall>u. executing s u \<noteq> Body p \<Longrightarrow> fiber_at s p = Some f \<Longrightarrow> m_stack f
    \<Longrightarrow> \<forall>u. t_scheduler_fiber s u \<noteq> Some p \<Longrightarrow> fiber_destruct t p s = (Inr (), s') \<Longrightarrow> fiber_step s sw s' sw"

inductive fiber_reachable :: "'f fiber_sys \<Rightarrow> (nat \<Rightarrow> (nat \<times> nat) option) \<Rightarrow> bool" where
  fr_init: "fiber_reachable fiber_sys_init (\<lambda>_. None)"
| fr_step: "fiber_reachable s sw \<Longrightarrow> fiber_step s sw s' sw' \<Longrightarrow> fiber_reachable s' sw'"

text \<open>
  For the invariant, the same with every \<^verbatim>\<open>resume\<close> and \<^verbatim>\<open>yield\<close> in one step. The steps above are shown to look like
  these ones once every switch begun is taken as made.
\<close>

inductive whole_step :: "'f fiber_sys \<Rightarrow> 'f fiber_sys \<Rightarrow> bool" where
  w_create: "fiber_at s p = None \<Longrightarrow> whole_step s (Fiber p cb stacksize in_scheduler s)"
| w_this_thread: "fiber_at s p = None \<Longrightarrow> executing s t = Native t \<Longrightarrow> t_fiber s t = None
    \<Longrightarrow> t_thread_fiber s t = None \<Longrightarrow> whole_step s (snd (Fiber_GetThis t p s))"
| w_scheduler_main: "executing s t = Native t \<Longrightarrow> t_thread_fiber s t = Some r
    \<Longrightarrow> whole_step s (set_scheduler_fiber t r s)"
| w_scheduler_root: "executing s t = Native t \<Longrightarrow> t_thread_fiber s t \<noteq> None \<Longrightarrow> fiber_at s r = Some f
    \<Longrightarrow> m_stack f \<Longrightarrow> \<not> m_runInScheduler f \<Longrightarrow> m_state f = READY
    \<Longrightarrow> \<forall>u. t_scheduler_fiber s u \<noteq> Some r \<Longrightarrow> whole_step s (set_scheduler_fiber t r s)"
| w_resumed: "fiber_at s p = Some f \<Longrightarrow> main_of t f s = Some m \<Longrightarrow> fiber_at s m = Some g
    \<Longrightarrow> executing s t = ctx g \<Longrightarrow> \<forall>u. t_scheduler_fiber s u = Some p \<longrightarrow> u = t
    \<Longrightarrow> resume t p s = (Inr (), s') \<Longrightarrow> whole_step s s'"
| w_yielded: "executing s t = Body p \<Longrightarrow> yield t p s = (Inr (), s') \<Longrightarrow> whole_step s s'"
| w_finished: "executing s t = Body p \<Longrightarrow> MainFunc_end t p s = (Inr (), s') \<Longrightarrow> whole_step s s'"
| w_reused: "fiber_reset p cb s = (Inr (), s') \<Longrightarrow> whole_step s s'"
| w_destroyed: "fiber_at s p = Some f \<Longrightarrow> m_stack f \<Longrightarrow> \<forall>u. t_scheduler_fiber s u \<noteq> Some p
    \<Longrightarrow> fiber_destruct t p s = (Inr (), s') \<Longrightarrow> whole_step s s'"

section \<open>The invariant\<close>

text \<open>The context of every fiber is its own flow.\<close>

definition own_ctx :: "'f fiber_sys \<Rightarrow> bool" where
  "own_ctx s \<longleftrightarrow> (\<forall>p f. fiber_at s p = Some f \<longrightarrow> m_stack f \<longrightarrow> ctx f = Body p)
     \<and> (\<forall>t p. t_thread_fiber s t = Some p \<longrightarrow>
          (\<exists>f. fiber_at s p = Some f \<and> \<not> m_stack f \<and> ctx f = Native t))
     \<and> (\<forall>p f. fiber_at s p = Some f \<longrightarrow> \<not> m_stack f \<longrightarrow> m_state f = RUNNING)"

text \<open>The flow of a thread is its own or that of a running fiber with a fiber to go back to.\<close>

definition one_flow :: "'f fiber_sys \<Rightarrow> bool" where
  "one_flow s \<longleftrightarrow> (\<forall>t u. executing s t = Native u \<longrightarrow> u = t)
     \<and> (\<forall>t u p. executing s t = Body p \<longrightarrow> executing s u = Body p \<longrightarrow> t = u)
     \<and> (\<forall>t p. executing s t = Body p \<longrightarrow> (\<exists>f m g. fiber_at s p = Some f \<and> m_stack f
          \<and> m_state f = RUNNING \<and> main_of t f s = Some m \<and> fiber_at s m = Some g \<and> m \<noteq> p
          \<and> (m_stack g \<longrightarrow> m_state g = RUNNING)))"

text \<open>
  The scheduler's fiber of a thread is its first fiber, or a fiber of its own that no other thread
  runs and that is switched with the first.
\<close>

definition scheduler_fibers :: "'f fiber_sys \<Rightarrow> bool" where
  "scheduler_fibers s \<longleftrightarrow> (\<forall>t r. t_scheduler_fiber s t = Some r \<longrightarrow>
     t_thread_fiber s t = Some r \<or>
     (t_thread_fiber s t \<noteq> None \<and> (\<exists>f. fiber_at s r = Some f \<and> m_stack f \<and> \<not> m_runInScheduler f)
      \<and> (\<forall>u. u \<noteq> t \<longrightarrow> executing s u \<noteq> Body r \<and> t_scheduler_fiber s u \<noteq> Some r)))"

definition fiber_inv :: "'f fiber_sys \<Rightarrow> bool" where
  "fiber_inv s \<longleftrightarrow> own_ctx s \<and> one_flow s \<and> scheduler_fibers s"

lemmas fiber_inv_defs = fiber_inv_def own_ctx_def one_flow_def scheduler_fibers_def

lemma fiber_inv_init: "fiber_inv fiber_sys_init"
  by (simp add: fiber_inv_defs fiber_sys_init_def)

lemma fiber_invD:
  assumes "fiber_inv s"
  shows "fiber_at s p = Some f \<Longrightarrow> m_stack f \<Longrightarrow> ctx f = Body p"
    and "fiber_at s p = Some f \<Longrightarrow> \<not> m_stack f \<Longrightarrow> m_state f = RUNNING"
    and "executing s t = Native u \<Longrightarrow> u = t"
    and "executing s t = Body p \<Longrightarrow> executing s u = Body p \<Longrightarrow> t = u"
  using assms unfolding fiber_inv_defs by blast+

lemma fiber_inv_thread:
  assumes "fiber_inv s" "t_thread_fiber s t = Some p"
  obtains f where "fiber_at s p = Some f" "\<not> m_stack f" "ctx f = Native t"
  using assms unfolding fiber_inv_defs by blast

lemma fiber_inv_body:
  assumes "fiber_inv s" "executing s t = Body p"
  obtains f m g where "fiber_at s p = Some f" "m_stack f" "m_state f = RUNNING"
    "main_of t f s = Some m" "fiber_at s m = Some g" "m \<noteq> p" "m_stack g \<Longrightarrow> m_state g = RUNNING"
  using assms unfolding fiber_inv_defs by blast

lemma fiber_inv_sched:
  assumes "fiber_inv s" "t_scheduler_fiber s t = Some r"
  obtains "t_thread_fiber s t = Some r"
  | q f where "t_thread_fiber s t = Some q" "fiber_at s r = Some f" "m_stack f" "\<not> m_runInScheduler f"
    "\<And>u. u \<noteq> t \<Longrightarrow> executing s u \<noteq> Body r" "\<And>u. u \<noteq> t \<Longrightarrow> t_scheduler_fiber s u \<noteq> Some r"
proof -
  have "t_thread_fiber s t = Some r \<or>
     (t_thread_fiber s t \<noteq> None \<and> (\<exists>f. fiber_at s r = Some f \<and> m_stack f \<and> \<not> m_runInScheduler f)
      \<and> (\<forall>u. u \<noteq> t \<longrightarrow> executing s u \<noteq> Body r \<and> t_scheduler_fiber s u \<noteq> Some r))"
    using assms unfolding fiber_inv_def scheduler_fibers_def by blast
  with that show thesis by (metis not_None_eq)
qed

lemma fiber_invI:
  assumes "\<And>p f. fiber_at s p = Some f \<Longrightarrow> m_stack f \<Longrightarrow> ctx f = Body p"
    "\<And>t p. t_thread_fiber s t = Some p \<Longrightarrow> \<exists>f. fiber_at s p = Some f \<and> \<not> m_stack f \<and> ctx f = Native t"
    "\<And>p f. fiber_at s p = Some f \<Longrightarrow> \<not> m_stack f \<Longrightarrow> m_state f = RUNNING"
    "\<And>t u. executing s t = Native u \<Longrightarrow> u = t"
    "\<And>t u p. executing s t = Body p \<Longrightarrow> executing s u = Body p \<Longrightarrow> t = u"
    "\<And>t p. executing s t = Body p \<Longrightarrow> \<exists>f m g. fiber_at s p = Some f \<and> m_stack f
          \<and> m_state f = RUNNING \<and> main_of t f s = Some m \<and> fiber_at s m = Some g \<and> m \<noteq> p
          \<and> (m_stack g \<longrightarrow> m_state g = RUNNING)"
    "\<And>t r. t_scheduler_fiber s t = Some r \<Longrightarrow> t_thread_fiber s t = Some r \<or>
     (t_thread_fiber s t \<noteq> None \<and> (\<exists>f. fiber_at s r = Some f \<and> m_stack f \<and> \<not> m_runInScheduler f)
      \<and> (\<forall>u. u \<noteq> t \<longrightarrow> executing s u \<noteq> Body r \<and> t_scheduler_fiber s u \<noteq> Some r))"
  shows "fiber_inv s"
  using assms unfolding fiber_inv_defs by blast

text \<open>What resuming needs: the fiber and the one it is switched with.\<close>

lemma fiber_inv_resume:
  assumes "fiber_inv s" "fiber_at s p = Some f" "main_of t f s = Some m" "fiber_at s m = Some g"
    "executing s t = ctx g" "resume t p s = (Inr (), s')"
  shows "can_resume t p m s \<and> s' = inside_of t p m s \<and> m_stack f"
proof -
  have st: "m_state f = READY"
    using assms(2,6) by (cases "m_state f") (auto simp: resume_def resume_begin_def)
  then have stk: "m_stack f" using fiber_invD(2) [OF assms(1,2)] by auto
  then have ctx: "ctx f = Body p" using fiber_invD(1) [OF assms(1,2)] by simp
  have "m \<noteq> p"
  proof
    assume "m = p"
    then have "executing s t = Body p" using assms(2,4,5) ctx by simp
    then show False using fiber_inv_body [OF assms(1)] assms(2) st by fastforce
  qed
  with st ctx assms(2-4) have "can_resume t p m s" by (auto simp: can_resume_def)
  with assms(6) stk show ?thesis by (simp add: resume_step)
qed

text \<open>
  A change of fibers that are not executing keeps the invariant: the running fibers and the first
  fibers stay as they are, and every new or changed fiber has its own flow.
\<close>

lemma fiber_inv_other:
  assumes "fiber_inv s"
    "executing s' = executing s" "t_thread_fiber s' = t_thread_fiber s"
    "t_scheduler_fiber s' = t_scheduler_fiber s"
    "\<And>q. q \<noteq> p \<Longrightarrow> fiber_at s' q = fiber_at s q"
    "\<And>f. fiber_at s p = Some f \<Longrightarrow> m_stack f \<and> m_state f \<noteq> RUNNING
       \<and> (\<forall>u. t_scheduler_fiber s u = Some p \<longrightarrow> (\<exists>g. fiber_at s' p = Some g \<and> m_runInScheduler g = m_runInScheduler f))"
    "\<And>f. fiber_at s' p = Some f \<Longrightarrow> m_stack f \<and> ctx f = Body p"
  shows "fiber_inv s'"
proof (rule fiber_invI)
  have mo: "main_of t f s' = main_of t f s" for t f using assms(3,4) by (simp add: main_of_def)
  fix q f
  show "ctx f = Body q" if "fiber_at s' q = Some f" "m_stack f"
    using that assms(5,7) fiber_invD(1) [OF assms(1)] by (cases "q = p") auto
  show "m_state f = RUNNING" if "fiber_at s' q = Some f" "\<not> m_stack f"
    using that assms(5,7) fiber_invD(2) [OF assms(1)] by (cases "q = p") auto
  fix t u
  show "\<exists>f. fiber_at s' q = Some f \<and> \<not> m_stack f \<and> ctx f = Native t" if "t_thread_fiber s' t = Some q"
  proof -
    from that assms(3) obtain f where "fiber_at s q = Some f" "\<not> m_stack f" "ctx f = Native t"
      using fiber_inv_thread [OF assms(1)] by metis
    then show ?thesis using assms(5,6) by (cases "q = p") auto
  qed
  show "u = t" if "executing s' t = Native u"
    using that assms(2) fiber_invD(3) [OF assms(1)] by simp
  show "t = u" if "executing s' t = Body q" "executing s' u = Body q"
    using that assms(2) fiber_invD(4) [OF assms(1)] by simp
  show "\<exists>f m g. fiber_at s' q = Some f \<and> m_stack f \<and> m_state f = RUNNING \<and> main_of t f s' = Some m
      \<and> fiber_at s' m = Some g \<and> m \<noteq> q \<and> (m_stack g \<longrightarrow> m_state g = RUNNING)"
    if "executing s' t = Body q"
  proof -
    from that assms(2) obtain f m g where fg: "fiber_at s q = Some f" "m_stack f" "m_state f = RUNNING"
      "main_of t f s = Some m" "fiber_at s m = Some g" "m \<noteq> q" "m_stack g \<Longrightarrow> m_state g = RUNNING"
      using fiber_inv_body [OF assms(1)] by metis
    have "q \<noteq> p" using fg(1,3) assms(6) by auto
    moreover have "m \<noteq> p" using fg(5,7) assms(6) by auto
    ultimately show ?thesis using fg assms(5) mo by metis
  qed
  fix r
  show "t_thread_fiber s' t = Some r \<or>
     (t_thread_fiber s' t \<noteq> None \<and> (\<exists>f. fiber_at s' r = Some f \<and> m_stack f \<and> \<not> m_runInScheduler f)
      \<and> (\<forall>u. u \<noteq> t \<longrightarrow> executing s' u \<noteq> Body r \<and> t_scheduler_fiber s' u \<noteq> Some r))"
    if "t_scheduler_fiber s' t = Some r"
  proof -
    have ts: "t_scheduler_fiber s t = Some r" using that assms(4) by simp
    from fiber_inv_sched [OF assms(1) ts] show ?thesis
    proof cases
      case 1
      then show ?thesis using assms(3) by simp
    next
      case (2 q f)
      have "\<exists>f. fiber_at s' r = Some f \<and> m_stack f \<and> \<not> m_runInScheduler f"
      proof (cases "r = p")
        case True
        then obtain g where "fiber_at s' p = Some g" "m_runInScheduler g = m_runInScheduler f"
          using assms(6) 2(2) ts by metis
        then show ?thesis using True 2(4) assms(7) by auto
      qed (use 2(2-4) assms(5) in auto)
      then show ?thesis using 2 assms(2-4) by auto
    qed
  qed
qed

text \<open>The two kinds of fiber another fiber is switched with.\<close>

lemma main_kinds:
  assumes "fiber_inv s" "main_of t f s = Some m" "fiber_at s m = Some g"
  obtains (thread) "\<not> m_stack g" "ctx g = Native t" "t_thread_fiber s t = Some m"
  | (root) q where "m_stack g" "ctx g = Body m" "t_scheduler_fiber s t = Some m" "\<not> m_runInScheduler g"
    "t_thread_fiber s t = Some q" "m_runInScheduler f"
    "\<And>u. u \<noteq> t \<Longrightarrow> executing s u \<noteq> Body m" "\<And>u. u \<noteq> t \<Longrightarrow> t_scheduler_fiber s u \<noteq> Some m"
proof (cases "t_thread_fiber s t = Some m")
  case True
  with fiber_inv_thread [OF assms(1)] assms(3) thread show thesis by (metis option.inject)
next
  case False
  then have r: "m_runInScheduler f" "t_scheduler_fiber s t = Some m"
    using assms(2) by (auto simp: main_of_def split: if_splits)
  from fiber_inv_sched [OF assms(1) r(2)] show thesis
  proof cases
    case 1
    with False show thesis by simp
  next
    case (2 q f')
    moreover from this have "f' = g" using assms(3) by simp
    ultimately show thesis using root r fiber_invD(1) [OF assms(1,3)] by blast
  qed
qed

lemma running_main_not:
  assumes "fiber_inv s" "executing s t = Body p" "u \<noteq> t" "main_of u f s = Some m"
    "fiber_at s m = Some g"
  shows "m \<noteq> p"
proof
  assume mp: "m = p"
  obtain f' where "fiber_at s p = Some f'" "m_stack f'" using fiber_inv_body [OF assms(1,2)] by metis
  with assms(5) mp have "m_stack g" by simp
  with main_kinds [OF assms(1,4,5)] assms(2,3) mp show False by metis
qed

text \<open>The running fiber of a thread gives it back.\<close>

lemma fiber_inv_leave:
  assumes "fiber_inv s" "executing s t = Body p" "fiber_at s p = Some f" "main_of t f s = Some m"
    "fiber_at s m = Some g" "m \<noteq> p" "m_stack f'" "ctx f' = Body p"
    "m_runInScheduler f' = m_runInScheduler f" "m_stack g \<Longrightarrow> m_state g = RUNNING"
    "fiber_at s' = (fiber_at s)(p \<mapsto> f')" "executing s' = (executing s)(t := ctx g)"
    "t_thread_fiber s' = t_thread_fiber s" "t_scheduler_fiber s' = t_scheduler_fiber s"
  shows "fiber_inv s'"
proof (rule fiber_invI)
  have mo: "main_of u h s' = main_of u h s" for u h using assms(13,14) by (simp add: main_of_def)
  have stkf: "m_stack f" using fiber_inv_body [OF assms(1,2)] assms(3) by (metis option.inject)
  fix q h
  show "ctx h = Body q" if "fiber_at s' q = Some h" "m_stack h"
    using that assms(8,11) fiber_invD(1) [OF assms(1)] by (auto split: if_splits)
  show "m_state h = RUNNING" if "fiber_at s' q = Some h" "\<not> m_stack h"
    using that assms(7,11) fiber_invD(2) [OF assms(1)] by (auto split: if_splits)
  fix u v
  show "\<exists>h. fiber_at s' q = Some h \<and> \<not> m_stack h \<and> ctx h = Native u" if "t_thread_fiber s' u = Some q"
  proof -
    from that assms(13) have "t_thread_fiber s u = Some q" by simp
    from fiber_inv_thread [OF assms(1) this] obtain h where
      h: "fiber_at s q = Some h" "\<not> m_stack h" "ctx h = Native u" .
    then have "q \<noteq> p" using assms(3) stkf by auto
    then show ?thesis using h assms(11) by simp
  qed
  show "v = u" if "executing s' u = Native v"
  proof (cases "u = t")
    case True
    then have "ctx g = Native v" using that assms(12) by simp
    then show ?thesis using main_kinds [OF assms(1,4,5)] True by (metis flow.distinct(1) flow.inject(1))
  qed (use that assms(12) fiber_invD(3) [OF assms(1)] in auto)
  have other: "executing s w \<noteq> ctx g" if "w \<noteq> t" "m_stack g" for w
    using main_kinds [OF assms(1,4,5)] that by metis
  have native: "ctx g = Native t" if "\<not> m_stack g"
    using main_kinds [OF assms(1,4,5)] that by metis
  show "u = v" if "executing s' u = Body q" "executing s' v = Body q"
  proof (rule ccontr)
    assume "u \<noteq> v"
    with that assms(12) fiber_invD(4) [OF assms(1)] obtain w where
      "w \<noteq> t" "ctx g = Body q" "executing s w = Body q" by (metis fun_upd_apply)
    then show False using other native by (cases "m_stack g") auto
  qed
  show "\<exists>h k l. fiber_at s' q = Some h \<and> m_stack h \<and> m_state h = RUNNING \<and> main_of u h s' = Some k
      \<and> fiber_at s' k = Some l \<and> k \<noteq> q \<and> (m_stack l \<longrightarrow> m_state l = RUNNING)"
    if ex: "executing s' u = Body q"
  proof (cases "u = t")
    case True
    then have "ctx g = Body q" using ex assms(12) by simp
    with main_kinds [OF assms(1,4,5)] obtain k where g: "m_stack g" "q = m" "\<not> m_runInScheduler g"
      "t_thread_fiber s t = Some k" by (metis flow.distinct(1) flow.inject(2))
    obtain l where l: "fiber_at s k = Some l" "\<not> m_stack l" "ctx l = Native t"
      using fiber_inv_thread [OF assms(1) g(4)] .
    have "k \<noteq> m" "k \<noteq> p" using l g(1) assms(3,5) stkf by auto
    then show ?thesis
      using g l assms(5,6,10,11) True mo by (auto simp: main_of_def intro!: exI [of _ g] exI [of _ k])
  next
    case False
    then have ex': "executing s u = Body q" using ex assms(12) by simp
    obtain h k l where hk: "fiber_at s q = Some h" "m_stack h" "m_state h = RUNNING"
      "main_of u h s = Some k" "fiber_at s k = Some l" "k \<noteq> q" "m_stack l \<Longrightarrow> m_state l = RUNNING"
      using fiber_inv_body [OF assms(1) ex'] by metis
    have "q \<noteq> p" using fiber_invD(4) [OF assms(1) ex'] assms(2) False by blast
    moreover have "k \<noteq> p" by (rule running_main_not [OF assms(1,2) False hk(4,5)])
    ultimately show ?thesis using hk assms(11) mo by (metis fun_upd_apply)
  qed
  fix r
  show "t_thread_fiber s' u = Some r \<or>
     (t_thread_fiber s' u \<noteq> None \<and> (\<exists>f. fiber_at s' r = Some f \<and> m_stack f \<and> \<not> m_runInScheduler f)
      \<and> (\<forall>w. w \<noteq> u \<longrightarrow> executing s' w \<noteq> Body r \<and> t_scheduler_fiber s' w \<noteq> Some r))"
    if ts: "t_scheduler_fiber s' u = Some r"
  proof -
    from ts have "t_scheduler_fiber s u = Some r" using assms(14) by simp
    from fiber_inv_sched [OF assms(1) this] show ?thesis
    proof cases
      case 1
      then show ?thesis using assms(13) by simp
    next
      case (2 k h)
      have "\<exists>f. fiber_at s' r = Some f \<and> m_stack f \<and> \<not> m_runInScheduler f"
        using 2(2-4) assms(3,7,9,11) by (cases "r = p") auto
      moreover have "executing s' w \<noteq> Body r" if "w \<noteq> u" for w
      proof
        assume eq: "executing s' w = Body r"
        with 2(5) [OF that] assms(12) have "w = t" "ctx g = Body r" by (auto split: if_splits)
        with main_kinds [OF assms(1,4,5)] have "t_scheduler_fiber s t = Some r"
          by (metis flow.distinct(1) flow.inject(2))
        with 2(6) [OF that] \<open>w = t\<close> show False by simp
      qed
      ultimately show ?thesis using 2 assms(13,14) by auto
    qed
  qed
qed

text \<open>A thread enters a ready fiber from the flow of the fiber it will go back to.\<close>

lemma fiber_inv_enter:
  assumes "fiber_inv s" "fiber_at s p = Some f" "m_stack f" "m_state f = READY"
    "main_of t f s = Some m" "fiber_at s m = Some g" "m \<noteq> p" "executing s t = ctx g"
    "\<forall>u. t_scheduler_fiber s u = Some p \<longrightarrow> u = t"
    "fiber_at s' = (fiber_at s)(p \<mapsto> f\<lparr>m_state := RUNNING\<rparr>)" "executing s' = (executing s)(t := Body p)"
    "t_thread_fiber s' = t_thread_fiber s" "t_scheduler_fiber s' = t_scheduler_fiber s"
  shows "fiber_inv s'"
proof (rule fiber_invI)
  have mo: "main_of u h s' = main_of u h s" for u h using assms(12,13) by (simp add: main_of_def)
  have nobody: "executing s u \<noteq> Body p" for u
    using fiber_inv_body [OF assms(1), of u p] assms(2,4) by force
  fix q h
  show "ctx h = Body q" if "fiber_at s' q = Some h" "m_stack h"
    using that assms(2,10) fiber_invD(1) [OF assms(1)] by (auto split: if_splits)
  show "m_state h = RUNNING" if "fiber_at s' q = Some h" "\<not> m_stack h"
    using that assms(3,10) fiber_invD(2) [OF assms(1)] by (auto split: if_splits)
  fix u v
  show "\<exists>h. fiber_at s' q = Some h \<and> \<not> m_stack h \<and> ctx h = Native u" if "t_thread_fiber s' u = Some q"
  proof -
    from that assms(12) have "t_thread_fiber s u = Some q" by simp
    from fiber_inv_thread [OF assms(1) this] obtain h where
      h: "fiber_at s q = Some h" "\<not> m_stack h" "ctx h = Native u" .
    then have "q \<noteq> p" using assms(2,3)  by auto
    then show ?thesis using h assms(10) by simp
  qed
  show "v = u" if "executing s' u = Native v"
    using that assms(11) fiber_invD(3) [OF assms(1)] by (auto split: if_splits)
  show "u = v" if "executing s' u = Body q" "executing s' v = Body q"
    using that assms(11) fiber_invD(4) [OF assms(1)] nobody by (auto split: if_splits)
  show "\<exists>h k l. fiber_at s' q = Some h \<and> m_stack h \<and> m_state h = RUNNING \<and> main_of u h s' = Some k
      \<and> fiber_at s' k = Some l \<and> k \<noteq> q \<and> (m_stack l \<longrightarrow> m_state l = RUNNING)"
    if ex: "executing s' u = Body q"
  proof (cases "u = t")
    case True
    have "m_state g = RUNNING" if "m_stack g"
    proof -
      have "executing s t = Body m" using assms(8) fiber_invD(1) [OF assms(1,6) that] by simp
      from fiber_inv_body [OF assms(1) this] assms(6) show ?thesis by (metis option.inject)
    qed
    moreover have "q = p" using ex True assms(11) by simp
    moreover have "main_of t (f\<lparr>m_state := RUNNING\<rparr>) s' = Some m" using mo assms(5) by (simp add: main_of_def)
    ultimately show ?thesis using True assms(3,6,7,10) by auto
  next
    case False
    then have ex': "executing s u = Body q" using ex assms(11) by simp
    obtain h k l where hk: "fiber_at s q = Some h" "m_stack h" "m_state h = RUNNING"
      "main_of u h s = Some k" "fiber_at s k = Some l" "k \<noteq> q" "m_stack l \<Longrightarrow> m_state l = RUNNING"
      using fiber_inv_body [OF assms(1) ex'] by metis
    have "q \<noteq> p" using hk(1,3) assms(2,4) by auto
    moreover have "k \<noteq> p" using hk(5,7) assms(2-4) by auto
    ultimately show ?thesis using hk assms(10) mo by (metis fun_upd_apply)
  qed
  fix r
  show "t_thread_fiber s' u = Some r \<or>
     (t_thread_fiber s' u \<noteq> None \<and> (\<exists>f. fiber_at s' r = Some f \<and> m_stack f \<and> \<not> m_runInScheduler f)
      \<and> (\<forall>w. w \<noteq> u \<longrightarrow> executing s' w \<noteq> Body r \<and> t_scheduler_fiber s' w \<noteq> Some r))"
    if ts: "t_scheduler_fiber s' u = Some r"
  proof -
    from ts have ts': "t_scheduler_fiber s u = Some r" using assms(13) by simp
    from fiber_inv_sched [OF assms(1) this] show ?thesis
    proof cases
      case 1
      then show ?thesis using assms(12) by simp
    next
      case (2 k h)
      have "\<exists>f. fiber_at s' r = Some f \<and> m_stack f \<and> \<not> m_runInScheduler f"
        using 2(2-4) assms(2,10) by (cases "r = p") auto
      moreover have "executing s' w \<noteq> Body r" if "w \<noteq> u" for w
        using 2(5) [OF that] assms(9,11) ts' that by (auto split: if_splits)
      ultimately show ?thesis using 2 assms(12,13) by auto
    qed
  qed
qed

section \<open>Every step keeps the invariant\<close>

text \<open>What \<^verbatim>\<open>yield\<close> and the end of \<^verbatim>\<open>MainFunc\<close> do in the running fiber of a thread.\<close>

definition left_fiber :: "nat \<Rightarrow> nat \<Rightarrow> 'f fiber \<Rightarrow> flow \<Rightarrow> 'f fiber_sys \<Rightarrow> 'f fiber_sys" where
  "left_fiber t p f' c s = s\<lparr>t_fiber := (t_fiber s)(t := t_thread_fiber s t),
     fiber_at := (fiber_at s)(p \<mapsto> f'), executing := (executing s)(t := c)\<rparr>"

lemma running_leaves:
  assumes "fiber_inv s" "executing s t = Body p"
  obtains f m g where "fiber_at s p = Some f" "m_stack f" "ctx f = Body p" "main_of t f s = Some m"
    "fiber_at s m = Some g" "m \<noteq> p" "m_stack g \<Longrightarrow> m_state g = RUNNING"
    "yield t p s = (Inr (), left_fiber t p (f\<lparr>m_state := READY\<rparr>) (ctx g) s)"
    "MainFunc_end t p s
      = (Inr (), left_fiber t p (f\<lparr>fiber_cb := None, m_state := TERM_STATE\<rparr>) (ctx g) s)"
proof -
  obtain f m g where fg: "fiber_at s p = Some f" "m_stack f" "m_state f = RUNNING"
    "main_of t f s = Some m" "fiber_at s m = Some g" "m \<noteq> p" "m_stack g \<Longrightarrow> m_state g = RUNNING"
    using fiber_inv_body [OF assms] by metis
  have c: "ctx f = Body p" by (rule fiber_invD(1) [OF assms(1) fg(1,2)])
  have "f\<lparr>m_state := st, ctx := Body p\<rparr> = f\<lparr>m_state := st\<rparr>" for st using c by (cases f) simp
  moreover have "f\<lparr>fiber_cb := None, m_state := st, ctx := Body p\<rparr> = f\<lparr>fiber_cb := None, m_state := st\<rparr>" for st
    using c by (cases f) simp
  ultimately have "yield t p s = (Inr (), left_fiber t p (f\<lparr>m_state := READY\<rparr>) (ctx g) s)"
    "MainFunc_end t p s
      = (Inr (), left_fiber t p (f\<lparr>fiber_cb := None, m_state := TERM_STATE\<rparr>) (ctx g) s)"
    using fg assms(2) by (auto simp: fiber_defs left_fiber_def split: if_splits)
  with that fg c show thesis by metis
qed

lemma left_fiber_inv:
  assumes "fiber_inv s" "executing s t = Body p" "fiber_at s p = Some f" "main_of t f s = Some m"
    "fiber_at s m = Some g" "m \<noteq> p" "m_stack f'" "ctx f' = Body p"
    "m_runInScheduler f' = m_runInScheduler f" "m_stack g \<Longrightarrow> m_state g = RUNNING"
  shows "fiber_inv (left_fiber t p f' (ctx g) s)"
  using assms(7-10) by (intro fiber_inv_leave [OF assms(1-6)]) (simp_all add: left_fiber_def)

lemma fiber_inv_this_thread:
  assumes "fiber_inv s" "fiber_at s p = None" "executing s t = Native t" "t_fiber s t = None"
    "t_thread_fiber s t = None"
  shows "fiber_inv (snd (Fiber_GetThis t p s))"
proof -
  let ?s = "snd (Fiber_GetThis t p s)"
  define f where "f = the (fiber_at ?s p)"
  have f: "\<not> m_stack f" "ctx f = Native t" "m_state f = RUNNING"
    and s': "fiber_at ?s = (fiber_at s)(p \<mapsto> f)" "t_thread_fiber ?s = (t_thread_fiber s)(t \<mapsto> p)"
      "executing ?s = executing s" "t_scheduler_fiber ?s = t_scheduler_fiber s"
    using assms(3,4) by (simp_all add: f_def Fiber_GetThis_def Fiber_main_def fiber_defs)
  have new: "q \<noteq> p" if "fiber_at s q = Some h" for q h using that assms(2) by auto
  have nosched: "t_scheduler_fiber s t = None"
  proof (rule ccontr)
    assume "t_scheduler_fiber s t \<noteq> None"
    then obtain r where "t_scheduler_fiber s t = Some r" by auto
    from fiber_inv_sched [OF assms(1) this] assms(5) show False by cases simp_all
  qed
  show ?thesis
  proof (rule fiber_invI)
    fix q h
    show "ctx h = Body q" if "fiber_at ?s q = Some h" "m_stack h"
      using that f s' fiber_invD(1) [OF assms(1)] by (auto split: if_splits)
    show "m_state h = RUNNING" if "fiber_at ?s q = Some h" "\<not> m_stack h"
      using that f s' fiber_invD(2) [OF assms(1)] by (auto split: if_splits)
    fix u v
    show "\<exists>h. fiber_at ?s q = Some h \<and> \<not> m_stack h \<and> ctx h = Native u" if "t_thread_fiber ?s u = Some q"
    proof (cases "u = t")
      case False
      then have "t_thread_fiber s u = Some q" using that s' by simp
      from fiber_inv_thread [OF assms(1) this] new s' show ?thesis by (metis fun_upd_apply)
    qed (use that f s' in auto)
    show "v = u" if "executing ?s u = Native v" using that s' fiber_invD(3) [OF assms(1)] by simp
    show "u = v" if "executing ?s u = Body q" "executing ?s v = Body q"
      using that s' fiber_invD(4) [OF assms(1)] by simp
    show "\<exists>h k l. fiber_at ?s q = Some h \<and> m_stack h \<and> m_state h = RUNNING \<and> main_of u h ?s = Some k
        \<and> fiber_at ?s k = Some l \<and> k \<noteq> q \<and> (m_stack l \<longrightarrow> m_state l = RUNNING)"
      if "executing ?s u = Body q"
    proof -
      have ex: "executing s u = Body q" using that s' by simp
      then have "u \<noteq> t" using assms(3) by auto
      obtain h k l where hk: "fiber_at s q = Some h" "m_stack h" "m_state h = RUNNING"
        "main_of u h s = Some k" "fiber_at s k = Some l" "k \<noteq> q" "m_stack l \<Longrightarrow> m_state l = RUNNING"
        using fiber_inv_body [OF assms(1) ex] by metis
      moreover have "main_of u h ?s = main_of u h s" using s' \<open>u \<noteq> t\<close> by (simp add: main_of_def)
      ultimately show ?thesis using new s' by (metis fun_upd_apply)
    qed
    fix r
    show "t_thread_fiber ?s u = Some r \<or>
       (t_thread_fiber ?s u \<noteq> None \<and> (\<exists>f. fiber_at ?s r = Some f \<and> m_stack f \<and> \<not> m_runInScheduler f)
        \<and> (\<forall>w. w \<noteq> u \<longrightarrow> executing ?s w \<noteq> Body r \<and> t_scheduler_fiber ?s w \<noteq> Some r))"
      if "t_scheduler_fiber ?s u = Some r"
    proof -
      have ts: "t_scheduler_fiber s u = Some r" using that s' by simp
      then have "u \<noteq> t" using nosched by auto
      from fiber_inv_sched [OF assms(1) ts] show ?thesis
        by cases (use s' \<open>u \<noteq> t\<close> new in auto)
    qed
  qed
qed

lemma fiber_inv_set_scheduler:
  assumes "fiber_inv s" "executing s t = Native t" "t_thread_fiber s t \<noteq> None"
    "t_thread_fiber s t = Some r \<or> (\<exists>f. fiber_at s r = Some f \<and> m_stack f \<and> \<not> m_runInScheduler f
       \<and> m_state f = READY \<and> (\<forall>u. t_scheduler_fiber s u \<noteq> Some r))"
  shows "fiber_inv (set_scheduler_fiber t r s)"
proof -
  let ?s = "set_scheduler_fiber t r s"
  have s': "fiber_at ?s = fiber_at s" "t_thread_fiber ?s = t_thread_fiber s" "executing ?s = executing s"
    "t_scheduler_fiber ?s = (t_scheduler_fiber s)(t \<mapsto> r)"
    by (simp_all add: set_scheduler_fiber_def)
  show ?thesis
  proof (rule fiber_invI)
    fix q h u v
    show "\<exists>h k l. fiber_at ?s q = Some h \<and> m_stack h \<and> m_state h = RUNNING \<and> main_of u h ?s = Some k
        \<and> fiber_at ?s k = Some l \<and> k \<noteq> q \<and> (m_stack l \<longrightarrow> m_state l = RUNNING)"
      if "executing ?s u = Body q"
    proof -
      have ex: "executing s u = Body q" using that s' by simp
      then have "u \<noteq> t" using assms(2) by auto
      then have "main_of u h ?s = main_of u h s" for h using s' by (simp add: main_of_def)
      with fiber_inv_body [OF assms(1) ex] s' show ?thesis by metis
    qed
    fix x
    show "t_thread_fiber ?s u = Some x \<or>
       (t_thread_fiber ?s u \<noteq> None \<and> (\<exists>f. fiber_at ?s x = Some f \<and> m_stack f \<and> \<not> m_runInScheduler f)
        \<and> (\<forall>w. w \<noteq> u \<longrightarrow> executing ?s w \<noteq> Body x \<and> t_scheduler_fiber ?s w \<noteq> Some x))"
      if ts: "t_scheduler_fiber ?s u = Some x"
    proof (cases "u = t")
      case True
      then have "x = r" using ts s' by simp
      moreover have "executing s w \<noteq> Body r" if "fiber_at s r = Some f" "m_state f = READY" for w f
        using that fiber_inv_body [OF assms(1), of w r] by force
      ultimately show ?thesis using assms(3,4) s' True by auto
    next
      case False
      then have "t_scheduler_fiber s u = Some x" using ts s' by simp
      from fiber_inv_sched [OF assms(1) this] show ?thesis
      proof cases
        case 1
        then show ?thesis using s' by simp
      next
        case (2 k h)
        have "x \<noteq> r" using assms(4)
        proof
          assume "t_thread_fiber s t = Some r"
          then obtain f where "fiber_at s r = Some f" "\<not> m_stack f"
            using fiber_inv_thread [OF assms(1)] by metis
          with 2(2,3) show ?thesis by (metis option.inject)
        next
          assume "\<exists>f. fiber_at s r = Some f \<and> m_stack f \<and> \<not> m_runInScheduler f
            \<and> m_state f = READY \<and> (\<forall>u. t_scheduler_fiber s u \<noteq> Some r)"
          with \<open>t_scheduler_fiber s u = Some x\<close> show ?thesis by auto
        qed
        with 2 s' False show ?thesis by auto
      qed
    qed
    show "\<exists>f. fiber_at ?s q = Some f \<and> \<not> m_stack f \<and> ctx f = Native u" if "t_thread_fiber ?s u = Some q"
      using that fiber_inv_thread [OF assms(1), of u q] unfolding s' by metis
    show "ctx h = Body q" if "fiber_at ?s q = Some h" "m_stack h"
      using that fiber_invD(1) [OF assms(1)] unfolding s' by metis
    show "m_state h = RUNNING" if "fiber_at ?s q = Some h" "\<not> m_stack h"
      using that fiber_invD(2) [OF assms(1)] unfolding s' by metis
    show "v = u" if "executing ?s u = Native v"
      using that fiber_invD(3) [OF assms(1)] unfolding s' by metis
    show "u = v" if "executing ?s u = Body q" "executing ?s v = Body q"
      using that fiber_invD(4) [OF assms(1)] unfolding s' by metis
  qed
qed

lemma whole_step_inv: "whole_step s s' \<Longrightarrow> fiber_inv s \<Longrightarrow> fiber_inv s'"
proof (induction rule: whole_step.induct)
  case (w_create s p cb stacksize in_scheduler)
  show ?case
    by (rule fiber_inv_other [OF w_create.prems, where p = p])
      (use w_create.hyps in \<open>auto simp: Fiber_def set_fiber_def\<close>)
next
  case (w_this_thread s p t)
  then show ?case by (intro fiber_inv_this_thread)
next
  case (w_scheduler_main s t r)
  then show ?case by (intro fiber_inv_set_scheduler) auto
next
  case (w_scheduler_root s t r f)
  then show ?case by (intro fiber_inv_set_scheduler) auto
next
  case (w_resumed s p f t m g s')
  note r = fiber_inv_resume [OF w_resumed.prems w_resumed.hyps(1-4,6)]
  then have st: "m_state f = READY" "m \<noteq> p" using w_resumed.hyps(1) by (auto simp: can_resume_def)
  have "g\<lparr>ctx := ctx g\<rparr> = g" by simp
  with r w_resumed.hyps(1,3,4) st have "fiber_at s' = (fiber_at s)(p \<mapsto> f\<lparr>m_state := RUNNING\<rparr>)"
    by (auto simp: inside_of_def fun_upd_twist)
  with r st w_resumed.hyps show ?case
    by (intro fiber_inv_enter [OF w_resumed.prems w_resumed.hyps(1) _ _ w_resumed.hyps(2,3) _ w_resumed.hyps(4,5)])
      (auto simp: inside_of_def)
next
  case (w_yielded s t p s')
  obtain f m g where y: "fiber_at s p = Some f" "m_stack f" "ctx f = Body p" "main_of t f s = Some m"
    "fiber_at s m = Some g" "m \<noteq> p" "m_stack g \<Longrightarrow> m_state g = RUNNING"
    "yield t p s = (Inr (), left_fiber t p (f\<lparr>m_state := READY\<rparr>) (ctx g) s)"
    using running_leaves [OF w_yielded.prems w_yielded.hyps(1)] by metis
  then show ?case
    using w_yielded.hyps(2) left_fiber_inv [OF w_yielded.prems w_yielded.hyps(1) y(1,4-6)] by simp
next
  case (w_finished s t p s')
  obtain f m g where y: "fiber_at s p = Some f" "m_stack f" "ctx f = Body p" "main_of t f s = Some m"
    "fiber_at s m = Some g" "m \<noteq> p" "m_stack g \<Longrightarrow> m_state g = RUNNING"
    "MainFunc_end t p s
      = (Inr (), left_fiber t p (f\<lparr>fiber_cb := None, m_state := TERM_STATE\<rparr>) (ctx g) s)"
    using running_leaves [OF w_finished.prems w_finished.hyps(1)] by metis
  then show ?case
    using w_finished.hyps(2) left_fiber_inv [OF w_finished.prems w_finished.hyps(1) y(1,4-6)] by simp
next
  case (w_reused p cb s s')
  show ?case
    by (rule fiber_inv_other [OF w_reused.prems, where p = p])
      (use w_reused.hyps in \<open>auto simp: fiber_reset_def set_fiber_def split: option.splits if_splits\<close>)
next
  case (w_destroyed s p f t s')
  show ?case
    by (rule fiber_inv_other [OF w_destroyed.prems, where p = p])
      (use w_destroyed.hyps in \<open>auto simp: fiber_destruct_def Let_def split: if_splits\<close>)
qed

section \<open>Between the two parts of a switch\<close>

text \<open>The system as it is once every switch that has begun is made.\<close>

definition flow_after :: "'f fiber_sys \<Rightarrow> (nat \<Rightarrow> (nat \<times> nat) option) \<Rightarrow> nat \<Rightarrow> flow" where
  "flow_after s sw t = (case sw t of None \<Rightarrow> executing s t | Some (a, b) \<Rightarrow> ctx (the (fiber_at s b)))"

definition settled :: "'f fiber_sys \<Rightarrow> (nat \<Rightarrow> (nat \<times> nat) option) \<Rightarrow> 'f fiber_sys" where
  "settled s sw = s\<lparr>executing := flow_after s sw\<rparr>"

text \<open>
  A thread that is about to switch is still on the stack of the fiber it leaves, and when that is a fiber with a stack
  of its own nobody else is on it, is going to it, or has it as the scheduler's fiber.
\<close>

definition leaves :: "'f fiber_sys \<Rightarrow> (nat \<Rightarrow> (nat \<times> nat) option) \<Rightarrow> nat \<Rightarrow> nat \<Rightarrow> bool" where
  "leaves s sw t a \<longleftrightarrow> (\<exists>f. fiber_at s a = Some f \<and> ctx f = executing s t
     \<and> (if m_stack f then executing s t = Body a \<and> (\<forall>u. u \<noteq> t \<longrightarrow> executing s u \<noteq> Body a
          \<and> flow_after s sw u \<noteq> Body a \<and> t_scheduler_fiber s u \<noteq> Some a)
        else executing s t = Native t))"

definition switch_inv :: "'f fiber_sys \<Rightarrow> (nat \<Rightarrow> (nat \<times> nat) option) \<Rightarrow> bool" where
  "switch_inv s sw \<longleftrightarrow> fiber_inv (settled s sw)
     \<and> (\<forall>t a b. sw t = Some (a, b) \<longrightarrow> fiber_at s b \<noteq> None \<and> leaves s sw t a)"

lemma settled_simps [simp]:
  "fiber_at (settled s sw) = fiber_at s" "t_fiber (settled s sw) = t_fiber s"
  "t_thread_fiber (settled s sw) = t_thread_fiber s" "t_scheduler_fiber (settled s sw) = t_scheduler_fiber s"
  "executing (settled s sw) = flow_after s sw" "main_of t f (settled s sw) = main_of t f s"
  by (simp_all add: settled_def main_of_def)

lemma flow_after_none [simp]: "sw t = None \<Longrightarrow> flow_after s sw t = executing s t"
  by (simp add: flow_after_def)

lemma switch_invD:
  assumes "switch_inv s sw"
  shows "fiber_inv (settled s sw)" "sw t = Some (a, b) \<Longrightarrow> fiber_at s b \<noteq> None" "sw t = Some (a, b) \<Longrightarrow> leaves s sw t a"
  using assms unfolding switch_inv_def by blast+

lemma switch_inv_init: "switch_inv fiber_sys_init (\<lambda>_. None)"
  by (simp add: switch_inv_def fiber_inv_defs flow_after_def fiber_sys_init_def)

text \<open>Whose stack a thread is on: nobody else's, and a fiber's with a stack.\<close>

lemma on_own_stack:
  assumes "switch_inv s sw" "executing s t = Body p"
  shows "\<exists>f. fiber_at s p = Some f \<and> m_stack f" "executing s u = Body p \<Longrightarrow> t = u"
    "sw t = Some (a, b) \<Longrightarrow> a = p"
proof -
  note inv = switch_invD [OF assms(1)]
  have sw: "\<exists>f. fiber_at s p = Some f \<and> m_stack f \<and> a = p \<and> (\<forall>u. u \<noteq> v \<longrightarrow> executing s u \<noteq> Body p)"
    if "sw v = Some (a, b)" "executing s v = Body p" for v a b
    using inv(3) [OF that(1)] that(2) by (auto simp: leaves_def split: if_splits)
  have none: "\<exists>f. fiber_at s p = Some f \<and> m_stack f" if "sw v = None" "executing s v = Body p" for v
    using fiber_inv_body [OF inv(1), of v p] that by (metis flow_after_none settled_simps(1,5))
  show "\<exists>f. fiber_at s p = Some f \<and> m_stack f"
    using sw [of t] none [of t] assms(2) by (cases "sw t") auto
  show "sw t = Some (a, b) \<Longrightarrow> a = p" using sw assms(2) by blast
  show "t = u" if u: "executing s u = Body p"
  proof (cases "sw t = None \<and> sw u = None")
    case True
    then show ?thesis using fiber_invD(4) [OF inv(1), of t p u] assms(2) u by simp
  next
    case False
    then show ?thesis using sw assms(2) u by (metis not_None_eq surj_pair)
  qed
qed

text \<open>
  A step of the thread \<open>w\<close>, or of none of those that are about to switch, keeps what is said of the others: it leaves
  the fibers they are between alone, and takes no part of the one they leave.
\<close>

lemma leaves_other:
  assumes inv: "switch_inv s sw" and t: "sw t = Some (a, b)" "t \<noteq> w"
    and ex: "\<And>u. u \<noteq> w \<Longrightarrow> executing s' u = executing s u" "executing s' w \<in> {executing s w, flow_after s sw w}"
    and fa: "\<And>u. u \<noteq> w \<Longrightarrow> flow_after s' sw' u = flow_after s sw u"
      "flow_after s' sw' w = flow_after s sw w \<or> flow_after s' sw' w = Native w
        \<or> (\<exists>q. flow_after s' sw' w = Body q \<and> ((\<forall>u. u \<noteq> w \<longrightarrow> executing s u \<noteq> Body q) \<or> t_scheduler_fiber s w = Some q))"
    and keep: "\<And>f. fiber_at s a = Some f \<Longrightarrow> ctx f = executing s t \<Longrightarrow> \<exists>f'. fiber_at s' a = Some f' \<and> ctx f' = ctx f \<and> m_stack f' = m_stack f"
    and sched: "\<And>u q. t_scheduler_fiber s' u = Some q \<Longrightarrow> t_scheduler_fiber s u = Some q \<or> (\<forall>v. executing s v \<noteq> Body q)"
  shows "leaves s' sw' t a"
proof -
  obtain f where f: "fiber_at s a = Some f" "ctx f = executing s t"
    "\<not> m_stack f \<Longrightarrow> executing s t = Native t" "m_stack f \<Longrightarrow> executing s t = Body a"
    "m_stack f \<Longrightarrow> \<forall>u. u = t \<or> executing s u \<noteq> Body a \<and> flow_after s sw u \<noteq> Body a \<and> t_scheduler_fiber s u \<noteq> Some a"
    using switch_invD(3) [OF inv t(1)] by (auto simp: leaves_def split: if_splits)
  obtain f' where f': "fiber_at s' a = Some f'" "ctx f' = ctx f" "m_stack f' = m_stack f" using keep [OF f(1,2)] by blast
  have "executing s' u \<noteq> Body a \<and> flow_after s' sw' u \<noteq> Body a \<and> t_scheduler_fiber s' u \<noteq> Some a"
    if "m_stack f" "u \<noteq> t" for u
  proof -
    have "t_scheduler_fiber s' u \<noteq> Some a" using sched [of u a] f(4,5) that by blast
    moreover have "executing s' u \<noteq> Body a" using ex f(5) that by (cases "u = w") auto
    moreover have "flow_after s sw u \<noteq> Body a \<and> t_scheduler_fiber s u \<noteq> Some a" using f(5) that by blast
    then have "flow_after s' sw' u \<noteq> Body a" using fa f(4) that t(2) by (cases "u = w") auto
    ultimately show ?thesis by blast
  qed
  then show ?thesis using f f' ex(1) [OF t(2)] unfolding leaves_def by (intro exI [of _ f']) auto
qed

text \<open>A step in which no thread comes to another flow.\<close>

lemma switch_inv_same:
  assumes inv: "switch_inv s sw" and w: "whole_step (settled s sw) (settled s' sw)"
    and ex: "executing s' = executing s"
    and b: "\<And>t a b. sw t = Some (a, b) \<Longrightarrow> fiber_at s' b \<noteq> None"
    and fa: "flow_after s' sw = flow_after s sw"
    and keep: "\<And>a f t. fiber_at s a = Some f \<Longrightarrow> ctx f = executing s t
      \<Longrightarrow> \<exists>f'. fiber_at s' a = Some f' \<and> ctx f' = ctx f \<and> m_stack f' = m_stack f"
    and sched: "\<And>u q. t_scheduler_fiber s' u = Some q \<Longrightarrow> t_scheduler_fiber s u = Some q \<or> (\<forall>v. executing s v \<noteq> Body q)"
  shows "switch_inv s' sw"
  unfolding switch_inv_def
proof (intro conjI allI impI)
  show "fiber_inv (settled s' sw)" using whole_step_inv [OF w] switch_invD(1) [OF inv] by blast
  fix t a c
  assume t: "sw t = Some (a, c)"
  show "fiber_at s' c \<noteq> None" by (rule b [OF t])
  show "leaves s' sw t a"
    by (rule leaves_other [OF inv t, where w = "Suc t"]) (use ex fa keep sched in auto)
qed

lemma flow_after_cong:
  assumes "executing s' = executing s"
    "\<And>t a b. sw t = Some (a, b) \<Longrightarrow> ctx (the (fiber_at s' b)) = ctx (the (fiber_at s b))"
  shows "flow_after s' sw = flow_after s sw"
  using assms by (intro ext) (auto simp: flow_after_def split: option.splits)

text \<open>The first part of \<^verbatim>\<open>yield\<close>, or of the end of a fiber, in the fiber a thread executes.\<close>

lemma switch_inv_leave:
  assumes inv: "switch_inv s sw" and t: "sw t = None" "executing s t = Body p"
    and f: "fiber_at s p = Some f" "main_of t f s = Some m" "fiber_at s m = Some g" "m \<noteq> p"
    and f': "m_stack f'" "ctx f' = Body p" "m_runInScheduler f' = m_runInScheduler f"
    and g: "m_stack g \<Longrightarrow> m_state g = RUNNING"
    and s': "s' = s\<lparr>t_fiber := (t_fiber s)(t := t_thread_fiber s t), fiber_at := (fiber_at s)(p \<mapsto> f')\<rparr>"
  shows "switch_inv s' (sw(t \<mapsto> (p, m)))"
  unfolding switch_inv_def
proof (intro conjI allI impI)
  let ?sw = "sw(t \<mapsto> (p, m))"
  note I = switch_invD [OF inv]
  have ex: "flow_after s sw t = Body p" using t by simp
  have "m_stack f" using on_own_stack(1) [OF inv t(2)] f(1) by auto
  then have c: "ctx f = Body p" using fiber_invD(1) [OF I(1), of p f] f(1) by simp
  have fa: "flow_after s' ?sw u = (if u = t then ctx g else flow_after s sw u)" for u
    using f f' s' c by (auto simp: flow_after_def split: option.splits)
  have "flow_after s' ?sw = (flow_after s sw)(t := ctx g)" using fa by (intro ext) simp
  then have "settled s' ?sw = left_fiber t p f' (ctx g) (settled s sw)"
    unfolding settled_def by (simp add: left_fiber_def s')
  moreover have "fiber_inv (left_fiber t p f' (ctx g) (settled s sw))"
    by (rule left_fiber_inv [OF I(1), where f = f and m = m]) (use ex f f' g in simp_all)
  ultimately show "fiber_inv (settled s' ?sw)" by simp
  fix u a b
  assume u: "?sw u = Some (a, b)"
  show "fiber_at s' b \<noteq> None" using u f I(2) s' by (auto split: if_splits)
  show "leaves s' ?sw u a"
  proof (cases "u = t")
    case True
    have "executing s v \<noteq> Body p \<and> flow_after s sw v \<noteq> Body p \<and> t_scheduler_fiber s v \<noteq> Some p" if "v \<noteq> t" for v
    proof -
      have "executing s v \<noteq> Body p" using on_own_stack(2) [OF inv t(2)] that by blast
      moreover have "flow_after s sw v \<noteq> Body p"
        using fiber_invD(4) [OF I(1), of t p v] ex that by auto
      moreover have "t_scheduler_fiber s v \<noteq> Some p"
      proof
        assume "t_scheduler_fiber s v = Some p"
        then have "t_scheduler_fiber (settled s sw) v = Some p" by simp
        from fiber_inv_sched [OF I(1) this] show False
        proof cases
          case 1
          from fiber_inv_thread [OF I(1) this] show False using f(1) \<open>m_stack f\<close> by auto
        next
          case 2
          show False using 2(5) [of t] ex that by auto
        qed
      qed
      ultimately show ?thesis by blast
    qed
    then show ?thesis using True u f' t(2) s' fa by (auto simp: leaves_def)
  next
    case False
    have "main_of t f (settled s sw) = Some m" "fiber_at (settled s sw) m = Some g" using f by simp_all
    note kinds = main_kinds [OF I(1) this]
    have g': "ctx g = Native t \<or> (ctx g = Body m \<and> t_scheduler_fiber s t = Some m)"
      by (rule kinds) simp_all
    show ?thesis
      by (rule leaves_other [OF inv _ False, where b = b])
        (use u False s' f f' c fa g' \<open>m_stack f\<close> in \<open>auto split: if_splits\<close>)
  qed
qed

text \<open>The first part of \<^verbatim>\<open>resume\<close>.\<close>

lemma switch_inv_enter:
  assumes inv: "switch_inv s sw" and t: "sw t = None" "executing s t = ctx g"
    and f: "fiber_at s p = Some f" "main_of t f s = Some m" "fiber_at s m = Some g"
    and sched: "\<forall>u. t_scheduler_fiber s u = Some p \<longrightarrow> u = t" and off: "\<forall>u. executing s u \<noteq> Body p"
    and begun: "resume_begin t p s = (Inr ab, s')"
  shows "switch_inv s' (sw(t \<mapsto> ab))"
  unfolding switch_inv_def
proof (intro conjI allI impI)
  let ?sw = "sw(t \<mapsto> ab)" and ?S = "settled s sw"
  note I = switch_invD [OF inv]
  have st: "m_state f = READY" using begun f(1) by (cases "m_state f") (auto simp: resume_begin_def)
  then have stk: "m_stack f" using fiber_invD(2) [OF I(1), of p f] f(1) by auto
  then have c: "ctx f = Body p" using fiber_invD(1) [OF I(1), of p f] f(1) by simp
  have mp: "m \<noteq> p" using f(1,3) c t(2) off by auto
  have s': "ab = (m, p)" "s' = s\<lparr>t_fiber := (t_fiber s)(t \<mapsto> p), fiber_at := (fiber_at s)(p \<mapsto> f\<lparr>m_state := RUNNING\<rparr>)\<rparr>"
    using begun f st by (auto simp: fiber_begin_defs split: if_splits)
  have fa: "flow_after s' ?sw u = (if u = t then Body p else flow_after s sw u)" for u
    using f s' c by (auto simp: flow_after_def split: option.splits)
  have can: "can_resume t p m ?S" using f st c mp by (auto simp: can_resume_def)
  have "(fiber_at s)(p \<mapsto> f\<lparr>m_state := RUNNING\<rparr>, m \<mapsto> g) = (fiber_at s)(p \<mapsto> f\<lparr>m_state := RUNNING\<rparr>)"
    using mp f(3) by auto
  moreover have "g\<lparr>ctx := executing s t\<rparr> = g" using t(2) by simp
  moreover have "flow_after s' ?sw = (flow_after s sw)(t := Body p)" using fa by (intro ext) simp
  ultimately have "settled s' ?sw = inside_of t p m ?S"
    using f t(1) unfolding settled_def by (simp add: inside_of_def s'(2))
  moreover have "whole_step ?S (inside_of t p m ?S)"
    by (rule w_resumed [where p = p and f = f and t = t and m = m and g = g])
      (use f t sched resume_step [OF can] in simp_all)
  ultimately show "fiber_inv (settled s' ?sw)" using whole_step_inv I(1) by metis
  fix u a b
  assume u: "?sw u = Some (a, b)"
  show "fiber_at s' b \<noteq> None" using u f I(2) s' by (auto split: if_splits)
  show "leaves s' ?sw u a"
  proof (cases "u = t")
    case True
    have "main_of t f ?S = Some m" "fiber_at ?S m = Some g" using f by simp_all
    note kinds = main_kinds [OF I(1) this]
    have "if m_stack g then ctx g = Body m \<and> (\<forall>v. v \<noteq> t \<longrightarrow> executing s v \<noteq> Body m
        \<and> flow_after s sw v \<noteq> Body m \<and> t_scheduler_fiber s v \<noteq> Some m) else ctx g = Native t"
    proof (rule kinds)
      assume "m_stack g" "ctx g = Body m" "\<And>v. v \<noteq> t \<Longrightarrow> executing ?S v \<noteq> Body m"
        "\<And>v. v \<noteq> t \<Longrightarrow> t_scheduler_fiber ?S v \<noteq> Some m"
      moreover from this have "executing s v \<noteq> Body m" if "v \<noteq> t" for v
        using on_own_stack(2) [OF inv, of t m v] t(2) that by metis
      ultimately show ?thesis by simp
    qed simp
    moreover have "fiber_at s' m = Some g" "executing s' = executing s" "t_scheduler_fiber s' = t_scheduler_fiber s" "a = m"
      using s' f(3) mp True u by simp_all
    ultimately show ?thesis using True t(2) by (simp add: leaves_def fa)
  next
    case False
    have at: "fiber_at s' = (fiber_at s)(p \<mapsto> f\<lparr>m_state := RUNNING\<rparr>)" "executing s' = executing s"
      "t_scheduler_fiber s' = t_scheduler_fiber s"
      by (simp_all add: s'(2))
    have old: "sw u = Some (a, b)" using u False by simp
    have keep: "\<exists>h'. fiber_at s' a = Some h' \<and> ctx h' = ctx h \<and> m_stack h' = m_stack h" if "fiber_at s a = Some h" for h
      using that at(1) f(1) by auto
    show ?thesis
      by (rule leaves_other [OF inv old False]) (use off fa keep in \<open>simp_all only: at, auto\<close>)
  qed
qed

text \<open>The switch itself.\<close>

lemma swap_succeeds:
  assumes "switch_inv s sw" "sw t = Some (a, b)"
  shows "swapcontext t a b s = (Inr (), s\<lparr>executing := (executing s)(t := flow_after s sw t)\<rparr>)"
proof -
  obtain f g where f: "fiber_at s a = Some f" "ctx f = executing s t" and g: "fiber_at s b = Some g"
    using switch_invD(2,3) [OF assms] by (auto simp: leaves_def)
  have "f\<lparr>ctx := executing s t\<rparr> = f" using f(2) by simp
  then have "set_fiber a (f\<lparr>ctx := executing s t\<rparr>) s = s" using f(1) by (simp add: set_fiber_def fun_upd_idem)
  then show ?thesis using f(1) g assms(2) by (simp add: swapcontext_def flow_after_def)
qed

lemma switch_inv_switched:
  assumes inv: "switch_inv s sw" and t: "sw t = Some (a, b)" and sc: "swapcontext t a b s = (Inr (), s')"
  shows "switch_inv s' (sw(t := None))"
  unfolding switch_inv_def
proof (intro conjI allI impI)
  let ?sw = "sw(t := None)"
  have s': "s' = s\<lparr>executing := (executing s)(t := flow_after s sw t)\<rparr>" using swap_succeeds [OF inv t] sc by simp
  have fa: "flow_after s' ?sw = flow_after s sw" using s' by (intro ext) (auto simp: flow_after_def split: option.splits)
  then have "settled s' ?sw = settled s sw" unfolding settled_def by (simp add: s')
  then show "fiber_inv (settled s' ?sw)" using switch_invD(1) [OF inv] by simp
  fix u c d
  assume u: "?sw u = Some (c, d)"
  show "fiber_at s' d \<noteq> None" using u switch_invD(2) [OF inv] s' by (auto split: if_splits)
  show "leaves s' ?sw u c"
    by (rule leaves_other [OF inv, where b = d and w = t]) (use u s' fa in \<open>auto split: if_splits\<close>)
qed

lemma fiber_step_inv: "fiber_step s sw s' sw' \<Longrightarrow> switch_inv s sw \<Longrightarrow> switch_inv s' sw'"
proof (induction rule: fiber_step.induct)
  case (create s p sw cb stacksize in_scheduler)
  note I = switch_invD [OF create.prems]
  let ?s = "Fiber p cb stacksize in_scheduler s"
  have at: "fiber_at ?s q = (if q = p then fiber_at ?s p else fiber_at s q)" for q
    by (simp add: Fiber_def set_fiber_def)
  have new: "q \<noteq> p" if "fiber_at s q \<noteq> None" for q using that create.hyps by auto
  have fa: "flow_after ?s sw = flow_after s sw"
    by (rule flow_after_cong) (use I(2) new in \<open>auto simp: Fiber_def set_fiber_def\<close>)
  then have "settled ?s sw = Fiber p cb stacksize in_scheduler (settled s sw)"
    unfolding settled_def by (simp add: Fiber_def set_fiber_def)
  then have "whole_step (settled s sw) (settled ?s sw)" using w_create [of "settled s sw" p] create.hyps by simp
  then show ?case
    by (rule switch_inv_same [OF create.prems])
      (use fa I(2) new in \<open>auto simp: Fiber_def set_fiber_def\<close>)
next
  case (this_thread sw t s p)
  note I = switch_invD [OF this_thread.prems]
  let ?s = "snd (Fiber_GetThis t p s)"
  note defs = Fiber_GetThis_def Fiber_main_def SetThis_def set_fiber_def Let_def
  have new: "q \<noteq> p" if "fiber_at s q \<noteq> None" for q using that this_thread.hyps(2) by auto
  have fa: "flow_after ?s sw = flow_after s sw"
    by (rule flow_after_cong) (use I(2) new this_thread.hyps in \<open>auto simp: defs\<close>)
  have "settled ?s sw = snd (Fiber_GetThis t p (settled s sw))"
    unfolding settled_def fa using this_thread.hyps by (simp add: defs)
  then have "whole_step (settled s sw) (settled ?s sw)"
    using w_this_thread [of "settled s sw" p t] this_thread.hyps by simp
  then show ?case
    by (rule switch_inv_same [OF this_thread.prems])
      (use fa I(2) new this_thread.hyps in \<open>auto simp: defs\<close>)
next
  case (scheduler_main sw t s r)
  note I = switch_invD [OF scheduler_main.prems]
  let ?s = "set_scheduler_fiber t r s"
  have fa: "flow_after ?s sw = flow_after s sw" by (rule flow_after_cong) (simp_all add: set_scheduler_fiber_def)
  then have "settled ?s sw = set_scheduler_fiber t r (settled s sw)"
    unfolding settled_def by (simp add: set_scheduler_fiber_def)
  then have w: "whole_step (settled s sw) (settled ?s sw)"
    using w_scheduler_main [of "settled s sw" t r] scheduler_main.hyps by simp
  have "executing s v \<noteq> Body r" for v
    using fiber_inv_thread [OF I(1), of t r] on_own_stack(1) [OF scheduler_main.prems, of v r] scheduler_main.hyps(3)
    by fastforce
  then show ?case
    by (intro switch_inv_same [OF scheduler_main.prems w])
      (use fa I(2) in \<open>auto simp: set_scheduler_fiber_def split: if_splits\<close>)
next
  case (scheduler_root sw t s r f)
  note I = switch_invD [OF scheduler_root.prems]
  let ?s = "set_scheduler_fiber t r s"
  have fa: "flow_after ?s sw = flow_after s sw" by (rule flow_after_cong) (simp_all add: set_scheduler_fiber_def)
  then have "settled ?s sw = set_scheduler_fiber t r (settled s sw)"
    unfolding settled_def by (simp add: set_scheduler_fiber_def)
  then have w: "whole_step (settled s sw) (settled ?s sw)"
    using w_scheduler_root [of "settled s sw" t r f] scheduler_root.hyps by simp
  show ?case
    by (intro switch_inv_same [OF scheduler_root.prems w])
      (use fa I(2) scheduler_root.hyps(8) in \<open>auto simp: set_scheduler_fiber_def split: if_splits\<close>)
next
  case (resume_begins sw t s p f m g ab s')
  then show ?case by (intro switch_inv_enter)
next
  case (yield_begins sw t s p ab s')
  note I = switch_invD [OF yield_begins.prems]
  have "executing (settled s sw) t = Body p" using yield_begins.hyps by simp
  from running_leaves [OF I(1) this] obtain f m g where f: "fiber_at s p = Some f" "m_stack f" "ctx f = Body p"
    "main_of t f s = Some m" "fiber_at s m = Some g" "m \<noteq> p" "m_stack g \<Longrightarrow> m_state g = RUNNING" "m_state f = RUNNING"
    using fiber_inv_body [OF I(1) \<open>executing (settled s sw) t = Body p\<close>] by (metis option.inject settled_simps(1,6))
  have "ab = (p, m)" "s' = s\<lparr>t_fiber := (t_fiber s)(t := t_thread_fiber s t), fiber_at := (fiber_at s)(p \<mapsto> f\<lparr>m_state := READY\<rparr>)\<rparr>"
    using yield_begins.hyps(3) f by (auto simp: fiber_begin_defs split: if_splits)
  moreover have "switch_inv s' (sw(t \<mapsto> (p, m)))"
    by (rule switch_inv_leave [OF yield_begins.prems yield_begins.hyps(1,2) f(1,4-6) _ _ _ f(7) calculation(2)])
      (use f(2,3) in simp_all)
  ultimately show ?case by (simp only:)
next
  case (end_begins sw t s p s1 ab s')
  note I = switch_invD [OF end_begins.prems]
  have "executing (settled s sw) t = Body p" using end_begins.hyps by simp
  from running_leaves [OF I(1) this] obtain f m g where f: "fiber_at s p = Some f" "m_stack f" "ctx f = Body p"
    "main_of t f s = Some m" "fiber_at s m = Some g" "m \<noteq> p" "m_stack g \<Longrightarrow> m_state g = RUNNING"
    by (metis settled_simps(1,6))
  let ?f = "f\<lparr>fiber_cb := None, m_state := TERM_STATE\<rparr>"
  have "ab = (p, m)" "s' = s\<lparr>t_fiber := (t_fiber s)(t := t_thread_fiber s t), fiber_at := (fiber_at s)(p \<mapsto> ?f)\<rparr>"
    using end_begins.hyps(3,4) f by (auto simp: fiber_begin_defs split: if_splits)
  moreover have "switch_inv s' (sw(t \<mapsto> (p, m)))"
    by (rule switch_inv_leave [OF end_begins.prems end_begins.hyps(1,2) f(1,4-6) _ _ _ f(7) calculation(2)])
      (use f(2,3) in simp_all)
  ultimately show ?case by (simp only:)
next
  case (switched sw t a b s s')
  then show ?case by (intro switch_inv_switched)
next
  case (reused s p cb s' sw)
  note I = switch_invD [OF reused.prems]
  obtain f where f: "fiber_at s p = Some f" "m_stack f"
    and s': "s' = set_fiber p (f\<lparr>fiber_cb := Some cb, ctx := Body p, m_state := READY\<rparr>) s"
    using reused.hyps(2) by (auto simp: fiber_reset_def split: option.splits if_splits)
  have c: "ctx f = Body p" using fiber_invD(1) [OF I(1), of p f] f by simp
  have fa: "flow_after s' sw = flow_after s sw" by (rule flow_after_cong) (use s' f c in \<open>auto simp: set_fiber_def\<close>)
  then have "fiber_reset p cb (settled s sw) = (Inr (), settled s' sw)"
    unfolding settled_def fa using reused.hyps(2) f s'
    by (auto simp: fiber_reset_def set_fiber_def split: if_splits)
  then have w: "whole_step (settled s sw) (settled s' sw)" by (rule w_reused)
  show ?case
    by (intro switch_inv_same [OF reused.prems w]) (use fa I(2) s' f c in \<open>auto simp: set_fiber_def\<close>)
next
  case (destroyed s p f t s' sw)
  note I = switch_invD [OF destroyed.prems]
  have c: "ctx f = Body p" using fiber_invD(1) [OF I(1), of p f] destroyed.hyps(2,3) by simp
  have over: "m_state f = TERM_STATE"
    and s': "s' = s\<lparr>s_fiber_count := s_fiber_count s - 1, fiber_at := (fiber_at s)(p := None)\<rparr>"
    using destroyed.hyps(2,3,5) by (auto simp: fiber_destruct_def Let_def split: if_splits)
  have b: "b \<noteq> p" if "sw u = Some (a, b)" for u a b
  proof
    assume "b = p"
    then have "flow_after s sw u = Body p" using that destroyed.hyps(2) c by (simp add: flow_after_def)
    then have "executing (settled s sw) u = Body p" by simp
    from fiber_inv_body [OF I(1) this] show False using destroyed.hyps(2) over by (metis State.distinct(5) option.inject settled_simps(1))
  qed
  have fa: "flow_after s' sw = flow_after s sw" by (rule flow_after_cong) (use s' b in auto)
  then have "fiber_destruct t p (settled s sw) = (Inr (), settled s' sw)"
    unfolding settled_def fa using destroyed.hyps(2,3) over s' by (simp add: fiber_destruct_def)
  then have w: "whole_step (settled s sw) (settled s' sw)"
    by (intro w_destroyed [where p = p and f = f and t = t]) (use destroyed.hyps in simp_all)
  show ?case
    by (intro switch_inv_same [OF destroyed.prems w])
      (use fa I(2) s' b c destroyed.hyps(1,2) in \<open>auto split: if_splits\<close>)
qed


lemma fiber_reachable_inv: "fiber_reachable s sw \<Longrightarrow> switch_inv s sw"
  by (induction rule: fiber_reachable.induct) (blast intro: switch_inv_init fiber_step_inv)+

section \<open>The properties of fibers\<close>

text \<open>A thread with its first fiber at 1, which schedules, and a fiber of a client at 2.\<close>

definition two_fibers :: "unit fiber_sys" where
  "two_fibers = Fiber 2 () 0 True
     (set_scheduler_fiber 0 1 (snd (Fiber_GetThis 0 1 fiber_sys_init)))"


lemma two_fibers_can_resume: "can_resume 0 2 1 two_fibers"
  by (simp add: two_fibers_def can_resume_def Fiber_def fiber_sys_init_def Fiber_GetThis_def
      Fiber_main_def fiber_defs set_scheduler_fiber_def)

lemma leaving_succeeds:
  assumes "switch_inv s sw" "executing s t = Body p" "sw t = None"
  shows "\<exists>f ab ab' s1 s2 s3. fiber_at s p = Some f \<and> m_state f = RUNNING \<and> yield_begin t p s = (Inr ab, s1)
    \<and> MainFunc_term p s = (Inr (), s2) \<and> yield_begin t p s2 = (Inr ab', s3)"
proof -
  note I = switch_invD [OF assms(1)]
  have "executing (settled s sw) t = Body p" using assms(2,3) by simp
  from fiber_inv_body [OF I(1) this] obtain f m g where "fiber_at s p = Some f" "m_state f = RUNNING"
    "main_of t f s = Some m" by (metis settled_simps(1,6))
  then show ?thesis by (auto simp: fiber_begin_defs split: if_splits)
qed



text \<open>
  Resuming a ready fiber and yielding from it, or ending its function, brings the thread back to
  the flow that resumed it, with every other fiber as it was; the fiber is then ready again with its
  callback, or terminated without one. A terminated fiber cannot be resumed, can be reset, and is the
  only kind of fiber with a stack that can be destroyed.
\<close>

theorem resume_returns:
  assumes "can_resume t p m s"
  shows "\<exists>s1 s2 s3. resume t p s = (Inr (), s1) \<and> executing s1 t = Body p \<and> t_fiber s1 t = Some p
    \<and> yield t p s1 = (Inr (), s2) \<and> MainFunc_end t p s1 = (Inr (), s3)
    \<and> executing s2 = executing s \<and> executing s3 = executing s
    \<and> (\<forall>q. q \<noteq> p \<longrightarrow> q \<noteq> m \<longrightarrow> fiber_at s2 q = fiber_at s q \<and> fiber_at s3 q = fiber_at s q)
    \<and> map_option m_state (fiber_at s2 p) = Some READY
    \<and> map_option fiber_cb (fiber_at s2 p) = map_option fiber_cb (fiber_at s p)
    \<and> map_option m_state (fiber_at s3 p) = Some TERM_STATE
    \<and> map_option fiber_cb (fiber_at s3 p) = Some None
    \<and> fst (resume t p s3) = Inl AssertFailed"
proof -
  note r = resume_step [OF assms] and y = yield_back [OF assms] and f = finish_back [OF assms]
  from assms have pm: "p \<noteq> m" "fiber_at s p \<noteq> None" by (auto simp: can_resume_def)
  show ?thesis
    by (rule exI [of _ "inside_of t p m s"],
        rule exI [of _ "back_from t p m READY (fiber_cb (the (fiber_at s p))) s"],
        rule exI [of _ "back_from t p m TERM_STATE None s"])
      (use pm in \<open>auto simp: r y f, auto simp: inside_of_def back_from_def resume_def resume_begin_def\<close>)
qed

theorem resume_returns_witness:
  "\<exists>s1 s3. resume 0 2 two_fibers = (Inr (), s1) \<and> MainFunc_end 0 2 s1 = (Inr (), s3)
    \<and> fst (resume 0 2 s3) = Inl AssertFailed"
  using resume_returns [OF two_fibers_can_resume] by blast

section \<open>Where the code falls short\<close>

text \<open>
  \<^verbatim>\<open>Scheduler::run\<close> skips the fibers in the state \<open>RUNNING\<close> only, and \<^verbatim>\<open>yield\<close> has set the state to \<open>READY\<close> when it
  begins to store the context: a fiber that waits for an event, whose event comes between the two, is resumed by another
  thread on a stack the first is still on. The step that is ruled out above then is possible, and has two threads run
  the same fiber.
\<close>

lemma resumed_while_leaving:
  assumes "fiber_reachable s sw" "sw t = Some (p, b)" "executing s t = Body p" "fiber_at s p = Some f"
    "m_state f = READY" "u \<noteq> t" "main_of u f s = Some m" "fiber_at s m = Some g" "m \<noteq> p"
  shows "\<exists>s1. resume u p s = (Inr (), s1) \<and> executing s1 u = Body p \<and> executing s1 t = Body p"
proof -
  note I = switch_invD [OF fiber_reachable_inv [OF assms(1)]]
  have "m_stack f" using on_own_stack(1) [OF fiber_reachable_inv [OF assms(1)] assms(3)] assms(4) by auto
  then have "ctx f = Body p" using fiber_invD(1) [OF I(1), of p f] assms(4) by simp
  then have "can_resume u p m s" using assms(4-9) by (auto simp: can_resume_def)
  from resume_step [OF this] show ?thesis using assms(3,6) by (simp add: inside_of_def)
qed

text \<open>Such a state is reached when a fiber yields and has not switched yet.\<close>

lemma ready_before_switch:
  assumes "fiber_reachable s sw" "sw t = None" "executing s t = Body p"
  shows "\<exists>f m s'. yield_begin t p s = (Inr (p, m), s') \<and> fiber_reachable s' (sw(t \<mapsto> (p, m)))
    \<and> executing s' t = Body p \<and> fiber_at s' p = Some f \<and> m_state f = READY"
proof -
  obtain f ab s' where f: "fiber_at s p = Some f" "m_state f = RUNNING" and y: "yield_begin t p s = (Inr ab, s')"
    using leaving_succeeds [OF fiber_reachable_inv [OF assms(1)] assms(3,2)] by blast
  from y f obtain m where m: "ab = (p, m)" "executing s' t = executing s t" "fiber_at s' p = Some (f\<lparr>m_state := READY\<rparr>)"
    by (auto simp: fiber_begin_defs split: if_splits option.splits)
  have "fiber_reachable s' (sw(t \<mapsto> ab))"
    by (rule fr_step [OF assms(1) fiber_step.yield_begins [where sw = sw and t = t, OF assms(2,3) y]])
  with y m assms(3) show ?thesis by auto
qed

text \<open>
  \<^verbatim>\<open>yield\<close> sets the thread's current fiber to its first one even when it switches to the scheduler's
  fiber: with \<^verbatim>\<open>use_caller\<close>, \<^verbatim>\<open>GetThis\<close> then names a fiber that is not running.
\<close>

lemma current_fiber_after_yield:
  assumes "can_resume t p r s" "t_thread_fiber s t = Some q" "q \<noteq> r" "executing s t = Body r"
  shows "\<exists>s1 s2. resume t p s = (Inr (), s1) \<and> yield t p s1 = (Inr (), s2)
    \<and> executing s2 t = Body r \<and> t_fiber s2 t = Some q"
  using resume_step [OF assms(1)] yield_back [OF assms(1)] assms(2,4)
  by (auto simp: back_from_def)

end
