(* ===== verification/Scheduler.thy ===== *)
theory Scheduler
  imports Fiber "HOL-Library.Multiset"
begin

text \<open>
  \<^verbatim>\<open>server/scheduler.h\<close> and \<^verbatim>\<open>server/scheduler.cc\<close>: the task queue, its operations, and the loop
  \<^verbatim>\<open>run\<close> of the worker threads as a step relation. What a thread does under the lock is one step. A
  task's function is a value of type \<open>'f\<close>, a fiber an address; the states of the fibers, which other
  threads may change, are an argument of the step that looks at them.
\<close>

section \<open>Tasks\<close>

record 'f task =
  task_fiber :: "nat option"
  task_cb :: "'f option"
  task_thread :: int

definition ScheduleTask :: "'f task" where
  "ScheduleTask = \<lparr>task_fiber = None, task_cb = None, task_thread = - 1\<rparr>"

definition ScheduleTask_fiber :: "nat option \<Rightarrow> int \<Rightarrow> 'f task" where
  "ScheduleTask_fiber f thr = \<lparr>task_fiber = f, task_cb = None, task_thread = thr\<rparr>"

text \<open>The overload for a pointer to a fiber pointer takes the fiber out of it.\<close>

definition ScheduleTask_swap :: "nat option \<Rightarrow> int \<Rightarrow> 'f task \<times> nat option" where
  "ScheduleTask_swap f thr = (\<lparr>task_fiber = f, task_cb = None, task_thread = thr\<rparr>, None)"

definition ScheduleTask_cb :: "'f option \<Rightarrow> int \<Rightarrow> 'f task" where
  "ScheduleTask_cb f thr = \<lparr>task_fiber = None, task_cb = f, task_thread = thr\<rparr>"

definition ScheduleTask_reset :: "'f task \<Rightarrow> 'f task" where
  "ScheduleTask_reset x = x\<lparr>task_fiber := None, task_cb := None, task_thread := - 1\<rparr>"

definition is_task :: "'f task \<Rightarrow> bool" where
  "is_task x \<longleftrightarrow> task_fiber x \<noteq> None \<or> task_cb x \<noteq> None"

section \<open>The scheduler\<close>

record 'f scheduler =
  m_threads :: "int list"
  m_tasks :: "'f task list"
  m_threadIds :: "int list"
  m_threadCount :: nat
  m_activeThreadCount :: nat
  m_idleThreadCount :: nat
  m_useCaller :: bool
  m_rootFiber :: "nat option"
  m_rootThread :: int
  m_stopping :: bool

datatype sched_error = SchedAssert

text \<open>
  \<open>owner\<close> says whether the thread has a scheduler already, \<open>tid\<close> is its id and \<open>root\<close> the address of
  the new root fiber.
\<close>

definition Scheduler :: "nat \<Rightarrow> bool \<Rightarrow> bool \<Rightarrow> int \<Rightarrow> nat \<Rightarrow> sched_error + 'f scheduler" where
  "Scheduler threads use_caller owner tid root =
     (if threads = 0 then Inl SchedAssert
      else if use_caller then
        (if owner then Inl SchedAssert
         else Inr \<lparr>m_threads = [], m_tasks = [], m_threadIds = [tid], m_threadCount = threads - 1,
                m_activeThreadCount = 0, m_idleThreadCount = 0, m_useCaller = True,
                m_rootFiber = Some root, m_rootThread = tid, m_stopping = False\<rparr>)
      else Inr \<lparr>m_threads = [], m_tasks = [], m_threadIds = [], m_threadCount = threads,
             m_activeThreadCount = 0, m_idleThreadCount = 0, m_useCaller = False,
             m_rootFiber = None, m_rootThread = - 1, m_stopping = False\<rparr>)"

definition scheduleNoLock :: "'f task \<Rightarrow> 'f scheduler \<Rightarrow> bool \<times> 'f scheduler" where
  "scheduleNoLock x s =
     (let need_tickle = (m_tasks s = [])
      in (need_tickle, if is_task x then s\<lparr>m_tasks := m_tasks s @ [x]\<rparr> else s))"

text \<open>\<^verbatim>\<open>schedule\<close>; the flag says that \<^verbatim>\<open>tickle\<close> is called afterwards.\<close>

definition schedule :: "'f task \<Rightarrow> 'f scheduler \<Rightarrow> bool \<times> 'f scheduler" where
  "schedule x s = scheduleNoLock x s"

text \<open>\<open>ids\<close> are the ids of the threads it creates.\<close>

definition start :: "int list \<Rightarrow> 'f scheduler \<Rightarrow> (sched_error + unit) \<times> 'f scheduler" where
  "start ids s =
     (if m_stopping s then (Inr (), s)
      else if m_threads s \<noteq> [] then (Inl SchedAssert, s)
      else (Inr (), s\<lparr>m_threads := take (m_threadCount s) ids,
                     m_threadIds := m_threadIds s @ take (m_threadCount s) ids\<rparr>))"

definition stopping :: "'f scheduler \<Rightarrow> bool" where
  "stopping s \<longleftrightarrow> m_stopping s \<and> m_tasks s = [] \<and> m_activeThreadCount s = 0"

definition hasIdleThreads :: "'f scheduler \<Rightarrow> bool" where
  "hasIdleThreads s \<longleftrightarrow> 0 < m_idleThreadCount s"

text \<open>
  \<^verbatim>\<open>stop\<close> up to the resumption of the root fiber and the joins: how often it calls \<^verbatim>\<open>tickle\<close>, and the
  threads to join. \<open>mine\<close> says whether the calling thread's scheduler is this one.
\<close>

definition stop :: "bool \<Rightarrow> 'f scheduler \<Rightarrow> (sched_error + nat \<times> int list) \<times> 'f scheduler" where
  "stop mine s =
     (if stopping s then (Inr (0, []), s)
      else
        let s1 = s\<lparr>m_stopping := True\<rparr>
        in if m_useCaller s1 \<noteq> mine then (Inl SchedAssert, s1)
           else (Inr (m_threadCount s1 + (if m_rootFiber s1 \<noteq> None then 1 else 0), m_threads s1),
                 s1\<lparr>m_threads := []\<rparr>))"

text \<open>
  The search of \<^verbatim>\<open>run\<close> through the tasks, on thread \<open>tid\<close>: the tasks it leaves before the one it
  takes, the task, those after it, and \<^verbatim>\<open>tickle_me\<close>.
\<close>

fun pick_task :: "(nat \<Rightarrow> State) \<Rightarrow> int \<Rightarrow> bool \<Rightarrow> 'f task list
    \<Rightarrow> sched_error + ('f task list \<times> 'f task option \<times> 'f task list \<times> bool)" where
  "pick_task st tid tickle_me [] = Inr ([], None, [], tickle_me)"
| "pick_task st tid tickle_me (x # xs) =
     (if task_thread x \<noteq> - 1 \<and> task_thread x \<noteq> tid then
        map_sum id (\<lambda>(ys, r). (x # ys, r)) (pick_task st tid True xs)
      else if \<not> is_task x then Inl SchedAssert
      else if (\<exists>p. task_fiber x = Some p \<and> st p = RUNNING) then
        map_sum id (\<lambda>(ys, r). (x # ys, r)) (pick_task st tid tickle_me xs)
      else Inr ([], Some x, xs, tickle_me \<or> xs \<noteq> []))"

text \<open>The step under the lock: the task taken, if any, and whether \<^verbatim>\<open>tickle\<close> is called.\<close>

definition take_task :: "(nat \<Rightarrow> State) \<Rightarrow> int \<Rightarrow> 'f scheduler
    \<Rightarrow> (sched_error + 'f task option \<times> bool) \<times> 'f scheduler" where
  "take_task st tid s =
     (case pick_task st tid False (m_tasks s) of
        Inl e \<Rightarrow> (Inl e, s)
      | Inr (ys, None, zs, tickle_me) \<Rightarrow> (Inr (None, tickle_me), s)
      | Inr (ys, Some x, zs, tickle_me) \<Rightarrow>
          (Inr (Some x, tickle_me),
           s\<lparr>m_tasks := ys @ zs, m_activeThreadCount := m_activeThreadCount s + 1\<rparr>))"

section \<open>The worker threads\<close>

text \<open>
  Where a thread is in \<^verbatim>\<open>run\<close>: at the head of the loop, in the task it has taken, in the idle fiber,
  or behind the loop. \<open>idle_term\<close> says that its idle fiber is in the state \<^verbatim>\<open>TERM\<close>.
\<close>

datatype 'f worker = Looping | Working "'f task" | Idling | Exited

record 'f pool =
  sched :: "'f scheduler"
  worker :: "int \<Rightarrow> 'f worker"
  idle_term :: "int \<Rightarrow> bool"

text \<open>A step of \<^verbatim>\<open>run\<close> on thread \<open>t\<close>, or of a client; \<open>submitted\<close> and \<open>finished\<close> record the tasks.\<close>

inductive pool_step :: "'f pool \<Rightarrow> 'f task multiset \<Rightarrow> 'f task multiset \<Rightarrow> 'f pool \<Rightarrow> bool" where
  submit: "schedule x (sched p) = (tickle, s')
    \<Longrightarrow> pool_step p (if is_task x then {#x#} else {#}) {#} (p\<lparr>sched := s'\<rparr>)"
| take_one: "worker p t = Looping \<Longrightarrow> take_task st t (sched p) = (Inr (Some x, tickle), s')
    \<Longrightarrow> pool_step p {#} {#} (p\<lparr>sched := s', worker := (worker p)(t := Working x)\<rparr>)"
| go_idle: "worker p t = Looping \<Longrightarrow> take_task st t (sched p) = (Inr (None, tickle), s')
    \<Longrightarrow> \<not> idle_term p t
    \<Longrightarrow> pool_step p {#} {#} (p\<lparr>sched := s'\<lparr>m_idleThreadCount := m_idleThreadCount s' + 1\<rparr>,
          worker := (worker p)(t := Idling)\<rparr>)"
| leave: "worker p t = Looping \<Longrightarrow> take_task st t (sched p) = (Inr (None, tickle), s')
    \<Longrightarrow> idle_term p t
    \<Longrightarrow> pool_step p {#} {#} (p\<lparr>sched := s', worker := (worker p)(t := Exited)\<rparr>)"
| task_back: "worker p t = Working x
    \<Longrightarrow> pool_step p {#} {#x#} (p\<lparr>sched := (sched p)\<lparr>m_activeThreadCount := m_activeThreadCount (sched p) - 1\<rparr>,
          worker := (worker p)(t := Looping)\<rparr>)"
| idle_back: "worker p t = Idling
    \<Longrightarrow> pool_step p {#} {#} (p\<lparr>sched := (sched p)\<lparr>m_idleThreadCount := m_idleThreadCount (sched p) - 1\<rparr>,
          worker := (worker p)(t := Looping)\<rparr>)"
| idle_done: "worker p t = Idling \<Longrightarrow> stopping (sched p)
    \<Longrightarrow> pool_step p {#} {#} (p\<lparr>sched := (sched p)\<lparr>m_idleThreadCount := m_idleThreadCount (sched p) - 1\<rparr>,
          worker := (worker p)(t := Looping), idle_term := (idle_term p)(t := True)\<rparr>)"
| stop_called: "stop mine (sched p) = (r, s') \<Longrightarrow> pool_step p {#} {#} (p\<lparr>sched := s'\<rparr>)"
| start_called: "start ids (sched p) = (r, s') \<Longrightarrow> pool_step p {#} {#} (p\<lparr>sched := s'\<rparr>)"

inductive_cases pool_stepE: "pool_step p a b p'"

text \<open>Runs, with all tasks submitted and all tasks finished.\<close>

inductive pool_run :: "'f pool \<Rightarrow> 'f task multiset \<Rightarrow> 'f task multiset \<Rightarrow> bool" where
  pr_init: "Scheduler threads use_caller owner tid root = Inr s
    \<Longrightarrow> pool_run \<lparr>sched = s, worker = (\<lambda>_. Looping), idle_term = (\<lambda>_. False)\<rparr> {#} {#}"
| pr_step: "pool_run p sub fin \<Longrightarrow> pool_step p a b p' \<Longrightarrow> pool_run p' (sub + a) (fin + b)"

section \<open>The search\<close>

definition eligible :: "(nat \<Rightarrow> State) \<Rightarrow> int \<Rightarrow> 'f task \<Rightarrow> bool" where
  "eligible st tid x \<longleftrightarrow> (task_thread x = - 1 \<or> task_thread x = tid)
     \<and> (\<forall>p. task_fiber x = Some p \<longrightarrow> st p \<noteq> RUNNING)"

text \<open>The first task that is eligible is taken; the others stay in their order.\<close>

lemma pick_task_spec:
  assumes "\<forall>x \<in> set xs. is_task x"
  shows "pick_task st tid b xs =
    (case dropWhile (\<lambda>x. \<not> eligible st tid x) xs of
       [] \<Rightarrow> Inr (xs, None, [], b \<or> (\<exists>x \<in> set xs. task_thread x \<noteq> - 1 \<and> task_thread x \<noteq> tid))
     | x # zs \<Rightarrow> Inr (takeWhile (\<lambda>x. \<not> eligible st tid x) xs, Some x, zs,
         b \<or> zs \<noteq> [] \<or> (\<exists>y \<in> set (takeWhile (\<lambda>x. \<not> eligible st tid x) xs).
            task_thread y \<noteq> - 1 \<and> task_thread y \<noteq> tid)))"
  using assms
proof (induction xs arbitrary: b)
  case Nil
  then show ?case by simp
next
  case (Cons x xs)
  have x: "is_task x" and xs: "\<forall>y \<in> set xs. is_task y" using Cons.prems by simp_all
  note ih = Cons.IH [OF xs, of True] Cons.IH [OF xs, of b]
  consider (el) "eligible st tid x" | (other) "\<not> eligible st tid x" "task_thread x \<noteq> - 1 \<and> task_thread x \<noteq> tid"
    | (running) "\<not> eligible st tid x" "\<not> (task_thread x \<noteq> - 1 \<and> task_thread x \<noteq> tid)"
      "\<exists>p. task_fiber x = Some p \<and> st p = RUNNING"
    by (auto simp: eligible_def)
  then show ?case
  proof cases
    case el
    then have "\<not> (task_thread x \<noteq> - 1 \<and> task_thread x \<noteq> tid)"
      "\<not> (\<exists>p. task_fiber x = Some p \<and> st p = RUNNING)"
      by (auto simp: eligible_def)
    then have "pick_task st tid b (x # xs) = Inr ([], Some x, xs, b \<or> xs \<noteq> [])"
      using x by (simp only: pick_task.simps if_False not_True_eq_False)
    then show ?thesis using el by simp
  next
    case other
    then have "pick_task st tid b (x # xs) = map_sum id (\<lambda>(ys, r). (x # ys, r)) (pick_task st tid True xs)"
      by simp
    then show ?thesis
      using other ih(1)
      by (cases "dropWhile (\<lambda>x. \<not> eligible st tid x) xs") (auto simp del: dropWhile_eq_Nil_conv)
  next
    case running
    then have "pick_task st tid b (x # xs) = map_sum id (\<lambda>(ys, r). (x # ys, r)) (pick_task st tid b xs)"
      using x by (simp only: pick_task.simps if_False if_True not_True_eq_False)
    then show ?thesis
      using running ih(2)
      by (cases "dropWhile (\<lambda>x. \<not> eligible st tid x) xs") (auto simp del: dropWhile_eq_Nil_conv)
  qed
qed

lemma take_task_cases:
  assumes "\<forall>x \<in> set (m_tasks s). is_task x" "take_task st tid s = (r, s')"
  obtains (none) tk where "r = Inr (None, tk)" "s' = s" "\<forall>x \<in> set (m_tasks s). \<not> eligible st tid x"
  | (some) ys x zs tk where "r = Inr (Some x, tk)" "m_tasks s = ys @ x # zs" "eligible st tid x"
    "\<forall>y \<in> set ys. \<not> eligible st tid y"
    "s' = s\<lparr>m_tasks := ys @ zs, m_activeThreadCount := m_activeThreadCount s + 1\<rparr>"
proof (cases "dropWhile (\<lambda>x. \<not> eligible st tid x) (m_tasks s)")
  case Nil
  then show thesis
    using assms none by (auto simp: take_task_def pick_task_spec [OF assms(1)] simp flip: dropWhile_eq_Nil_conv)
next
  case (Cons x zs)
  let ?ys = "takeWhile (\<lambda>x. \<not> eligible st tid x) (m_tasks s)"
  have "m_tasks s = ?ys @ x # zs" using Cons by (metis takeWhile_dropWhile_id)
  moreover have "eligible st tid x" using Cons hd_dropWhile [of "\<lambda>x. \<not> eligible st tid x" "m_tasks s"] by auto
  moreover have "\<forall>y \<in> set ?ys. \<not> eligible st tid y" by (auto dest: set_takeWhileD)
  moreover have "s' = s\<lparr>m_tasks := ?ys @ zs, m_activeThreadCount := m_activeThreadCount s + 1\<rparr>"
    "\<exists>tk. r = Inr (Some x, tk)"
    using assms(2) Cons by (auto simp: take_task_def pick_task_spec [OF assms(1)])
  ultimately show thesis using some by blast
qed

section \<open>The invariant of the pool\<close>

definition working :: "'f pool \<Rightarrow> int set" where
  "working p = {t. \<exists>x. worker p t = Working x}"

definition in_hand :: "'f worker \<Rightarrow> 'f task" where
  "in_hand w = (case w of Working x \<Rightarrow> x | _ \<Rightarrow> ScheduleTask)"

definition pool_inv :: "'f pool \<Rightarrow> 'f task multiset \<Rightarrow> 'f task multiset \<Rightarrow> bool" where
  "pool_inv p sub fin \<longleftrightarrow> (\<forall>x \<in> set (m_tasks (sched p)). is_task x)
     \<and> finite (working p) \<and> m_activeThreadCount (sched p) = card (working p)
     \<and> finite {t. worker p t = Idling} \<and> m_idleThreadCount (sched p) = card {t. worker p t = Idling}
     \<and> sub = mset (m_tasks (sched p)) + image_mset (\<lambda>t. in_hand (worker p t)) (mset_set (working p)) + fin
     \<and> (\<forall>t x. worker p t = Working x \<longrightarrow> task_thread x = - 1 \<or> task_thread x = t)
     \<and> (\<forall>t. worker p t = Exited \<longrightarrow> idle_term p t)
     \<and> (\<forall>t. idle_term p t \<longrightarrow> m_stopping (sched p))"

lemma pool_invD:
  assumes "pool_inv p sub fin"
  shows "\<forall>x \<in> set (m_tasks (sched p)). is_task x" "finite (working p)"
    "m_activeThreadCount (sched p) = card (working p)" "finite {t. worker p t = Idling}"
    "m_idleThreadCount (sched p) = card {t. worker p t = Idling}"
    "sub = mset (m_tasks (sched p)) + image_mset (\<lambda>t. in_hand (worker p t)) (mset_set (working p)) + fin"
    "worker p t = Working x \<Longrightarrow> task_thread x = - 1 \<or> task_thread x = t"
    "worker p t = Exited \<Longrightarrow> idle_term p t" "idle_term p t \<Longrightarrow> m_stopping (sched p)"
  using assms unfolding pool_inv_def by blast+

lemma in_hand_other:
  "t \<notin> A \<Longrightarrow> image_mset (\<lambda>u. in_hand ((w(t := y)) u)) (mset_set A) = image_mset (\<lambda>u. in_hand (w u)) (mset_set A)"
  by (cases "finite A") (auto intro!: image_mset_cong)

end
