(* ===== verification/SchedulerProps.thy ===== *)
theory SchedulerProps
  imports Scheduler
begin

text \<open>
  The invariant of the worker pool, step by step, and the properties of the scheduler: every task
  submitted is queued, in the hands of one worker or finished; the counters count; a scheduler that
  may stop has finished every task.
\<close>

section \<open>Every step keeps the invariant\<close>

lemma working_upd:
  "working (p\<lparr>sched := s, worker := (worker p)(t := w)\<rparr>)
     = (if \<exists>x. w = Working x then insert t (working p) else working p - {t})"
  by (auto simp: working_def)

lemma idling_upd:
  "{u. ((worker p)(t := w)) u = Idling}
     = (if w = Idling then insert t {u. worker p u = Idling} else {u. worker p u = Idling} - {t})"
  by auto

text \<open>A worker without a task takes one, or changes between looping, idling and gone.\<close>

lemma pool_inv_take:
  assumes "pool_inv p sub fin" "worker p t = Looping" "m_tasks (sched p) = ys @ x # zs"
    "task_thread x = - 1 \<or> task_thread x = t"
    "s' = (sched p)\<lparr>m_tasks := ys @ zs, m_activeThreadCount := m_activeThreadCount (sched p) + 1\<rparr>"
  shows "pool_inv (p\<lparr>sched := s', worker := (worker p)(t := Working x)\<rparr>) sub fin"
proof -
  note inv = pool_invD [OF assms(1)]
  have t: "t \<notin> working p" "t \<notin> {u. worker p u = Idling}" using assms(2) by (auto simp: working_def)
  let ?p = "p\<lparr>sched := s', worker := (worker p)(t := Working x)\<rparr>"
  have w: "working ?p = insert t (working p)" by (simp add: working_upd)
  have hand: "image_mset (\<lambda>u. in_hand (worker ?p u)) (mset_set (working ?p))
      = add_mset x (image_mset (\<lambda>u. in_hand (worker p u)) (mset_set (working p)))"
    using t(1) inv(2) in_hand_other [OF t(1), of "worker p" "Working x"] unfolding w
    by (simp add: in_hand_def [of "Working x"])
  have i: "{u. worker ?p u = Idling} = {u. worker p u = Idling}" using assms(2) by auto
  show ?thesis
    unfolding pool_inv_def hand i unfolding w
    using inv assms(2-5) t(1) by auto
qed

lemma pool_inv_move:
  assumes "pool_inv p sub fin" "worker p t = w" "\<forall>x. w \<noteq> Working x" "\<forall>x. w' \<noteq> Working x"
    "m_tasks s' = m_tasks (sched p)" "m_activeThreadCount s' = m_activeThreadCount (sched p)"
    "m_idleThreadCount s' = (if w' = Idling then 1 else 0) + m_idleThreadCount (sched p)
       - (if w = Idling then 1 else 0)" "w = Idling \<longrightarrow> w' \<noteq> Idling"
    "m_stopping s' = m_stopping (sched p)"
    "\<And>u. it u \<longleftrightarrow> idle_term p u \<or> (u = t \<and> fresh)" "fresh \<longrightarrow> m_stopping (sched p)"
    "w' = Exited \<longrightarrow> idle_term p t"
  shows "pool_inv (p\<lparr>sched := s', worker := (worker p)(t := w'), idle_term := it\<rparr>) sub fin"
proof -
  note inv = pool_invD [OF assms(1)]
  let ?p = "p\<lparr>sched := s', worker := (worker p)(t := w'), idle_term := it\<rparr>"
  have t: "t \<notin> working p" using assms(2,3) by (auto simp: working_def)
  have w: "working ?p = working p" using assms(2-4) by (auto simp: working_def)
  have hand: "image_mset (\<lambda>u. in_hand (worker ?p u)) (mset_set (working p))
      = image_mset (\<lambda>u. in_hand (worker p u)) (mset_set (working p))"
    using in_hand_other [OF t, of "worker p" w'] by simp
  have cnt: "card {u. worker ?p u = Idling} = m_idleThreadCount s'" "finite {u. worker ?p u = Idling}"
  proof -
    have eq: "{u. worker ?p u = Idling} = (if w' = Idling then insert t {u. worker p u = Idling}
        else {u. worker p u = Idling} - {t})"
      using idling_upd [of p t w'] by simp
    show "finite {u. worker ?p u = Idling}" unfolding eq using inv(4) by simp
    show "card {u. worker ?p u = Idling} = m_idleThreadCount s'"
      unfolding eq using assms(2,7,8) inv(4,5) by (auto simp: card_insert_if)
  qed
  show ?thesis
    unfolding pool_inv_def w hand
    using inv(1-3,6-9) assms(4-6,9-12) cnt by (auto split: if_splits)
qed

lemma pool_inv_same_tasks:
  assumes "pool_inv p sub fin" "m_tasks s' = m_tasks (sched p)"
    "m_activeThreadCount s' = m_activeThreadCount (sched p)"
    "m_idleThreadCount s' = m_idleThreadCount (sched p)" "m_stopping (sched p) \<longrightarrow> m_stopping s'"
  shows "pool_inv (p\<lparr>sched := s'\<rparr>) sub fin"
  using assms unfolding pool_inv_def working_def by auto

lemma pool_step_inv:
  assumes "pool_step p a b p'" "pool_inv p sub fin"
  shows "pool_inv p' (sub + a) (fin + b)"
  using assms
proof cases
  case (submit x tickle s')
  note inv = pool_invD [OF assms(2)]
  have "working (p\<lparr>sched := s'\<rparr>) = working p" by (simp add: working_def)
  then show ?thesis
    using submit inv by (auto simp: pool_inv_def schedule_def scheduleNoLock_def Let_def split: if_splits)
next
  case (take_one t st x tickle s')
  from take_task_cases [OF pool_invD(1) [OF assms(2)] take_one(5)] obtain ys zs where
    "m_tasks (sched p) = ys @ x # zs" "eligible st t x"
    "s' = (sched p)\<lparr>m_tasks := ys @ zs, m_activeThreadCount := m_activeThreadCount (sched p) + 1\<rparr>"
    by cases auto
  then show ?thesis
    using take_one pool_inv_take [OF assms(2) take_one(4)] by (auto simp: eligible_def)
next
  case (go_idle t st tickle s')
  have "s' = sched p"
    using take_task_cases [OF pool_invD(1) [OF assms(2)] go_idle(5)] by cases auto
  then show ?thesis
    using go_idle(1-3) pool_inv_move [OF assms(2) go_idle(4), of Idling
        "s'\<lparr>m_idleThreadCount := m_idleThreadCount s' + 1\<rparr>" "idle_term p" False] by simp
next
  case (leave t st tickle s')
  have "s' = sched p"
    using take_task_cases [OF pool_invD(1) [OF assms(2)] leave(5)] by cases auto
  then show ?thesis
    using leave(1-3,6) pool_inv_move [OF assms(2) leave(4), of Exited s' "idle_term p" False] by simp
next
  case (task_back t x)
  note inv = pool_invD [OF assms(2)]
  have t: "t \<in> working p" using task_back by (auto simp: working_def)
  have w: "working p' = working p - {t}" using task_back by (auto simp: working_def)
  have wp: "mset_set (working p) = add_mset t (mset_set (working p - {t}))"
    using t inv(2) by (simp add: mset_set.remove)
  have "image_mset (\<lambda>u. in_hand (worker p' u)) (mset_set (working p - {t}))
      = image_mset (\<lambda>u. in_hand (worker p u)) (mset_set (working p - {t}))"
    using in_hand_other [of t "working p - {t}" "worker p" Looping] task_back by simp
  then have hand: "image_mset (\<lambda>u. in_hand (worker p u)) (mset_set (working p))
      = add_mset x (image_mset (\<lambda>u. in_hand (worker p' u)) (mset_set (working p')))"
    unfolding w wp using task_back by (simp add: in_hand_def)
  have i: "{u. worker p' u = Idling} = {u. worker p u = Idling}" using task_back by auto
  have "card (working p - {t}) = card (working p) - 1" using t inv(2) by simp
  then show ?thesis
    unfolding pool_inv_def i using inv hand w task_back by auto
next
  case (idle_back t)
  then show ?thesis
    using pool_inv_move [OF assms(2) idle_back(4), of Looping
        "(sched p)\<lparr>m_idleThreadCount := m_idleThreadCount (sched p) - 1\<rparr>" "idle_term p" False] by simp
next
  case (idle_done t)
  then show ?thesis
    using pool_inv_move [OF assms(2) idle_done(4), of Looping
        "(sched p)\<lparr>m_idleThreadCount := m_idleThreadCount (sched p) - 1\<rparr>"
        "(idle_term p)(t := True)" True]
    by (simp add: stopping_def)
next
  case (stop_called mine r s')
  then show ?thesis
    using assms(2) pool_inv_same_tasks [OF assms(2), of s']
    by (auto simp: stop_def Let_def split: if_splits)
next
  case (start_called ids r s')
  then show ?thesis
    using assms(2) pool_inv_same_tasks [OF assms(2), of s']
    by (auto simp: start_def split: if_splits)
qed

lemma pool_run_inv: "pool_run p sub fin \<Longrightarrow> pool_inv p sub fin"
proof (induction rule: pool_run.induct)
  case (pr_init threads use_caller owner tid root s)
  then show ?case by (auto simp: Scheduler_def pool_inv_def working_def split: if_splits)
next
  case (pr_step p sub fin a b p')
  show ?case by (rule pool_step_inv [OF pr_step.hyps(2) pr_step.IH])
qed

section \<open>The properties of the scheduler\<close>

text \<open>Two workers; a task is submitted and taken by the worker 5, for the witnesses.\<close>

definition sched0 :: "unit scheduler" where
  "sched0 = \<lparr>m_threads = [], m_tasks = [], m_threadIds = [], m_threadCount = 2,
     m_activeThreadCount = 0, m_idleThreadCount = 0, m_useCaller = False, m_rootFiber = None,
     m_rootThread = - 1, m_stopping = False\<rparr>"

definition pool0 :: "unit pool" where
  "pool0 = \<lparr>sched = sched0, worker = (\<lambda>_. Looping), idle_term = (\<lambda>_. False)\<rparr>"

definition pool1 :: "unit pool" where
  "pool1 = pool0\<lparr>sched := sched0\<lparr>m_tasks := [ScheduleTask_cb (Some ()) 5]\<rparr>\<rparr>"

definition pool2 :: "unit pool" where
  "pool2 = pool1\<lparr>sched := sched0\<lparr>m_activeThreadCount := 1\<rparr>,
     worker := (\<lambda>_. Looping)(5 := Working (ScheduleTask_cb (Some ()) 5))\<rparr>"

lemma pool0_run: "pool_run pool0 {#} {#}"
  using pr_init [of 2 False False 0 0 sched0] by (simp add: pool0_def sched0_def Scheduler_def)

lemma pool2_run: "pool_run pool2 {#ScheduleTask_cb (Some ()) 5#} {#}"
proof -
  let ?x = "ScheduleTask_cb (Some ()) 5 :: unit task"
  have "pool_step pool0 {#?x#} {#} pool1"
    using pool_step.submit [of ?x pool0 True "sched0\<lparr>m_tasks := [?x]\<rparr>"]
    by (simp add: pool1_def pool0_def sched0_def schedule_def scheduleNoLock_def is_task_def
        ScheduleTask_cb_def)
  from pr_step [OF pool0_run this] have run1: "pool_run pool1 {#?x#} {#}" by simp
  have "pool_step pool1 {#} {#} pool2"
    using pool_step.take_one [of pool1 5 "\<lambda>_. READY" ?x False "sched0\<lparr>m_activeThreadCount := 1\<rparr>"]
    by (simp add: pool2_def pool1_def pool0_def sched0_def take_task_def is_task_def ScheduleTask_cb_def)
  from pr_step [OF run1 this] show ?thesis by simp
qed

text \<open>
  C3. Whatever clients submit and however the workers interleave, every submitted task is in exactly one
  place: queued, in the hands of one worker, or finished, each as often as it was submitted. The two
  counters are the numbers of workers with a task and of idle workers, a task for a given thread is
  only ever in the hands of that thread, and taking a task never fails the assertion that it is one.
\<close>

theorem tasks_conserved:
  assumes "pool_run p submitted finished"
  shows "submitted = mset (m_tasks (sched p))
      + image_mset (\<lambda>t. in_hand (worker p t)) (mset_set (working p)) + finished
    \<and> m_activeThreadCount (sched p) = card {t. \<exists>x. worker p t = Working x}
    \<and> m_idleThreadCount (sched p) = card {t. worker p t = Idling}
    \<and> (\<forall>t x. worker p t = Working x \<longrightarrow> task_thread x = - 1 \<or> task_thread x = t)
    \<and> (\<forall>st t. fst (take_task st t (sched p)) \<noteq> Inl SchedAssert)"
proof -
  note inv = pool_invD [OF pool_run_inv [OF assms]]
  have "fst (take_task st t (sched p)) \<noteq> Inl SchedAssert" for st t
    using take_task_cases [OF inv(1), of st t] by (metis Inl_Inr_False prod.collapse)
  with inv show ?thesis by (simp add: working_def)
qed

theorem tasks_conserved_witness:
  "{#ScheduleTask_cb (Some ()) 5#} = mset (m_tasks (sched pool2))
      + image_mset (\<lambda>t. in_hand (worker pool2 t)) (mset_set (working pool2)) + {#}"
  using tasks_conserved [OF pool2_run] by blast

text \<open>
  C23. When \<^verbatim>\<open>stopping\<close> holds, every task submitted until then is finished, with none queued and none in
  hand; and a worker leaves its loop only in a scheduler that was told to stop.
\<close>

theorem stopping_means_done:
  assumes "pool_run p submitted finished"
  shows "(stopping (sched p) \<longrightarrow> submitted = finished \<and> m_tasks (sched p) = []
      \<and> (\<forall>t x. worker p t \<noteq> Working x))
    \<and> (\<forall>t. worker p t = Exited \<longrightarrow> m_stopping (sched p))"
proof -
  note inv = pool_invD [OF pool_run_inv [OF assms]]
  have "submitted = finished \<and> m_tasks (sched p) = [] \<and> (\<forall>t x. worker p t \<noteq> Working x)"
    if "stopping (sched p)"
  proof -
    have w: "working p = {}" and q: "m_tasks (sched p) = []"
      using that inv(2,3) by (simp_all add: stopping_def)
    moreover have "submitted = finished" using inv(6) unfolding w q by simp
    ultimately show ?thesis by (auto simp: working_def)
  qed
  then show ?thesis using inv(8,9) by blast
qed

theorem stopping_means_done_witness:
  "stopping (sched (pool0\<lparr>sched := sched0\<lparr>m_stopping := True\<rparr>\<rparr>))
    \<and> m_tasks (sched (pool0\<lparr>sched := sched0\<lparr>m_stopping := True\<rparr>\<rparr>)) = []"
proof -
  let ?p = "pool0\<lparr>sched := sched0\<lparr>m_stopping := True\<rparr>\<rparr>"
  have "pool_step pool0 {#} {#} ?p"
    by (rule pool_step.stop_called [of False _ "Inr (2, [])"])
      (simp add: pool0_def sched0_def stop_def stopping_def)
  from pr_step [OF pool0_run this] have "pool_run ?p {#} {#}" by simp
  from stopping_means_done [OF this] show ?thesis by (simp add: stopping_def sched0_def)
qed

text \<open>
  A worker takes the first queued task that is for it or for any thread and whose fiber is not
  running elsewhere; the other tasks keep their order; it finds none only when there is none. It calls
  \<^verbatim>\<open>tickle\<close> when tasks are left behind the one it took, or when it passed over a task for
  another thread.
\<close>

theorem first_eligible_task:
  assumes "\<forall>x \<in> set (m_tasks s). is_task x"
  shows "(\<exists>tk. take_task st t s = (Inr (None, tk), s) \<and> (\<forall>x \<in> set (m_tasks s). \<not> eligible st t x)
      \<and> (tk \<longleftrightarrow> (\<exists>x \<in> set (m_tasks s). task_thread x \<noteq> - 1 \<and> task_thread x \<noteq> t)))
    \<or> (\<exists>ys x zs tk. take_task st t s = (Inr (Some x, tk),
          s\<lparr>m_tasks := ys @ zs, m_activeThreadCount := m_activeThreadCount s + 1\<rparr>)
      \<and> m_tasks s = ys @ x # zs \<and> eligible st t x \<and> (\<forall>y \<in> set ys. \<not> eligible st t y)
      \<and> (tk \<longleftrightarrow> zs \<noteq> [] \<or> (\<exists>y \<in> set ys. task_thread y \<noteq> - 1 \<and> task_thread y \<noteq> t)))"
proof (cases "dropWhile (\<lambda>x. \<not> eligible st t x) (m_tasks s)")
  case Nil
  then have "\<forall>x \<in> set (m_tasks s). \<not> eligible st t x" by simp
  moreover have "pick_task st t False (m_tasks s) = Inr (m_tasks s, None, [],
      \<exists>x \<in> set (m_tasks s). task_thread x \<noteq> - 1 \<and> task_thread x \<noteq> t)"
    using pick_task_spec [OF assms, of st t False] unfolding Nil by simp
  then have "take_task st t s
      = (Inr (None, \<exists>x \<in> set (m_tasks s). task_thread x \<noteq> - 1 \<and> task_thread x \<noteq> t), s)"
    by (simp add: take_task_def)
  ultimately show ?thesis by (intro disjI1 exI conjI) (assumption | rule refl)+
next
  case (Cons x zs)
  let ?ys = "takeWhile (\<lambda>x. \<not> eligible st t x) (m_tasks s)"
  have "m_tasks s = ?ys @ x # zs" using Cons by (metis takeWhile_dropWhile_id)
  moreover have "eligible st t x" using Cons hd_dropWhile [of "\<lambda>x. \<not> eligible st t x" "m_tasks s"] by auto
  moreover have "\<forall>y \<in> set ?ys. \<not> eligible st t y" by (auto dest: set_takeWhileD)
  moreover have "take_task st t s = (Inr (Some x, zs \<noteq> []
      \<or> (\<exists>y \<in> set ?ys. task_thread y \<noteq> - 1 \<and> task_thread y \<noteq> t)),
      s\<lparr>m_tasks := ?ys @ zs, m_activeThreadCount := m_activeThreadCount s + 1\<rparr>)"
    using Cons by (simp add: take_task_def pick_task_spec [OF assms])
  ultimately show ?thesis by (intro disjI2) blast
qed

theorem first_eligible_task_witness:
  "\<exists>tk s'. take_task (\<lambda>_. READY) 3 (sched pool1) = (Inr (None, tk), s') \<and> tk"
  using first_eligible_task [of "sched pool1" "\<lambda>_. READY" 3]
  by (auto simp: pool1_def is_task_def ScheduleTask_cb_def eligible_def Cons_eq_append_conv)

end
