(* ===== verification/IOManager.thy ===== *)
theory IOManager
  imports Scheduler Timer
begin

text \<open>
  \<^verbatim>\<open>server/iomanager.h\<close> and \<^verbatim>\<open>server/iomanager.cc\<close>: the scheduler that waits for I/O. An
  \<^verbatim>\<open>FdContext\<close> is an address of the heap \<open>ctx_at\<close>; \<open>epoll\<close> is the interest list of the epoll
  instance, from the descriptor to the event mask and the pointer given with it. The kernel may refuse
  a call to \<^verbatim>\<open>epoll_ctl\<close> for reasons of its own (\<open>refuse\<close>); otherwise it behaves as
  documented. Schedulers are numbered, as an event is scheduled on the one its caller runs in.
\<close>

unbundle bit_operations_syntax

section \<open>The state\<close>

type_synonym Event = u32

definition NONE :: Event where "NONE = 0"
definition READ :: Event where "READ = 1"
definition WRITE :: Event where "WRITE = 4"

definition EPOLLIN :: u32 where "EPOLLIN = 1"
definition EPOLLOUT :: u32 where "EPOLLOUT = 4"
definition EPOLLERR :: u32 where "EPOLLERR = 8"
definition EPOLLHUP :: u32 where "EPOLLHUP = 16"
definition EPOLLET :: u32 where "EPOLLET = 0x80000000"

record 'f event_context =
  ec_scheduler :: "nat option"
  ec_fiber :: "nat option"
  ec_cb :: "'f callback option"

record 'f fd_context =
  ctx_read :: "'f event_context"
  ctx_write :: "'f event_context"
  ctx_fd :: nat
  events :: Event

record 'f iomanager =
  self :: nat
  scheds :: "nat \<Rightarrow> 'f callback scheduler"
  timers :: "'f timer_manager"
  m_pendingEventCount :: nat
  m_fdContexts :: "nat list"
  ctx_at :: "nat \<Rightarrow> 'f fd_context"
  ctx_next :: nat
  epoll :: "nat \<Rightarrow> (u32 \<times> nat) option"
  tickle_pipe :: nat

text \<open>A failed assertion, a null scheduler, an index outside the vector.\<close>

datatype io_error = IoAssert | NullScheduler | BadIndex

type_synonym ('f, 'a) io = "('f iomanager, io_error, 'a) sx"

definition empty_event :: "'f event_context" where
  "empty_event = \<lparr>ec_scheduler = None, ec_fiber = None, ec_cb = None\<rparr>"

definition new_fd_context :: "nat \<Rightarrow> 'f fd_context" where
  "new_fd_context fd = \<lparr>ctx_read = empty_event, ctx_write = empty_event, ctx_fd = fd, events = NONE\<rparr>"

section \<open>Event contexts\<close>

definition getEventContext :: "Event \<Rightarrow> 'f fd_context \<Rightarrow> io_error + 'f event_context" where
  "getEventContext event c =
     (if event = READ then Inr (ctx_read c)
      else if event = WRITE then Inr (ctx_write c)
      else Inl IoAssert)"

definition setEventContext :: "Event \<Rightarrow> 'f event_context \<Rightarrow> 'f fd_context \<Rightarrow> 'f fd_context" where
  "setEventContext event e c = (if event = READ then c\<lparr>ctx_read := e\<rparr> else c\<lparr>ctx_write := e\<rparr>)"

definition resetEventContext :: "'f event_context \<Rightarrow> 'f event_context" where
  "resetEventContext e = e\<lparr>ec_scheduler := None, ec_fiber := None, ec_cb := None\<rparr>"

text \<open>\<^verbatim>\<open>tickle\<close>: one byte into the pipe when a thread is idle.\<close>

definition io_tickle :: "'f iomanager \<Rightarrow> 'f iomanager" where
  "io_tickle s = (if \<not> hasIdleThreads (scheds s (self s)) then s
     else s\<lparr>tickle_pipe := tickle_pipe s + 1\<rparr>)"

definition onTimerInsertedAtFront :: "'f iomanager \<Rightarrow> 'f iomanager" where
  "onTimerInsertedAtFront s = io_tickle s"

text \<open>\<^verbatim>\<open>schedule\<close> on the scheduler \<open>k\<close>, whose \<^verbatim>\<open>tickle\<close> is this manager's when it is this one.\<close>

definition schedule_on :: "nat \<Rightarrow> 'f callback task \<Rightarrow> 'f iomanager \<Rightarrow> 'f iomanager" where
  "schedule_on k x s =
     (case schedule x (scheds s k) of (need_tickle, sc) \<Rightarrow>
        let s1 = s\<lparr>scheds := (scheds s)(k := sc)\<rparr>
        in if need_tickle \<and> k = self s then io_tickle s1 else s1)"

text \<open>The task an event stands for: its callback, else its fiber.\<close>

definition event_task :: "'f event_context \<Rightarrow> 'f callback task" where
  "event_task e = (if ec_cb e \<noteq> None then ScheduleTask_cb (ec_cb e) (- 1)
     else ScheduleTask_fiber (ec_fiber e) (- 1))"

definition triggerEvent :: "nat \<Rightarrow> Event \<Rightarrow> ('f, unit) io" where
  "triggerEvent a event s =
     (let c = ctx_at s a in
      if events c AND event = 0 then (Inl IoAssert, s)
      else
        let c1 = c\<lparr>events := events c AND NOT event\<rparr>;
            s1 = s\<lparr>ctx_at := (ctx_at s)(a := c1)\<rparr>
        in case getEventContext event c1 of
             Inl e \<Rightarrow> (Inl e, s1)
           | Inr ectx \<Rightarrow>
               (case ec_scheduler ectx of
                  None \<Rightarrow> (Inl NullScheduler, s1)
                | Some k \<Rightarrow>
                    let s2 = schedule_on k (event_task ectx) s1
                    in (Inr (), s2\<lparr>ctx_at := (ctx_at s2)
                          (a := setEventContext event (resetEventContext ectx) (ctx_at s2 a))\<rparr>)))"

section \<open>The kernel\<close>

datatype epoll_op = EPOLL_CTL_ADD | EPOLL_CTL_MOD | EPOLL_CTL_DEL

text \<open>\<^verbatim>\<open>epoll_ctl\<close>: whether it succeeds, and the interest list.\<close>

fun epoll_ctl :: "bool \<Rightarrow> epoll_op \<Rightarrow> nat \<Rightarrow> u32 \<times> nat
    \<Rightarrow> (nat \<Rightarrow> (u32 \<times> nat) option) \<Rightarrow> bool \<times> (nat \<Rightarrow> (u32 \<times> nat) option)" where
  "epoll_ctl refuse EPOLL_CTL_ADD fd ev ep =
     (if refuse \<or> ep fd \<noteq> None then (False, ep) else (True, ep(fd \<mapsto> ev)))"
| "epoll_ctl refuse EPOLL_CTL_MOD fd ev ep =
     (if refuse \<or> ep fd = None then (False, ep) else (True, ep(fd \<mapsto> ev)))"
| "epoll_ctl refuse EPOLL_CTL_DEL fd ev ep =
     (if refuse \<or> ep fd = None then (False, ep) else (True, ep(fd := None)))"

section \<open>Registering, deleting and cancelling\<close>

definition contextResize :: "nat \<Rightarrow> 'f iomanager \<Rightarrow> 'f iomanager" where
  "contextResize sz s =
     (let old = length (m_fdContexts s); k = sz - old
      in s\<lparr>m_fdContexts := take sz (m_fdContexts s) @ [ctx_next s ..< ctx_next s + k],
           ctx_at := (\<lambda>a. if ctx_next s \<le> a \<and> a < ctx_next s + k
                          then new_fd_context (old + (a - ctx_next s)) else ctx_at s a),
           ctx_next := ctx_next s + k\<rparr>)"

text \<open>The two critical sections in which \<^verbatim>\<open>addEvent\<close> finds the context.\<close>

definition addEvent_find :: "int \<Rightarrow> 'f iomanager \<Rightarrow> io_error + nat option" where
  "addEvent_find fd s =
     (if int (length (m_fdContexts s)) > fd then
        (if fd < 0 then Inl BadIndex else Inr (Some (m_fdContexts s ! nat fd)))
      else Inr None)"

definition addEvent_grow :: "int \<Rightarrow> ('f, nat) io" where
  "addEvent_grow fd s =
     (let s1 = contextResize (nat fd * 3 div 2) s
      in if nat fd < length (m_fdContexts s1) then (Inr (m_fdContexts s1 ! nat fd), s1)
         else (Inl BadIndex, s1))"

text \<open>
  The part under the context's lock. \<open>this_sched\<close> and \<open>this_fiber\<close> are the caller's scheduler and
  fiber; the code returns 0 or -1.
\<close>

definition addEvent_locked :: "bool \<Rightarrow> nat \<Rightarrow> nat \<Rightarrow> Event \<Rightarrow> 'f callback option \<Rightarrow> nat option \<Rightarrow> nat
    \<Rightarrow> ('f, int) io" where
  "addEvent_locked refuse a fd event cb this_sched this_fiber s =
     (let c = ctx_at s a in
      if events c AND event \<noteq> 0 then (Inl IoAssert, s)
      else
        let oper = (if events c \<noteq> 0 then EPOLL_CTL_MOD else EPOLL_CTL_ADD) in
        case epoll_ctl refuse oper fd (EPOLLET OR events c OR event, a) (epoll s) of
          (False, ep) \<Rightarrow> (Inr (- 1), s)
        | (True, ep) \<Rightarrow>
            let c1 = c\<lparr>events := events c OR event\<rparr>;
                s1 = s\<lparr>epoll := ep, m_pendingEventCount := m_pendingEventCount s + 1,
                       ctx_at := (ctx_at s)(a := c1)\<rparr>
            in case getEventContext event c1 of
                 Inl e \<Rightarrow> (Inl e, s1)
               | Inr ectx \<Rightarrow>
                   if ec_scheduler ectx \<noteq> None \<or> ec_fiber ectx \<noteq> None \<or> ec_cb ectx \<noteq> None
                   then (Inl IoAssert, s1)
                   else
                     let ctx1 = ectx\<lparr>ec_scheduler := this_sched\<rparr>;
                         ctx2 = (if cb \<noteq> None then ctx1\<lparr>ec_cb := cb\<rparr> else ctx1\<lparr>ec_fiber := Some this_fiber\<rparr>)
                     in (Inr 0, s1\<lparr>ctx_at := (ctx_at s1)(a := setEventContext event ctx2 c1)\<rparr>))"

definition addEvent :: "bool \<Rightarrow> int \<Rightarrow> Event \<Rightarrow> 'f callback option \<Rightarrow> nat option \<Rightarrow> nat \<Rightarrow> ('f, int) io" where
  "addEvent refuse fd event cb this_sched this_fiber s =
     (case addEvent_find fd s of
        Inl e \<Rightarrow> (Inl e, s)
      | Inr (Some a) \<Rightarrow> addEvent_locked refuse a (nat fd) event cb this_sched this_fiber s
      | Inr None \<Rightarrow>
          (case addEvent_grow fd s of
             (Inl e, s1) \<Rightarrow> (Inl e, s1)
           | (Inr a, s1) \<Rightarrow> addEvent_locked refuse a (nat fd) event cb this_sched this_fiber s1))"

text \<open>The context of a descriptor for the operations that do not create one.\<close>

definition find_context :: "int \<Rightarrow> 'f iomanager \<Rightarrow> io_error + nat option" where
  "find_context fd s =
     (if int (length (m_fdContexts s)) \<le> fd then Inr None
      else if fd < 0 then Inl BadIndex
      else Inr (Some (m_fdContexts s ! nat fd)))"

definition delEvent :: "bool \<Rightarrow> int \<Rightarrow> Event \<Rightarrow> ('f, bool) io" where
  "delEvent refuse fd event s =
     (case find_context fd s of
        Inl e \<Rightarrow> (Inl e, s)
      | Inr None \<Rightarrow> (Inr False, s)
      | Inr (Some a) \<Rightarrow>
          let c = ctx_at s a in
          if events c AND event = 0 then (Inr False, s)
          else
            let new_events = events c AND NOT event;
                oper = (if new_events \<noteq> 0 then EPOLL_CTL_MOD else EPOLL_CTL_DEL) in
            case epoll_ctl refuse oper (nat fd) (EPOLLET OR new_events, a) (epoll s) of
              (False, ep) \<Rightarrow> (Inr False, s)
            | (True, ep) \<Rightarrow>
                let c1 = c\<lparr>events := new_events\<rparr>;
                    s1 = s\<lparr>epoll := ep, m_pendingEventCount := m_pendingEventCount s - 1,
                           ctx_at := (ctx_at s)(a := c1)\<rparr>
                in case getEventContext event c1 of
                     Inl e \<Rightarrow> (Inl e, s1)
                   | Inr ectx \<Rightarrow>
                       (Inr True, s1\<lparr>ctx_at := (ctx_at s1)
                          (a := setEventContext event (resetEventContext ectx) c1)\<rparr>))"

definition cancelEvent :: "bool \<Rightarrow> int \<Rightarrow> Event \<Rightarrow> ('f, bool) io" where
  "cancelEvent refuse fd event s =
     (case find_context fd s of
        Inl e \<Rightarrow> (Inl e, s)
      | Inr None \<Rightarrow> (Inr False, s)
      | Inr (Some a) \<Rightarrow>
          let c = ctx_at s a in
          if events c AND event = 0 then (Inr False, s)
          else
            let new_events = events c AND NOT event;
                oper = (if new_events \<noteq> 0 then EPOLL_CTL_MOD else EPOLL_CTL_DEL) in
            case epoll_ctl refuse oper (nat fd) (EPOLLET OR new_events, a) (epoll s) of
              (False, ep) \<Rightarrow> (Inr False, s)
            | (True, ep) \<Rightarrow>
                (case triggerEvent a event (s\<lparr>epoll := ep\<rparr>) of
                   (Inl e, s1) \<Rightarrow> (Inl e, s1)
                 | (Inr u, s1) \<Rightarrow>
                     (Inr True, s1\<lparr>m_pendingEventCount := m_pendingEventCount s1 - 1\<rparr>)))"

text \<open>One event of several: trigger it when its bit is set.\<close>

definition trigger_if :: "bool \<Rightarrow> nat \<Rightarrow> Event \<Rightarrow> ('f, unit) io" where
  "trigger_if b a event s =
     (if b then
        (case triggerEvent a event s of
           (Inl e, s1) \<Rightarrow> (Inl e, s1)
         | (Inr u, s1) \<Rightarrow> (Inr u, s1\<lparr>m_pendingEventCount := m_pendingEventCount s1 - 1\<rparr>))
      else (Inr (), s))"

definition cancelAll :: "bool \<Rightarrow> int \<Rightarrow> ('f, bool) io" where
  "cancelAll refuse fd s =
     (case find_context fd s of
        Inl e \<Rightarrow> (Inl e, s)
      | Inr None \<Rightarrow> (Inr False, s)
      | Inr (Some a) \<Rightarrow>
          if events (ctx_at s a) = 0 then (Inr False, s)
          else
            case epoll_ctl refuse EPOLL_CTL_DEL (nat fd) (0, a) (epoll s) of
              (False, ep) \<Rightarrow> (Inr False, s)
            | (True, ep) \<Rightarrow>
                let s1 = s\<lparr>epoll := ep\<rparr> in
                case trigger_if (events (ctx_at s1 a) AND READ \<noteq> 0) a READ s1 of
                  (Inl e, s2) \<Rightarrow> (Inl e, s2)
                | (Inr u, s2) \<Rightarrow>
                    (case trigger_if (events (ctx_at s2 a) AND WRITE \<noteq> 0) a WRITE s2 of
                       (Inl e, s3) \<Rightarrow> (Inl e, s3)
                     | (Inr u, s3) \<Rightarrow>
                         if events (ctx_at s3 a) = 0 then (Inr True, s3) else (Inl IoAssert, s3)))"

section \<open>The idle fiber\<close>

text \<open>\<^verbatim>\<open>stopping\<close> with the timeout; \<open>now\<close> is the value of the clock.\<close>

definition io_stopping :: "u64 \<Rightarrow> 'f iomanager \<Rightarrow> (bool \<times> u64) \<times> 'f iomanager" where
  "io_stopping now s =
     (case getNextTimer now (timers s) of (timeout, tm) \<Rightarrow>
        ((timeout = - 1 \<and> m_pendingEventCount s = 0 \<and> stopping (scheds s (self s)), timeout),
         s\<lparr>timers := tm\<rparr>))"

text \<open>
  The timeout given to \<^verbatim>\<open>epoll_wait\<close>: \<^verbatim>\<open>std::min((int)next_timeout, MAX_TIMEOUT)\<close>, stored back
  into the 64-bit variable and converted to \<^verbatim>\<open>int\<close> again. A negative timeout waits without limit.
\<close>

definition MAX_TIMEOUT :: int where "MAX_TIMEOUT = 5000"

definition to_int32 :: "u64 \<Rightarrow> int" where
  "to_int32 t = sint (ucast t :: 32 word)"

definition epoll_timeout :: "u64 \<Rightarrow> int" where
  "epoll_timeout next_timeout =
     (let t = (if next_timeout \<noteq> - 1 then of_int (min (to_int32 next_timeout) MAX_TIMEOUT)
               else of_int MAX_TIMEOUT)
      in to_int32 t)"

text \<open>\<^verbatim>\<open>real_events\<close>, from the mask the kernel reports and the events registered.\<close>

definition real_events :: "u32 \<Rightarrow> Event \<Rightarrow> Event" where
  "real_events emask registered =
     (let emask1 = (if emask AND (EPOLLERR OR EPOLLHUP) \<noteq> 0
                    then emask OR ((EPOLLIN OR EPOLLOUT) AND registered) else emask)
      in (if emask1 AND EPOLLIN \<noteq> 0 then READ else NONE)
         OR (if emask1 AND EPOLLOUT \<noteq> 0 then WRITE else NONE))"

text \<open>One event of the array \<^verbatim>\<open>epoll_wait\<close> fills, for the context at \<open>a\<close>.\<close>

definition handle_event :: "bool \<Rightarrow> u32 \<times> nat \<Rightarrow> ('f, unit) io" where
  "handle_event refuse ev s =
     (case ev of (emask, a) \<Rightarrow>
      let c = ctx_at s a;
          real = real_events emask (events c)
      in if events c AND real = NONE then (Inr (), s)
         else
           let left_events = events c AND NOT real;
               oper = (if left_events \<noteq> 0 then EPOLL_CTL_MOD else EPOLL_CTL_DEL) in
           case epoll_ctl refuse oper (ctx_fd c) (EPOLLET OR left_events, a) (epoll s) of
             (False, ep) \<Rightarrow> (Inr (), s)
           | (True, ep) \<Rightarrow>
               (case trigger_if (real AND READ \<noteq> 0) a READ (s\<lparr>epoll := ep\<rparr>) of
                  (Inl e, s1) \<Rightarrow> (Inl e, s1)
                | (Inr u, s1) \<Rightarrow> trigger_if (real AND WRITE \<noteq> 0) a WRITE s1))"

text \<open>The array: \<open>None\<close> is the event of the pipe, which is read empty.\<close>

fun handle_events :: "(bool \<times> (u32 \<times> nat) option) list \<Rightarrow> ('f, unit) io" where
  "handle_events [] s = (Inr (), s)"
| "handle_events ((refuse, None) # evs) s = handle_events evs (s\<lparr>tickle_pipe := 0\<rparr>)"
| "handle_events ((refuse, Some ev) # evs) s =
     (case handle_event refuse ev s of
        (Inl e, s1) \<Rightarrow> (Inl e, s1)
      | (Inr u, s1) \<Rightarrow> handle_events evs s1)"

fun schedule_all :: "'f callback option list \<Rightarrow> 'f iomanager \<Rightarrow> 'f iomanager" where
  "schedule_all [] s = s"
| "schedule_all (cb # cbs) s = schedule_all cbs (schedule_on (self s) (ScheduleTask_cb cb (- 1)) s)"

text \<open>
  A round of \<^verbatim>\<open>idle\<close> that does not stop: \<open>now\<close> before the wait, \<open>now'\<close> after it, \<open>q\<close> the address of
  the temporary timer, \<open>evs\<close> what \<^verbatim>\<open>epoll_wait\<close> returned. The result is the timeout it waited with,
  or \<open>None\<close> when the fiber ends.
\<close>

definition idle_round :: "u64 \<Rightarrow> u64 \<Rightarrow> nat \<Rightarrow> (bool \<times> (u32 \<times> nat) option) list \<Rightarrow> ('f, int option) io" where
  "idle_round now now' q evs s =
     (case io_stopping now s of ((stopped, next_timeout), s1) \<Rightarrow>
        if stopped then (Inr None, s1)
        else
          case listExpiredCb q now' (timers s1) of (cbs, tm) \<Rightarrow>
            (case handle_events evs (schedule_all cbs (s1\<lparr>timers := tm\<rparr>)) of
               (Inl e, s2) \<Rightarrow> (Inl e, s2)
             | (Inr u, s2) \<Rightarrow> (Inr (Some (epoll_timeout next_timeout)), s2)))"

section \<open>The constructor\<close>

text \<open>
  \<open>sc\<close> is the scheduler the base class constructed and \<open>ids\<close> the ids of the threads \<^verbatim>\<open>start\<close>
  creates; creating the epoll instance and the pipe has succeeded.
\<close>

definition IOManager :: "nat \<Rightarrow> 'f callback scheduler \<Rightarrow> u64 \<Rightarrow> int list
    \<Rightarrow> (nat \<Rightarrow> 'f callback scheduler) \<Rightarrow> ('f iomanager)" where
  "IOManager me sc now ids others =
     (let s = \<lparr>self = me, scheds = others(me := sc), timers = TimerManager now,
               m_pendingEventCount = 0, m_fdContexts = [], ctx_at = (\<lambda>_. new_fd_context 0), ctx_next = 0,
               epoll = (\<lambda>_. None), tickle_pipe = 0\<rparr>;
          s1 = contextResize 32 s
      in s1\<lparr>scheds := (scheds s1)(me := snd (start ids sc))\<rparr>)"

text \<open>The timer operations of the base class, with the override of \<^verbatim>\<open>onTimerInsertedAtFront\<close>.\<close>

definition io_addTimer :: "nat \<Rightarrow> u64 \<Rightarrow> u64 \<Rightarrow> 'f callback option \<Rightarrow> bool \<Rightarrow> 'f iomanager \<Rightarrow> 'f iomanager" where
  "io_addTimer p now ms cb recurring s =
     (case addTimer p now ms cb recurring (timers s) of (at_front, tm) \<Rightarrow>
        let s1 = s\<lparr>timers := tm\<rparr> in if at_front then onTimerInsertedAtFront s1 else s1)"

definition io_addConditionTimer :: "nat \<Rightarrow> u64 \<Rightarrow> u64 \<Rightarrow> 'f \<Rightarrow> nat \<Rightarrow> bool \<Rightarrow> 'f iomanager \<Rightarrow> 'f iomanager" where
  "io_addConditionTimer p now ms cb weak_cond recurring s =
     (case addConditionTimer p now ms cb weak_cond recurring (timers s) of (at_front, tm) \<Rightarrow>
        let s1 = s\<lparr>timers := tm\<rparr> in if at_front then onTimerInsertedAtFront s1 else s1)"

end
