(* ===== verification/IOManagerProps.thy ===== *)
theory IOManagerProps
  imports IOManager
begin

text \<open>
  The invariant of the I/O manager (the registered events, the epoll instance and the counter agree),
  its preservation, and the properties of its operations.
\<close>

lemmas event_bits = NONE_def READ_def WRITE_def EPOLLIN_def EPOLLOUT_def EPOLLERR_def EPOLLHUP_def

lemma READ_not_WRITE [simp]: "READ \<noteq> WRITE" "WRITE \<noteq> READ"
  by (simp_all add: event_bits)

section \<open>The invariant\<close>

definition ev_count :: "Event \<Rightarrow> nat" where
  "ev_count e = (if e AND READ \<noteq> 0 then 1 else 0) + (if e AND WRITE \<noteq> 0 then 1 else 0)"

definition filled :: "'f event_context \<Rightarrow> bool" where
  "filled e \<longleftrightarrow> ec_scheduler e \<noteq> None \<and> (ec_fiber e \<noteq> None \<or> ec_cb e \<noteq> None)"

text \<open>Exactly the registered events have a scheduler and something to schedule.\<close>

definition ctx_wf :: "'f fd_context \<Rightarrow> bool" where
  "ctx_wf c \<longleftrightarrow> events c \<in> {0, 1, 4, 5}
     \<and> (if events c AND READ = 0 then ctx_read c = empty_event else filled (ctx_read c))
     \<and> (if events c AND WRITE = 0 then ctx_write c = empty_event else filled (ctx_write c))"

definition interest :: "nat \<Rightarrow> 'f fd_context \<Rightarrow> (u32 \<times> nat) option" where
  "interest a c = (if events c = 0 then None else Some (EPOLLET OR events c, a))"

definition io_inv :: "'f iomanager \<Rightarrow> bool" where
  "io_inv s \<longleftrightarrow> 32 \<le> length (m_fdContexts s) \<and> distinct (m_fdContexts s)
     \<and> (\<forall>a \<in> set (m_fdContexts s). a < ctx_next s \<and> ctx_wf (ctx_at s a))
     \<and> (\<forall>i < length (m_fdContexts s). ctx_fd (ctx_at s (m_fdContexts s ! i)) = i
          \<and> epoll s i = interest (m_fdContexts s ! i) (ctx_at s (m_fdContexts s ! i)))
     \<and> (\<forall>i. length (m_fdContexts s) \<le> i \<longrightarrow> epoll s i = None)
     \<and> m_pendingEventCount s = (\<Sum>a\<leftarrow>m_fdContexts s. ev_count (events (ctx_at s a)))"

lemma io_invD:
  assumes "io_inv s"
  shows "distinct (m_fdContexts s)" "a \<in> set (m_fdContexts s) \<Longrightarrow> a < ctx_next s"
    "a \<in> set (m_fdContexts s) \<Longrightarrow> ctx_wf (ctx_at s a)"
    "i < length (m_fdContexts s) \<Longrightarrow> ctx_fd (ctx_at s (m_fdContexts s ! i)) = i"
    "i < length (m_fdContexts s) \<Longrightarrow>
       epoll s i = interest (m_fdContexts s ! i) (ctx_at s (m_fdContexts s ! i))"
    "length (m_fdContexts s) \<le> i \<Longrightarrow> epoll s i = None"
    "m_pendingEventCount s = (\<Sum>a\<leftarrow>m_fdContexts s. ev_count (events (ctx_at s a)))"
  using assms unfolding io_inv_def by blast+

lemma ev_count_simps [simp]: "ev_count 0 = 0" "ev_count 1 = 1" "ev_count 4 = 1" "ev_count 5 = 2"
  by (simp_all add: ev_count_def event_bits)

lemma io_inv_cong:
  "m_fdContexts s' = m_fdContexts s \<Longrightarrow> ctx_at s' = ctx_at s \<Longrightarrow> ctx_next s' = ctx_next s
     \<Longrightarrow> epoll s' = epoll s \<Longrightarrow> m_pendingEventCount s' = m_pendingEventCount s
     \<Longrightarrow> io_inv s' \<longleftrightarrow> io_inv s"
  by (simp add: io_inv_def)

lemma io_inv_32: "io_inv s \<Longrightarrow> 32 \<le> length (m_fdContexts s)"
  by (simp add: io_inv_def)

lemma sum_list_update_at:
  "distinct xs \<Longrightarrow> i < length xs \<Longrightarrow> f' (xs ! i) = y \<Longrightarrow> (\<And>x. x \<in> set xs \<Longrightarrow> x \<noteq> xs ! i \<Longrightarrow> f' x = f x)
     \<Longrightarrow> (\<Sum>x\<leftarrow>xs. f' x) + f (xs ! i) = (\<Sum>x\<leftarrow>xs. f x) + y" for f f' :: "'a \<Rightarrow> nat"
proof (induction xs arbitrary: i)
  case (Cons x xs)
  show ?case
  proof (cases i)
    case 0
    then have eq: "f' z = f z" if "z \<in> set xs" for z using that Cons.prems by auto
    have "map f' xs = map f xs" by (rule map_cong [OF refl eq])
    then have "(\<Sum>x\<leftarrow>xs. f' x) = (\<Sum>x\<leftarrow>xs. f x)" by (rule arg_cong)
    then show ?thesis using 0 Cons.prems(3) by simp
  next
    case (Suc j)
    then have "(\<Sum>x\<leftarrow>xs. f' x) + f (xs ! j) = (\<Sum>x\<leftarrow>xs. f x) + y"
      using Cons.prems by (intro Cons.IH) auto
    moreover have "x \<noteq> xs ! j" using Cons.prems(1,2) Suc by auto
    then have "f' x = f x" using Cons.prems(4) Suc by simp
    ultimately show ?thesis using Suc by simp
  qed
qed simp

text \<open>A change of one context together with its descriptor's interest and the counter.\<close>

lemma io_inv_change:
  assumes "io_inv s" "i < length (m_fdContexts s)" "a = m_fdContexts s ! i"
    "ctx_wf c" "ctx_fd c = i"
    "m_fdContexts s' = m_fdContexts s" "ctx_next s' = ctx_next s" "ctx_at s' = (ctx_at s)(a := c)"
    "epoll s' = (epoll s)(i := interest a c)"
    "m_pendingEventCount s' + ev_count (events (ctx_at s a)) = m_pendingEventCount s + ev_count (events c)"
  shows "io_inv s'"
proof -
  note inv = io_invD [OF assms(1)]
  have other: "m_fdContexts s ! j \<noteq> a" if "j < length (m_fdContexts s)" "j \<noteq> i" for j
    using that assms(2,3) inv(1) by (simp add: nth_eq_iff_index_eq)
  have "(\<Sum>x\<leftarrow>m_fdContexts s. ev_count (events (ctx_at s' x))) + ev_count (events (ctx_at s a))
      = (\<Sum>x\<leftarrow>m_fdContexts s. ev_count (events (ctx_at s x))) + ev_count (events c)"
    unfolding assms(3) using assms(2,3,8) inv(1)
    by (intro sum_list_update_at [where f = "\<lambda>x. ev_count (events (ctx_at s x))"]) auto
  then have "m_pendingEventCount s' = (\<Sum>x\<leftarrow>m_fdContexts s'. ev_count (events (ctx_at s' x)))"
    using assms(6,10) inv(7) by simp
  moreover have "ctx_fd (ctx_at s' (m_fdContexts s' ! j)) = j
      \<and> epoll s' j = interest (m_fdContexts s' ! j) (ctx_at s' (m_fdContexts s' ! j))"
    if "j < length (m_fdContexts s')" for j
    using that assms(3,5,6,8,9) inv(4,5) other [of j] by (cases "j = i") auto
  ultimately show ?thesis
    using assms(2-9) inv io_inv_32 [OF assms(1)] by (auto simp: io_inv_def)
qed

section \<open>Triggering\<close>

definition unregister :: "Event \<Rightarrow> 'f fd_context \<Rightarrow> 'f fd_context" where
  "unregister event c = setEventContext event empty_event (c\<lparr>events := events c AND NOT event\<rparr>)"

definition context_of :: "Event \<Rightarrow> 'f fd_context \<Rightarrow> 'f event_context" where
  "context_of event c = (if event = READ then ctx_read c else ctx_write c)"

lemma resetEventContext_empty [simp]: "resetEventContext e = empty_event"
  by (cases e) (simp add: resetEventContext_def empty_event_def)

lemma unregister_wf:
  assumes "ctx_wf c" "event \<in> {READ, WRITE}"
  shows "ctx_wf (unregister event c)" "ctx_fd (unregister event c) = ctx_fd c"
    "events (unregister event c) = events c AND NOT event"
    "events c AND event \<noteq> 0 \<Longrightarrow>
       ev_count (events c AND NOT event) + 1 = ev_count (events c)"
  using assms
  by (auto simp: ctx_wf_def unregister_def setEventContext_def event_bits)

lemma schedule_on_frame [simp]:
  "m_fdContexts (schedule_on k x s) = m_fdContexts s" "ctx_at (schedule_on k x s) = ctx_at s"
  "ctx_next (schedule_on k x s) = ctx_next s" "epoll (schedule_on k x s) = epoll s"
  "m_pendingEventCount (schedule_on k x s) = m_pendingEventCount s" "timers (schedule_on k x s) = timers s"
  "self (schedule_on k x s) = self s"
  by (auto simp: schedule_on_def io_tickle_def Let_def split: prod.split)

lemma schedule_on_tasks:
  assumes "is_task x"
  shows "m_tasks (scheds (schedule_on k x s) j)
    = (if j = k then m_tasks (scheds s k) @ [x] else m_tasks (scheds s j))"
  using assms by (auto simp: schedule_on_def schedule_def scheduleNoLock_def io_tickle_def Let_def)

lemma schedule_on_upd:
  "schedule_on k x (s\<lparr>ctx_at := f\<rparr>) = (schedule_on k x s)\<lparr>ctx_at := f\<rparr>"
  "schedule_on k x (s\<lparr>epoll := e\<rparr>) = (schedule_on k x s)\<lparr>epoll := e\<rparr>"
  by (simp_all add: schedule_on_def io_tickle_def Let_def split: prod.split)

lemma triggerEvent_spec:
  assumes "ctx_wf (ctx_at s a)" "event \<in> {READ, WRITE}" "events (ctx_at s a) AND event \<noteq> 0"
  defines "e \<equiv> context_of event (ctx_at s a)"
  shows "triggerEvent a event s = (Inr (),
      (schedule_on (the (ec_scheduler e)) (event_task e) s)
        \<lparr>ctx_at := (ctx_at s)(a := unregister event (ctx_at s a))\<rparr>)"
    and "is_task (event_task e)"
proof -
  have f: "filled e" using assms by (auto simp: ctx_wf_def context_of_def)
  then show "is_task (event_task e)"
    by (auto simp: filled_def is_task_def event_task_def ScheduleTask_cb_def ScheduleTask_fiber_def)
  from f obtain k where "ec_scheduler e = Some k" by (auto simp: filled_def)
  with assms show "triggerEvent a event s = (Inr (),
      (schedule_on (the (ec_scheduler e)) (event_task e) s)
        \<lparr>ctx_at := (ctx_at s)(a := unregister event (ctx_at s a))\<rparr>)"
    by (auto simp: triggerEvent_def getEventContext_def context_of_def unregister_def Let_def
        schedule_on_upd setEventContext_def)
qed

section \<open>Every operation keeps the invariant\<close>

lemma find_context_known:
  assumes "0 \<le> fd" "nat fd < length (m_fdContexts s)"
  shows "find_context fd s = Inr (Some (m_fdContexts s ! nat fd))"
  using assms by (auto simp: find_context_def)

text \<open>The interest list after a change of mask that the kernel accepts.\<close>

lemma epoll_ctl_interest:
  assumes "epoll_ctl refuse (if e' \<noteq> 0 then EPOLL_CTL_MOD else EPOLL_CTL_DEL) i (EPOLLET OR e', a) ep = (True, ep')"
    "events c = e'"
  shows "ep' = ep(i := interest a c)"
  using assms by (auto simp: interest_def split: if_splits)

lemma delEvent_inv:
  assumes "io_inv s" "event \<in> {READ, WRITE}" "0 \<le> fd"
  shows "io_inv (snd (delEvent refuse fd event s)) \<and> (\<exists>b. fst (delEvent refuse fd event s) = Inr b)"
proof (cases "nat fd < length (m_fdContexts s)")
  case False
  then show ?thesis using assms by (auto simp: delEvent_def find_context_def)
next
  case True
  define a where "a = m_fdContexts s ! nat fd"
  define c where "c = ctx_at s a"
  have a: "a \<in> set (m_fdContexts s)" using True by (simp add: a_def)
  note fc = find_context_known [OF assms(3) True, folded a_def]
  have wf: "ctx_wf c" using io_invD(3) [OF assms(1) a] by (simp add: c_def)
  show ?thesis
  proof (cases "events c AND event = 0")
    case True
    then show ?thesis using assms(1) by (auto simp: delEvent_def fc c_def intro: exI [of _ False])
  next
    case reg: False
    note un = unregister_wf [OF wf assms(2)]
    obtain ok ep where ep: "epoll_ctl refuse (if events c AND NOT event \<noteq> 0 then EPOLL_CTL_MOD else EPOLL_CTL_DEL)
        (nat fd) (EPOLLET OR (events c AND NOT event), a) (epoll s) = (ok, ep)" by fastforce
    show ?thesis
    proof (cases ok)
      case False
      then show ?thesis
        using assms(1) ep reg
        by (auto simp: delEvent_def fc c_def [symmetric] Let_def intro: exI [of _ False])
    next
      case True
      have ep1: "epoll_ctl refuse (if events c AND NOT event \<noteq> 0 then EPOLL_CTL_MOD else EPOLL_CTL_DEL)
          (nat fd) (EPOLLET OR (events c AND NOT event), a) (epoll s) = (True, ep)"
        using ep True by simp
      have run: "delEvent refuse fd event s = (Inr True, s\<lparr>epoll := ep,
          m_pendingEventCount := m_pendingEventCount s - 1, ctx_at := (ctx_at s)(a := unregister event c)\<rparr>)"
        using assms(2) ep reg True
        by (auto simp: delEvent_def fc c_def [symmetric] Let_def getEventContext_def unregister_def)
      have "io_inv (snd (delEvent refuse fd event s))"
      proof (rule io_inv_change [OF assms(1) \<open>nat fd < length (m_fdContexts s)\<close> a_def])
        show "epoll (snd (delEvent refuse fd event s)) = (epoll s)(nat fd := interest a (unregister event c))"
          using epoll_ctl_interest [OF ep1, of "unregister event c"] un(3) run by simp
        have "1 \<le> m_pendingEventCount s"
        proof -
          have "ev_count (events c) \<le> m_pendingEventCount s"
            using a unfolding io_invD(7) [OF assms(1)] c_def by (intro member_le_sum_list) auto
          then show ?thesis using un(4) [OF reg] by simp
        qed
        then show "m_pendingEventCount (snd (delEvent refuse fd event s)) + ev_count (events (ctx_at s a))
            = m_pendingEventCount s + ev_count (events (unregister event c))"
          using run un(3) un(4) [OF reg] by (simp add: c_def [symmetric])
      qed (use run un io_invD(4) [OF assms(1) \<open>nat fd < length (m_fdContexts s)\<close>] in
          \<open>simp_all add: a_def [symmetric] c_def [symmetric]\<close>)
      then show ?thesis using run by auto
    qed
  qed
qed

text \<open>The tasks that go to scheduler \<open>j\<close> when the event is triggered.\<close>

definition event_tasks :: "Event \<Rightarrow> 'f fd_context \<Rightarrow> nat \<Rightarrow> 'f callback task list" where
  "event_tasks event c j = (if events c AND event \<noteq> 0 \<and> ec_scheduler (context_of event c) = Some j
     then [event_task (context_of event c)] else [])"

lemma trigger_if_spec:
  assumes "ctx_wf (ctx_at s a)" "event \<in> {READ, WRITE}" "b \<Longrightarrow> events (ctx_at s a) AND event \<noteq> 0"
  obtains s' where "trigger_if b a event s = (Inr (), s')"
    "m_fdContexts s' = m_fdContexts s" "ctx_next s' = ctx_next s" "epoll s' = epoll s"
    "ctx_at s' = (ctx_at s)(a := if b then unregister event (ctx_at s a) else ctx_at s a)"
    "m_pendingEventCount s' = m_pendingEventCount s - (if b then 1 else 0)"
    "\<And>j. m_tasks (scheds s' j) = m_tasks (scheds s j) @ (if b then event_tasks event (ctx_at s a) j else [])"
    "timers s' = timers s" "self s' = self s"
proof (cases b)
  case False
  then show thesis by (intro that [of s]) (simp_all add: trigger_if_def)
next
  case True
  let ?e = "context_of event (ctx_at s a)"
  note tr = triggerEvent_spec [OF assms(1,2) assms(3) [OF True]]
  have "filled ?e" using assms True by (auto simp: ctx_wf_def context_of_def)
  then obtain k where k: "ec_scheduler ?e = Some k" by (auto simp: filled_def)
  have "trigger_if b a event s = (Inr (), (schedule_on k (event_task ?e) s)
      \<lparr>ctx_at := (ctx_at s)(a := unregister event (ctx_at s a)),
       m_pendingEventCount := m_pendingEventCount s - 1\<rparr>)"
    using tr(1) k True by (simp add: trigger_if_def)
  then show thesis
    using that k True assms(3) schedule_on_tasks [OF tr(2)] by (simp add: event_tasks_def)
qed

lemma trigger_if_ctx:
  assumes "ctx_wf (ctx_at s a)" "event \<in> {READ, WRITE}" "b \<longrightarrow> events (ctx_at s a) AND event \<noteq> 0"
  shows "\<exists>s'. trigger_if b a event s = (Inr (), s')
    \<and> ctx_at s' = (ctx_at s)(a := if b then unregister event (ctx_at s a) else ctx_at s a)"
  by (rule trigger_if_spec [of s a event b]) (use assms in blast)+

lemma context_of_unregister [simp]:
  "event \<in> {READ, WRITE} \<Longrightarrow> event' \<in> {READ, WRITE} \<Longrightarrow> event \<noteq> event' \<Longrightarrow>
     context_of event (unregister event' c) = context_of event c"
  by (auto simp: context_of_def unregister_def setEventContext_def)

text \<open>Taking both kinds of events away, each if asked for.\<close>

definition unregister_both :: "bool \<Rightarrow> bool \<Rightarrow> 'f fd_context \<Rightarrow> 'f fd_context" where
  "unregister_both r w c =
     (let c1 = (if r then unregister READ c else c) in if w then unregister WRITE c1 else c1)"

lemma trigger_both:
  assumes "ctx_wf (ctx_at s a)" "r \<longrightarrow> events (ctx_at s a) AND READ \<noteq> 0"
    "w \<longrightarrow> events (ctx_at s a) AND WRITE \<noteq> 0"
  shows "\<exists>s1 s'. trigger_if r a READ s = (Inr (), s1) \<and> trigger_if w a WRITE s1 = (Inr (), s')
    \<and> ctx_at s1 a = (if r then unregister READ (ctx_at s a) else ctx_at s a)
    \<and> m_fdContexts s' = m_fdContexts s \<and> ctx_next s' = ctx_next s \<and> epoll s' = epoll s
    \<and> ctx_at s' = (ctx_at s)(a := unregister_both r w (ctx_at s a))
    \<and> m_pendingEventCount s' = m_pendingEventCount s - (if r then 1 else 0) - (if w then 1 else 0)
    \<and> (\<forall>j. m_tasks (scheds s' j) = m_tasks (scheds s j)
         @ (if r then event_tasks READ (ctx_at s a) j else []) @ (if w then event_tasks WRITE (ctx_at s a) j else []))"
proof -
  obtain s1 where s1: "trigger_if r a READ s = (Inr (), s1)"
    "m_fdContexts s1 = m_fdContexts s" "ctx_next s1 = ctx_next s" "epoll s1 = epoll s"
    "ctx_at s1 = (ctx_at s)(a := if r then unregister READ (ctx_at s a) else ctx_at s a)"
    "m_pendingEventCount s1 = m_pendingEventCount s - (if r then 1 else 0)"
    "\<And>j. m_tasks (scheds s1 j) = m_tasks (scheds s j) @ (if r then event_tasks READ (ctx_at s a) j else [])"
    "timers s1 = timers s" "self s1 = self s"
    using trigger_if_spec [OF assms(1), of READ r] assms(2) by auto
  have c1: "ctx_wf (ctx_at s1 a)" "ctx_at s1 a = (if r then unregister READ (ctx_at s a) else ctx_at s a)"
    using s1(5) assms(1) unregister_wf(1) [OF assms(1), of READ] by auto
  have wr: "events (ctx_at s1 a) AND WRITE = events (ctx_at s a) AND WRITE"
    using assms(1) unfolding c1(2)
    by (auto simp: ctx_wf_def unregister_def setEventContext_def event_bits)
  have et: "event_tasks WRITE (ctx_at s1 a) j = event_tasks WRITE (ctx_at s a) j" for j
    using wr unfolding event_tasks_def by (simp add: c1(2))
  obtain s' where s': "trigger_if w a WRITE s1 = (Inr (), s')"
    "m_fdContexts s' = m_fdContexts s1" "ctx_next s' = ctx_next s1" "epoll s' = epoll s1"
    "ctx_at s' = (ctx_at s1)(a := if w then unregister WRITE (ctx_at s1 a) else ctx_at s1 a)"
    "m_pendingEventCount s' = m_pendingEventCount s1 - (if w then 1 else 0)"
    "\<And>j. m_tasks (scheds s' j) = m_tasks (scheds s1 j) @ (if w then event_tasks WRITE (ctx_at s1 a) j else [])"
    "timers s' = timers s1" "self s' = self s1"
    using trigger_if_spec [OF c1(1), of WRITE w] assms(3) wr by auto
  have "ctx_at s' = (ctx_at s)(a := unregister_both r w (ctx_at s a))"
    using s1(5) s'(5) by (auto simp: unregister_both_def Let_def fun_eq_iff)
  moreover have "m_pendingEventCount s' = m_pendingEventCount s - (if r then 1 else 0) - (if w then 1 else 0)"
    using s1(6) s'(6) by simp
  moreover have "\<forall>j. m_tasks (scheds s' j) = m_tasks (scheds s j)
         @ (if r then event_tasks READ (ctx_at s a) j else []) @ (if w then event_tasks WRITE (ctx_at s a) j else [])"
    using s1(7) s'(7) et by simp
  moreover have "m_fdContexts s' = m_fdContexts s" "ctx_next s' = ctx_next s" "epoll s' = epoll s"
    using s1(2-4) s'(2-4) by simp_all
  ultimately show ?thesis using s1(1) s'(1) c1(2) by blast
qed

lemma unregister_both_wf:
  assumes "ctx_wf c" "r \<Longrightarrow> events c AND READ \<noteq> 0" "w \<Longrightarrow> events c AND WRITE \<noteq> 0"
  shows "ctx_wf (unregister_both r w c)" "ctx_fd (unregister_both r w c) = ctx_fd c"
    "ev_count (events (unregister_both r w c)) + (if r then 1 else 0) + (if w then 1 else 0)
      = ev_count (events c)"
    "events (unregister_both r w c)
      = events c AND NOT ((if r then READ else NONE) OR (if w then WRITE else NONE))"
proof -
  have c1: "ctx_wf (if r then unregister READ c else c)"
    using assms(1) unregister_wf(1) [OF assms(1), of READ] by simp
  show "ctx_wf (unregister_both r w c)"
    using c1 unregister_wf(1) [OF c1, of WRITE] by (simp add: unregister_both_def Let_def)
  show "ctx_fd (unregister_both r w c) = ctx_fd c"
    by (simp add: unregister_both_def unregister_def setEventContext_def Let_def)
  show ev: "events (unregister_both r w c)
      = events c AND NOT ((if r then READ else NONE) OR (if w then WRITE else NONE))"
    using assms(1)
    by (auto simp: unregister_both_def unregister_def setEventContext_def Let_def ctx_wf_def event_bits)
  show "ev_count (events (unregister_both r w c)) + (if r then 1 else 0) + (if w then 1 else 0)
      = ev_count (events c)"
    using assms unfolding ev by (auto simp: ctx_wf_def event_bits)
qed

lemma pending_bound:
  "io_inv s \<Longrightarrow> a \<in> set (m_fdContexts s) \<Longrightarrow> ev_count (events (ctx_at s a)) \<le> m_pendingEventCount s"
  unfolding io_inv_def by (auto intro!: member_le_sum_list)

text \<open>The interest list is set to what is left, the events are triggered: the invariant holds again.\<close>

lemma trigger_both_inv:
  assumes "io_inv s" "i < length (m_fdContexts s)" "a = m_fdContexts s ! i"
    "r \<Longrightarrow> events (ctx_at s a) AND READ \<noteq> 0" "w \<Longrightarrow> events (ctx_at s a) AND WRITE \<noteq> 0"
    "ep = (epoll s)(i := interest a (unregister_both r w (ctx_at s a)))"
    "m_fdContexts s' = m_fdContexts s" "ctx_next s' = ctx_next s" "epoll s' = ep"
    "ctx_at s' = (ctx_at s)(a := unregister_both r w (ctx_at s a))"
    "m_pendingEventCount s' = m_pendingEventCount s - (if r then 1 else 0) - (if w then 1 else 0)"
  shows "io_inv s'"
proof -
  have a: "a \<in> set (m_fdContexts s)" using assms(2,3) by simp
  note un = unregister_both_wf [of _ r w, OF io_invD(3) [OF assms(1) a]]
  have pend: "m_pendingEventCount s' + ev_count (events (ctx_at s a))
      = m_pendingEventCount s + ev_count (events (unregister_both r w (ctx_at s a)))"
    using un(3) assms(4,5,11) pending_bound [OF assms(1) a] by (cases r; cases w) simp_all
  show ?thesis
    by (rule io_inv_change [OF assms(1-3) un(1) _ _ _ _ _ pend])
      (use assms(3-10) un(2) io_invD(4) [OF assms(1,2)] in simp_all)
qed

section \<open>Cancelling\<close>

lemma cancelEvent_spec:
  assumes "io_inv s" "event \<in> {READ, WRITE}" "0 \<le> fd" "nat fd < length (m_fdContexts s)"
  defines "c \<equiv> ctx_at s (m_fdContexts s ! nat fd)"
  obtains (none) "cancelEvent refuse fd event s = (Inr False, s)" "events c AND event = 0 \<or> refuse"
  | (cancelled) s' where "cancelEvent refuse fd event s = (Inr True, s')" "events c AND event \<noteq> 0" "\<not> refuse"
    "io_inv s'" "ctx_at s' = (ctx_at s)(m_fdContexts s ! nat fd := unregister event c)"
    "m_fdContexts s' = m_fdContexts s" "m_pendingEventCount s' = m_pendingEventCount s - 1"
    "\<And>j. m_tasks (scheds s' j) = m_tasks (scheds s j) @ event_tasks event c j"
proof -
  define a where "a = m_fdContexts s ! nat fd"
  have a: "a \<in> set (m_fdContexts s)" using assms(4) by (simp add: a_def)
  note fc = find_context_known [OF assms(3,4), folded a_def]
  have c: "c = ctx_at s a" by (simp add: c_def a_def)
  have wf: "ctx_wf c" using io_invD(3) [OF assms(1) a] by (simp add: c)
  have int: "epoll s (nat fd) = interest a c" using io_invD(5) [OF assms(1,4)] by (simp add: c a_def)
  show thesis
  proof (cases "events c AND event = 0 \<or> refuse")
    case True
    then have "cancelEvent refuse fd event s = (Inr False, s)"
      by (auto simp: cancelEvent_def fc c Let_def)
    then show thesis using none True by blast
  next
    case False
    then have reg: "events c AND event \<noteq> 0" and nr: "\<not> refuse" by simp_all
    have "events c \<noteq> 0" using reg by auto
    then have ex: "epoll s (nat fd) \<noteq> None" using int by (simp add: interest_def)
    define ep where "ep = (epoll s)(nat fd := interest a (unregister event c))"
    have ep: "epoll_ctl refuse (if events c AND NOT event \<noteq> 0 then EPOLL_CTL_MOD else EPOLL_CTL_DEL)
        (nat fd) (EPOLLET OR events c AND NOT event, a) (epoll s) = (True, ep)"
      using nr ex unregister_wf(3) [OF wf assms(2)] by (auto simp: ep_def interest_def)
    obtain s' where s': "trigger_if True a event (s\<lparr>epoll := ep\<rparr>) = (Inr (), s')"
      "m_fdContexts s' = m_fdContexts s" "ctx_next s' = ctx_next s" "epoll s' = ep"
      "ctx_at s' = (ctx_at s)(a := unregister event c)"
      "m_pendingEventCount s' = m_pendingEventCount s - 1"
      "\<And>j. m_tasks (scheds s' j) = m_tasks (scheds s j) @ event_tasks event c j"
      using trigger_if_spec [of "s\<lparr>epoll := ep\<rparr>" a event True] wf assms(2) reg c by auto
    have run: "cancelEvent refuse fd event s = (Inr True, s')"
      using s'(1) reg ep
      by (auto simp: cancelEvent_def fc c [symmetric] Let_def trigger_if_def split: prod.splits sum.splits)
    have rw: "unregister_both (event = READ) (event = WRITE) c = unregister event c"
      using assms(2) by (auto simp: unregister_both_def)
    have "io_inv s'"
      by (rule trigger_both_inv [OF assms(1,4) a_def, of "event = READ" "event = WRITE" ep])
        (use assms(2) reg s' rw in \<open>auto simp: ep_def c\<close>)
    then show thesis using cancelled [OF run reg nr] s' by (simp add: a_def)
  qed
qed

lemma cancelAll_spec:
  assumes "io_inv s" "0 \<le> fd" "nat fd < length (m_fdContexts s)"
  defines "c \<equiv> ctx_at s (m_fdContexts s ! nat fd)"
  obtains (none) "cancelAll refuse fd s = (Inr False, s)" "events c = 0 \<or> refuse"
  | (cancelled) s' c' where "cancelAll refuse fd s = (Inr True, s')" "events c \<noteq> 0" "\<not> refuse"
    "io_inv s'" "ctx_at s' = (ctx_at s)(m_fdContexts s ! nat fd := c')" "events c' = 0"
    "m_fdContexts s' = m_fdContexts s" "m_pendingEventCount s' = m_pendingEventCount s - ev_count (events c)"
    "\<And>j. m_tasks (scheds s' j) = m_tasks (scheds s j) @ event_tasks READ c j @ event_tasks WRITE c j"
proof -
  define a where "a = m_fdContexts s ! nat fd"
  have a: "a \<in> set (m_fdContexts s)" using assms(3) by (simp add: a_def)
  note fc = find_context_known [OF assms(2,3), folded a_def]
  have c: "c = ctx_at s a" by (simp add: c_def a_def)
  have wf: "ctx_wf c" using io_invD(3) [OF assms(1) a] by (simp add: c)
  have int: "epoll s (nat fd) = interest a c" using io_invD(5) [OF assms(1,3)] by (simp add: c a_def)
  show thesis
  proof (cases "events c = 0 \<or> refuse")
    case True
    then have "cancelAll refuse fd s = (Inr False, s)" by (auto simp: cancelAll_def fc c)
    then show thesis using none True by blast
  next
    case False
    then have ex: "epoll s (nat fd) \<noteq> None" and nr: "\<not> refuse" using int by (simp_all add: interest_def)
    define r where "r \<longleftrightarrow> events c AND READ \<noteq> 0"
    define w where "w \<longleftrightarrow> events c AND WRITE \<noteq> 0"
    let ?ub = "unregister_both r w c"
    have ub0: "events ?ub = 0"
      using unregister_both_wf(4) [of c r w] wf by (auto simp: r_def w_def ctx_wf_def event_bits)
    define ep where "ep = (epoll s)(nat fd := None)"
    have ep: "epoll_ctl refuse EPOLL_CTL_DEL (nat fd) (0, a) (epoll s) = (True, ep)"
      using nr ex by (simp add: ep_def)
    have "ctx_wf (ctx_at (s\<lparr>epoll := ep\<rparr>) a)"
      "r \<longrightarrow> events (ctx_at (s\<lparr>epoll := ep\<rparr>) a) AND READ \<noteq> 0"
      "w \<longrightarrow> events (ctx_at (s\<lparr>epoll := ep\<rparr>) a) AND WRITE \<noteq> 0"
      using wf by (simp_all add: c [symmetric] r_def w_def)
    from trigger_both [OF this] obtain s1 s' where
      t1: "trigger_if r a READ (s\<lparr>epoll := ep\<rparr>) = (Inr (), s1)"
      and t2: "trigger_if w a WRITE s1 = (Inr (), s')"
      and s1: "ctx_at s1 a = (if r then unregister READ c else c)"
      and s': "m_fdContexts s' = m_fdContexts s" "ctx_next s' = ctx_next s" "epoll s' = ep"
      "ctx_at s' = (ctx_at s)(a := ?ub)"
      "m_pendingEventCount s' = m_pendingEventCount s - (if r then 1 else 0) - (if w then 1 else 0)"
      "\<And>j. m_tasks (scheds s' j) = m_tasks (scheds s j)
         @ (if r then event_tasks READ c j else []) @ (if w then event_tasks WRITE c j else [])"
      by (auto simp add: c [symmetric])
    have w1: "(events (ctx_at s1 a) AND WRITE \<noteq> 0) = w"
      using wf unfolding s1 w_def
      by (auto simp: ctx_wf_def unregister_def setEventContext_def event_bits)
    have "events (ctx_at s' a) = 0" using s'(4) ub0 by simp
    then have run: "cancelAll refuse fd s = (Inr True, s')"
      using False ep t1 t2 w1
      by (simp add: cancelAll_def fc c [symmetric] Let_def r_def [symmetric])
    have inv: "io_inv s'"
      by (rule trigger_both_inv [OF assms(1,3) a_def, of r w ep])
        (use s' ub0 in \<open>simp_all add: ep_def c r_def w_def interest_def\<close>)
    have "ev_count (events c) = (if r then 1 else 0) + (if w then 1 else 0)"
      by (simp add: ev_count_def r_def w_def)
    moreover have "(if r then event_tasks READ c j else []) = event_tasks READ c j"
      "(if w then event_tasks WRITE c j else []) = event_tasks WRITE c j" for j
      by (simp_all add: event_tasks_def r_def w_def)
    ultimately show thesis
      using False nr by (intro cancelled [OF run _ _ inv]) (use s' ub0 in \<open>simp_all add: a_def\<close>)
  qed
qed

section \<open>The events epoll reports\<close>

lemma real_events_values: "real_events m r \<in> {0, 1, 4, 5}"
  by (auto simp: real_events_def event_bits Let_def)

lemma real_bits:
  "real_events m r AND READ \<noteq> 0 \<longleftrightarrow> real_events m r \<in> {1, 5}"
  "real_events m r AND WRITE \<noteq> 0 \<longleftrightarrow> real_events m r \<in> {4, 5}"
  using real_events_values [of m r] by (auto simp: event_bits)



lemma handle_event_spec:
  fixes s :: "'f iomanager" and m :: u32
  assumes "io_inv s" "i < length (m_fdContexts s)" "a = m_fdContexts s ! i"
  defines "c \<equiv> ctx_at s a"
  defines "real \<equiv> real_events m (events c)"
  obtains (unchanged) "handle_event refuse (m, a) s = (Inr (), s)" "events c AND real = 0 \<or> refuse"
  | (triggered) s' c' where "handle_event refuse (m, a) s = (Inr (), s')" "events c AND real \<noteq> 0" "\<not> refuse"
    "real AND NOT (events c) = 0" "io_inv s'" "ctx_at s' = (ctx_at s)(a := c')"
    "events c' = events c AND NOT real"
    "m_fdContexts s' = m_fdContexts s" "m_pendingEventCount s' = m_pendingEventCount s - ev_count real"
    "\<And>j. m_tasks (scheds s' j) = m_tasks (scheds s j)
       @ (if real AND READ \<noteq> 0 then event_tasks READ c j else [])
       @ (if real AND WRITE \<noteq> 0 then event_tasks WRITE c j else [])"
  | (failed) s' where "handle_event refuse (m, a) s = (Inl IoAssert, s')" "events c AND real \<noteq> 0"
    "\<not> refuse" "real AND NOT (events c) \<noteq> 0"
proof -
  have a: "a \<in> set (m_fdContexts s)" using assms(2,3) by simp
  have wf: "ctx_wf c" using io_invD(3) [OF assms(1) a] by (simp add: c_def)
  have int: "epoll s i = interest a c" using io_invD(5) [OF assms(1,2)] assms(3) by (simp add: c_def)
  have cfd: "ctx_fd c = i" using io_invD(4) [OF assms(1,2)] assms(3) by (simp add: c_def)
  note rb = real_bits [of m "events c", folded real_def]
  have rv: "real \<in> {0, 1, 4, 5}" using real_events_values by (simp add: real_def)
  have ev: "events c \<in> {0, 1, 4, 5}" using wf by (simp add: ctx_wf_def)
  show thesis
  proof (cases "events c AND real = 0 \<or> refuse")
    case True
    then have "handle_event refuse (m, a) s = (Inr (), s)"
      by (auto simp: handle_event_def c_def [symmetric] real_def [symmetric] Let_def NONE_def)
    then show thesis using unchanged True by blast
  next
    case False
    then have ov: "events c AND real \<noteq> 0" and nr: "\<not> refuse" by simp_all
    have "events c \<noteq> 0" using ov by auto
    then have ex: "epoll s i \<noteq> None" using int by (simp add: interest_def)
    define r where "r \<longleftrightarrow> real AND READ \<noteq> 0"
    define w where "w \<longleftrightarrow> real AND WRITE \<noteq> 0"
    define ep where "ep = (epoll s)(i := if events c AND NOT real \<noteq> 0
        then Some (EPOLLET OR events c AND NOT real, a) else None)"
    have ep: "epoll_ctl refuse (if events c AND NOT real \<noteq> 0 then EPOLL_CTL_MOD else EPOLL_CTL_DEL)
        i (EPOLLET OR events c AND NOT real, a) (epoll s) = (True, ep)"
      using nr ex by (auto simp: ep_def)
    have run: "handle_event refuse (m, a) s = (case trigger_if r a READ (s\<lparr>epoll := ep\<rparr>) of
        (Inl e, s1) \<Rightarrow> (Inl e, s1) | (Inr u, s1) \<Rightarrow> trigger_if w a WRITE s1)"
      using ov ep
      by (simp add: handle_event_def c_def [symmetric] real_def [symmetric] Let_def NONE_def cfd
          r_def [symmetric] w_def [symmetric] split: prod.split sum.split)
    have bits: "real AND NOT (events c) = 0 \<longleftrightarrow>
        (r \<longrightarrow> events c AND READ \<noteq> 0) \<and> (w \<longrightarrow> events c AND WRITE \<noteq> 0)"
      using rv ev by (auto simp: r_def w_def event_bits)
    show thesis
    proof (cases "real AND NOT (events c) = 0")
      case True
      then have rw: "r \<longrightarrow> events c AND READ \<noteq> 0" "w \<longrightarrow> events c AND WRITE \<noteq> 0" using bits by simp_all
      let ?ub = "unregister_both r w c"
      have ub: "events ?ub = events c AND NOT real"
        using unregister_both_wf(4) [of c r w] wf rw rv
        by (auto simp: r_def w_def event_bits)
      have "ctx_wf (ctx_at (s\<lparr>epoll := ep\<rparr>) a)"
        "r \<longrightarrow> events (ctx_at (s\<lparr>epoll := ep\<rparr>) a) AND READ \<noteq> 0"
        "w \<longrightarrow> events (ctx_at (s\<lparr>epoll := ep\<rparr>) a) AND WRITE \<noteq> 0"
        using wf rw by (simp_all add: c_def [symmetric])
      from trigger_both [OF this] obtain s1 s' where
        t1: "trigger_if r a READ (s\<lparr>epoll := ep\<rparr>) = (Inr (), s1)"
        and t2: "trigger_if w a WRITE s1 = (Inr (), s')"
        and s': "m_fdContexts s' = m_fdContexts s" "ctx_next s' = ctx_next s" "epoll s' = ep"
        "ctx_at s' = (ctx_at s)(a := ?ub)"
        "m_pendingEventCount s' = m_pendingEventCount s - (if r then 1 else 0) - (if w then 1 else 0)"
        "\<And>j. m_tasks (scheds s' j) = m_tasks (scheds s j)
           @ (if r then event_tasks READ c j else []) @ (if w then event_tasks WRITE c j else [])"
        by (auto simp add: c_def [symmetric])
      have "ep = (epoll s)(i := interest a ?ub)" by (simp add: ep_def interest_def ub)
      then have "io_inv s'"
        by (intro trigger_both_inv [OF assms(1-3), of r w ep])
          (use s' rw in \<open>simp_all add: c_def [symmetric]\<close>)
      moreover have "handle_event refuse (m, a) s = (Inr (), s')" using run t1 t2 by simp
      moreover have "m_pendingEventCount s' = m_pendingEventCount s - ev_count real"
        using s'(5) rv by (auto simp: r_def w_def ev_count_def event_bits)
      ultimately show thesis
        using triggered True ov nr ub s'(1,4,6) unfolding r_def w_def by blast
    next
      case bad: False
      have t: "fst (trigger_if True a e s0) = Inl IoAssert" if "events (ctx_at s0 a) AND e = 0" for e s0
        using that by (simp add: trigger_if_def triggerEvent_def Let_def)
      consider "r" "events c AND READ = 0" | "w" "events c AND WRITE = 0" "r \<longrightarrow> events c AND READ \<noteq> 0"
        using bad bits by blast
      then have "\<exists>s'. handle_event refuse (m, a) s = (Inl IoAssert, s')"
      proof cases
        case 1
        then have "fst (trigger_if r a READ (s\<lparr>epoll := ep\<rparr>)) = Inl IoAssert"
          using t [of "s\<lparr>epoll := ep\<rparr>" READ] by (simp add: c_def)
        then show ?thesis
          unfolding run by (cases "trigger_if r a READ (s\<lparr>epoll := ep\<rparr>)") simp
      next
        case 2
        have p: "ctx_wf (ctx_at (s\<lparr>epoll := ep\<rparr>) a)" using wf by (simp add: c_def)
        obtain s1 where s1: "trigger_if r a READ (s\<lparr>epoll := ep\<rparr>) = (Inr (), s1)"
          "ctx_at s1 = (ctx_at s)(a := if r then unregister READ c else c)"
          using trigger_if_ctx [OF p, of READ r] 2(3) by (auto simp: c_def)
        have "events (ctx_at s1 a) AND WRITE = 0"
          using s1(2) 2(2) unregister_wf(3) [OF wf, of READ] ev by (auto simp: event_bits)
        then have "fst (trigger_if w a WRITE s1) = Inl IoAssert" using t 2(1) by simp
        then show ?thesis unfolding run s1(1) by (cases "trigger_if w a WRITE s1") simp
      qed
      then show thesis using failed bad ov nr by blast
    qed
  qed
qed

section \<open>Registering\<close>

lemma empty_context_wf [simp]: "ctx_wf (new_fd_context i)" "events (new_fd_context i) = 0"
  "ctx_fd (new_fd_context i) = i"
  by (simp_all add: ctx_wf_def new_fd_context_def NONE_def)

lemma contextResize_inv:
  assumes "io_inv s" "length (m_fdContexts s) \<le> n"
  shows "io_inv (contextResize n s)" "length (m_fdContexts (contextResize n s)) = n"
proof -
  let ?k = "n - length (m_fdContexts s)" and ?new = "[ctx_next s ..< ctx_next s + (n - length (m_fdContexts s))]"
  let ?s = "contextResize n s"
  note inv = io_invD [OF assms(1)]
  have xs: "m_fdContexts ?s = m_fdContexts s @ ?new"
    using assms(2) by (simp add: contextResize_def Let_def)
  have old: "ctx_at ?s a = ctx_at s a" if "a \<in> set (m_fdContexts s)" for a
    using inv(2) [OF that] by (simp add: contextResize_def Let_def)
  have new: "ctx_at ?s (ctx_next s + j) = new_fd_context (length (m_fdContexts s) + j)" if "j < ?k" for j
    using that by (simp add: contextResize_def Let_def)
  have fr: "epoll ?s = epoll s" "m_pendingEventCount ?s = m_pendingEventCount s" "ctx_next ?s = ctx_next s + ?k"
    by (simp_all add: contextResize_def Let_def)
  show len: "length (m_fdContexts ?s) = n" using assms(2) by (simp add: xs)
  have "distinct (m_fdContexts ?s)" using inv(1,2) by (auto simp: xs dest: inv(2))
  moreover have "a < ctx_next ?s \<and> ctx_wf (ctx_at ?s a)" if "a \<in> set (m_fdContexts ?s)" for a
  proof (cases "a \<in> set (m_fdContexts s)")
    case True
    then show ?thesis using inv(2,3) [OF True] old fr by simp
  next
    case False
    then have "a = ctx_next s + (a - ctx_next s)" "a - ctx_next s < ?k" "a < ctx_next ?s"
      using that fr by (auto simp: xs)
    then show ?thesis using new by (metis empty_context_wf(1))
  qed
  moreover have "ctx_fd (ctx_at ?s (m_fdContexts ?s ! i)) = i
      \<and> epoll ?s i = interest (m_fdContexts ?s ! i) (ctx_at ?s (m_fdContexts ?s ! i))"
    if "i < length (m_fdContexts ?s)" for i
  proof (cases "i < length (m_fdContexts s)")
    case True
    then show ?thesis using inv(4,5) [OF True] old fr by (simp add: xs nth_append)
  next
    case False
    define j where "j = i - length (m_fdContexts s)"
    have "i = length (m_fdContexts s) + j" "j < ?k"
      using False that unfolding len j_def by linarith+
    then show ?thesis using new fr inv(6) by (simp add: xs nth_append interest_def)
  qed
  moreover have "epoll ?s i = None" if "length (m_fdContexts ?s) \<le> i" for i
    using that inv(6) assms(2) len fr by simp
  moreover have "(\<Sum>a\<leftarrow>?new. ev_count (events (ctx_at ?s a))) = 0"
    using new by (auto simp: sum_list_eq_0_iff le_iff_add)
  then have "m_pendingEventCount ?s = (\<Sum>a\<leftarrow>m_fdContexts ?s. ev_count (events (ctx_at ?s a)))"
    using inv(7) old fr by (simp add: xs cong: map_cong)
  ultimately show "io_inv ?s"
    using io_inv_32 [OF assms(1)] assms(2) len by (simp add: io_inv_def)
qed

definition register :: "Event \<Rightarrow> 'f event_context \<Rightarrow> 'f fd_context \<Rightarrow> 'f fd_context" where
  "register event e c = setEventContext event e (c\<lparr>events := events c OR event\<rparr>)"

definition new_event_context :: "'f callback option \<Rightarrow> nat \<Rightarrow> nat \<Rightarrow> 'f event_context" where
  "new_event_context cb k p = \<lparr>ec_scheduler = Some k, ec_fiber = (if cb = None then Some p else None), ec_cb = cb\<rparr>"

lemma register_wf:
  assumes "ctx_wf c" "event \<in> {READ, WRITE}" "events c AND event = 0" "filled e"
  shows "ctx_wf (register event e c)" "ctx_fd (register event e c) = ctx_fd c"
    "events (register event e c) = events c OR event" "events c OR event \<noteq> 0"
    "ev_count (events c OR event) = ev_count (events c) + 1"
  using assms by (auto simp: ctx_wf_def register_def setEventContext_def event_bits)

lemma addEvent_locked_spec:
  assumes "io_inv s" "event \<in> {READ, WRITE}" "i < length (m_fdContexts s)"
  defines "a \<equiv> m_fdContexts s ! i"
  defines "c \<equiv> ctx_at s a"
  shows "events c AND event \<noteq> 0 \<Longrightarrow>
      addEvent_locked refuse a i event cb (Some k) p s = (Inl IoAssert, s)"
    and "events c AND event = 0 \<Longrightarrow> refuse \<Longrightarrow>
      addEvent_locked refuse a i event cb (Some k) p s = (Inr (- 1), s)"
    and "events c AND event = 0 \<Longrightarrow> \<not> refuse \<Longrightarrow>
      \<exists>s'. addEvent_locked refuse a i event cb (Some k) p s = (Inr 0, s') \<and> io_inv s'
        \<and> ctx_at s' = (ctx_at s)(a := register event (new_event_context cb k p) c)
        \<and> m_fdContexts s' = m_fdContexts s \<and> m_pendingEventCount s' = m_pendingEventCount s + 1
        \<and> scheds s' = scheds s"
proof -
  have a: "a \<in> set (m_fdContexts s)" using assms(3) by (simp add: a_def)
  have wf: "ctx_wf c" using io_invD(3) [OF assms(1) a] by (simp add: c_def)
  have int: "epoll s i = interest a c" using io_invD(5) [OF assms(1,3)] by (simp add: c_def a_def)
  show "addEvent_locked refuse a i event cb (Some k) p s = (Inl IoAssert, s)" if "events c AND event \<noteq> 0"
    using that by (simp add: addEvent_locked_def c_def Let_def)
  show "addEvent_locked refuse a i event cb (Some k) p s = (Inr (- 1), s)"
    if "events c AND event = 0" refuse
    using that by (simp add: addEvent_locked_def c_def Let_def)
  assume free: "events c AND event = 0" and nr: "\<not> refuse"
  let ?e = "new_event_context cb k p"
  have fe: "filled ?e" by (auto simp: filled_def new_event_context_def)
  note rg = register_wf [OF wf assms(2) free fe]
  define ep where "ep = (epoll s)(i := interest a (register event ?e c))"
  have ep: "epoll_ctl refuse (if events c \<noteq> 0 then EPOLL_CTL_MOD else EPOLL_CTL_ADD) i
      (EPOLLET OR events c OR event, a) (epoll s) = (True, ep)"
    using nr int rg(3,4) by (cases "events c = 0") (simp_all add: ep_def interest_def or.assoc)
  have empty: "context_of event (c\<lparr>events := events c OR event\<rparr>) = empty_event"
    using wf assms(2) free by (auto simp: ctx_wf_def context_of_def)
  define s' where "s' = s\<lparr>epoll := ep, m_pendingEventCount := m_pendingEventCount s + 1,
      ctx_at := (ctx_at s)(a := register event ?e c)\<rparr>"
  have run: "addEvent_locked refuse a i event cb (Some k) p s = (Inr 0, s')"
  proof (cases "event = READ")
    case True
    then have "ctx_read c = empty_event" using empty by (simp add: context_of_def)
    then show ?thesis using True free ep
      by (cases cb) (simp_all add: addEvent_locked_def c_def [symmetric] Let_def getEventContext_def
        empty_event_def s'_def register_def new_event_context_def setEventContext_def)
  next
    case False
    then have "event = WRITE" "ctx_write c = empty_event" using empty assms(2) by (simp_all add: context_of_def)
    then show ?thesis using free ep
      by (cases cb) (simp_all add: addEvent_locked_def c_def [symmetric] Let_def getEventContext_def
        empty_event_def s'_def register_def new_event_context_def setEventContext_def)
  qed
  have "io_inv s'"
    by (rule io_inv_change [OF assms(1,3) meta_eq_to_obj_eq [OF a_def] rg(1)])
      (use rg io_invD(4) [OF assms(1,3)] in \<open>simp_all add: s'_def ep_def a_def [symmetric] c_def [symmetric]\<close>)
  with run show "\<exists>s'. addEvent_locked refuse a i event cb (Some k) p s = (Inr 0, s') \<and> io_inv s'
        \<and> ctx_at s' = (ctx_at s)(a := register event ?e c)
        \<and> m_fdContexts s' = m_fdContexts s \<and> m_pendingEventCount s' = m_pendingEventCount s + 1
        \<and> scheds s' = scheds s"
    by (auto simp: s'_def)
qed

text \<open>The context a descriptor has once \<^verbatim>\<open>addEvent\<close> has looked for it.\<close>

definition with_context :: "int \<Rightarrow> 'f iomanager \<Rightarrow> 'f iomanager" where
  "with_context fd s = (if nat fd < length (m_fdContexts s) then s else contextResize (nat fd * 3 div 2) s)"

lemma with_context_inv:
  assumes "io_inv s" "0 \<le> fd"
  shows "io_inv (with_context fd s)" "nat fd < length (m_fdContexts (with_context fd s))"
    "addEvent refuse fd event cb ts tf s
      = addEvent_locked refuse (m_fdContexts (with_context fd s) ! nat fd) (nat fd) event cb ts tf (with_context fd s)"
proof -
  have big: "nat fd < nat fd * 3 div 2" "length (m_fdContexts s) \<le> nat fd * 3 div 2"
    if "\<not> nat fd < length (m_fdContexts s)"
    using that io_inv_32 [OF assms(1)] by linarith+
  show "io_inv (with_context fd s)" "nat fd < length (m_fdContexts (with_context fd s))"
    using assms(1) big contextResize_inv [OF assms(1)] by (auto simp: with_context_def)
  then show "addEvent refuse fd event cb ts tf s
      = addEvent_locked refuse (m_fdContexts (with_context fd s) ! nat fd) (nat fd) event cb ts tf (with_context fd s)"
    using assms(2) by (auto simp: addEvent_def addEvent_find_def addEvent_grow_def with_context_def Let_def
        split: if_splits)
qed

section \<open>What keeps the vector of contexts\<close>

text \<open>Also the flag of each scheduler that it is to stop.\<close>

lemma schedule_all_frame [simp]:
  "m_fdContexts (schedule_all cbs s) = m_fdContexts s" "ctx_at (schedule_all cbs s) = ctx_at s"
  "ctx_next (schedule_all cbs s) = ctx_next s" "epoll (schedule_all cbs s) = epoll s"
  "m_pendingEventCount (schedule_all cbs s) = m_pendingEventCount s"
  by (induction cbs arbitrary: s) simp_all

lemma io_tickle_frame [simp]:
  "scheds (io_tickle s) = scheds s" "self (io_tickle s) = self s" "m_fdContexts (io_tickle s) = m_fdContexts s"
  "ctx_next (io_tickle s) = ctx_next s" "ctx_at (io_tickle s) = ctx_at s" "epoll (io_tickle s) = epoll s"
  "m_pendingEventCount (io_tickle s) = m_pendingEventCount s"
  by (simp_all add: io_tickle_def)

definition same_stop :: "'f iomanager \<Rightarrow> 'f iomanager \<Rightarrow> bool" where
  "same_stop s s' \<longleftrightarrow> self s' = self s \<and> (\<forall>k. m_stopping (scheds s' k) \<longleftrightarrow> m_stopping (scheds s k))"

definition same_vector :: "'f iomanager \<Rightarrow> 'f iomanager \<Rightarrow> bool" where
  "same_vector s s' \<longleftrightarrow> m_fdContexts s' = m_fdContexts s \<and> ctx_next s' = ctx_next s \<and> same_stop s s'"

lemma same_vector_refl [simp]: "same_vector s s"
  by (simp add: same_vector_def same_stop_def)

lemma same_vector_trans: "same_vector s s1 \<Longrightarrow> same_vector s1 s2 \<Longrightarrow> same_vector s s2"
  by (simp add: same_vector_def same_stop_def)

lemma same_vector_upd [simp]:
  "same_vector s (s'\<lparr>ctx_at := c\<rparr>) = same_vector s s'" "same_vector s (s'\<lparr>epoll := ep\<rparr>) = same_vector s s'"
  "same_vector s (s'\<lparr>m_pendingEventCount := n\<rparr>) = same_vector s s'" "same_vector s (s'\<lparr>timers := tm\<rparr>) = same_vector s s'"
  "same_vector (s\<lparr>ctx_at := c\<rparr>) s' = same_vector s s'" "same_vector (s\<lparr>epoll := ep\<rparr>) s' = same_vector s s'"
  "same_vector (s\<lparr>timers := tm\<rparr>) s' = same_vector s s'"
  "same_vector s (io_tickle s') = same_vector s s'"
  by (simp_all add: same_vector_def same_stop_def)

lemma schedule_on_same_vector [simp]: "same_vector s (schedule_on k x s')= same_vector s s'"
  by (auto simp: same_vector_def same_stop_def schedule_on_def schedule_def scheduleNoLock_def Let_def)

lemma schedule_all_same_vector [simp]: "same_vector s (schedule_all cbs s') = same_vector s s'"
  by (induction cbs arbitrary: s') simp_all

lemma triggerEvent_same_vector: "triggerEvent a event s = (r, s') \<Longrightarrow> same_vector s s'"
  by (auto simp: triggerEvent_def Let_def split: if_splits sum.splits option.splits)

lemma trigger_if_same_vector: "trigger_if b a event s = (r, s') \<Longrightarrow> same_vector s s'"
  by (auto simp: trigger_if_def split: if_splits sum.splits prod.splits dest!: triggerEvent_same_vector)

lemma addEvent_locked_same_vector: "addEvent_locked refuse a fd event cb k p s = (r, s') \<Longrightarrow> same_vector s s'"
  by (auto simp: addEvent_locked_def Let_def split: if_splits sum.splits prod.splits bool.splits)

lemma delEvent_same_vector: "delEvent refuse fd event s = (r, s') \<Longrightarrow> same_vector s s'"
  by (auto simp: delEvent_def Let_def split: if_splits sum.splits option.splits prod.splits bool.splits)

lemma cancelEvent_same_vector: "cancelEvent refuse fd event s = (r, s') \<Longrightarrow> same_vector s s'"
  by (auto simp: cancelEvent_def Let_def split: if_splits sum.splits option.splits prod.splits bool.splits
      dest!: triggerEvent_same_vector)

lemma cancelAll_same_vector: "cancelAll refuse fd s = (r, s') \<Longrightarrow> same_vector s s'"
  by (auto simp: cancelAll_def Let_def split: if_splits sum.splits option.splits prod.splits bool.splits
      dest!: trigger_if_same_vector intro: same_vector_trans)

lemma handle_event_same_vector: "handle_event refuse ev s = (r, s') \<Longrightarrow> same_vector s s'"
  by (auto simp: handle_event_def Let_def split: if_splits sum.splits prod.splits bool.splits
      dest!: trigger_if_same_vector intro: same_vector_trans)

section \<open>Runs\<close>

text \<open>
  The operations that have one critical section for a descriptor whose context is there, with the choices of the kernel.
  They look the context up before they lock it; as the vector never loses a context, they find the same when they look
  it up as they lock it.
\<close>

datatype 'f io_op =
    DelEvent bool nat Event
  | CancelEvent bool nat Event
  | CancelAll bool nat
  | HandleEvent bool u32 nat
  | ScheduleTask_on nat "'f callback task"
  | NewTimer nat u64 u64 "'f callback option" bool
  | NextTimer u64
  | TakeExpired nat u64

fun io_apply :: "'f io_op \<Rightarrow> 'f iomanager \<Rightarrow> (io_error + unit) \<times> 'f iomanager" where
  "io_apply (DelEvent refuse fd event) s =
     (case delEvent refuse (int fd) event s of (r, s') \<Rightarrow> (map_sum id (\<lambda>_. ()) r, s'))"
| "io_apply (CancelEvent refuse fd event) s =
     (case cancelEvent refuse (int fd) event s of (r, s') \<Rightarrow> (map_sum id (\<lambda>_. ()) r, s'))"
| "io_apply (CancelAll refuse fd) s =
     (case cancelAll refuse (int fd) s of (r, s') \<Rightarrow> (map_sum id (\<lambda>_. ()) r, s'))"
| "io_apply (HandleEvent refuse m fd) s =
     (if fd < length (m_fdContexts s) then handle_event refuse (m, m_fdContexts s ! fd) s else (Inr (), s))"
| "io_apply (ScheduleTask_on k x) s = (Inr (), schedule_on k x s)"
| "io_apply (NewTimer p now ms cb recurring) s = (Inr (), io_addTimer p now ms cb recurring s)"
| "io_apply (NextTimer now) s = (Inr (), snd (io_stopping now s))"
| "io_apply (TakeExpired q now) s =
     (case listExpiredCb q now (timers s) of (cbs, tm) \<Rightarrow> (Inr (), schedule_all cbs (s\<lparr>timers := tm\<rparr>)))"

fun op_events :: "'f io_op \<Rightarrow> Event set" where
  "op_events (DelEvent refuse fd event) = {event}"
| "op_events (CancelEvent refuse fd event) = {event}"
| "op_events _ = {}"

text \<open>
  \<^verbatim>\<open>addEvent\<close> has three steps: it looks the context up under the read lock, makes the vector longer under the write lock
  when the descriptor was beyond its end, and adds the event under the lock of the context it has found. What a
  thread has found so far is in \<open>found\<close>: the descriptor, and the context or \<open>None\<close>. Other threads do anything in
  between, except that a thread does not make the vector shorter: one that found it too short, and finds it longer than
  it would make it when it has the write lock, takes contexts away. Only reading and writing are registered; an
  assertion that fails ends the program.
\<close>

inductive io_step :: "'f iomanager \<Rightarrow> (nat \<Rightarrow> (nat \<times> nat option) option)
    \<Rightarrow> 'f iomanager \<Rightarrow> (nat \<Rightarrow> (nat \<times> nat option) option) \<Rightarrow> bool" where
  one_section: "op_events x \<subseteq> {READ, WRITE} \<Longrightarrow> io_apply x s = (Inr (), s') \<Longrightarrow> io_step s found s' found"
| look_up: "found t = None \<Longrightarrow> addEvent_find (int fd) s = Inr r \<Longrightarrow> io_step s found s (found(t := Some (fd, r)))"
| grow: "found t = Some (fd, None) \<Longrightarrow> length (m_fdContexts s) \<le> fd * 3 div 2 \<Longrightarrow> addEvent_grow (int fd) s = (Inr a, s')
    \<Longrightarrow> io_step s found s' (found(t := Some (fd, Some a)))"
| add: "found t = Some (fd, Some a) \<Longrightarrow> event \<in> {READ, WRITE}
    \<Longrightarrow> addEvent_locked refuse a fd event cb (Some k) p s = (Inr n, s') \<Longrightarrow> io_step s found s' (found(t := None))"

inductive io_running :: "'f iomanager \<Rightarrow> (nat \<Rightarrow> (nat \<times> nat option) option) \<Rightarrow> bool" where
  io_start: "io_running (IOManager me sc now ids others) (\<lambda>_. None)"
| io_next: "io_running s found \<Longrightarrow> io_step s found s' found' \<Longrightarrow> io_running s' found'"

definition io_reachable :: "'f iomanager \<Rightarrow> bool" where
  "io_reachable s \<longleftrightarrow> (\<exists>found. io_running s found)"

lemma IOManager_inv: "io_inv (IOManager me sc now ids others)"
  by (auto simp: io_inv_def IOManager_def contextResize_def Let_def interest_def sum_list_eq_0_iff)

lemma io_apply_inv:
  assumes "io_inv s" "op_events x \<subseteq> {READ, WRITE}" "io_apply x s = (Inr (), s')"
  shows "io_inv s'"
proof (cases x)
  case (DelEvent refuse fd event)
  then show ?thesis
    using assms delEvent_inv [OF assms(1), of event "int fd" refuse] by (auto split: prod.splits)
next
  case (CancelEvent refuse fd event)
  show ?thesis
  proof (cases "fd < length (m_fdContexts s)")
    case True
    have ev: "event \<in> {READ, WRITE}" using assms(2) CancelEvent by simp
    show ?thesis
      by (rule cancelEvent_spec [OF assms(1) ev, of "int fd" refuse])
        (use assms True CancelEvent in auto)
  next
    case False
    then show ?thesis using assms CancelEvent by (auto simp: cancelEvent_def find_context_def)
  qed
next
  case (CancelAll refuse fd)
  show ?thesis
  proof (cases "fd < length (m_fdContexts s)")
    case True
    show ?thesis
      by (rule cancelAll_spec [OF assms(1), of "int fd" refuse])
        (use assms True CancelAll in auto)
  next
    case False
    then show ?thesis using assms CancelAll by (auto simp: cancelAll_def find_context_def)
  qed
next
  case (HandleEvent refuse m fd)
  show ?thesis
  proof (cases "fd < length (m_fdContexts s)")
    case True
    show ?thesis
      by (rule handle_event_spec [OF assms(1) True refl, of refuse m])
        (use assms HandleEvent True in auto)
  next
    case False
    then show ?thesis using assms HandleEvent by auto
  qed
next
  case (ScheduleTask_on k x)
  then show ?thesis using assms by (auto simp: io_inv_def)
next
  case (NewTimer p now ms cb recurring)
  then show ?thesis
    using assms io_inv_cong [of s' s]
    by (auto simp: io_addTimer_def Let_def onTimerInsertedAtFront_def io_tickle_def split: prod.splits if_splits)
next
  case (NextTimer now)
  then show ?thesis
    using assms io_inv_cong [of s' s] by (auto simp: io_stopping_def split: prod.splits)
next
  case (TakeExpired q now)
  then show ?thesis
    using assms io_inv_cong [of s' s] schedule_all_frame by (auto split: prod.splits)
qed


text \<open>What a thread has found stays in the vector.\<close>

definition found_ok :: "'f iomanager \<Rightarrow> (nat \<Rightarrow> (nat \<times> nat option) option) \<Rightarrow> bool" where
  "found_ok s found \<longleftrightarrow> (\<forall>t fd a. found t = Some (fd, Some a) \<longrightarrow> fd < length (m_fdContexts s) \<and> m_fdContexts s ! fd = a)
     \<and> (\<forall>t fd. found t = Some (fd, None) \<longrightarrow> 32 \<le> fd)"

lemma io_apply_same_vector:
  assumes "io_apply x s = (Inr (), s')"
  shows "same_vector s s'"
  using assms
  by (cases x)
    (auto simp: io_addTimer_def onTimerInsertedAtFront_def Let_def io_stopping_def split: prod.splits if_splits
      dest: delEvent_same_vector cancelEvent_same_vector cancelAll_same_vector handle_event_same_vector)

lemma io_step_inv:
  assumes "io_step s found s' found'" "io_inv s" "found_ok s found"
  shows "io_inv s' \<and> found_ok s' found'"
  using assms(1)
proof cases
  case (one_section x)
  have "m_fdContexts s' = m_fdContexts s" using io_apply_same_vector [OF one_section(3)] by (simp add: same_vector_def)
  then show ?thesis using io_apply_inv [OF assms(2) one_section(2,3)] assms(3) one_section(1) by (simp add: found_ok_def)
next
  case (look_up t fd r)
  then show ?thesis
    using assms(2,3) io_inv_32 [OF assms(2)] by (auto simp: found_ok_def addEvent_find_def split: if_splits)
next
  case (grow t fd a)
  let ?s = "contextResize (fd * 3 div 2) s"
  have fd: "32 \<le> fd" using assms(3) grow(2) by (auto simp: found_ok_def)
  have s': "s' = ?s" "fd < length (m_fdContexts s')" "a = m_fdContexts s' ! fd"
    using grow(4) by (auto simp: addEvent_grow_def Let_def split: if_splits)
  have "m_fdContexts s' = m_fdContexts s @ [ctx_next s ..< ctx_next s + (fd * 3 div 2 - length (m_fdContexts s))]"
    using grow(3) s'(1) by (simp add: contextResize_def Let_def)
  then have "i < length (m_fdContexts s) \<Longrightarrow> i < length (m_fdContexts s') \<and> m_fdContexts s' ! i = m_fdContexts s ! i" for i
    by (simp add: nth_append)
  then have "found_ok s' (found(t := Some (fd, Some a)))"
    using assms(3) s'(2,3) by (auto simp: found_ok_def)
  then show ?thesis using contextResize_inv(1) [OF assms(2) grow(3)] s'(1) grow(1) by simp
next
  case (add t fd a event refuse cb k p n)
  have a: "fd < length (m_fdContexts s)" "m_fdContexts s ! fd = a" using assms(3) add(2) by (auto simp: found_ok_def)
  note al = addEvent_locked_spec [OF assms(2) add(3) a(1), of refuse cb k p, unfolded a(2)]
  have "io_inv s' \<and> m_fdContexts s' = m_fdContexts s"
    using add(4) al assms(2) by (cases "events (ctx_at s a) AND event = 0"; cases refuse) auto
  then show ?thesis using assms(3) add(1) by (auto simp: found_ok_def)
qed

lemma io_running_inv: "io_running s found \<Longrightarrow> io_inv s \<and> found_ok s found"
proof (induction rule: io_running.induct)
  case (io_start me sc now ids others)
  show ?case using IOManager_inv by (simp add: found_ok_def)
next
  case (io_next s found s' found')
  then show ?case using io_step_inv by blast
qed

lemma io_reachable_inv: "io_reachable s \<Longrightarrow> io_inv s"
  using io_running_inv by (auto simp: io_reachable_def)

text \<open>A whole \<^verbatim>\<open>addEvent\<close> of a descriptor that has a context is such a run.\<close>

lemma io_running_add:
  assumes "io_running s found" "found t = None" "fd < length (m_fdContexts s)" "event \<in> {READ, WRITE}"
    "addEvent refuse (int fd) event cb (Some k) p s = (Inr n, s')"
  shows "io_running s' found"
proof -
  have f: "addEvent_find (int fd) s = Inr (Some (m_fdContexts s ! fd))" using assms(3) by (simp add: addEvent_find_def)
  have "io_running s (found(t := Some (fd, Some (m_fdContexts s ! fd))))"
    by (rule io_next [OF assms(1)], rule io_step.look_up [where found = found and t = t and fd = fd and s = s, OF assms(2) f])
  then have "io_running s' (found(t := Some (fd, Some (m_fdContexts s ! fd)), t := None))"
    by (rule io_next [OF _ io_step.add [where t = t and fd = fd and event = event and refuse = refuse and cb = cb and k = k and p = p and n = n]])
      (use assms(4,5) f in \<open>simp_all add: addEvent_def\<close>)
  moreover have "found(t := Some (fd, Some (m_fdContexts s ! fd)), t := None) = found" using assms(2) by auto
  ultimately show ?thesis by simp
qed

section \<open>A manager with one event\<close>

definition io_sched :: "unit callback scheduler" where
  "io_sched = \<lparr>m_threads = [], m_tasks = [], m_threadIds = [], m_threadCount = 1, m_activeThreadCount = 0,
     m_idleThreadCount = 0, m_useCaller = False, m_rootFiber = None, m_rootThread = - 1, m_stopping = False\<rparr>"

definition io0 :: "unit iomanager" where
  "io0 = IOManager 0 io_sched 100 [] (\<lambda>_. io_sched)"

definition io1 :: "unit iomanager" where
  "io1 = snd (addEvent False 3 READ (Some (Plain ())) (Some 0) 9 io0)"


lemma io0_inv: "io_inv io0"
  unfolding io0_def by (rule IOManager_inv)

lemma io0_simps: "m_fdContexts io0 = [0..<32]" "ctx_at io0 3 = new_fd_context 3" "m_pendingEventCount io0 = 0"
  "scheds io0 0 = io_sched"
  by (simp_all add: io0_def IOManager_def contextResize_def Let_def start_def io_sched_def)

lemma io1_add: "addEvent False 3 READ (Some (Plain ())) (Some 0) 9 io0 = (Inr 0, io1)"
  and io1_simps: "ctx_at io1 3 = register READ (new_event_context (Some (Plain ())) 0 9) (new_fd_context 3)"
  "m_fdContexts io1 = [0..<32]" "m_pendingEventCount io1 = 1" "m_tasks (scheds io1 j) = m_tasks (scheds io0 j)"
proof -
  have w: "with_context 3 io0 = io0" by (simp add: with_context_def io0_simps)
  have nth: "m_fdContexts io0 ! 3 = 3" by (simp add: io0_simps)
  note al = addEvent_locked_spec [OF io0_inv, of READ 3 False "Some (Plain ())" 0 9]
  have "\<exists>s'. addEvent False 3 READ (Some (Plain ())) (Some 0) 9 io0 = (Inr 0, s')
      \<and> ctx_at s' = (ctx_at io0)(3 := register READ (new_event_context (Some (Plain ())) 0 9) (new_fd_context 3))
      \<and> m_fdContexts s' = m_fdContexts io0 \<and> m_pendingEventCount s' = m_pendingEventCount io0 + 1
      \<and> scheds s' = scheds io0"
    using al with_context_inv(3) [OF io0_inv, of 3 False READ "Some (Plain ())" "Some 0" 9]
    by (auto simp: io0_simps w nth)
  then show "addEvent False 3 READ (Some (Plain ())) (Some 0) 9 io0 = (Inr 0, io1)"
    "ctx_at io1 3 = register READ (new_event_context (Some (Plain ())) 0 9) (new_fd_context 3)"
    "m_fdContexts io1 = [0..<32]" "m_pendingEventCount io1 = 1" "m_tasks (scheds io1 j) = m_tasks (scheds io0 j)"
    by (auto simp: io1_def io0_simps)
qed

lemma io1_reachable: "io_reachable io1"
proof -
  have "io_running io0 (\<lambda>_. None)" unfolding io0_def by (rule io_start)
  from io_running_add [where t = 0 and fd = 3 and event = READ and refuse = False and cb = "Some (Plain ())" and k = 0 and p = 9
      and n = 0 and s' = io1, OF this] show ?thesis
    by (auto simp: io_reachable_def io0_simps io1_add)
qed

lemma io1_events: "events (ctx_at io1 3) = READ"
  by (simp add: io1_simps register_def setEventContext_def new_fd_context_def NONE_def)

section \<open>Claims\<close>



text \<open>
  C19. An event is triggered once. When \<^verbatim>\<open>cancelEvent\<close> succeeds, exactly one task is scheduled, at the
  back of the queue of the scheduler that was current when the event was added: its callback, or the
  fiber that added it. From then on the event is not registered: cancelling or deleting it again returns
  false and changes nothing.
\<close>

theorem cancelled_event_runs_once:
  assumes "io_reachable s" "event = READ \<or> event = WRITE"
    "cancelEvent refuse fd event s = (Inr True, s')"
  defines "e \<equiv> context_of event (ctx_at s (m_fdContexts s ! nat fd))"
  shows "(\<exists>k. ec_scheduler e = Some k \<and> (\<forall>j. m_tasks (scheds s' j) = m_tasks (scheds s j)
          @ (if j = k then [if ec_cb e \<noteq> None then ScheduleTask_cb (ec_cb e) (- 1)
                            else ScheduleTask_fiber (ec_fiber e) (- 1)] else [])))
    \<and> cancelEvent refuse' fd event s' = (Inr False, s') \<and> delEvent refuse' fd event s' = (Inr False, s')"
proof -
  note inv = io_reachable_inv [OF assms(1)]
  have ev: "event \<in> {READ, WRITE}" using assms(2) by blast
  have fd: "0 \<le> fd" "nat fd < length (m_fdContexts s)"
    using assms(3) by (auto simp: cancelEvent_def find_context_def split: if_splits)
  let ?c = "ctx_at s (m_fdContexts s ! nat fd)"
  obtain reg: "events ?c AND event \<noteq> 0"
    and st: "ctx_at s' = (ctx_at s)(m_fdContexts s ! nat fd := unregister event ?c)"
      "m_fdContexts s' = m_fdContexts s"
      "\<And>j. m_tasks (scheds s' j) = m_tasks (scheds s j) @ event_tasks event ?c j"
    by (rule cancelEvent_spec [OF inv ev fd, of refuse]) (use assms(3) in auto)
  have wf: "ctx_wf ?c" using io_invD(3) [OF inv] fd(2) by simp
  then have "filled e" using reg ev by (auto simp: ctx_wf_def e_def context_of_def)
  then obtain k where k: "ec_scheduler e = Some k" by (auto simp: filled_def)
  have "event_tasks event ?c j = (if j = k then [event_task e] else [])" for j
    using reg k by (auto simp: event_tasks_def e_def)
  then have tasks: "\<forall>j. m_tasks (scheds s' j) = m_tasks (scheds s j)
      @ (if j = k then [if ec_cb e \<noteq> None then ScheduleTask_cb (ec_cb e) (- 1)
                        else ScheduleTask_fiber (ec_fiber e) (- 1)] else [])"
    using st(3) by (simp add: event_task_def)
  have gone: "events (ctx_at s' (m_fdContexts s' ! nat fd)) AND event = 0"
    using unregister_wf(3) [OF wf ev] st(1,2) by (simp add: and.assoc)
  have fc: "find_context fd s' = Inr (Some (m_fdContexts s' ! nat fd))"
    using find_context_known fd st(2) by metis
  show ?thesis
    using k tasks gone by (auto simp: cancelEvent_def delEvent_def fc Let_def)
qed

lemma io1_cancel: "\<exists>s'. cancelEvent False 3 READ io1 = (Inr True, s')"
  by (rule cancelEvent_spec [OF io_reachable_inv [OF io1_reachable], of READ 3 False])
    (auto simp: io1_simps(2) io1_events READ_def)

theorem cancelled_event_runs_once_witness:
  "\<exists>s'. cancelEvent False 3 READ io1 = (Inr True, s')
     \<and> m_tasks (scheds s' 0) = [ScheduleTask_cb (Some (Plain ())) (- 1)]
     \<and> cancelEvent False 3 READ s' = (Inr False, s')"
proof -
  obtain s' where s': "cancelEvent False 3 READ io1 = (Inr True, s')" using io1_cancel by blast
  have e: "context_of READ (ctx_at io1 (m_fdContexts io1 ! nat 3)) = new_event_context (Some (Plain ())) 0 9"
    by (simp add: io1_simps context_of_def register_def setEventContext_def)
  note run = cancelled_event_runs_once [OF io1_reachable disjI1 [OF refl] s', unfolded e, of False]
  then show ?thesis using s' by (auto simp: new_event_context_def io1_simps(4) io0_simps(4) io_sched_def)
qed



text \<open>
  The timeout \<^verbatim>\<open>epoll_wait\<close> is given is five seconds when there is no timer, and otherwise the time
  to the next timer, five seconds at most, as long as this time is less than \<open>2 ^ 31\<close> milliseconds.
\<close>

theorem epoll_timeout_bounded:
  "epoll_timeout (- 1) = 5000
    \<and> (\<forall>t. t < 2 ^ 31 \<longrightarrow> epoll_timeout t = min (uint t) 5000)"
proof -
  have "epoll_timeout t = min (uint t) 5000" if "t < 2 ^ 31" for t
  proof -
    have t: "uint t < 2 ^ 31" using that by (simp add: word_less_def)
    have i: "to_int32 (word_of_int x) = x" if "0 \<le> x" "x < 2 ^ 31" for x
    proof -
      have "uint (word_of_int x :: u64) = x" using that by (simp add: unsigned_of_int take_bit_int_eq_self)
      then show ?thesis using that by (simp add: to_int32_def signed_ucast_eq signed_take_bit_int_eq_self)
    qed
    have "to_int32 t = uint t" using i [of "uint t"] t by simp
    moreover have "t \<noteq> - 1" using that by auto
    ultimately show ?thesis using i t by (simp add: epoll_timeout_def MAX_TIMEOUT_def)
  qed
  moreover have "epoll_timeout (- 1) = 5000"
    by (simp add: epoll_timeout_def MAX_TIMEOUT_def to_int32_def)
  ultimately show ?thesis by blast
qed

theorem epoll_timeout_bounded_witness: "epoll_timeout 7000 = 5000 \<and> epoll_timeout 20 = 20"
  using epoll_timeout_bounded by (auto simp: word_less_nat_alt)

text \<open>
  C20. The idle fiber ends exactly when the manager has nothing left to wait for: it was told to stop, no
  task is queued or running, no timer is set, and no descriptor has a registered event.
\<close>

theorem idle_ends_when_done:
  assumes "io_reachable s" "now \<noteq> 0"
  shows "(\<exists>s'. idle_round now now' q evs s = (Inr None, s'))
    \<longleftrightarrow> stopping (scheds s (self s)) \<and> m_timers (timers s) = []
      \<and> (\<forall>a. a \<in> set (m_fdContexts s) \<longrightarrow> events (ctx_at s a) = 0)"
proof -
  note inv = io_reachable_inv [OF assms(1)]
  have "ev_count (events (ctx_at s a)) = 0 \<longleftrightarrow> events (ctx_at s a) = 0" if "a \<in> set (m_fdContexts s)" for a
    using io_invD(3) [OF inv that] by (auto simp: ctx_wf_def ev_count_def event_bits)
  then have p: "m_pendingEventCount s = 0 \<longleftrightarrow> (\<forall>a. a \<in> set (m_fdContexts s) \<longrightarrow> events (ctx_at s a) = 0)"
    using io_invD(7) [OF inv] by (auto simp: sum_list_eq_0_iff)
  have "x - now \<noteq> - 1" if "now < x" for x
  proof
    assume "x - now = - 1"
    then have "x = now - 1" by (metis diff_add_cancel uminus_add_conv_diff)
    moreover have "now - 1 < now" using assms(2) by (simp add: measure_unat word_less_nat_alt)
    ultimately show False using that by simp
  qed
  then have "fst (getNextTimer now (timers s)) = - 1 \<longleftrightarrow> m_timers (timers s) = []"
    by (cases "m_timers (timers s)") (auto simp: getNextTimer_def Let_def not_le)
  then show ?thesis
    using p by (auto simp: idle_round_def io_stopping_def split: prod.splits sum.splits if_splits)
qed

definition io_done :: "unit iomanager" where
  "io_done = IOManager 0 (io_sched\<lparr>m_stopping := True\<rparr>) 100 [] (\<lambda>_. io_sched)"

theorem idle_ends_when_done_witness: "\<exists>s'. idle_round 100 100 5 [] io_done = (Inr None, s')"
proof -
  have r: "io_reachable io_done" unfolding io_done_def io_reachable_def using io_start by blast
  have st: "stopping (scheds io_done (self io_done))" "m_timers (timers io_done) = []"
    "m_fdContexts io_done = [0..<32]"
    by (simp_all add: io_done_def IOManager_def contextResize_def Let_def start_def io_sched_def stopping_def
        TimerManager_def)
  have "events (ctx_at io_done a) = 0" if "a < 32" for a
    using that by (simp add: io_done_def IOManager_def contextResize_def Let_def)
  then show ?thesis using idle_ends_when_done [OF r, of 100 100 5 "[]"] st by simp
qed

section \<open>Where the code falls short\<close>

text \<open>
  A timer far enough in the future makes the timeout negative, so that \<^verbatim>\<open>epoll_wait\<close> waits without
  limit rather than for the five seconds of \<^verbatim>\<open>MAX_TIMEOUT\<close>.
\<close>

lemma far_timer_waits_forever: "epoll_timeout (2 ^ 31) = - (2 ^ 31)"
  by (simp add: epoll_timeout_def MAX_TIMEOUT_def to_int32_def)

text \<open>
  A readiness both of reading and of writing, collected by \<^verbatim>\<open>epoll_wait\<close> before another thread deletes
  the write event, fails the assertion of \<^verbatim>\<open>triggerEvent\<close> and ends the process.
\<close>

lemma deleted_event_aborts: "fst (handle_event False (EPOLLIN OR EPOLLOUT, 3) io1) = Inl IoAssert"
proof -
  have "real_events (EPOLLIN OR EPOLLOUT) READ = 5" by (simp add: real_events_def event_bits)
  then show ?thesis
    by (rule_tac handle_event_spec [OF io_reachable_inv [OF io1_reachable], of 3 3 False "EPOLLIN OR EPOLLOUT"])
      (auto simp: io1_simps(2) io1_events READ_def)
qed

text \<open>
  Two threads that both see the vector too short for descriptor 100: when the second sizes it for its own,
  smaller descriptor, the contexts of the first are gone.
\<close>

lemma resize_race_drops_contexts:
  fixes s :: "'f iomanager"
  assumes "length (m_fdContexts s) = 32"
  shows "addEvent_find 40 s = Inr None \<and> addEvent_find 100 s = Inr None
    \<and> addEvent_find 100 (snd (addEvent_grow 100 s)) \<noteq> Inr None
    \<and> addEvent_find 100 (snd (addEvent_grow 40 (snd (addEvent_grow 100 s)))) = Inr None"
  using assms by (simp add: addEvent_find_def addEvent_grow_def contextResize_def Let_def)

text \<open>A negative descriptor passes the check of the size and indexes the vector out of its bounds.\<close>

lemma negative_fd_out_of_bounds: "fst (addEvent refuse (- 1) event cb k p s) = Inl BadIndex"
  by (simp add: addEvent_def addEvent_find_def)

end
