(* ===== verification/FdManager.thy ===== *)
theory FdManager
  imports Prelude
begin

text \<open>
  \<^verbatim>\<open>server/fd_manager.h\<close> and \<^verbatim>\<open>server/fd_manager.cc\<close>: what the framework knows of each file descriptor. The
  kernel's side, open files with their status flags and whether they are sockets, is a map from
  descriptors; \<^verbatim>\<open>fcntl\<close> on it behaves as documented.
\<close>

unbundle bit_operations_syntax

section \<open>The kernel's files\<close>

record kfile =
  kf_socket :: bool
  kf_flags :: u32

type_synonym kernel = "int \<Rightarrow> kfile option"

definition O_NONBLOCK :: u32 where "O_NONBLOCK = 0x800"

text \<open>The flags \<^verbatim>\<open>F_SETFL\<close> may change: \<^verbatim>\<open>O_APPEND\<close>, \<^verbatim>\<open>O_ASYNC\<close>, \<^verbatim>\<open>O_DIRECT\<close>, \<^verbatim>\<open>O_NOATIME\<close>, \<^verbatim>\<open>O_NONBLOCK\<close>.\<close>

definition SETFL_MASK :: u32 where "SETFL_MASK = 0x46C00"

definition fcntl_getfl :: "int \<Rightarrow> kernel \<Rightarrow> u32" where
  "fcntl_getfl fd k = (case k fd of None \<Rightarrow> - 1 | Some f \<Rightarrow> kf_flags f)"

definition fcntl_setfl :: "int \<Rightarrow> u32 \<Rightarrow> kernel \<Rightarrow> u32 \<times> kernel" where
  "fcntl_setfl fd arg k = (case k fd of
     None \<Rightarrow> (- 1, k)
   | Some f \<Rightarrow> (0, k(fd \<mapsto> f\<lparr>kf_flags := (kf_flags f AND NOT SETFL_MASK) OR (arg AND SETFL_MASK)\<rparr>)))"

section \<open>The context of a descriptor\<close>

record fd_ctx =
  m_isInit :: bool
  m_isSocket :: bool
  m_sysNonblock :: bool
  m_userNonblock :: bool
  m_isClosed :: bool
  m_fd :: int
  m_recvTimeout :: u64
  m_sendTimeout :: u64

definition FdCtx_init :: "fd_ctx \<Rightarrow> kernel \<Rightarrow> bool \<times> fd_ctx \<times> kernel" where
  "FdCtx_init c k =
     (if m_isInit c then (True, c, k)
      else
        let c1 = c\<lparr>m_recvTimeout := - 1, m_sendTimeout := - 1\<rparr>;
            c2 = (case k (m_fd c) of
                    None \<Rightarrow> c1\<lparr>m_isInit := False, m_isSocket := False\<rparr>
                  | Some f \<Rightarrow> c1\<lparr>m_isInit := True, m_isSocket := kf_socket f\<rparr>);
            (c3, k1) = (if m_isSocket c2 then
                          (let flags = fcntl_getfl (m_fd c2) k
                           in (c2\<lparr>m_sysNonblock := True\<rparr>,
                               if flags AND O_NONBLOCK = 0
                               then snd (fcntl_setfl (m_fd c2) (flags OR O_NONBLOCK) k) else k))
                        else (c2\<lparr>m_sysNonblock := False\<rparr>, k));
            c4 = c3\<lparr>m_userNonblock := False, m_isClosed := False\<rparr>
        in (m_isInit c4, c4, k1))"

definition FdCtx :: "int \<Rightarrow> kernel \<Rightarrow> fd_ctx \<times> kernel" where
  "FdCtx fd k = snd (FdCtx_init
     \<lparr>m_isInit = False, m_isSocket = False, m_sysNonblock = False, m_userNonblock = False, m_isClosed = False,
      m_fd = fd, m_recvTimeout = - 1, m_sendTimeout = - 1\<rparr> k)"

datatype sockopt = SO_RCVTIMEO | SO_SNDTIMEO

definition setTimeout :: "sockopt \<Rightarrow> u64 \<Rightarrow> fd_ctx \<Rightarrow> fd_ctx" where
  "setTimeout type v c = (if type = SO_RCVTIMEO then c\<lparr>m_recvTimeout := v\<rparr> else c\<lparr>m_sendTimeout := v\<rparr>)"

definition getTimeout :: "sockopt \<Rightarrow> fd_ctx \<Rightarrow> u64" where
  "getTimeout type c = (if type = SO_RCVTIMEO then m_recvTimeout c else m_sendTimeout c)"

section \<open>The manager\<close>

text \<open>An access outside the vector.\<close>

datatype fd_error = FdIndex

record fd_sys =
  m_datas :: "fd_ctx option list"
  kern :: kernel

type_synonym 'a fds = "(fd_sys, fd_error, 'a) sx"

definition FdManager :: "kernel \<Rightarrow> fd_sys" where
  "FdManager k = \<lparr>m_datas = replicate 64 None, kern = k\<rparr>"

text \<open>
  \<^verbatim>\<open>get\<close> takes the lock twice. The first section: \<open>Some r\<close> when it returns, \<open>None\<close> when a context is to be
  created.
\<close>

definition FdMgr_find :: "int \<Rightarrow> bool \<Rightarrow> fd_sys \<Rightarrow> fd_error + fd_ctx option option" where
  "FdMgr_find fd auto_create s =
     (if int (length (m_datas s)) \<le> fd then
        (if auto_create = False then Inr (Some None) else Inr None)
      else if fd < 0 then Inl FdIndex
      else if m_datas s ! nat fd \<noteq> None \<or> \<not> auto_create then Inr (Some (m_datas s ! nat fd))
      else Inr None)"

definition FdMgr_create :: "int \<Rightarrow> fd_ctx fds" where
  "FdMgr_create fd s =
     (case FdCtx fd (kern s) of (c, k) \<Rightarrow>
        let xs = (if fd \<ge> int (length (m_datas s))
                  then take (nat fd * 3 div 2) (m_datas s) @ replicate (nat fd * 3 div 2 - length (m_datas s)) None
                  else m_datas s);
            s1 = s\<lparr>m_datas := xs, kern := k\<rparr>
        in if nat fd < length xs then (Inr c, s1\<lparr>m_datas := xs[nat fd := Some c]\<rparr>) else (Inl FdIndex, s1))"

definition FdMgr_get :: "int \<Rightarrow> bool \<Rightarrow> fd_ctx option fds" where
  "FdMgr_get fd auto_create s =
     (if fd = - 1 then (Inr None, s)
      else case FdMgr_find fd auto_create s of
        Inl e \<Rightarrow> (Inl e, s)
      | Inr (Some r) \<Rightarrow> (Inr r, s)
      | Inr None \<Rightarrow> (case FdMgr_create fd s of (r, s1) \<Rightarrow> (map_sum id Some r, s1)))"

definition FdMgr_del :: "int \<Rightarrow> unit fds" where
  "FdMgr_del fd s =
     (if int (length (m_datas s)) \<le> fd then (Inr (), s)
      else if fd < 0 then (Inl FdIndex, s)
      else (Inr (), s\<lparr>m_datas := (m_datas s)[nat fd := None]\<rparr>))"

text \<open>A setter called through the pointer \<^verbatim>\<open>get\<close> returned.\<close>

definition FdMgr_set :: "int \<Rightarrow> (fd_ctx \<Rightarrow> fd_ctx) \<Rightarrow> fd_sys \<Rightarrow> fd_sys" where
  "FdMgr_set fd f s = s\<lparr>m_datas := (m_datas s)[nat fd := map_option f (m_datas s ! nat fd)]\<rparr>"

end
