(* ===== verification/Hook.thy ===== *)
theory Hook
  imports FdManager IOManager "HOL-Library.Signed_Division"
begin

text \<open>
  \<^verbatim>\<open>server/hook.h\<close> and \<^verbatim>\<open>server/hook.cc\<close>: the system calls the framework replaces. Where a call waits,
  its fiber yields: the model is cut there, the part before returns \<open>Wait\<close> and the part behind is an
  operation of its own; what other fibers do in between is a change of the state. The results of the
  original system calls are arguments, pairs of the value and the \<^verbatim>\<open>errno\<close> of a failure.
\<close>

section \<open>The state\<close>

text \<open>The functions given to timers: schedule a fiber, and the time limit of a call, with its \<^verbatim>\<open>timer_info\<close>.\<close>

datatype hook_fn = ScheduleFiber nat | IoTimeout nat int Event

text \<open>\<open>cancelled\<close> is the member of the \<^verbatim>\<open>timer_info\<close> at an address.\<close>

record hook =
  fds :: fd_sys
  iom :: "hook_fn iomanager"
  cancelled :: "nat \<Rightarrow> int"
  errno :: int

datatype hook_error = HookFd fd_error | HookIo io_error | HookTimer timer_error

type_synonym 'a hk = "(hook, hook_error, 'a) sx"

definition EINTR :: int where "EINTR = 4"
definition EBADF :: int where "EBADF = 9"
definition EAGAIN :: int where "EAGAIN = 11"
definition ETIMEDOUT :: int where "ETIMEDOUT = 110"
definition EINPROGRESS :: int where "EINPROGRESS = 115"

definition on_fds :: "(fd_sys, fd_error, 'a) sx \<Rightarrow> 'a hk" where
  "on_fds m s = (case m (fds s) of (r, f) \<Rightarrow> (map_sum HookFd id r, s\<lparr>fds := f\<rparr>))"

definition on_iom :: "(hook_fn, 'a) io \<Rightarrow> 'a hk" where
  "on_iom m s = (case m (iom s) of (r, i) \<Rightarrow> (map_sum HookIo id r, s\<lparr>iom := i\<rparr>))"

text \<open>\<^verbatim>\<open>timer->cancel()\<close>, if there is a timer.\<close>

definition cancel_timer :: "nat option \<Rightarrow> unit hk" where
  "cancel_timer timer s =
     (case timer of None \<Rightarrow> (Inr (), s)
      | Some p \<Rightarrow> (case cancel p (timers (iom s)) of (r, tm) \<Rightarrow>
          (map_sum HookTimer (\<lambda>_. ()) r, s\<lparr>iom := (iom s)\<lparr>timers := tm\<rparr>\<rparr>)))"

section \<open>Reading and writing\<close>

text \<open>The call repeated while it is interrupted; \<open>None\<close> when the given results end before.\<close>

fun call_again :: "(int \<times> int) list \<Rightarrow> hook \<Rightarrow> (int \<times> hook) option" where
  "call_again [] s = None"
| "call_again ((n, e) # rs) s =
     (let s1 = (if n = - 1 then s\<lparr>errno := e\<rparr> else s)
      in if n = - 1 \<and> errno s1 = EINTR then call_again rs s1 else Some (n, s1))"

text \<open>What a call needs from its surroundings when it waits.\<close>

record wait_args =
  wa_refuse :: bool
  wa_timer :: nat
  wa_now :: u64
  wa_sched :: "nat option"
  wa_fiber :: nat

datatype io_progress = Return int | Wait "nat option" | Running

text \<open>The branch for \<^verbatim>\<open>EAGAIN\<close>: the timer, the event, and the wait. \<open>info\<close> is the address of the \<^verbatim>\<open>timer_info\<close>.\<close>

definition do_io_wait :: "int \<Rightarrow> Event \<Rightarrow> u64 \<Rightarrow> nat \<Rightarrow> wait_args \<Rightarrow> io_progress hk" where
  "do_io_wait fd event to info w s =
     (let (timer, s1) = (if to \<noteq> - 1
            then (Some (wa_timer w), s\<lparr>iom := io_addConditionTimer (wa_timer w) (wa_now w) to
                    (IoTimeout info fd event) info False (iom s)\<rparr>)
            else (None, s))
      in case on_iom (addEvent (wa_refuse w) fd event None (wa_sched w) (wa_fiber w)) s1 of
           (Inl e, s2) \<Rightarrow> (Inl e, s2)
         | (Inr rt, s2) \<Rightarrow>
             (if rt \<noteq> 0 then
                (case cancel_timer timer s2 of (Inl e, s3) \<Rightarrow> (Inl e, s3) | (Inr u, s3) \<Rightarrow> (Inr (Return (- 1)), s3))
              else (Inr (Wait timer), s2)))"

text \<open>From the label \<^verbatim>\<open>retry\<close> to the next yield or return.\<close>

definition do_io_retry :: "int \<Rightarrow> Event \<Rightarrow> u64 \<Rightarrow> nat \<Rightarrow> wait_args \<Rightarrow> (int \<times> int) list \<Rightarrow> io_progress hk" where
  "do_io_retry fd event to info w results s =
     (case call_again results s of
        None \<Rightarrow> (Inr Running, s)
      | Some (n, s1) \<Rightarrow>
          if n = - 1 \<and> errno s1 = EAGAIN then do_io_wait fd event to info w s1 else (Inr (Return n), s1))"

text \<open>Behind the yield: \<open>None\<close> is the jump back to \<^verbatim>\<open>retry\<close>.\<close>

definition do_io_resume :: "nat option \<Rightarrow> nat \<Rightarrow> int option hk" where
  "do_io_resume timer info s =
     (case cancel_timer timer s of
        (Inl e, s1) \<Rightarrow> (Inl e, s1)
      | (Inr u, s1) \<Rightarrow>
          if cancelled s1 info \<noteq> 0 then (Inr (Some (- 1)), s1\<lparr>errno := cancelled s1 info\<rparr>)
          else (Inr None, s1))"

text \<open>
  \<^verbatim>\<open>do_io\<close> up to its first yield. \<open>result\<close> is the result of the call where it goes straight to the
  system; \<open>None\<close> as the \<^verbatim>\<open>timer_info\<close> says that none was made.
\<close>

definition do_io_enter :: "bool \<Rightarrow> int \<Rightarrow> Event \<Rightarrow> sockopt \<Rightarrow> nat \<Rightarrow> wait_args \<Rightarrow> (int \<times> int) list
    \<Rightarrow> (io_progress \<times> u64) hk" where
  "do_io_enter hook_enable fd event timeout_so info w results s =
     (let direct = (case results of [] \<Rightarrow> (Inr (Running, - 1), s)
            | (n, e) # rs \<Rightarrow> (Inr (Return n, - 1), if n = - 1 then s\<lparr>errno := e\<rparr> else s)) in
      if \<not> hook_enable then direct
      else case FdMgr_get fd False (fds s) of
        (Inl e, f) \<Rightarrow> (Inl (HookFd e), s\<lparr>fds := f\<rparr>)
      | (Inr None, f) \<Rightarrow> direct
      | (Inr (Some c), f) \<Rightarrow>
          (if m_isClosed c then (Inr (Return (- 1), - 1), s\<lparr>errno := EBADF\<rparr>)
           else if \<not> m_isSocket c \<or> m_userNonblock c then direct
           else
             let to = getTimeout timeout_so c;
                 s1 = s\<lparr>cancelled := (cancelled s)(info := 0)\<rparr>
             in case do_io_retry fd event to info w results s1 of
                  (Inl e, s2) \<Rightarrow> (Inl e, s2)
                | (Inr r, s2) \<Rightarrow> (Inr (r, to), s2)))"

text \<open>
  The whole call: each round is what the other fibers do while it waits, and then the arguments and the
  results of the next attempt. The result is \<open>None\<close> while it is still waiting.
\<close>

type_synonym io_round = "(hook \<Rightarrow> hook) \<times> wait_args \<times> (int \<times> int) list"

fun do_io_loop :: "int \<Rightarrow> Event \<Rightarrow> u64 \<Rightarrow> nat \<Rightarrow> io_progress \<Rightarrow> io_round list \<Rightarrow> int option hk" where
  "do_io_loop fd event to info (Return n) rounds s = (Inr (Some n), s)"
| "do_io_loop fd event to info Running rounds s = (Inr None, s)"
| "do_io_loop fd event to info (Wait timer) [] s = (Inr None, s)"
| "do_io_loop fd event to info (Wait timer) ((others, w, results) # rounds) s =
     (case do_io_resume timer info (others s) of
        (Inl e, s1) \<Rightarrow> (Inl e, s1)
      | (Inr (Some n), s1) \<Rightarrow> (Inr (Some n), s1)
      | (Inr None, s1) \<Rightarrow>
          (case do_io_retry fd event to info w results s1 of
             (Inl e, s2) \<Rightarrow> (Inl e, s2)
           | (Inr r, s2) \<Rightarrow> do_io_loop fd event to info r rounds s2))"

definition do_io :: "bool \<Rightarrow> int \<Rightarrow> Event \<Rightarrow> sockopt \<Rightarrow> nat \<Rightarrow> wait_args \<Rightarrow> (int \<times> int) list \<Rightarrow> io_round list
    \<Rightarrow> int option hk" where
  "do_io hook_enable fd event timeout_so info w results rounds s =
     (case do_io_enter hook_enable fd event timeout_so info w results s of
        (Inl e, s1) \<Rightarrow> (Inl e, s1)
      | (Inr (r, to), s1) \<Rightarrow> do_io_loop fd event to info r rounds s1)"

text \<open>The calls that read and write are \<^verbatim>\<open>do_io\<close> with their event and time limit.\<close>

datatype io_call = read | readv | recv | recvfrom | recvmsg | hk_write | writev | send | sendto | sendmsg

fun call_event :: "io_call \<Rightarrow> Event \<times> sockopt" where
  "call_event read = (READ, SO_RCVTIMEO)"
| "call_event readv = (READ, SO_RCVTIMEO)"
| "call_event recv = (READ, SO_RCVTIMEO)"
| "call_event recvfrom = (READ, SO_RCVTIMEO)"
| "call_event recvmsg = (READ, SO_RCVTIMEO)"
| "call_event hk_write = (WRITE, SO_SNDTIMEO)"
| "call_event writev = (WRITE, SO_SNDTIMEO)"
| "call_event send = (WRITE, SO_SNDTIMEO)"
| "call_event sendto = (WRITE, SO_SNDTIMEO)"
| "call_event sendmsg = (WRITE, SO_SNDTIMEO)"

definition hk_io :: "io_call \<Rightarrow> bool \<Rightarrow> int \<Rightarrow> nat \<Rightarrow> wait_args \<Rightarrow> (int \<times> int) list \<Rightarrow> io_round list \<Rightarrow> int option hk" where
  "hk_io call hook_enable fd info w results rounds s =
     (case call_event call of (event, timeout_so) \<Rightarrow> do_io hook_enable fd event timeout_so info w results rounds s)"

text \<open>The function of the timer, when the \<^verbatim>\<open>timer_info\<close> still exists (see \<open>run_callback\<close>).\<close>

definition io_timeout :: "bool \<Rightarrow> nat \<Rightarrow> int \<Rightarrow> Event \<Rightarrow> unit hk" where
  "io_timeout refuse info fd event s =
     (if cancelled s info \<noteq> 0 then (Inr (), s)
      else case on_iom (cancelEvent refuse fd event) (s\<lparr>cancelled := (cancelled s)(info := ETIMEDOUT)\<rparr>) of
        (r, s1) \<Rightarrow> (map_sum id (\<lambda>_. ()) r, s1))"

section \<open>Sleeping\<close>

text \<open>The timer a sleeping fiber waits for, after which it is scheduled.\<close>

definition sleep_timer :: "nat \<Rightarrow> u64 \<Rightarrow> u64 \<Rightarrow> nat \<Rightarrow> hook \<Rightarrow> hook" where
  "sleep_timer p now ms fiber s = s\<lparr>iom := io_addTimer p now ms (Some (Plain (ScheduleFiber fiber))) False (iom s)\<rparr>"

definition sleep_ms :: "u32 \<Rightarrow> u64" where
  "sleep_ms seconds = ucast (seconds * 1000)"

definition hk_sleep :: "nat \<Rightarrow> u64 \<Rightarrow> u32 \<Rightarrow> nat \<Rightarrow> hook \<Rightarrow> hook" where
  "hk_sleep p now seconds fiber s = sleep_timer p now (sleep_ms seconds) fiber s"

definition usleep_ms :: "u32 \<Rightarrow> u64" where
  "usleep_ms usec = ucast (usec div 1000)"

definition hk_usleep :: "nat \<Rightarrow> u64 \<Rightarrow> u32 \<Rightarrow> nat \<Rightarrow> hook \<Rightarrow> hook" where
  "hk_usleep p now usec fiber s = sleep_timer p now (usleep_ms usec) fiber s"

text \<open>\<^verbatim>\<open>timeout_ms\<close> is an \<^verbatim>\<open>int\<close>; the divisions of C round towards 0.\<close>

definition nanosleep_ms :: "int \<Rightarrow> int \<Rightarrow> u64" where
  "nanosleep_ms tv_sec tv_nsec =
     of_int (sint (word_of_int (tv_sec * 1000 + (tv_nsec sdiv 1000) sdiv 1000) :: 32 word))"

definition hk_nanosleep :: "nat \<Rightarrow> u64 \<Rightarrow> int \<Rightarrow> int \<Rightarrow> nat \<Rightarrow> hook \<Rightarrow> hook" where
  "hk_nanosleep p now tv_sec tv_nsec fiber s = sleep_timer p now (nanosleep_ms tv_sec tv_nsec) fiber s"

text \<open>The function of the timer: \<^verbatim>\<open>schedule(fiber, -1)\<close> on the manager.\<close>

definition run_schedule_fiber :: "nat \<Rightarrow> hook \<Rightarrow> hook" where
  "run_schedule_fiber fiber s =
     s\<lparr>iom := schedule_on (self (iom s)) (ScheduleTask_fiber (Some fiber) (- 1)) (iom s)\<rparr>"

text \<open>
  A function given to a timer, and what a task with the callback of a timer runs: that function, or nothing when the
  object a condition timer is bound to is gone; \<open>alive\<close> says which objects are left.
\<close>

fun run_hook_fn :: "bool \<Rightarrow> hook_fn \<Rightarrow> unit hk" where
  "run_hook_fn refuse (ScheduleFiber fiber) s = (Inr (), run_schedule_fiber fiber s)"
| "run_hook_fn refuse (IoTimeout info fd event) s = io_timeout refuse info fd event s"

definition run_timer_task :: "(nat \<Rightarrow> bool) \<Rightarrow> bool \<Rightarrow> hook_fn callback \<Rightarrow> unit hk" where
  "run_timer_task alive refuse cb s =
     fold (\<lambda>f m. case m of (Inl e, s1) \<Rightarrow> (Inl e, s1) | (Inr u, s1) \<Rightarrow> run_hook_fn refuse f s1)
       (run_callback alive cb) (Inr (), s)"

section \<open>Descriptors\<close>

text \<open>\<^verbatim>\<open>socket_f\<close>: the kernel makes a socket with the descriptor \<open>fd\<close> and the flags the type asks for, or fails.\<close>

definition hk_socket :: "bool \<Rightarrow> int \<Rightarrow> u32 \<Rightarrow> int hk" where
  "hk_socket hook_enable fd flags s =
     (let s1 = (if fd = - 1 then s
                else s\<lparr>fds := (fds s)\<lparr>kern := (kern (fds s))(fd \<mapsto> \<lparr>kf_socket = True, kf_flags = flags\<rparr>)\<rparr>\<rparr>) in
      if \<not> hook_enable \<or> fd = - 1 then (Inr fd, s1)
      else case on_fds (FdMgr_get fd True) s1 of
        (Inl e, s2) \<Rightarrow> (Inl e, s2) | (Inr c, s2) \<Rightarrow> (Inr fd, s2))"

text \<open>What \<^verbatim>\<open>accept\<close> does with the descriptor \<^verbatim>\<open>do_io\<close> returned.\<close>

definition hk_accepted :: "int \<Rightarrow> int hk" where
  "hk_accepted fd s =
     (if fd \<ge> 0 then
        (case on_fds (FdMgr_get fd True) s of (Inl e, s1) \<Rightarrow> (Inl e, s1) | (Inr c, s1) \<Rightarrow> (Inr fd, s1))
      else (Inr fd, s))"

text \<open>\<open>with_iom\<close> says that the thread has an I/O manager; \<^verbatim>\<open>close_f\<close> closes the file in the kernel.\<close>

definition close_f :: "int \<Rightarrow> int hk" where
  "close_f fd s = (Inr (if kern (fds s) fd = None then - 1 else 0),
     s\<lparr>fds := (fds s)\<lparr>kern := (kern (fds s))(fd := None)\<rparr>\<rparr>)"

definition hk_close :: "bool \<Rightarrow> bool \<Rightarrow> bool \<Rightarrow> int \<Rightarrow> int hk" where
  "hk_close hook_enable with_iom refuse fd s =
     (if \<not> hook_enable then close_f fd s
      else case on_fds (FdMgr_get fd False) s of
        (Inl e, s1) \<Rightarrow> (Inl e, s1)
      | (Inr None, s1) \<Rightarrow> close_f fd s1
      | (Inr (Some c), s1) \<Rightarrow>
          (case (if with_iom then on_iom (cancelAll refuse fd) s1 else (Inr False, s1)) of
             (Inl e, s2) \<Rightarrow> (Inl e, s2)
           | (Inr b, s2) \<Rightarrow>
               (case on_fds (FdMgr_del fd) s2 of
                  (Inl e, s3) \<Rightarrow> (Inl e, s3)
                | (Inr u, s3) \<Rightarrow> close_f fd s3)))"

text \<open>\<^verbatim>\<open>fcntl\<close>: the two commands it treats; every other one is passed on with its argument.\<close>

definition hk_setfl :: "int \<Rightarrow> u32 \<Rightarrow> u32 hk" where
  "hk_setfl fd arg s =
     (case on_fds (FdMgr_get fd False) s of
        (Inl e, s1) \<Rightarrow> (Inl e, s1)
      | (Inr c, s1) \<Rightarrow>
          (let set = (\<lambda>arg f. case fcntl_setfl fd arg (kern f) of (r, k) \<Rightarrow> (r, f\<lparr>kern := k\<rparr>)) in
           case c of
             None \<Rightarrow> (case set arg (fds s1) of (r, f) \<Rightarrow> (Inr r, s1\<lparr>fds := f\<rparr>))
           | Some c \<Rightarrow>
               (if m_isClosed c \<or> \<not> m_isSocket c
                then (case set arg (fds s1) of (r, f) \<Rightarrow> (Inr r, s1\<lparr>fds := f\<rparr>))
                else
                  let f1 = FdMgr_set fd (\<lambda>c. c\<lparr>m_userNonblock := (arg AND O_NONBLOCK \<noteq> 0)\<rparr>) (fds s1);
                      arg1 = (if m_sysNonblock c then arg OR O_NONBLOCK else arg AND NOT O_NONBLOCK)
                  in (case set arg1 f1 of (r, f) \<Rightarrow> (Inr r, s1\<lparr>fds := f\<rparr>)))))"

definition hk_getfl :: "int \<Rightarrow> u32 hk" where
  "hk_getfl fd s =
     (let arg = fcntl_getfl fd (kern (fds s)) in
      case on_fds (FdMgr_get fd False) s of
        (Inl e, s1) \<Rightarrow> (Inl e, s1)
      | (Inr None, s1) \<Rightarrow> (Inr arg, s1)
      | (Inr (Some c), s1) \<Rightarrow>
          (if m_isClosed c \<or> \<not> m_isSocket c then (Inr arg, s1)
           else if m_userNonblock c then (Inr (arg OR O_NONBLOCK), s1)
           else (Inr (arg AND NOT O_NONBLOCK), s1)))"

text \<open>What the other commands hand on to the system: the commands of its list, and those it does not know.\<close>

datatype fcntl_cmd = F_SETFL | F_GETFL
  | F_DUPFD | F_DUPFD_CLOEXEC | F_SETFD | F_SETOWN | F_SETSIG | F_SETLEASE | F_NOTIFY | F_SETPIPE_SZ
  | F_GETFD | F_GETOWN | F_GETSIG | F_GETLEASE | F_GETPIPE_SZ
  | F_SETLK | F_SETLKW | F_GETLK | F_GETOWN_EX | F_SETOWN_EX
  | F_OTHER int

datatype fcntl_arg = IntArg int | PtrArg nat

fun fcntl_passes :: "fcntl_cmd \<Rightarrow> fcntl_arg \<Rightarrow> fcntl_arg option" where
  "fcntl_passes F_GETFD arg = None"
| "fcntl_passes F_GETOWN arg = None"
| "fcntl_passes F_GETSIG arg = None"
| "fcntl_passes F_GETLEASE arg = None"
| "fcntl_passes F_GETPIPE_SZ arg = None"
| "fcntl_passes (F_OTHER n) arg = None"
| "fcntl_passes cmd arg = Some arg"

text \<open>\<^verbatim>\<open>ioctl\<close> with \<^verbatim>\<open>FIONBIO\<close>; the kernel sets or clears the flag.\<close>

definition ioctl_fionbio :: "int \<Rightarrow> bool \<Rightarrow> kernel \<Rightarrow> int \<times> kernel" where
  "ioctl_fionbio fd v k = (case k fd of
     None \<Rightarrow> (- 1, k)
   | Some f \<Rightarrow> (0, k(fd \<mapsto> f\<lparr>kf_flags := (if v then kf_flags f OR O_NONBLOCK else kf_flags f AND NOT O_NONBLOCK)\<rparr>)))"

definition hk_ioctl_fionbio :: "int \<Rightarrow> bool \<Rightarrow> int hk" where
  "hk_ioctl_fionbio d user_nonblock s =
     (let pass = (\<lambda>s. case ioctl_fionbio d user_nonblock (kern (fds s)) of (r, k) \<Rightarrow>
            (Inr r, s\<lparr>fds := (fds s)\<lparr>kern := k\<rparr>\<rparr>)) in
      case on_fds (FdMgr_get d False) s of
        (Inl e, s1) \<Rightarrow> (Inl e, s1)
      | (Inr None, s1) \<Rightarrow> pass s1
      | (Inr (Some c), s1) \<Rightarrow>
          (if m_isClosed c \<or> \<not> m_isSocket c then pass s1
           else pass (s1\<lparr>fds := FdMgr_set d (\<lambda>c. c\<lparr>m_userNonblock := user_nonblock\<rparr>) (fds s1)\<rparr>)))"

text \<open>\<^verbatim>\<open>setsockopt\<close> for the two time limits, with the \<^verbatim>\<open>timeval\<close>; the system call follows.\<close>

definition hk_settimeo :: "bool \<Rightarrow> int \<Rightarrow> sockopt \<Rightarrow> int \<Rightarrow> int \<Rightarrow> unit hk" where
  "hk_settimeo hook_enable sockfd optname tv_sec tv_usec s =
     (if \<not> hook_enable then (Inr (), s)
      else case on_fds (FdMgr_get sockfd False) s of
        (Inl e, s1) \<Rightarrow> (Inl e, s1)
      | (Inr None, s1) \<Rightarrow> (Inr (), s1)
      | (Inr (Some c), s1) \<Rightarrow>
          (Inr (), s1\<lparr>fds := FdMgr_set sockfd (setTimeout optname (of_int (tv_sec * 1000 + tv_usec sdiv 1000))) (fds s1)\<rparr>))"

section \<open>Connecting\<close>

text \<open>\<open>result\<close> is what \<^verbatim>\<open>connect_f\<close> returned; \<open>so_error\<close> what \<^verbatim>\<open>getsockopt\<close> reports, \<open>None\<close> when it fails.\<close>

definition connect_check :: "int option \<Rightarrow> int hk" where
  "connect_check so_error s =
     (case so_error of None \<Rightarrow> (Inr (- 1), s)
      | Some e \<Rightarrow> if e = 0 then (Inr 0, s) else (Inr (- 1), s\<lparr>errno := e\<rparr>))"

definition connect_enter :: "bool \<Rightarrow> int \<Rightarrow> u64 \<Rightarrow> nat \<Rightarrow> wait_args \<Rightarrow> int \<times> int \<Rightarrow> int option \<Rightarrow> io_progress hk" where
  "connect_enter hook_enable fd timeout_ms info w result so_error s =
     (let direct = (case result of (n, e) \<Rightarrow> (\<lambda>s. (Inr (Return n), if n = - 1 then s\<lparr>errno := e\<rparr> else s))) in
      if \<not> hook_enable then direct s
      else case on_fds (FdMgr_get fd False) s of
        (Inl e, s1) \<Rightarrow> (Inl e, s1)
      | (Inr None, s1) \<Rightarrow> (Inr (Return (- 1)), s1\<lparr>errno := EBADF\<rparr>)
      | (Inr (Some c), s1) \<Rightarrow>
          (if m_isClosed c then (Inr (Return (- 1)), s1\<lparr>errno := EBADF\<rparr>)
           else if \<not> m_isSocket c then direct s1
           else if m_userNonblock c then direct s1
           else if fst result = 0 then (Inr (Return 0), s1)
           else if fst result \<noteq> - 1 \<or> snd result \<noteq> EINPROGRESS then direct s1
           else
             let s2 = s1\<lparr>errno := EINPROGRESS, cancelled := (cancelled s1)(info := 0)\<rparr>;
                 (timer, s3) = (if timeout_ms \<noteq> - 1
                   then (Some (wa_timer w), s2\<lparr>iom := io_addConditionTimer (wa_timer w) (wa_now w) timeout_ms
                           (IoTimeout info fd WRITE) info False (iom s2)\<rparr>)
                   else (None, s2))
             in case on_iom (addEvent (wa_refuse w) fd WRITE None (wa_sched w) (wa_fiber w)) s3 of
                  (Inl e, s4) \<Rightarrow> (Inl e, s4)
                | (Inr rt, s4) \<Rightarrow>
                    (if rt = 0 then (Inr (Wait timer), s4)
                     else case cancel_timer timer s4 of
                       (Inl e, s5) \<Rightarrow> (Inl e, s5)
                     | (Inr u, s5) \<Rightarrow>
                         (case connect_check so_error s5 of (r, s6) \<Rightarrow> (map_sum id Return r, s6)))))"

definition hk_connect :: "bool \<Rightarrow> int \<Rightarrow> nat \<Rightarrow> wait_args \<Rightarrow> int \<times> int \<Rightarrow> int option \<Rightarrow> io_progress hk" where
  "hk_connect hook_enable sockfd info w result so_error s =
     connect_enter hook_enable sockfd 5000 info w result so_error s"

definition connect_resume :: "nat option \<Rightarrow> nat \<Rightarrow> int option \<Rightarrow> int hk" where
  "connect_resume timer info so_error s =
     (case do_io_resume timer info s of
        (Inl e, s1) \<Rightarrow> (Inl e, s1)
      | (Inr (Some n), s1) \<Rightarrow> (Inr n, s1)
      | (Inr None, s1) \<Rightarrow> connect_check so_error s1)"

end
