(* ===== verification/HookProps.thy ===== *)
theory HookProps
  imports Hook IOManagerProps
begin

text \<open>
  The replaced system calls behave as the originals do: a call on a blocking socket waits and does not
  report that it would block, its time limit ends it, and the user's view of the non-blocking flag is
  kept apart from the kernel's.
\<close>

section \<open>Waiting\<close>




lemma io_addConditionTimer_inv [simp]:
  "io_inv (io_addConditionTimer p now ms cb wc r s) = io_inv s"
  "m_fdContexts (io_addConditionTimer p now ms cb wc r s) = m_fdContexts s"
  "ctx_at (io_addConditionTimer p now ms cb wc r s) = ctx_at s"
  "m_tasks (scheds (io_addConditionTimer p now ms cb wc r s) j) = m_tasks (scheds s j)"
  using io_inv_cong [of "io_addConditionTimer p now ms cb wc r s" s]
  by (auto simp: io_addConditionTimer_def onTimerInsertedAtFront_def io_tickle_def Let_def split: prod.splits)

lemma with_context_tasks [simp]: "scheds (with_context fd s) = scheds s"
  by (simp add: with_context_def contextResize_def Let_def)

lemma io_addConditionTimer_timers:
  "timers (io_addConditionTimer p now ms cb wc r s) = snd (addTimer p now ms (Some (OnTimer wc cb)) r (timers s))"
  by (auto simp: io_addConditionTimer_def addConditionTimer_def onTimerInsertedAtFront_def io_tickle_def Let_def
      split: prod.splits)

lemma addTimer_new:
  "timer_at (snd (addTimer p now ms cb r s)) = (timer_at s)(p := new_timer now ms cb r)"
  by (simp add: addTimer_def addTimer_locked_effect)

lemma contextResize_timers [simp]: "timers (contextResize n s) = timers s"
  by (simp add: contextResize_def Let_def)

lemma addEvent_locked_timers [simp]: "timers (snd (addEvent_locked refuse a fd event cb k p s)) = timers s"
  unfolding addEvent_locked_def Let_def by (simp split: prod.split bool.split sum.split)

lemma addEvent_timers: "timers (snd (addEvent refuse fd event cb k p s)) = timers s"
  unfolding addEvent_def addEvent_grow_def Let_def by (simp split: sum.split option.split)

lemma triggerEvent_timers: "timers (snd (triggerEvent a event s)) = timers s"
  by (auto simp: triggerEvent_def Let_def split: sum.split option.split prod.split)

lemma cancelEvent_timers: "timers (snd (cancelEvent refuse fd event s)) = timers s"
proof -
  have "timers s1 = timers s" if "triggerEvent a event (s\<lparr>epoll := ep\<rparr>) = (r, s1)" for a ep r s1
    using triggerEvent_timers [of a event "s\<lparr>epoll := ep\<rparr>"] that by simp
  then show ?thesis
    by (auto simp: cancelEvent_def Let_def split: sum.split option.split prod.split bool.split)
qed

text \<open>\<^verbatim>\<open>addEvent\<close> of a caller with a scheduler.\<close>

lemma addEvent_spec:
  assumes "io_inv s" "0 \<le> fd" "event \<in> {READ, WRITE}"
  obtains (again) s' where "addEvent refuse fd event cb (Some k) p s = (Inl IoAssert, s')"
  | (refused) "addEvent refuse fd event cb (Some k) p s = (Inr (- 1), with_context fd s)" refuse
  | (added) s' where "addEvent refuse fd event cb (Some k) p s = (Inr 0, s')" "\<not> refuse" "io_inv s'"
    "nat fd < length (m_fdContexts s')"
    "events (ctx_at s' (m_fdContexts s' ! nat fd)) AND event \<noteq> 0"
    "context_of event (ctx_at s' (m_fdContexts s' ! nat fd)) = new_event_context cb k p"
    "scheds s' = scheds s"
proof -
  let ?w = "with_context fd s"
  let ?a = "m_fdContexts ?w ! nat fd"
  note wc = with_context_inv [OF assms(1,2)]
  note al = addEvent_locked_spec [OF wc(1) assms(3) wc(2), of refuse cb k p]
  consider "events (ctx_at ?w ?a) AND event \<noteq> 0" | "events (ctx_at ?w ?a) AND event = 0" refuse
    | "events (ctx_at ?w ?a) AND event = 0" "\<not> refuse" by blast
  then show thesis
  proof cases
    case 1
    then show thesis using again al(1) wc(3) by metis
  next
    case 2
    then show thesis using refused al(2) wc(3) by metis
  next
    case 3
    then obtain s' where s': "addEvent_locked refuse ?a (nat fd) event cb (Some k) p ?w = (Inr 0, s')" "io_inv s'"
      "ctx_at s' = (ctx_at ?w)(?a := register event (new_event_context cb k p) (ctx_at ?w ?a))"
      "m_fdContexts s' = m_fdContexts ?w" "scheds s' = scheds ?w"
      using al(3) by auto
    have wf: "ctx_wf (ctx_at ?w ?a)" using io_invD(3) [OF wc(1)] wc(2) by simp
    have f: "filled (new_event_context cb k p)" by (auto simp: filled_def new_event_context_def)
    have "events (ctx_at s' ?a) AND event \<noteq> 0"
      using s'(3) register_wf(3) [OF wf assms(3) 3(1) f] assms(3)
      by (auto simp: bit.conj_disj_distrib2 READ_def WRITE_def)
    moreover have "context_of event (ctx_at s' ?a) = new_event_context cb k p"
      using s'(3) assms(3) by (auto simp: register_def context_of_def setEventContext_def)
    ultimately show thesis using added wc(2,3) s' 3(2) by simp
  qed
qed

text \<open>
  That the event of a descriptor is registered by a caller with the scheduler \<open>k\<close> and the fiber \<open>p\<close>.
\<close>

definition waits_for :: "int \<Rightarrow> Event \<Rightarrow> nat \<Rightarrow> nat \<Rightarrow> 'f iomanager \<Rightarrow> bool" where
  "waits_for fd event k p i \<longleftrightarrow> nat fd < length (m_fdContexts i)
     \<and> events (ctx_at i (m_fdContexts i ! nat fd)) AND event \<noteq> 0
     \<and> context_of event (ctx_at i (m_fdContexts i ! nat fd)) = new_event_context None k p"

lemma cancel_timer_succeeds:
  assumes "tm_inv (timers (iom s))"
  obtains s1 where "cancel_timer timer s = (Inr (), s1)" "cancelled s1 = cancelled s" "errno s1 = errno s"
    "tm_inv (timers (iom s1))" "io_inv (iom s1) = io_inv (iom s)" "set (m_timers (timers (iom s1))) \<subseteq> set (m_timers (timers (iom s)))"
proof (cases timer)
  case None
  then show thesis using that assms by (simp add: cancel_timer_def)
next
  case (Some p)
  obtain b tm where b: "cancel p (timers (iom s)) = (Inr b, tm)"
    using cancel_spec(1) [OF assms, of p] by (metis prod.collapse)
  let ?s1 = "s\<lparr>iom := (iom s)\<lparr>timers := tm\<rparr>\<rparr>"
  have "tm_inv tm" "set (m_timers tm) \<subseteq> set (m_timers (timers (iom s)))"
    using cancel_spec(2,3) [OF assms, of p] b set_remove1_subset by force+
  moreover have "io_inv (iom ?s1) = io_inv (iom s)" using io_inv_cong [of "iom ?s1" "iom s"] by simp
  ultimately show thesis using that [of ?s1] b Some by (simp add: cancel_timer_def)
qed

text \<open>The three ways the branch for \<^verbatim>\<open>EAGAIN\<close> ends.\<close>

lemma do_io_wait_outcome:
  assumes "io_inv (iom s)" "tm_inv (timers (iom s))" "wa_timer w \<notin> set (m_timers (timers (iom s)))"
    "0 \<le> fd" "event \<in> {READ, WRITE}" "wa_sched w = Some k"
  obtains (again) s' where "do_io_wait fd event to info w s = (Inl (HookIo IoAssert), s')"
  | (refused) s' where "do_io_wait fd event to info w s = (Inr (Return (- 1)), s')" "wa_refuse w"
  | (waits) s' timer where "do_io_wait fd event to info w s = (Inr (Wait timer), s')" "\<not> wa_refuse w"
    "timer = (if to \<noteq> - 1 then Some (wa_timer w) else None)"
    "io_inv (iom s')" "tm_inv (timers (iom s'))" "fds s' = fds s" "cancelled s' = cancelled s"
    "waits_for fd event k (wa_fiber w) (iom s')" "\<forall>j. m_tasks (scheds (iom s') j) = m_tasks (scheds (iom s) j)"
    "to \<noteq> - 1 \<Longrightarrow> timer_at (timers (iom s')) (wa_timer w)
       = new_timer (wa_now w) to (Some (OnTimer info (IoTimeout info fd event))) False"
proof -
  define i where "i = (if to \<noteq> - 1 then io_addConditionTimer (wa_timer w) (wa_now w) to
      (IoTimeout info fd event) info False (iom s) else iom s)"
  have i: "io_inv i" "\<forall>j. m_tasks (scheds i j) = m_tasks (scheds (iom s) j)" using assms(1) by (simp_all add: i_def)
  have tm: "tm_inv (timers i)"
    using assms(2) addTimer_inv [OF assms(2,3)] by (simp add: i_def io_addConditionTimer_timers)
  have at: "to \<noteq> - 1 \<Longrightarrow> timer_at (timers i) (wa_timer w)
       = new_timer (wa_now w) to (Some (OnTimer info (IoTimeout info fd event))) False"
    by (simp add: i_def io_addConditionTimer_timers addTimer_new)
  define timer where "timer = (if to \<noteq> - 1 then Some (wa_timer w) else None)"
  have run: "do_io_wait fd event to info w s
      = (case addEvent (wa_refuse w) fd event None (Some k) (wa_fiber w) i of
           (Inl e, m) \<Rightarrow> (Inl (HookIo e), s\<lparr>iom := m\<rparr>)
         | (Inr rt, m) \<Rightarrow> (if rt \<noteq> 0 then
              (case cancel_timer timer (s\<lparr>iom := m\<rparr>) of
                 (Inl e, s3) \<Rightarrow> (Inl e, s3) | (Inr u, s3) \<Rightarrow> (Inr (Return (- 1)), s3))
            else (Inr (Wait timer), s\<lparr>iom := m\<rparr>)))"
    using assms(6) by (simp add: do_io_wait_def on_iom_def i_def timer_def split: prod.split sum.split)
  note kept = addEvent_timers [of "wa_refuse w" fd event None "Some k" "wa_fiber w" i]
  show thesis
  proof (rule addEvent_spec [OF i(1) assms(4,5), of "wa_refuse w" None k "wa_fiber w"])
    fix m assume "addEvent (wa_refuse w) fd event None (Some k) (wa_fiber w) i = (Inl IoAssert, m)"
    then show thesis using again [of "s\<lparr>iom := m\<rparr>"] run by simp
  next
    let ?m = "with_context fd i"
    assume m: "addEvent (wa_refuse w) fd event None (Some k) (wa_fiber w) i = (Inr (- 1), ?m)" "wa_refuse w"
    have "tm_inv (timers (iom (s\<lparr>iom := ?m\<rparr>)))" using tm kept m(1) by simp
    then obtain s3 where "cancel_timer timer (s\<lparr>iom := ?m\<rparr>) = (Inr (), s3)" by (rule cancel_timer_succeeds)
    then show thesis using refused [of s3] m run by simp
  next
    fix m assume m: "addEvent (wa_refuse w) fd event None (Some k) (wa_fiber w) i = (Inr 0, m)" "\<not> wa_refuse w" "io_inv m"
      "nat fd < length (m_fdContexts m)" "events (ctx_at m (m_fdContexts m ! nat fd)) AND event \<noteq> 0"
      "context_of event (ctx_at m (m_fdContexts m ! nat fd)) = new_event_context None k (wa_fiber w)"
      "scheds m = scheds i"
    have "timers m = timers i" using kept m(1) by simp
    then show thesis
      using waits [of timer "s\<lparr>iom := m\<rparr>"] m run i tm at by (simp add: timer_def waits_for_def)
  qed
qed


definition fresh_timer :: "wait_args \<Rightarrow> hook \<Rightarrow> bool" where
  "fresh_timer w s \<longleftrightarrow> wa_timer w \<notin> set (m_timers (timers (iom s)))"







lemma do_io_resume_late:
  assumes "tm_inv (timers (iom s))" "cancelled s info \<noteq> 0"
  shows "\<exists>s'. do_io_resume timer info s = (Inr (Some (- 1)), s') \<and> errno s' = cancelled s info"
  by (rule cancel_timer_succeeds [OF assms(1), of timer]) (use assms(2) in \<open>auto simp: do_io_resume_def\<close>)

section \<open>Claims\<close>


definition socket_ctx :: "fd_ctx" where
  "socket_ctx = \<lparr>m_isInit = True, m_isSocket = True, m_sysNonblock = True, m_userNonblock = False,
     m_isClosed = False, m_fd = 3, m_recvTimeout = - 1, m_sendTimeout = - 1\<rparr>"

definition hook_sched :: "hook_fn callback scheduler" where
  "hook_sched = \<lparr>m_threads = [], m_tasks = [], m_threadIds = [], m_threadCount = 1, m_activeThreadCount = 0,
     m_idleThreadCount = 0, m_useCaller = False, m_rootFiber = None, m_rootThread = - 1, m_stopping = False\<rparr>"

definition hook0 :: hook where
  "hook0 = \<lparr>fds = \<lparr>m_datas = [None, None, None, Some socket_ctx], kern = (\<lambda>_. None)\<rparr>,
     iom = IOManager 0 hook_sched 100 [] (\<lambda>_. hook_sched), cancelled = (\<lambda>_. 0), errno = 0\<rparr>"

definition waiter :: wait_args where
  "waiter = \<lparr>wa_refuse = False, wa_timer = 8, wa_now = 100, wa_sched = Some 0, wa_fiber = 9\<rparr>"

lemma hook0_inv: "io_inv (iom hook0)"
  unfolding hook0_def hook.simps by (rule IOManager_inv)


lemma hook0_calm: "io_inv (iom hook0)" "tm_inv (timers (iom hook0))" "m_timers (timers (iom hook0)) = []"
  using TimerManager_inv [of 100] hook0_inv
  by (simp_all add: hook0_def IOManager_def contextResize_def Let_def TimerManager_def)


text \<open>
  C22. The time limit of a waiting call takes effect. A call that waits with one has put a timer of its own into the
  manager, due when the limit is over, and the callback it has registered with it is given out by \<^verbatim>\<open>listExpiredCb\<close> at any
  later time at which the timer is still there; and whatever has happened meanwhile, as long as the call still waits, the
  task that runs this callback schedules the waiting fiber, once, on the scheduler it called from and on no other, and when
  it goes on the call fails with \<^verbatim>\<open>ETIMEDOUT\<close>. The call is one with a scheduler, the flag of its time limit is not set yet,
  and the kernel does not refuse to stop watching the descriptor.
\<close>

theorem timeout_wakes_caller:
  assumes "io_inv (iom s)" "tm_inv (timers (iom s))" "fresh_timer w s"
    "0 \<le> fd" "event = READ \<or> event = WRITE" "wa_sched w = Some k" "to \<noteq> - 1"
    "do_io_wait fd event to info w s = (Inr (Wait timer), s1)"
  shows "\<exists>p cb. timer = Some p \<and> p \<in> set (m_timers (timers (iom s1)))
    \<and> m_next (timer_at (timers (iom s1)) p) = wa_now w + to \<and> m_cb (timer_at (timers (iom s1)) p) = Some cb
    \<and> waits_for fd event k (wa_fiber w) (iom s1)
    \<and> (\<forall>tm q now. tm_inv tm \<and> q \<notin> set (m_timers tm) \<and> p \<in> set (m_timers tm) \<and> timer_at tm p = timer_at (timers (iom s1)) p
         \<and> wa_now w + to \<le> now \<longrightarrow> Some cb \<in> set (fst (listExpiredCb q now tm)))
    \<and> (\<forall>s2 alive. io_inv (iom s2) \<and> tm_inv (timers (iom s2)) \<and> waits_for fd event k (wa_fiber w) (iom s2)
         \<and> cancelled s2 info = 0 \<and> alive info \<longrightarrow>
         (\<exists>s3 s4. run_timer_task alive False cb s2 = (Inr (), s3)
           \<and> (\<forall>j. m_tasks (scheds (iom s3) j) = m_tasks (scheds (iom s2) j)
                @ (if j = k then [ScheduleTask_fiber (Some (wa_fiber w)) (- 1)] else []))
           \<and> do_io_resume timer info s3 = (Inr (Some (- 1)), s4) \<and> errno s4 = ETIMEDOUT))"
proof -
  have ev: "event \<in> {READ, WRITE}" using assms(5) by blast
  let ?p = "wa_timer w" and ?cb = "OnTimer info (IoTimeout info fd event)"
  have "timer = Some ?p \<and> waits_for fd event k (wa_fiber w) (iom s1) \<and> tm_inv (timers (iom s1))
      \<and> timer_at (timers (iom s1)) ?p = new_timer (wa_now w) to (Some ?cb) False"
    by (rule do_io_wait_outcome [OF assms(1,2) _ assms(4) ev assms(6), of to info])
      (use assms(3,7,8) in \<open>auto simp: fresh_timer_def\<close>)
  then have t: "timer = Some ?p" "waits_for fd event k (wa_fiber w) (iom s1)" "tm_inv (timers (iom s1))"
    "timer_at (timers (iom s1)) ?p = new_timer (wa_now w) to (Some ?cb) False" by blast+
  have "?p \<in> set (m_timers (timers (iom s1)))"
    using tm_invD(2) [OF t(3), of ?p] t(4) by (simp add: new_timer_def)
  moreover have "Some ?cb \<in> set (fst (listExpiredCb q now tm))"
    if "tm_inv tm" "q \<notin> set (m_timers tm)" "?p \<in> set (m_timers tm)" "timer_at tm ?p = timer_at (timers (iom s1)) ?p"
      "wa_now w + to \<le> now" for tm q now
    using that t(4) by (force simp: listExpiredCb_spec(1) [OF that(1,2)] expired_def new_timer_def)
  moreover have "\<exists>s3 s4. run_timer_task alive False ?cb s2 = (Inr (), s3)
       \<and> (\<forall>j. m_tasks (scheds (iom s3) j) = m_tasks (scheds (iom s2) j)
            @ (if j = k then [ScheduleTask_fiber (Some (wa_fiber w)) (- 1)] else []))
       \<and> do_io_resume timer info s3 = (Inr (Some (- 1)), s4) \<and> errno s4 = ETIMEDOUT"
    if s2: "io_inv (iom s2)" "tm_inv (timers (iom s2))" "waits_for fd event k (wa_fiber w) (iom s2)"
      "cancelled s2 info = 0" "alive info" for s2 alive
  proof -
    let ?c = "ctx_at (iom s2) (m_fdContexts (iom s2) ! nat fd)"
    have w: "nat fd < length (m_fdContexts (iom s2))" "events ?c AND event \<noteq> 0"
      "context_of event ?c = new_event_context None k (wa_fiber w)"
      using s2(3) by (simp_all add: waits_for_def)
    obtain i where i: "cancelEvent False fd event (iom s2) = (Inr True, i)"
      "\<And>j. m_tasks (scheds i j) = m_tasks (scheds (iom s2) j) @ event_tasks event ?c j"
      by (rule cancelEvent_spec [OF s2(1) ev, of fd False]) (use w assms(4) in auto)
    let ?s3 = "s2\<lparr>cancelled := (cancelled s2)(info := ETIMEDOUT), iom := i\<rparr>"
    have "run_timer_task alive False ?cb s2 = (Inr (), ?s3)"
      using i(1) s2(4,5) by (simp add: run_timer_task_def io_timeout_def on_iom_def)
    moreover have "event_tasks event ?c j = (if j = k then [ScheduleTask_fiber (Some (wa_fiber w)) (- 1)] else [])" for j
      using w(2,3) by (simp add: event_tasks_def new_event_context_def event_task_def)
    moreover have "timers i = timers (iom s2)" using cancelEvent_timers [of False fd event "iom s2"] i(1) by simp
    then obtain s4 where "do_io_resume timer info ?s3 = (Inr (Some (- 1)), s4)" "errno s4 = ETIMEDOUT"
      using do_io_resume_late [of ?s3 info timer] s2(2) by (auto simp: ETIMEDOUT_def)
    ultimately show ?thesis using i(2) by (intro exI [of _ ?s3] exI [of _ s4]) simp
  qed
  moreover have "m_next (timer_at (timers (iom s1)) ?p) = wa_now w + to" "m_cb (timer_at (timers (iom s1)) ?p) = Some ?cb"
    using t(4) by (simp_all add: new_timer_def)
  ultimately show ?thesis using t(1,2) by (intro exI [of _ ?p] exI [of _ ?cb]) blast
qed

lemma hook0_wait:
  "\<exists>s1. do_io_wait 3 READ 50 1 waiter hook0 = (Inr (Wait (Some 8)), s1) \<and> io_inv (iom s1) \<and> tm_inv (timers (iom s1))
    \<and> cancelled s1 = cancelled hook0 \<and> (\<forall>j. m_tasks (scheds (iom s1) j) = m_tasks (scheds (iom hook0) j))"
proof -
  define i where "i = io_addConditionTimer 8 100 50 (IoTimeout 1 3 READ) 1 False (iom hook0)"
  have inv: "io_inv i" using hook0_inv by (simp add: i_def)
  have xs: "m_fdContexts i = [0..<32]" "ctx_at i 3 = new_fd_context 3"
    by (simp_all add: i_def hook0_def IOManager_def contextResize_def Let_def)
  have wc: "with_context 3 i = i" using xs by (simp add: with_context_def)
  obtain s' where "addEvent False 3 READ None (Some 0) 9 i = (Inr 0, s')"
    using addEvent_locked_spec(3) [OF inv, of READ 3 False None 0 9] with_context_inv(3) [OF inv, of 3] xs wc by auto
  then obtain s1 where s1: "do_io_wait 3 READ 50 1 waiter hook0 = (Inr (Wait (Some 8)), s1)"
    by (simp add: do_io_wait_def on_iom_def waiter_def i_def [symmetric] del: One_nat_def)
  have fr: "wa_timer waiter \<notin> set (m_timers (timers (iom hook0)))" "wa_sched waiter = Some 0"
    using hook0_calm(3) by (simp_all add: waiter_def)
  show ?thesis
    by (rule do_io_wait_outcome [OF hook0_calm(1,2) fr(1), of 3 READ 0 50 1]) (use s1 fr in auto)
qed

theorem timeout_wakes_caller_witness:
  "\<exists>s1 cb s3. do_io_wait 3 READ 50 1 waiter hook0 = (Inr (Wait (Some 8)), s1)
    \<and> m_cb (timer_at (timers (iom s1)) 8) = Some cb \<and> run_timer_task (\<lambda>_. True) False cb s1 = (Inr (), s3)
    \<and> m_tasks (scheds (iom s3) 0) = [ScheduleTask_fiber (Some 9) (- 1)]"
proof -
  obtain s1 where s1: "do_io_wait 3 READ 50 1 waiter hook0 = (Inr (Wait (Some 8)), s1)" "io_inv (iom s1)"
    "tm_inv (timers (iom s1))" "cancelled s1 1 = 0" "m_tasks (scheds (iom s1) 0) = []"
    using hook0_wait by (auto simp: hook0_def IOManager_def contextResize_def Let_def start_def hook_sched_def)
  have w: "fresh_timer waiter hook0" "wa_sched waiter = Some 0" "(50 :: u64) \<noteq> - 1" "wa_fiber waiter = 9"
    using hook0_calm(3) by (simp_all add: fresh_timer_def waiter_def)
  show ?thesis
    using timeout_wakes_caller [OF hook0_calm(1,2) w(1) _ _ w(2,3) s1(1), unfolded w(4)] s1
    by (elim exE conjE meta_impE)
      (simp, simp, drule spec [of _ s1], drule spec [of _ "\<lambda>_. True"], force)
qed

section \<open>The non-blocking flag\<close>














section \<open>Where the code falls short\<close>

text \<open>
  \<^verbatim>\<open>ioctl\<close> with \<^verbatim>\<open>FIONBIO\<close> 0 makes the file blocking in the kernel while the context goes on saying that it
  is not: the next call blocks the thread and not the fiber.
\<close>

lemma fionbio_makes_kernel_block:
  assumes "FdMgr_get fd False (fds s) = (Inr (Some c), fds s)" "\<not> m_isClosed c" "m_isSocket c"
    "kern (fds s) fd = Some f"
  shows "\<exists>s1. hk_ioctl_fionbio fd False s = (Inr 0, s1) \<and> fcntl_getfl fd (kern (fds s1)) AND O_NONBLOCK = 0"
  using assms
  by (simp add: hk_ioctl_fionbio_def on_fds_def Let_def FdMgr_set_def ioctl_fionbio_def fcntl_getfl_def and.assoc)

text \<open>
  A descriptor closed by a thread without the replaced calls leaves its context behind, and a new socket
  with its number takes it over: its time limits, its flag, and no change in the kernel.
\<close>

lemma stale_context:
  assumes "FdMgr_find fd False (fds s) = Inr (Some (Some c))" "0 \<le> fd"
  shows "\<exists>s1 s2. hk_close False True refuse fd s = (Inr (if kern (fds s) fd = None then - 1 else 0), s1)
    \<and> hk_socket True fd 0 s1 = (Inr fd, s2) \<and> FdMgr_find fd False (fds s2) = Inr (Some (Some c))
    \<and> fcntl_getfl fd (kern (fds s2)) AND O_NONBLOCK = 0"
proof -
  let ?f1 = "(fds s)\<lparr>kern := (kern (fds s))(fd := None)\<rparr>"
  let ?s1 = "s\<lparr>fds := ?f1\<rparr>"
  let ?s2 = "?s1\<lparr>fds := ?f1\<lparr>kern := (kern ?f1)(fd \<mapsto> \<lparr>kf_socket = True, kf_flags = 0\<rparr>)\<rparr>\<rparr>"
  have "fd \<noteq> - 1"
    using assms(2) by simp
  have "hk_close False True refuse fd s = (Inr (if kern (fds s) fd = None then - 1 else 0), ?s1)"
    by (simp add: hk_close_def close_f_def)
  moreover have "FdMgr_find fd True g = Inr (Some (Some c))" "FdMgr_find fd False g = Inr (Some (Some c))"
    if "m_datas g = m_datas (fds s)" for g
    using assms that by (auto simp: FdMgr_find_def split: if_splits)
  ultimately show ?thesis
    using \<open>fd \<noteq> - 1\<close>
    by (intro exI [of _ ?s1] exI [of _ ?s2])
      (simp add: hk_socket_def on_fds_def FdMgr_get_def fcntl_getfl_def)
qed

text \<open>
  When the event of a pending connection cannot be added, \<^verbatim>\<open>connect\<close> does not wait and asks for the error of
  the socket at once: with none so far, it reports a connection that is not there.
\<close>

lemma connect_without_waiting:
  assumes "FdMgr_get fd False (fds s) = (Inr (Some c), fds s)" "\<not> m_isClosed c" "m_isSocket c" "\<not> m_userNonblock c"
    "addEvent (wa_refuse w) fd WRITE None (wa_sched w) (wa_fiber w) (iom s) = (Inr (- 1), i)"
  shows "\<exists>s1. connect_enter True fd (- 1) info w (- 1, EINPROGRESS) (Some 0) s = (Inr (Return 0), s1)"
  using assms
  by (simp add: connect_enter_def on_fds_def Let_def on_iom_def cancel_timer_def connect_check_def
      prod.split_sel)

text \<open>
  The time limit that expires after the event has come, but before the fiber runs, makes the call fail all
  the same.
\<close>

lemma late_timeout_fails:
  assumes "tm_inv (timers (iom s))" "cancelled s info = 0" "find_context fd (iom s) = Inr (Some a)"
    "events (ctx_at (iom s) a) AND event = 0"
  shows "\<exists>s1 s2. io_timeout refuse info fd event s = (Inr (), s1) \<and> iom s1 = iom s
    \<and> do_io_resume timer info s1 = (Inr (Some (- 1)), s2) \<and> errno s2 = ETIMEDOUT"
proof -
  let ?s1 = "s\<lparr>cancelled := (cancelled s)(info := ETIMEDOUT)\<rparr>"
  have "io_timeout refuse info fd event s = (Inr (), ?s1)"
    using assms(2-4) by (simp add: io_timeout_def on_iom_def cancelEvent_def Let_def)
  moreover obtain s2 where "do_io_resume timer info ?s1 = (Inr (Some (- 1)), s2)" "errno s2 = ETIMEDOUT"
    using do_io_resume_late [of ?s1 info timer] assms(1) by (auto simp: ETIMEDOUT_def)
  ultimately show ?thesis by auto
qed

text \<open>Sleeping for 4294968 seconds, about 50 days, sleeps for less than a second.\<close>

lemma long_sleep_wraps: "sleep_ms 4294968 = 704"
  by (simp add: sleep_ms_def)

text \<open>A command \<^verbatim>\<open>fcntl\<close> does not know, as those of open file description locks, loses its argument.\<close>

lemma unknown_fcntl_loses_argument: "fcntl_passes (F_OTHER 37) arg = None"
  by simp

text \<open>For a descriptor that failed, the flags of \<^verbatim>\<open>F_GETFL\<close> are no longer the error -1.\<close>

lemma getfl_error_masked:
  assumes "FdMgr_get fd False (fds s) = (Inr (Some c), fds s)" "\<not> m_isClosed c" "m_isSocket c" "\<not> m_userNonblock c"
    "kern (fds s) fd = None"
  shows "\<exists>v. hk_getfl fd s = (Inr v, s) \<and> v \<noteq> - 1"
proof -
  have "(- 1 :: u32) AND NOT O_NONBLOCK \<noteq> - 1"
    by (simp add: O_NONBLOCK_def)
  then show ?thesis
    using assms by (simp add: hk_getfl_def on_fds_def fcntl_getfl_def)
qed

end
