(* ===== verification/HttpStates1.thy ===== *)
theory HttpStates1
  imports Prelude
begin

text \<open>
  The states of the request machine of \<^verbatim>\<open>server/http/http11_parser.rl.cc\<close>, from 1 to 110: for each
  \<^verbatim>\<open>case\<close> of the switch, the label it jumps to for the character \<open>c\<close>, a \<^verbatim>\<open>char\<close> with its sign. The
  tests stand in the order of the code.
\<close>

text \<open>\<open>St n\<close> is the label \<^verbatim>\<open>stn\<close>, \<open>Tr n\<close> the label \<^verbatim>\<open>trn\<close>, with the actions of a transition.\<close>

datatype label = St nat | Tr nat

text \<open>
  The computation of \<^verbatim>\<open>_widec\<close> at the head of the states that read a part of the address: the characters
  94, 123 and 125 are moved out of the range of the others, by 256 more when \<^verbatim>\<open>uri_relaxed\<close> is set.
\<close>

definition widec :: "bool \<Rightarrow> int \<Rightarrow> int" where
  "widec uri_relaxed c =
     (if c < 123 then
        (if 94 \<le> c \<and> c \<le> 94 then (128 + (c - - 128)) + (if uri_relaxed then 256 else 0) else c)
      else if c > 123 then
        (if 125 \<le> c \<and> c \<le> 125 then (128 + (c - - 128)) + (if uri_relaxed then 256 else 0) else c)
      else (128 + (c - - 128)) + (if uri_relaxed then 256 else 0))"

definition http_case_1 :: "bool \<Rightarrow> int \<Rightarrow> label" where
  "http_case_1 uri_relaxed c =
     (if c = 60 then Tr 2
      else if c = 64 then Tr 3
      else if c > 57 then (if 65 \<le> c \<and> c \<le> 90 then Tr 0 else St 0)
      else if c \<ge> 48 then Tr 0 else St 0)"

definition http_case_2 :: "bool \<Rightarrow> int \<Rightarrow> label" where
  "http_case_2 uri_relaxed c =
     (if c = 32 then Tr 4
      else if c > 57 then (if 65 \<le> c \<and> c \<le> 90 then St 175 else St 0)
      else if c \<ge> 48 then St 175 else St 0)"

definition http_case_3 :: "bool \<Rightarrow> int \<Rightarrow> label" where
  "http_case_3 uri_relaxed c =
     (let w = widec uri_relaxed c in
      if w = 32 then Tr 6
      else if w = 33 then Tr 7
      else if w = 35 then Tr 8
      else if w = 37 then Tr 9
      else if w = 47 then Tr 10
      else if w = 59 then Tr 7
      else if w = 61 then Tr 7
      else if w = 63 then Tr 11
      else if w = 64 then Tr 7
      else if w = 95 then Tr 7
      else if w = 126 then Tr 7
      else if w = 606 then Tr 7
      else if w = 635 then Tr 7
      else if w = 637 then Tr 7
      else if w < 65 then (if 36 \<le> w \<and> w \<le> 57 then Tr 7 else St 0)
      else if w > 90 then (if 97 \<le> w \<and> w \<le> 122 then Tr 12 else St 0) else Tr 12)"

definition http_case_4 :: "bool \<Rightarrow> int \<Rightarrow> label" where
  "http_case_4 uri_relaxed c =
     (if c = 72 then Tr 13 else St 0)"

definition http_case_5 :: "bool \<Rightarrow> int \<Rightarrow> label" where
  "http_case_5 uri_relaxed c =
     (if c = 84 then St 6 else St 0)"

definition http_case_6 :: "bool \<Rightarrow> int \<Rightarrow> label" where
  "http_case_6 uri_relaxed c =
     (if c = 84 then St 7 else St 0)"

definition http_case_7 :: "bool \<Rightarrow> int \<Rightarrow> label" where
  "http_case_7 uri_relaxed c =
     (if c = 80 then St 8 else St 0)"

definition http_case_8 :: "bool \<Rightarrow> int \<Rightarrow> label" where
  "http_case_8 uri_relaxed c =
     (if c = 47 then St 9 else St 0)"

definition http_case_9 :: "bool \<Rightarrow> int \<Rightarrow> label" where
  "http_case_9 uri_relaxed c =
     (if c = 49 then St 10 else St 0)"

definition http_case_10 :: "bool \<Rightarrow> int \<Rightarrow> label" where
  "http_case_10 uri_relaxed c =
     (if c = 46 then St 11 else St 0)"

definition http_case_11 :: "bool \<Rightarrow> int \<Rightarrow> label" where
  "http_case_11 uri_relaxed c =
     (if 48 \<le> c \<and> c \<le> 49 then St 12 else St 0)"

definition http_case_12 :: "bool \<Rightarrow> int \<Rightarrow> label" where
  "http_case_12 uri_relaxed c =
     (if c = 10 then Tr 21 else if c = 13 then Tr 22 else St 0)"

definition http_case_13 :: "bool \<Rightarrow> int \<Rightarrow> label" where
  "http_case_13 uri_relaxed c =
     (if c = 10 then Tr 24
      else if c = 13 then Tr 25
      else if c = 33 then Tr 23
      else if c = 124 then Tr 23
      else if c = 126 then Tr 23
      else if c < 42 then
         (if c < 11 then (if 1 \<le> c \<and> c \<le> 8 then Tr 23 else St 0)
          else if c > 31 then (if 35 \<le> c \<and> c \<le> 39 then Tr 23 else St 0) else Tr 23)
      else if c > 43 then
         (if c < 48 then (if 45 \<le> c \<and> c \<le> 46 then Tr 23 else St 0)
          else if c > 57 then
             (if c > 90 then (if 94 \<le> c \<and> c \<le> 122 then Tr 23 else St 0)
              else if c \<ge> 65 then Tr 23 else St 0)
          else Tr 23)
      else Tr 23)"

definition http_case_14 :: "bool \<Rightarrow> int \<Rightarrow> label" where
  "http_case_14 uri_relaxed c =
     (if c = 33 then St 14
      else if c = 58 then Tr 27
      else if c = 124 then St 14
      else if c = 126 then St 14
      else if c < 42 then
         (if c < 10 then (if 1 \<le> c \<and> c \<le> 8 then St 14 else St 0)
          else if c > 31 then (if 35 \<le> c \<and> c \<le> 39 then St 14 else St 0) else St 14)
      else if c > 43 then
         (if c < 48 then (if 45 \<le> c \<and> c \<le> 46 then St 14 else St 0)
          else if c > 57 then
             (if c > 90 then (if 94 \<le> c \<and> c \<le> 122 then St 14 else St 0)
              else if c \<ge> 65 then St 14 else St 0)
          else St 14)
      else St 14)"

definition http_case_15 :: "bool \<Rightarrow> int \<Rightarrow> label" where
  "http_case_15 uri_relaxed c =
     (if c = 0 then St 0
      else if c = 9 then Tr 29
      else if c = 10 then Tr 30
      else if c = 13 then Tr 31 else if c = 32 then Tr 29 else if c = 127 then St 0 else Tr 28)"

definition http_case_16 :: "bool \<Rightarrow> int \<Rightarrow> label" where
  "http_case_16 uri_relaxed c =
     (if c = 0 then St 0
      else if c = 10 then Tr 33 else if c = 13 then Tr 34 else if c = 127 then St 0 else St 16)"

definition http_case_17 :: "bool \<Rightarrow> int \<Rightarrow> label" where
  "http_case_17 uri_relaxed c =
     (if c = 10 then St 13 else St 0)"

definition http_case_18 :: "bool \<Rightarrow> int \<Rightarrow> label" where
  "http_case_18 uri_relaxed c =
     (if c = 10 then Tr 36
      else if c = 33 then St 14
      else if c = 58 then Tr 27
      else if c = 124 then St 14
      else if c = 126 then St 14
      else if c < 42 then
         (if c < 11 then (if 1 \<le> c \<and> c \<le> 8 then St 14 else St 0)
          else if c > 31 then (if 35 \<le> c \<and> c \<le> 39 then St 14 else St 0) else St 14)
      else if c > 43 then
         (if c < 48 then (if 45 \<le> c \<and> c \<le> 46 then St 14 else St 0)
          else if c > 57 then
             (if c > 90 then (if 94 \<le> c \<and> c \<le> 122 then St 14 else St 0)
              else if c \<ge> 65 then St 14 else St 0)
          else St 14)
      else St 14)"

definition http_case_19 :: "bool \<Rightarrow> int \<Rightarrow> label" where
  "http_case_19 uri_relaxed c =
     (let w = widec uri_relaxed c in
      if w = 32 then Tr 37
      else if w = 33 then St 19
      else if w = 35 then Tr 39
      else if w = 37 then St 24
      else if w = 47 then St 26
      else if w = 59 then St 19
      else if w = 61 then St 19
      else if w = 63 then Tr 42
      else if w = 95 then St 19
      else if w = 126 then St 19
      else if w = 606 then St 19
      else if w = 635 then St 19
      else if w = 637 then St 19
      else if w < 64 then (if 36 \<le> w \<and> w \<le> 57 then St 19 else St 0)
      else if w > 90 then (if 97 \<le> w \<and> w \<le> 122 then St 19 else St 0) else St 19)"

definition http_case_20 :: "bool \<Rightarrow> int \<Rightarrow> label" where
  "http_case_20 uri_relaxed c =
     (let w = widec uri_relaxed c in
      if w = 32 then Tr 44
      else if w = 33 then Tr 43
      else if w = 37 then Tr 45
      else if w = 61 then Tr 43
      else if w = 95 then Tr 43
      else if w = 126 then Tr 43
      else if w = 606 then Tr 43
      else if w = 635 then Tr 43
      else if w = 637 then Tr 43
      else if w < 36 then (if w \<le> - 1 then Tr 43 else St 0)
      else if w > 59 then
         (if w > 90 then (if 97 \<le> w \<and> w \<le> 122 then Tr 43 else St 0)
          else if w \<ge> 63 then Tr 43 else St 0)
      else Tr 43)"

definition http_case_21 :: "bool \<Rightarrow> int \<Rightarrow> label" where
  "http_case_21 uri_relaxed c =
     (let w = widec uri_relaxed c in
      if w = 32 then Tr 47
      else if w = 33 then St 21
      else if w = 37 then St 22
      else if w = 61 then St 21
      else if w = 95 then St 21
      else if w = 126 then St 21
      else if w = 606 then St 21
      else if w = 635 then St 21
      else if w = 637 then St 21
      else if w < 36 then (if w \<le> - 1 then St 21 else St 0)
      else if w > 59 then
         (if w > 90 then (if 97 \<le> w \<and> w \<le> 122 then St 21 else St 0)
          else if w \<ge> 63 then St 21 else St 0)
      else St 21)"

definition http_case_22 :: "bool \<Rightarrow> int \<Rightarrow> label" where
  "http_case_22 uri_relaxed c =
     (if c < 65 then (if 48 \<le> c \<and> c \<le> 57 then St 23 else St 0)
      else if c > 70 then (if 97 \<le> c \<and> c \<le> 102 then St 23 else St 0) else St 23)"

definition http_case_23 :: "bool \<Rightarrow> int \<Rightarrow> label" where
  "http_case_23 uri_relaxed c =
     (if c < 65 then (if 48 \<le> c \<and> c \<le> 57 then St 21 else St 0)
      else if c > 70 then (if 97 \<le> c \<and> c \<le> 102 then St 21 else St 0) else St 21)"

definition http_case_24 :: "bool \<Rightarrow> int \<Rightarrow> label" where
  "http_case_24 uri_relaxed c =
     (if c < 65 then (if 48 \<le> c \<and> c \<le> 57 then St 25 else St 0)
      else if c > 70 then (if 97 \<le> c \<and> c \<le> 102 then St 25 else St 0) else St 25)"

definition http_case_25 :: "bool \<Rightarrow> int \<Rightarrow> label" where
  "http_case_25 uri_relaxed c =
     (if c < 65 then (if 48 \<le> c \<and> c \<le> 57 then St 19 else St 0)
      else if c > 70 then (if 97 \<le> c \<and> c \<le> 102 then St 19 else St 0) else St 19)"

definition http_case_26 :: "bool \<Rightarrow> int \<Rightarrow> label" where
  "http_case_26 uri_relaxed c =
     (let w = widec uri_relaxed c in
      if w = 32 then Tr 37
      else if w = 33 then St 26
      else if w = 35 then Tr 39
      else if w = 37 then St 27
      else if w = 61 then St 26
      else if w = 63 then Tr 42
      else if w = 95 then St 26
      else if w = 126 then St 26
      else if w = 606 then St 26
      else if w = 635 then St 26
      else if w = 637 then St 26
      else if w < 36 then (if w \<le> - 1 then St 26 else St 0)
      else if w > 59 then
         (if w > 90 then (if 97 \<le> w \<and> w \<le> 122 then St 26 else St 0)
          else if w \<ge> 64 then St 26 else St 0)
      else St 26)"

definition http_case_27 :: "bool \<Rightarrow> int \<Rightarrow> label" where
  "http_case_27 uri_relaxed c =
     (if c < 65 then (if 48 \<le> c \<and> c \<le> 57 then St 28 else St 0)
      else if c > 70 then (if 97 \<le> c \<and> c \<le> 102 then St 28 else St 0) else St 28)"

definition http_case_28 :: "bool \<Rightarrow> int \<Rightarrow> label" where
  "http_case_28 uri_relaxed c =
     (if c < 65 then (if 48 \<le> c \<and> c \<le> 57 then St 26 else St 0)
      else if c > 70 then (if 97 \<le> c \<and> c \<le> 102 then St 26 else St 0) else St 26)"

definition http_case_29 :: "bool \<Rightarrow> int \<Rightarrow> label" where
  "http_case_29 uri_relaxed c =
     (let w = widec uri_relaxed c in
      if w = 32 then Tr 54
      else if w = 33 then Tr 53
      else if w = 35 then Tr 55
      else if w = 37 then Tr 56
      else if w = 61 then Tr 53
      else if w = 95 then Tr 53
      else if w = 126 then Tr 53
      else if w = 606 then Tr 53
      else if w = 635 then Tr 53
      else if w = 637 then Tr 53
      else if w < 36 then (if w \<le> - 1 then Tr 53 else St 0)
      else if w > 59 then
         (if w > 90 then (if 97 \<le> w \<and> w \<le> 122 then Tr 53 else St 0)
          else if w \<ge> 63 then Tr 53 else St 0)
      else Tr 53)"

definition http_case_30 :: "bool \<Rightarrow> int \<Rightarrow> label" where
  "http_case_30 uri_relaxed c =
     (let w = widec uri_relaxed c in
      if w = 32 then Tr 58
      else if w = 33 then St 30
      else if w = 35 then Tr 59
      else if w = 37 then St 31
      else if w = 61 then St 30
      else if w = 95 then St 30
      else if w = 126 then St 30
      else if w = 606 then St 30
      else if w = 635 then St 30
      else if w = 637 then St 30
      else if w < 36 then (if w \<le> - 1 then St 30 else St 0)
      else if w > 59 then
         (if w > 90 then (if 97 \<le> w \<and> w \<le> 122 then St 30 else St 0)
          else if w \<ge> 63 then St 30 else St 0)
      else St 30)"

definition http_case_31 :: "bool \<Rightarrow> int \<Rightarrow> label" where
  "http_case_31 uri_relaxed c =
     (if c < 65 then (if 48 \<le> c \<and> c \<le> 57 then St 32 else St 0)
      else if c > 70 then (if 97 \<le> c \<and> c \<le> 102 then St 32 else St 0) else St 32)"

definition http_case_32 :: "bool \<Rightarrow> int \<Rightarrow> label" where
  "http_case_32 uri_relaxed c =
     (if c < 65 then (if 48 \<le> c \<and> c \<le> 57 then St 30 else St 0)
      else if c > 70 then (if 97 \<le> c \<and> c \<le> 102 then St 30 else St 0) else St 30)"

definition http_case_33 :: "bool \<Rightarrow> int \<Rightarrow> label" where
  "http_case_33 uri_relaxed c =
     (let w = widec uri_relaxed c in
      if w = 32 then Tr 37
      else if w = 33 then St 26
      else if w = 35 then Tr 39
      else if w = 37 then St 27
      else if w = 47 then St 34
      else if w = 61 then St 26
      else if w = 63 then Tr 42
      else if w = 95 then St 26
      else if w = 126 then St 26
      else if w = 606 then St 26
      else if w = 635 then St 26
      else if w = 637 then St 26
      else if w < 36 then (if w \<le> - 1 then St 26 else St 0)
      else if w > 59 then
         (if w > 90 then (if 97 \<le> w \<and> w \<le> 122 then St 26 else St 0)
          else if w \<ge> 64 then St 26 else St 0)
      else St 26)"

definition http_case_34 :: "bool \<Rightarrow> int \<Rightarrow> label" where
  "http_case_34 uri_relaxed c =
     (let w = widec uri_relaxed c in
      if w = 32 then Tr 37
      else if w = 33 then St 35
      else if w = 35 then Tr 39
      else if w = 37 then St 36
      else if w = 47 then St 26
      else if w = 58 then St 38
      else if w = 61 then St 35
      else if w = 63 then Tr 42
      else if w = 64 then St 42
      else if w = 91 then St 47
      else if w = 95 then St 35
      else if w = 126 then St 35
      else if w = 606 then St 35
      else if w = 635 then St 35
      else if w = 637 then St 35
      else if w < 65 then (if 36 \<le> w \<and> w \<le> 59 then St 35 else St 0)
      else if w > 90 then (if 97 \<le> w \<and> w \<le> 122 then St 35 else St 0) else St 35)"

definition http_case_35 :: "bool \<Rightarrow> int \<Rightarrow> label" where
  "http_case_35 uri_relaxed c =
     (let w = widec uri_relaxed c in
      if w = 32 then Tr 37
      else if w = 33 then St 35
      else if w = 35 then Tr 39
      else if w = 37 then St 36
      else if w = 47 then St 26
      else if w = 58 then St 38
      else if w = 61 then St 35
      else if w = 63 then Tr 42
      else if w = 64 then St 42
      else if w = 95 then St 35
      else if w = 126 then St 35
      else if w = 606 then St 35
      else if w = 635 then St 35
      else if w = 637 then St 35
      else if w < 65 then (if 36 \<le> w \<and> w \<le> 59 then St 35 else St 0)
      else if w > 90 then (if 97 \<le> w \<and> w \<le> 122 then St 35 else St 0) else St 35)"

definition http_case_36 :: "bool \<Rightarrow> int \<Rightarrow> label" where
  "http_case_36 uri_relaxed c =
     (if c < 65 then (if 48 \<le> c \<and> c \<le> 57 then St 37 else St 0)
      else if c > 70 then (if 97 \<le> c \<and> c \<le> 102 then St 37 else St 0) else St 37)"

definition http_case_37 :: "bool \<Rightarrow> int \<Rightarrow> label" where
  "http_case_37 uri_relaxed c =
     (if c < 65 then (if 48 \<le> c \<and> c \<le> 57 then St 35 else St 0)
      else if c > 70 then (if 97 \<le> c \<and> c \<le> 102 then St 35 else St 0) else St 35)"

definition http_case_38 :: "bool \<Rightarrow> int \<Rightarrow> label" where
  "http_case_38 uri_relaxed c =
     (let w = widec uri_relaxed c in
      if w = 32 then Tr 37
      else if w = 33 then St 39
      else if w = 35 then Tr 39
      else if w = 37 then St 40
      else if w = 47 then St 26
      else if w = 61 then St 39
      else if w = 63 then Tr 42
      else if w = 64 then St 42
      else if w = 95 then St 39
      else if w = 126 then St 39
      else if w = 606 then St 39
      else if w = 635 then St 39
      else if w = 637 then St 39
      else if w < 58 then
         (if w > 46 then (if 48 \<le> w \<and> w \<le> 57 then St 38 else St 0)
          else if w \<ge> 36 then St 39 else St 0)
      else if w > 59 then
         (if w > 90 then (if 97 \<le> w \<and> w \<le> 122 then St 39 else St 0)
          else if w \<ge> 65 then St 39 else St 0)
      else St 39)"

definition http_case_39 :: "bool \<Rightarrow> int \<Rightarrow> label" where
  "http_case_39 uri_relaxed c =
     (let w = widec uri_relaxed c in
      if w = 33 then St 39
      else if w = 37 then St 40
      else if w = 61 then St 39
      else if w = 64 then St 42
      else if w = 95 then St 39
      else if w = 126 then St 39
      else if w = 606 then St 39
      else if w = 635 then St 39
      else if w = 637 then St 39
      else if w < 48 then (if 36 \<le> w \<and> w \<le> 46 then St 39 else St 0)
      else if w > 59 then
         (if w > 90 then (if 97 \<le> w \<and> w \<le> 122 then St 39 else St 0)
          else if w \<ge> 65 then St 39 else St 0)
      else St 39)"

definition http_case_40 :: "bool \<Rightarrow> int \<Rightarrow> label" where
  "http_case_40 uri_relaxed c =
     (if c < 65 then (if 48 \<le> c \<and> c \<le> 57 then St 41 else St 0)
      else if c > 70 then (if 97 \<le> c \<and> c \<le> 102 then St 41 else St 0) else St 41)"

definition http_case_41 :: "bool \<Rightarrow> int \<Rightarrow> label" where
  "http_case_41 uri_relaxed c =
     (if c < 65 then (if 48 \<le> c \<and> c \<le> 57 then St 39 else St 0)
      else if c > 70 then (if 97 \<le> c \<and> c \<le> 102 then St 39 else St 0) else St 39)"

definition http_case_42 :: "bool \<Rightarrow> int \<Rightarrow> label" where
  "http_case_42 uri_relaxed c =
     (let w = widec uri_relaxed c in
      if w = 32 then Tr 37
      else if w = 33 then St 43
      else if w = 35 then Tr 39
      else if w = 37 then St 44
      else if w = 47 then St 26
      else if w = 58 then St 46
      else if w = 61 then St 43
      else if w = 63 then Tr 42
      else if w = 91 then St 47
      else if w = 95 then St 43
      else if w = 126 then St 43
      else if w = 606 then St 43
      else if w = 635 then St 43
      else if w = 637 then St 43
      else if w < 65 then (if 36 \<le> w \<and> w \<le> 59 then St 43 else St 0)
      else if w > 90 then (if 97 \<le> w \<and> w \<le> 122 then St 43 else St 0) else St 43)"

definition http_case_43 :: "bool \<Rightarrow> int \<Rightarrow> label" where
  "http_case_43 uri_relaxed c =
     (let w = widec uri_relaxed c in
      if w = 32 then Tr 37
      else if w = 33 then St 43
      else if w = 35 then Tr 39
      else if w = 37 then St 44
      else if w = 47 then St 26
      else if w = 58 then St 46
      else if w = 61 then St 43
      else if w = 63 then Tr 42
      else if w = 95 then St 43
      else if w = 126 then St 43
      else if w = 606 then St 43
      else if w = 635 then St 43
      else if w = 637 then St 43
      else if w < 65 then (if 36 \<le> w \<and> w \<le> 59 then St 43 else St 0)
      else if w > 90 then (if 97 \<le> w \<and> w \<le> 122 then St 43 else St 0) else St 43)"

definition http_case_44 :: "bool \<Rightarrow> int \<Rightarrow> label" where
  "http_case_44 uri_relaxed c =
     (if c < 65 then (if 48 \<le> c \<and> c \<le> 57 then St 45 else St 0)
      else if c > 70 then (if 97 \<le> c \<and> c \<le> 102 then St 45 else St 0) else St 45)"

definition http_case_45 :: "bool \<Rightarrow> int \<Rightarrow> label" where
  "http_case_45 uri_relaxed c =
     (if c < 65 then (if 48 \<le> c \<and> c \<le> 57 then St 43 else St 0)
      else if c > 70 then (if 97 \<le> c \<and> c \<le> 102 then St 43 else St 0) else St 43)"

definition http_case_46 :: "bool \<Rightarrow> int \<Rightarrow> label" where
  "http_case_46 uri_relaxed c =
     (if c = 32 then Tr 37
      else if c = 35 then Tr 39
      else if c = 47 then St 26
      else if c = 63 then Tr 42 else if 48 \<le> c \<and> c \<le> 57 then St 46 else St 0)"

definition http_case_47 :: "bool \<Rightarrow> int \<Rightarrow> label" where
  "http_case_47 uri_relaxed c =
     (if c = 6 then St 48
      else if c = 58 then St 167
      else if c = 118 then St 169
      else if c < 65 then (if 48 \<le> c \<and> c \<le> 57 then St 91 else St 0)
      else if c > 70 then (if 97 \<le> c \<and> c \<le> 102 then St 91 else St 0) else St 91)"

definition http_case_48 :: "bool \<Rightarrow> int \<Rightarrow> label" where
  "http_case_48 uri_relaxed c =
     (if c < 65 then (if 48 \<le> c \<and> c \<le> 57 then St 49 else St 0)
      else if c > 70 then (if 97 \<le> c \<and> c \<le> 102 then St 49 else St 0) else St 49)"

definition http_case_49 :: "bool \<Rightarrow> int \<Rightarrow> label" where
  "http_case_49 uri_relaxed c =
     (if c = 58 then St 53
      else if c < 65 then (if 48 \<le> c \<and> c \<le> 57 then St 50 else St 0)
      else if c > 70 then (if 97 \<le> c \<and> c \<le> 102 then St 50 else St 0) else St 50)"

definition http_case_50 :: "bool \<Rightarrow> int \<Rightarrow> label" where
  "http_case_50 uri_relaxed c =
     (if c = 58 then St 53
      else if c < 65 then (if 48 \<le> c \<and> c \<le> 57 then St 51 else St 0)
      else if c > 70 then (if 97 \<le> c \<and> c \<le> 102 then St 51 else St 0) else St 51)"

definition http_case_51 :: "bool \<Rightarrow> int \<Rightarrow> label" where
  "http_case_51 uri_relaxed c =
     (if c = 58 then St 53
      else if c < 65 then (if 48 \<le> c \<and> c \<le> 57 then St 52 else St 0)
      else if c > 70 then (if 97 \<le> c \<and> c \<le> 102 then St 52 else St 0) else St 52)"

definition http_case_52 :: "bool \<Rightarrow> int \<Rightarrow> label" where
  "http_case_52 uri_relaxed c =
     (if c = 58 then St 53 else St 0)"

definition http_case_53 :: "bool \<Rightarrow> int \<Rightarrow> label" where
  "http_case_53 uri_relaxed c =
     (if c = 49 then St 84
      else if c = 50 then St 87
      else if c < 65 then (if 48 \<le> c \<and> c \<le> 57 then St 54 else St 0)
      else if c > 70 then (if 97 \<le> c \<and> c \<le> 102 then St 90 else St 0) else St 90)"

definition http_case_54 :: "bool \<Rightarrow> int \<Rightarrow> label" where
  "http_case_54 uri_relaxed c =
     (if c = 46 then St 55
      else if c = 58 then St 80
      else if c < 65 then (if 48 \<le> c \<and> c \<le> 57 then St 77 else St 0)
      else if c > 70 then (if 97 \<le> c \<and> c \<le> 102 then St 77 else St 0) else St 77)"

definition http_case_55 :: "bool \<Rightarrow> int \<Rightarrow> label" where
  "http_case_55 uri_relaxed c =
     (if c = 49 then St 72
      else if c = 50 then St 74 else if 48 \<le> c \<and> c \<le> 57 then St 56 else St 0)"

definition http_case_56 :: "bool \<Rightarrow> int \<Rightarrow> label" where
  "http_case_56 uri_relaxed c =
     (if c = 46 then St 57 else St 0)"

definition http_case_57 :: "bool \<Rightarrow> int \<Rightarrow> label" where
  "http_case_57 uri_relaxed c =
     (if c = 49 then St 67
      else if c = 50 then St 69 else if 48 \<le> c \<and> c \<le> 57 then St 58 else St 0)"

definition http_case_58 :: "bool \<Rightarrow> int \<Rightarrow> label" where
  "http_case_58 uri_relaxed c =
     (if c = 46 then St 59 else St 0)"

definition http_case_59 :: "bool \<Rightarrow> int \<Rightarrow> label" where
  "http_case_59 uri_relaxed c =
     (if c = 49 then St 62
      else if c = 50 then St 64 else if 48 \<le> c \<and> c \<le> 57 then St 60 else St 0)"

definition http_case_60 :: "bool \<Rightarrow> int \<Rightarrow> label" where
  "http_case_60 uri_relaxed c =
     (if c = 93 then St 61 else St 0)"

definition http_case_61 :: "bool \<Rightarrow> int \<Rightarrow> label" where
  "http_case_61 uri_relaxed c =
     (if c = 32 then Tr 37
      else if c = 35 then Tr 39
      else if c = 47 then St 26 else if c = 58 then St 46 else if c = 63 then Tr 42 else St 0)"

definition http_case_62 :: "bool \<Rightarrow> int \<Rightarrow> label" where
  "http_case_62 uri_relaxed c =
     (if c = 93 then St 61 else if 48 \<le> c \<and> c \<le> 57 then St 63 else St 0)"

definition http_case_63 :: "bool \<Rightarrow> int \<Rightarrow> label" where
  "http_case_63 uri_relaxed c =
     (if c = 93 then St 61 else if 48 \<le> c \<and> c \<le> 57 then St 60 else St 0)"

definition http_case_64 :: "bool \<Rightarrow> int \<Rightarrow> label" where
  "http_case_64 uri_relaxed c =
     (if c = 48 then St 65 else if c = 53 then St 66 else if c = 93 then St 61 else St 0)"

definition http_case_65 :: "bool \<Rightarrow> int \<Rightarrow> label" where
  "http_case_65 uri_relaxed c =
     (if 48 \<le> c \<and> c \<le> 57 then St 60 else St 0)"

definition http_case_66 :: "bool \<Rightarrow> int \<Rightarrow> label" where
  "http_case_66 uri_relaxed c =
     (if c = 48 then St 60 else St 0)"

definition http_case_67 :: "bool \<Rightarrow> int \<Rightarrow> label" where
  "http_case_67 uri_relaxed c =
     (if c = 46 then St 59 else if 48 \<le> c \<and> c \<le> 57 then St 68 else St 0)"

definition http_case_68 :: "bool \<Rightarrow> int \<Rightarrow> label" where
  "http_case_68 uri_relaxed c =
     (if c = 46 then St 59 else if 48 \<le> c \<and> c \<le> 57 then St 58 else St 0)"

definition http_case_69 :: "bool \<Rightarrow> int \<Rightarrow> label" where
  "http_case_69 uri_relaxed c =
     (if c = 46 then St 59 else if c = 48 then St 70 else if c = 53 then St 71 else St 0)"

definition http_case_70 :: "bool \<Rightarrow> int \<Rightarrow> label" where
  "http_case_70 uri_relaxed c =
     (if 48 \<le> c \<and> c \<le> 57 then St 58 else St 0)"

definition http_case_71 :: "bool \<Rightarrow> int \<Rightarrow> label" where
  "http_case_71 uri_relaxed c =
     (if c = 48 then St 58 else St 0)"

definition http_case_72 :: "bool \<Rightarrow> int \<Rightarrow> label" where
  "http_case_72 uri_relaxed c =
     (if c = 46 then St 57 else if 48 \<le> c \<and> c \<le> 57 then St 73 else St 0)"

definition http_case_73 :: "bool \<Rightarrow> int \<Rightarrow> label" where
  "http_case_73 uri_relaxed c =
     (if c = 46 then St 57 else if 48 \<le> c \<and> c \<le> 57 then St 56 else St 0)"

definition http_case_74 :: "bool \<Rightarrow> int \<Rightarrow> label" where
  "http_case_74 uri_relaxed c =
     (if c = 46 then St 57 else if c = 48 then St 75 else if c = 53 then St 76 else St 0)"

definition http_case_75 :: "bool \<Rightarrow> int \<Rightarrow> label" where
  "http_case_75 uri_relaxed c =
     (if 48 \<le> c \<and> c \<le> 57 then St 56 else St 0)"

definition http_case_76 :: "bool \<Rightarrow> int \<Rightarrow> label" where
  "http_case_76 uri_relaxed c =
     (if c = 48 then St 56 else St 0)"

definition http_case_77 :: "bool \<Rightarrow> int \<Rightarrow> label" where
  "http_case_77 uri_relaxed c =
     (if c = 58 then St 80
      else if c < 65 then (if 48 \<le> c \<and> c \<le> 57 then St 78 else St 0)
      else if c > 70 then (if 97 \<le> c \<and> c \<le> 102 then St 78 else St 0) else St 78)"

definition http_case_78 :: "bool \<Rightarrow> int \<Rightarrow> label" where
  "http_case_78 uri_relaxed c =
     (if c = 58 then St 80
      else if c < 65 then (if 48 \<le> c \<and> c \<le> 57 then St 79 else St 0)
      else if c > 70 then (if 97 \<le> c \<and> c \<le> 102 then St 79 else St 0) else St 79)"

definition http_case_79 :: "bool \<Rightarrow> int \<Rightarrow> label" where
  "http_case_79 uri_relaxed c =
     (if c = 58 then St 80 else St 0)"

definition http_case_80 :: "bool \<Rightarrow> int \<Rightarrow> label" where
  "http_case_80 uri_relaxed c =
     (if c < 65 then (if 48 \<le> c \<and> c \<le> 57 then St 81 else St 0)
      else if c > 70 then (if 97 \<le> c \<and> c \<le> 102 then St 81 else St 0) else St 81)"

definition http_case_81 :: "bool \<Rightarrow> int \<Rightarrow> label" where
  "http_case_81 uri_relaxed c =
     (if c = 93 then St 61
      else if c < 65 then (if 48 \<le> c \<and> c \<le> 57 then St 82 else St 0)
      else if c > 70 then (if 97 \<le> c \<and> c \<le> 102 then St 82 else St 0) else St 82)"

definition http_case_82 :: "bool \<Rightarrow> int \<Rightarrow> label" where
  "http_case_82 uri_relaxed c =
     (if c = 93 then St 61
      else if c < 65 then (if 48 \<le> c \<and> c \<le> 57 then St 83 else St 0)
      else if c > 70 then (if 97 \<le> c \<and> c \<le> 102 then St 83 else St 0) else St 83)"

definition http_case_83 :: "bool \<Rightarrow> int \<Rightarrow> label" where
  "http_case_83 uri_relaxed c =
     (if c = 93 then St 61
      else if c < 65 then (if 48 \<le> c \<and> c \<le> 57 then St 60 else St 0)
      else if c > 70 then (if 97 \<le> c \<and> c \<le> 102 then St 60 else St 0) else St 60)"

definition http_case_84 :: "bool \<Rightarrow> int \<Rightarrow> label" where
  "http_case_84 uri_relaxed c =
     (if c = 46 then St 55
      else if c = 58 then St 80
      else if c < 65 then (if 48 \<le> c \<and> c \<le> 57 then St 85 else St 0)
      else if c > 70 then (if 97 \<le> c \<and> c \<le> 102 then St 77 else St 0) else St 77)"

definition http_case_85 :: "bool \<Rightarrow> int \<Rightarrow> label" where
  "http_case_85 uri_relaxed c =
     (if c = 46 then St 55
      else if c = 58 then St 80
      else if c < 65 then (if 48 \<le> c \<and> c \<le> 57 then St 86 else St 0)
      else if c > 70 then (if 97 \<le> c \<and> c \<le> 102 then St 78 else St 0) else St 78)"

definition http_case_86 :: "bool \<Rightarrow> int \<Rightarrow> label" where
  "http_case_86 uri_relaxed c =
     (if c = 46 then St 55
      else if c = 58 then St 80
      else if c < 65 then (if 48 \<le> c \<and> c \<le> 57 then St 79 else St 0)
      else if c > 70 then (if 97 \<le> c \<and> c \<le> 102 then St 79 else St 0) else St 79)"

definition http_case_87 :: "bool \<Rightarrow> int \<Rightarrow> label" where
  "http_case_87 uri_relaxed c =
     (if c = 46 then St 55
      else if c = 48 then St 88
      else if c = 53 then St 89
      else if c = 58 then St 80
      else if c < 65 then (if 49 \<le> c \<and> c \<le> 57 then St 77 else St 0)
      else if c > 70 then (if 97 \<le> c \<and> c \<le> 102 then St 77 else St 0) else St 77)"

definition http_case_88 :: "bool \<Rightarrow> int \<Rightarrow> label" where
  "http_case_88 uri_relaxed c =
     (if c = 58 then St 80
      else if c < 65 then (if 48 \<le> c \<and> c \<le> 57 then St 86 else St 0)
      else if c > 70 then (if 97 \<le> c \<and> c \<le> 102 then St 78 else St 0) else St 78)"

definition http_case_89 :: "bool \<Rightarrow> int \<Rightarrow> label" where
  "http_case_89 uri_relaxed c =
     (if c = 48 then St 86
      else if c = 58 then St 80
      else if c < 65 then (if 49 \<le> c \<and> c \<le> 57 then St 78 else St 0)
      else if c > 70 then (if 97 \<le> c \<and> c \<le> 102 then St 78 else St 0) else St 78)"

definition http_case_90 :: "bool \<Rightarrow> int \<Rightarrow> label" where
  "http_case_90 uri_relaxed c =
     (if c = 58 then St 80
      else if c < 65 then (if 48 \<le> c \<and> c \<le> 57 then St 77 else St 0)
      else if c > 70 then (if 97 \<le> c \<and> c \<le> 102 then St 77 else St 0) else St 77)"

definition http_case_91 :: "bool \<Rightarrow> int \<Rightarrow> label" where
  "http_case_91 uri_relaxed c =
     (if c = 58 then St 95
      else if c < 65 then (if 48 \<le> c \<and> c \<le> 57 then St 92 else St 0)
      else if c > 70 then (if 97 \<le> c \<and> c \<le> 102 then St 92 else St 0) else St 92)"

definition http_case_92 :: "bool \<Rightarrow> int \<Rightarrow> label" where
  "http_case_92 uri_relaxed c =
     (if c = 58 then St 95
      else if c < 65 then (if 48 \<le> c \<and> c \<le> 57 then St 93 else St 0)
      else if c > 70 then (if 97 \<le> c \<and> c \<le> 102 then St 93 else St 0) else St 93)"

definition http_case_93 :: "bool \<Rightarrow> int \<Rightarrow> label" where
  "http_case_93 uri_relaxed c =
     (if c = 58 then St 95
      else if c < 65 then (if 48 \<le> c \<and> c \<le> 57 then St 94 else St 0)
      else if c > 70 then (if 97 \<le> c \<and> c \<le> 102 then St 94 else St 0) else St 94)"

definition http_case_94 :: "bool \<Rightarrow> int \<Rightarrow> label" where
  "http_case_94 uri_relaxed c =
     (if c = 58 then St 95 else St 0)"

definition http_case_95 :: "bool \<Rightarrow> int \<Rightarrow> label" where
  "http_case_95 uri_relaxed c =
     (if c = 58 then St 166
      else if c < 65 then (if 48 \<le> c \<and> c \<le> 57 then St 96 else St 0)
      else if c > 70 then (if 97 \<le> c \<and> c \<le> 102 then St 96 else St 0) else St 96)"

definition http_case_96 :: "bool \<Rightarrow> int \<Rightarrow> label" where
  "http_case_96 uri_relaxed c =
     (if c = 58 then St 100
      else if c < 65 then (if 48 \<le> c \<and> c \<le> 57 then St 97 else St 0)
      else if c > 70 then (if 97 \<le> c \<and> c \<le> 102 then St 97 else St 0) else St 97)"

definition http_case_97 :: "bool \<Rightarrow> int \<Rightarrow> label" where
  "http_case_97 uri_relaxed c =
     (if c = 58 then St 100
      else if c < 65 then (if 48 \<le> c \<and> c \<le> 57 then St 98 else St 0)
      else if c > 70 then (if 97 \<le> c \<and> c \<le> 102 then St 98 else St 0) else St 98)"

definition http_case_98 :: "bool \<Rightarrow> int \<Rightarrow> label" where
  "http_case_98 uri_relaxed c =
     (if c = 58 then St 100
      else if c < 65 then (if 48 \<le> c \<and> c \<le> 57 then St 99 else St 0)
      else if c > 70 then (if 97 \<le> c \<and> c \<le> 102 then St 99 else St 0) else St 99)"

definition http_case_99 :: "bool \<Rightarrow> int \<Rightarrow> label" where
  "http_case_99 uri_relaxed c =
     (if c = 58 then St 100 else St 0)"

definition http_case_100 :: "bool \<Rightarrow> int \<Rightarrow> label" where
  "http_case_100 uri_relaxed c =
     (if c = 58 then St 165
      else if c < 65 then (if 48 \<le> c \<and> c \<le> 57 then St 101 else St 0)
      else if c > 70 then (if 97 \<le> c \<and> c \<le> 102 then St 101 else St 0) else St 101)"

definition http_case_101 :: "bool \<Rightarrow> int \<Rightarrow> label" where
  "http_case_101 uri_relaxed c =
     (if c = 58 then St 105
      else if c < 65 then (if 48 \<le> c \<and> c \<le> 57 then St 102 else St 0)
      else if c > 70 then (if 97 \<le> c \<and> c \<le> 102 then St 102 else St 0) else St 102)"

definition http_case_102 :: "bool \<Rightarrow> int \<Rightarrow> label" where
  "http_case_102 uri_relaxed c =
     (if c = 58 then St 105
      else if c < 65 then (if 48 \<le> c \<and> c \<le> 57 then St 103 else St 0)
      else if c > 70 then (if 97 \<le> c \<and> c \<le> 102 then St 103 else St 0) else St 103)"

definition http_case_103 :: "bool \<Rightarrow> int \<Rightarrow> label" where
  "http_case_103 uri_relaxed c =
     (if c = 58 then St 105
      else if c < 65 then (if 48 \<le> c \<and> c \<le> 57 then St 104 else St 0)
      else if c > 70 then (if 97 \<le> c \<and> c \<le> 102 then St 104 else St 0) else St 104)"

definition http_case_104 :: "bool \<Rightarrow> int \<Rightarrow> label" where
  "http_case_104 uri_relaxed c =
     (if c = 58 then St 105 else St 0)"

definition http_case_105 :: "bool \<Rightarrow> int \<Rightarrow> label" where
  "http_case_105 uri_relaxed c =
     (if c = 58 then St 164
      else if c < 65 then (if 48 \<le> c \<and> c \<le> 57 then St 106 else St 0)
      else if c > 70 then (if 97 \<le> c \<and> c \<le> 102 then St 106 else St 0) else St 106)"

definition http_case_106 :: "bool \<Rightarrow> int \<Rightarrow> label" where
  "http_case_106 uri_relaxed c =
     (if c = 58 then St 110
      else if c < 65 then (if 48 \<le> c \<and> c \<le> 57 then St 107 else St 0)
      else if c > 70 then (if 97 \<le> c \<and> c \<le> 102 then St 107 else St 0) else St 107)"

definition http_case_107 :: "bool \<Rightarrow> int \<Rightarrow> label" where
  "http_case_107 uri_relaxed c =
     (if c = 58 then St 110
      else if c < 65 then (if 48 \<le> c \<and> c \<le> 57 then St 108 else St 0)
      else if c > 70 then (if 97 \<le> c \<and> c \<le> 102 then St 108 else St 0) else St 108)"

definition http_case_108 :: "bool \<Rightarrow> int \<Rightarrow> label" where
  "http_case_108 uri_relaxed c =
     (if c = 58 then St 110
      else if c < 65 then (if 48 \<le> c \<and> c \<le> 57 then St 109 else St 0)
      else if c > 70 then (if 97 \<le> c \<and> c \<le> 102 then St 109 else St 0) else St 109)"

definition http_case_109 :: "bool \<Rightarrow> int \<Rightarrow> label" where
  "http_case_109 uri_relaxed c =
     (if c = 58 then St 110 else St 0)"

definition http_case_110 :: "bool \<Rightarrow> int \<Rightarrow> label" where
  "http_case_110 uri_relaxed c =
     (if c = 58 then St 163
      else if c < 65 then (if 48 \<le> c \<and> c \<le> 57 then St 111 else St 0)
      else if c > 70 then (if 97 \<le> c \<and> c \<le> 102 then St 111 else St 0) else St 111)"

end
