(* ===== verification/HttpStates2.thy ===== *)
theory HttpStates2
  imports HttpStates1
begin

text \<open>
  The states 111 to 230 of the request machine of \<^verbatim>\<open>server/http/http11_parser.rl.cc\<close>, as those of
  \<^verbatim>\<open>HttpStates1\<close>.
\<close>

definition http_case_111 :: "bool \<Rightarrow> int \<Rightarrow> label" where
  "http_case_111 uri_relaxed c =
     (if c = 58 then St 115
      else if c < 65 then (if 48 \<le> c \<and> c \<le> 57 then St 112 else St 0)
      else if c > 70 then (if 97 \<le> c \<and> c \<le> 102 then St 112 else St 0) else St 112)"

definition http_case_112 :: "bool \<Rightarrow> int \<Rightarrow> label" where
  "http_case_112 uri_relaxed c =
     (if c = 58 then St 115
      else if c < 65 then (if 48 \<le> c \<and> c \<le> 57 then St 113 else St 0)
      else if c > 70 then (if 97 \<le> c \<and> c \<le> 102 then St 113 else St 0) else St 113)"

definition http_case_113 :: "bool \<Rightarrow> int \<Rightarrow> label" where
  "http_case_113 uri_relaxed c =
     (if c = 58 then St 115
      else if c < 65 then (if 48 \<le> c \<and> c \<le> 57 then St 114 else St 0)
      else if c > 70 then (if 97 \<le> c \<and> c \<le> 102 then St 114 else St 0) else St 114)"

definition http_case_114 :: "bool \<Rightarrow> int \<Rightarrow> label" where
  "http_case_114 uri_relaxed c =
     (if c = 58 then St 115 else St 0)"

definition http_case_115 :: "bool \<Rightarrow> int \<Rightarrow> label" where
  "http_case_115 uri_relaxed c =
     (if c = 58 then St 151
      else if c < 65 then (if 48 \<le> c \<and> c \<le> 57 then St 116 else St 0)
      else if c > 70 then (if 97 \<le> c \<and> c \<le> 102 then St 116 else St 0) else St 116)"

definition http_case_116 :: "bool \<Rightarrow> int \<Rightarrow> label" where
  "http_case_116 uri_relaxed c =
     (if c = 58 then St 120
      else if c < 65 then (if 48 \<le> c \<and> c \<le> 57 then St 117 else St 0)
      else if c > 70 then (if 97 \<le> c \<and> c \<le> 102 then St 117 else St 0) else St 117)"

definition http_case_117 :: "bool \<Rightarrow> int \<Rightarrow> label" where
  "http_case_117 uri_relaxed c =
     (if c = 58 then St 120
      else if c < 65 then (if 48 \<le> c \<and> c \<le> 57 then St 118 else St 0)
      else if c > 70 then (if 97 \<le> c \<and> c \<le> 102 then St 118 else St 0) else St 118)"

definition http_case_118 :: "bool \<Rightarrow> int \<Rightarrow> label" where
  "http_case_118 uri_relaxed c =
     (if c = 58 then St 120
      else if c < 65 then (if 48 \<le> c \<and> c \<le> 57 then St 119 else St 0)
      else if c > 70 then (if 97 \<le> c \<and> c \<le> 102 then St 119 else St 0) else St 119)"

definition http_case_119 :: "bool \<Rightarrow> int \<Rightarrow> label" where
  "http_case_119 uri_relaxed c =
     (if c = 58 then St 120 else St 0)"

definition http_case_120 :: "bool \<Rightarrow> int \<Rightarrow> label" where
  "http_case_120 uri_relaxed c =
     (if c = 58 then St 150
      else if c < 65 then (if 48 \<le> c \<and> c \<le> 57 then St 121 else St 0)
      else if c > 70 then (if 97 \<le> c \<and> c \<le> 102 then St 121 else St 0) else St 121)"

definition http_case_121 :: "bool \<Rightarrow> int \<Rightarrow> label" where
  "http_case_121 uri_relaxed c =
     (if c = 58 then St 125
      else if c < 65 then (if 48 \<le> c \<and> c \<le> 57 then St 122 else St 0)
      else if c > 70 then (if 97 \<le> c \<and> c \<le> 102 then St 122 else St 0) else St 122)"

definition http_case_122 :: "bool \<Rightarrow> int \<Rightarrow> label" where
  "http_case_122 uri_relaxed c =
     (if c = 58 then St 125
      else if c < 65 then (if 48 \<le> c \<and> c \<le> 57 then St 123 else St 0)
      else if c > 70 then (if 97 \<le> c \<and> c \<le> 102 then St 123 else St 0) else St 123)"

definition http_case_123 :: "bool \<Rightarrow> int \<Rightarrow> label" where
  "http_case_123 uri_relaxed c =
     (if c = 58 then St 125
      else if c < 65 then (if 48 \<le> c \<and> c \<le> 57 then St 124 else St 0)
      else if c > 70 then (if 97 \<le> c \<and> c \<le> 102 then St 124 else St 0) else St 124)"

definition http_case_124 :: "bool \<Rightarrow> int \<Rightarrow> label" where
  "http_case_124 uri_relaxed c =
     (if c = 58 then St 125 else St 0)"

definition http_case_125 :: "bool \<Rightarrow> int \<Rightarrow> label" where
  "http_case_125 uri_relaxed c =
     (if c = 58 then St 126
      else if c < 65 then (if 48 \<le> c \<and> c \<le> 57 then St 121 else St 0)
      else if c > 70 then (if 97 \<le> c \<and> c \<le> 102 then St 121 else St 0) else St 121)"

definition http_case_126 :: "bool \<Rightarrow> int \<Rightarrow> label" where
  "http_case_126 uri_relaxed c =
     (if c = 49 then St 143
      else if c = 50 then St 146
      else if c = 93 then St 61
      else if c < 48 then (if 2 \<le> c \<and> c \<le> 3 then St 48 else St 0)
      else if c > 57 then
         (if c > 70 then (if 97 \<le> c \<and> c \<le> 102 then St 149 else St 0)
          else if c \<ge> 65 then St 149 else St 0)
      else St 127)"

definition http_case_127 :: "bool \<Rightarrow> int \<Rightarrow> label" where
  "http_case_127 uri_relaxed c =
     (if c = 46 then St 55
      else if c = 58 then St 131
      else if c = 93 then St 61
      else if c < 65 then (if 48 \<le> c \<and> c \<le> 57 then St 128 else St 0)
      else if c > 70 then (if 97 \<le> c \<and> c \<le> 102 then St 128 else St 0) else St 128)"

definition http_case_128 :: "bool \<Rightarrow> int \<Rightarrow> label" where
  "http_case_128 uri_relaxed c =
     (if c = 58 then St 131
      else if c = 93 then St 61
      else if c < 65 then (if 48 \<le> c \<and> c \<le> 57 then St 129 else St 0)
      else if c > 70 then (if 97 \<le> c \<and> c \<le> 102 then St 129 else St 0) else St 129)"

definition http_case_129 :: "bool \<Rightarrow> int \<Rightarrow> label" where
  "http_case_129 uri_relaxed c =
     (if c = 58 then St 131
      else if c = 93 then St 61
      else if c < 65 then (if 48 \<le> c \<and> c \<le> 57 then St 130 else St 0)
      else if c > 70 then (if 97 \<le> c \<and> c \<le> 102 then St 130 else St 0) else St 130)"

definition http_case_130 :: "bool \<Rightarrow> int \<Rightarrow> label" where
  "http_case_130 uri_relaxed c =
     (if c = 58 then St 131 else if c = 93 then St 61 else St 0)"

definition http_case_131 :: "bool \<Rightarrow> int \<Rightarrow> label" where
  "http_case_131 uri_relaxed c =
     (if c = 49 then St 136
      else if c = 50 then St 139
      else if c < 65 then (if 48 \<le> c \<and> c \<le> 57 then St 132 else St 0)
      else if c > 70 then (if 97 \<le> c \<and> c \<le> 102 then St 142 else St 0) else St 142)"

definition http_case_132 :: "bool \<Rightarrow> int \<Rightarrow> label" where
  "http_case_132 uri_relaxed c =
     (if c = 46 then St 55
      else if c = 58 then St 80
      else if c = 93 then St 61
      else if c < 65 then (if 48 \<le> c \<and> c \<le> 57 then St 133 else St 0)
      else if c > 70 then (if 97 \<le> c \<and> c \<le> 102 then St 133 else St 0) else St 133)"

definition http_case_133 :: "bool \<Rightarrow> int \<Rightarrow> label" where
  "http_case_133 uri_relaxed c =
     (if c = 58 then St 80
      else if c = 93 then St 61
      else if c < 65 then (if 48 \<le> c \<and> c \<le> 57 then St 134 else St 0)
      else if c > 70 then (if 97 \<le> c \<and> c \<le> 102 then St 134 else St 0) else St 134)"

definition http_case_134 :: "bool \<Rightarrow> int \<Rightarrow> label" where
  "http_case_134 uri_relaxed c =
     (if c = 58 then St 80
      else if c = 93 then St 61
      else if c < 65 then (if 48 \<le> c \<and> c \<le> 57 then St 135 else St 0)
      else if c > 70 then (if 97 \<le> c \<and> c \<le> 102 then St 135 else St 0) else St 135)"

definition http_case_135 :: "bool \<Rightarrow> int \<Rightarrow> label" where
  "http_case_135 uri_relaxed c =
     (if c = 58 then St 80 else if c = 93 then St 61 else St 0)"

definition http_case_136 :: "bool \<Rightarrow> int \<Rightarrow> label" where
  "http_case_136 uri_relaxed c =
     (if c = 46 then St 55
      else if c = 58 then St 80
      else if c = 93 then St 61
      else if c < 65 then (if 48 \<le> c \<and> c \<le> 57 then St 137 else St 0)
      else if c > 70 then (if 97 \<le> c \<and> c \<le> 102 then St 133 else St 0) else St 133)"

definition http_case_137 :: "bool \<Rightarrow> int \<Rightarrow> label" where
  "http_case_137 uri_relaxed c =
     (if c = 46 then St 55
      else if c = 58 then St 80
      else if c = 93 then St 61
      else if c < 65 then (if 48 \<le> c \<and> c \<le> 57 then St 138 else St 0)
      else if c > 70 then (if 97 \<le> c \<and> c \<le> 102 then St 134 else St 0) else St 134)"

definition http_case_138 :: "bool \<Rightarrow> int \<Rightarrow> label" where
  "http_case_138 uri_relaxed c =
     (if c = 46 then St 55
      else if c = 58 then St 80
      else if c = 93 then St 61
      else if c < 65 then (if 48 \<le> c \<and> c \<le> 57 then St 135 else St 0)
      else if c > 70 then (if 97 \<le> c \<and> c \<le> 102 then St 135 else St 0) else St 135)"

definition http_case_139 :: "bool \<Rightarrow> int \<Rightarrow> label" where
  "http_case_139 uri_relaxed c =
     (if c = 46 then St 55
      else if c = 48 then St 140
      else if c = 53 then St 141
      else if c = 58 then St 80
      else if c = 93 then St 61
      else if c < 65 then (if 49 \<le> c \<and> c \<le> 57 then St 133 else St 0)
      else if c > 70 then (if 97 \<le> c \<and> c \<le> 102 then St 133 else St 0) else St 133)"

definition http_case_140 :: "bool \<Rightarrow> int \<Rightarrow> label" where
  "http_case_140 uri_relaxed c =
     (if c = 58 then St 80
      else if c = 93 then St 61
      else if c < 65 then (if 48 \<le> c \<and> c \<le> 57 then St 138 else St 0)
      else if c > 70 then (if 97 \<le> c \<and> c \<le> 102 then St 134 else St 0) else St 134)"

definition http_case_141 :: "bool \<Rightarrow> int \<Rightarrow> label" where
  "http_case_141 uri_relaxed c =
     (if c = 48 then St 138
      else if c = 58 then St 80
      else if c = 93 then St 61
      else if c < 65 then (if 49 \<le> c \<and> c \<le> 57 then St 134 else St 0)
      else if c > 70 then (if 97 \<le> c \<and> c \<le> 102 then St 134 else St 0) else St 134)"

definition http_case_142 :: "bool \<Rightarrow> int \<Rightarrow> label" where
  "http_case_142 uri_relaxed c =
     (if c = 58 then St 80
      else if c = 93 then St 61
      else if c < 65 then (if 48 \<le> c \<and> c \<le> 57 then St 133 else St 0)
      else if c > 70 then (if 97 \<le> c \<and> c \<le> 102 then St 133 else St 0) else St 133)"

definition http_case_143 :: "bool \<Rightarrow> int \<Rightarrow> label" where
  "http_case_143 uri_relaxed c =
     (if c = 46 then St 55
      else if c = 58 then St 131
      else if c = 93 then St 61
      else if c < 65 then (if 48 \<le> c \<and> c \<le> 57 then St 144 else St 0)
      else if c > 70 then (if 97 \<le> c \<and> c \<le> 102 then St 128 else St 0) else St 128)"

definition http_case_144 :: "bool \<Rightarrow> int \<Rightarrow> label" where
  "http_case_144 uri_relaxed c =
     (if c = 46 then St 55
      else if c = 58 then St 131
      else if c = 93 then St 61
      else if c < 65 then (if 48 \<le> c \<and> c \<le> 57 then St 145 else St 0)
      else if c > 70 then (if 97 \<le> c \<and> c \<le> 102 then St 129 else St 0) else St 129)"

definition http_case_145 :: "bool \<Rightarrow> int \<Rightarrow> label" where
  "http_case_145 uri_relaxed c =
     (if c = 46 then St 55
      else if c = 58 then St 131
      else if c = 93 then St 61
      else if c < 65 then (if 48 \<le> c \<and> c \<le> 57 then St 130 else St 0)
      else if c > 70 then (if 97 \<le> c \<and> c \<le> 102 then St 130 else St 0) else St 130)"

definition http_case_146 :: "bool \<Rightarrow> int \<Rightarrow> label" where
  "http_case_146 uri_relaxed c =
     (if c = 46 then St 55
      else if c = 48 then St 147
      else if c = 53 then St 148
      else if c = 58 then St 131
      else if c = 93 then St 61
      else if c < 65 then (if 49 \<le> c \<and> c \<le> 57 then St 128 else St 0)
      else if c > 70 then (if 97 \<le> c \<and> c \<le> 102 then St 128 else St 0) else St 128)"

definition http_case_147 :: "bool \<Rightarrow> int \<Rightarrow> label" where
  "http_case_147 uri_relaxed c =
     (if c = 58 then St 131
      else if c = 93 then St 61
      else if c < 65 then (if 48 \<le> c \<and> c \<le> 57 then St 145 else St 0)
      else if c > 70 then (if 97 \<le> c \<and> c \<le> 102 then St 129 else St 0) else St 129)"

definition http_case_148 :: "bool \<Rightarrow> int \<Rightarrow> label" where
  "http_case_148 uri_relaxed c =
     (if c = 48 then St 145
      else if c = 58 then St 131
      else if c = 93 then St 61
      else if c < 65 then (if 49 \<le> c \<and> c \<le> 57 then St 129 else St 0)
      else if c > 70 then (if 97 \<le> c \<and> c \<le> 102 then St 129 else St 0) else St 129)"

definition http_case_149 :: "bool \<Rightarrow> int \<Rightarrow> label" where
  "http_case_149 uri_relaxed c =
     (if c = 58 then St 131
      else if c = 93 then St 61
      else if c < 65 then (if 48 \<le> c \<and> c \<le> 57 then St 128 else St 0)
      else if c > 70 then (if 97 \<le> c \<and> c \<le> 102 then St 128 else St 0) else St 128)"

definition http_case_150 :: "bool \<Rightarrow> int \<Rightarrow> label" where
  "http_case_150 uri_relaxed c =
     (if c = 49 then St 143
      else if c = 50 then St 146
      else if c < 48 then (if 2 \<le> c \<and> c \<le> 3 then St 48 else St 0)
      else if c > 57 then
         (if c > 70 then (if 97 \<le> c \<and> c \<le> 102 then St 149 else St 0)
          else if c \<ge> 65 then St 149 else St 0)
      else St 127)"

definition http_case_151 :: "bool \<Rightarrow> int \<Rightarrow> label" where
  "http_case_151 uri_relaxed c =
     (if c = 49 then St 156
      else if c = 50 then St 159
      else if c < 48 then (if 2 \<le> c \<and> c \<le> 3 then St 48 else St 0)
      else if c > 57 then
         (if c > 70 then (if 97 \<le> c \<and> c \<le> 102 then St 162 else St 0)
          else if c \<ge> 65 then St 162 else St 0)
      else St 152)"

definition http_case_152 :: "bool \<Rightarrow> int \<Rightarrow> label" where
  "http_case_152 uri_relaxed c =
     (if c = 46 then St 55
      else if c = 58 then St 131
      else if c < 65 then (if 48 \<le> c \<and> c \<le> 57 then St 153 else St 0)
      else if c > 70 then (if 97 \<le> c \<and> c \<le> 102 then St 153 else St 0) else St 153)"

definition http_case_153 :: "bool \<Rightarrow> int \<Rightarrow> label" where
  "http_case_153 uri_relaxed c =
     (if c = 58 then St 131
      else if c < 65 then (if 48 \<le> c \<and> c \<le> 57 then St 154 else St 0)
      else if c > 70 then (if 97 \<le> c \<and> c \<le> 102 then St 154 else St 0) else St 154)"

definition http_case_154 :: "bool \<Rightarrow> int \<Rightarrow> label" where
  "http_case_154 uri_relaxed c =
     (if c = 58 then St 131
      else if c < 65 then (if 48 \<le> c \<and> c \<le> 57 then St 155 else St 0)
      else if c > 70 then (if 97 \<le> c \<and> c \<le> 102 then St 155 else St 0) else St 155)"

definition http_case_155 :: "bool \<Rightarrow> int \<Rightarrow> label" where
  "http_case_155 uri_relaxed c =
     (if c = 58 then St 131 else St 0)"

definition http_case_156 :: "bool \<Rightarrow> int \<Rightarrow> label" where
  "http_case_156 uri_relaxed c =
     (if c = 46 then St 55
      else if c = 58 then St 131
      else if c < 65 then (if 48 \<le> c \<and> c \<le> 57 then St 157 else St 0)
      else if c > 70 then (if 97 \<le> c \<and> c \<le> 102 then St 153 else St 0) else St 153)"

definition http_case_157 :: "bool \<Rightarrow> int \<Rightarrow> label" where
  "http_case_157 uri_relaxed c =
     (if c = 46 then St 55
      else if c = 58 then St 131
      else if c < 65 then (if 48 \<le> c \<and> c \<le> 57 then St 158 else St 0)
      else if c > 70 then (if 97 \<le> c \<and> c \<le> 102 then St 154 else St 0) else St 154)"

definition http_case_158 :: "bool \<Rightarrow> int \<Rightarrow> label" where
  "http_case_158 uri_relaxed c =
     (if c = 46 then St 55
      else if c = 58 then St 131
      else if c < 65 then (if 48 \<le> c \<and> c \<le> 57 then St 155 else St 0)
      else if c > 70 then (if 97 \<le> c \<and> c \<le> 102 then St 155 else St 0) else St 155)"

definition http_case_159 :: "bool \<Rightarrow> int \<Rightarrow> label" where
  "http_case_159 uri_relaxed c =
     (if c = 46 then St 55
      else if c = 48 then St 160
      else if c = 53 then St 161
      else if c = 58 then St 131
      else if c < 65 then (if 49 \<le> c \<and> c \<le> 57 then St 153 else St 0)
      else if c > 70 then (if 97 \<le> c \<and> c \<le> 102 then St 153 else St 0) else St 153)"

definition http_case_160 :: "bool \<Rightarrow> int \<Rightarrow> label" where
  "http_case_160 uri_relaxed c =
     (if c = 58 then St 131
      else if c < 65 then (if 48 \<le> c \<and> c \<le> 57 then St 158 else St 0)
      else if c > 70 then (if 97 \<le> c \<and> c \<le> 102 then St 154 else St 0) else St 154)"

definition http_case_161 :: "bool \<Rightarrow> int \<Rightarrow> label" where
  "http_case_161 uri_relaxed c =
     (if c = 48 then St 158
      else if c = 58 then St 131
      else if c < 65 then (if 49 \<le> c \<and> c \<le> 57 then St 154 else St 0)
      else if c > 70 then (if 97 \<le> c \<and> c \<le> 102 then St 154 else St 0) else St 154)"

definition http_case_162 :: "bool \<Rightarrow> int \<Rightarrow> label" where
  "http_case_162 uri_relaxed c =
     (if c = 58 then St 131
      else if c < 65 then (if 48 \<le> c \<and> c \<le> 57 then St 153 else St 0)
      else if c > 70 then (if 97 \<le> c \<and> c \<le> 102 then St 153 else St 0) else St 153)"

definition http_case_163 :: "bool \<Rightarrow> int \<Rightarrow> label" where
  "http_case_163 uri_relaxed c =
     (if c < 48 then (if 2 \<le> c \<and> c \<le> 3 then St 48 else St 0)
      else if c > 57 then
         (if c > 70 then (if 97 \<le> c \<and> c \<le> 102 then St 49 else St 0)
          else if c \<ge> 65 then St 49 else St 0)
      else St 49)"

definition http_case_164 :: "bool \<Rightarrow> int \<Rightarrow> label" where
  "http_case_164 uri_relaxed c =
     (if 2 \<le> c \<and> c \<le> 3 then St 48 else St 0)"

definition http_case_165 :: "bool \<Rightarrow> int \<Rightarrow> label" where
  "http_case_165 uri_relaxed c =
     (if c = 3 then St 48 else St 0)"

definition http_case_166 :: "bool \<Rightarrow> int \<Rightarrow> label" where
  "http_case_166 uri_relaxed c =
     (if c = 4 then St 48 else St 0)"

definition http_case_167 :: "bool \<Rightarrow> int \<Rightarrow> label" where
  "http_case_167 uri_relaxed c =
     (if c = 58 then St 168 else St 0)"

definition http_case_168 :: "bool \<Rightarrow> int \<Rightarrow> label" where
  "http_case_168 uri_relaxed c =
     (if c = 49 then St 143
      else if c = 50 then St 146
      else if c = 93 then St 61
      else if c < 48 then (if 2 \<le> c \<and> c \<le> 5 then St 48 else St 0)
      else if c > 57 then
         (if c > 70 then (if 97 \<le> c \<and> c \<le> 102 then St 149 else St 0)
          else if c \<ge> 65 then St 149 else St 0)
      else St 127)"

definition http_case_169 :: "bool \<Rightarrow> int \<Rightarrow> label" where
  "http_case_169 uri_relaxed c =
     (if c < 65 then (if 48 \<le> c \<and> c \<le> 57 then St 170 else St 0)
      else if c > 70 then (if 97 \<le> c \<and> c \<le> 102 then St 170 else St 0) else St 170)"

definition http_case_170 :: "bool \<Rightarrow> int \<Rightarrow> label" where
  "http_case_170 uri_relaxed c =
     (if c = 46 then St 171
      else if c < 65 then (if 48 \<le> c \<and> c \<le> 57 then St 170 else St 0)
      else if c > 70 then (if 97 \<le> c \<and> c \<le> 102 then St 170 else St 0) else St 170)"

definition http_case_171 :: "bool \<Rightarrow> int \<Rightarrow> label" where
  "http_case_171 uri_relaxed c =
     (let w = widec uri_relaxed c in
      if w = 33 then St 172
      else if w = 36 then St 172
      else if w = 61 then St 172
      else if w = 95 then St 172
      else if w = 126 then St 172
      else if w = 606 then St 172
      else if w = 635 then St 172
      else if w = 637 then St 172
      else if w < 48 then (if 38 \<le> w \<and> w \<le> 46 then St 172 else St 0)
      else if w > 59 then
         (if w > 90 then (if 97 \<le> w \<and> w \<le> 122 then St 172 else St 0)
          else if w \<ge> 65 then St 172 else St 0)
      else St 172)"

definition http_case_172 :: "bool \<Rightarrow> int \<Rightarrow> label" where
  "http_case_172 uri_relaxed c =
     (let w = widec uri_relaxed c in
      if w = 33 then St 172
      else if w = 36 then St 172
      else if w = 61 then St 172
      else if w = 93 then St 61
      else if w = 95 then St 172
      else if w = 126 then St 172
      else if w = 606 then St 172
      else if w = 635 then St 172
      else if w = 637 then St 172
      else if w < 48 then (if 38 \<le> w \<and> w \<le> 46 then St 172 else St 0)
      else if w > 59 then
         (if w > 90 then (if 97 \<le> w \<and> w \<le> 122 then St 172 else St 0)
          else if w \<ge> 65 then St 172 else St 0)
      else St 172)"

definition http_case_173 :: "bool \<Rightarrow> int \<Rightarrow> label" where
  "http_case_173 uri_relaxed c =
     (let w = widec uri_relaxed c in
      if w = 32 then Tr 37
      else if w = 33 then St 19
      else if w = 35 then Tr 39
      else if w = 37 then St 24
      else if w = 43 then St 173
      else if w = 47 then St 26
      else if w = 58 then St 174
      else if w = 59 then St 19
      else if w = 61 then St 19
      else if w = 63 then Tr 42
      else if w = 64 then St 19
      else if w = 95 then St 19
      else if w = 126 then St 19
      else if w = 606 then St 19
      else if w = 635 then St 19
      else if w = 637 then St 19
      else if w < 45 then (if 36 \<le> w \<and> w \<le> 44 then St 19 else St 0)
      else if w > 57 then
         (if w > 90 then (if 97 \<le> w \<and> w \<le> 122 then St 173 else St 0)
          else if w \<ge> 65 then St 173 else St 0)
      else St 173)"

definition http_case_174 :: "bool \<Rightarrow> int \<Rightarrow> label" where
  "http_case_174 uri_relaxed c =
     (let w = widec uri_relaxed c in
      if w = 32 then Tr 6
      else if w = 33 then Tr 203
      else if w = 35 then Tr 8
      else if w = 37 then Tr 204
      else if w = 47 then Tr 10
      else if w = 61 then Tr 203
      else if w = 63 then Tr 11
      else if w = 95 then Tr 203
      else if w = 126 then Tr 203
      else if w = 606 then Tr 203
      else if w = 635 then Tr 203
      else if w = 637 then Tr 203
      else if w < 36 then (if w \<le> - 1 then Tr 203 else St 0)
      else if w > 59 then
         (if w > 90 then (if 97 \<le> w \<and> w \<le> 122 then Tr 203 else St 0)
          else if w \<ge> 64 then Tr 203 else St 0)
      else Tr 203)"

definition http_case_175 :: "bool \<Rightarrow> int \<Rightarrow> label" where
  "http_case_175 uri_relaxed c =
     (if c = 32 then Tr 4
      else if c > 57 then (if 65 \<le> c \<and> c \<le> 90 then St 176 else St 0)
      else if c \<ge> 48 then St 176 else St 0)"

definition http_case_176 :: "bool \<Rightarrow> int \<Rightarrow> label" where
  "http_case_176 uri_relaxed c =
     (if c = 32 then Tr 4
      else if c > 57 then (if 65 \<le> c \<and> c \<le> 90 then St 177 else St 0)
      else if c \<ge> 48 then St 177 else St 0)"

definition http_case_177 :: "bool \<Rightarrow> int \<Rightarrow> label" where
  "http_case_177 uri_relaxed c =
     (if c = 32 then Tr 4
      else if c > 57 then (if 65 \<le> c \<and> c \<le> 90 then St 178 else St 0)
      else if c \<ge> 48 then St 178 else St 0)"

definition http_case_178 :: "bool \<Rightarrow> int \<Rightarrow> label" where
  "http_case_178 uri_relaxed c =
     (if c = 32 then Tr 4
      else if c > 57 then (if 65 \<le> c \<and> c \<le> 90 then St 179 else St 0)
      else if c \<ge> 48 then St 179 else St 0)"

definition http_case_179 :: "bool \<Rightarrow> int \<Rightarrow> label" where
  "http_case_179 uri_relaxed c =
     (if c = 32 then Tr 4
      else if c > 57 then (if 65 \<le> c \<and> c \<le> 90 then St 180 else St 0)
      else if c \<ge> 48 then St 180 else St 0)"

definition http_case_180 :: "bool \<Rightarrow> int \<Rightarrow> label" where
  "http_case_180 uri_relaxed c =
     (if c = 32 then Tr 4
      else if c > 57 then (if 65 \<le> c \<and> c \<le> 90 then St 181 else St 0)
      else if c \<ge> 48 then St 181 else St 0)"

definition http_case_181 :: "bool \<Rightarrow> int \<Rightarrow> label" where
  "http_case_181 uri_relaxed c =
     (if c = 32 then Tr 4
      else if c > 57 then (if 65 \<le> c \<and> c \<le> 90 then St 182 else St 0)
      else if c \<ge> 48 then St 182 else St 0)"

definition http_case_182 :: "bool \<Rightarrow> int \<Rightarrow> label" where
  "http_case_182 uri_relaxed c =
     (if c = 32 then Tr 4
      else if c > 57 then (if 65 \<le> c \<and> c \<le> 90 then St 183 else St 0)
      else if c \<ge> 48 then St 183 else St 0)"

definition http_case_183 :: "bool \<Rightarrow> int \<Rightarrow> label" where
  "http_case_183 uri_relaxed c =
     (if c = 32 then Tr 4
      else if c > 57 then (if 65 \<le> c \<and> c \<le> 90 then St 184 else St 0)
      else if c \<ge> 48 then St 184 else St 0)"

definition http_case_184 :: "bool \<Rightarrow> int \<Rightarrow> label" where
  "http_case_184 uri_relaxed c =
     (if c = 32 then Tr 4
      else if c > 57 then (if 65 \<le> c \<and> c \<le> 90 then St 185 else St 0)
      else if c \<ge> 48 then St 185 else St 0)"

definition http_case_185 :: "bool \<Rightarrow> int \<Rightarrow> label" where
  "http_case_185 uri_relaxed c =
     (if c = 32 then Tr 4
      else if c > 57 then (if 65 \<le> c \<and> c \<le> 90 then St 186 else St 0)
      else if c \<ge> 48 then St 186 else St 0)"

definition http_case_186 :: "bool \<Rightarrow> int \<Rightarrow> label" where
  "http_case_186 uri_relaxed c =
     (if c = 32 then Tr 4
      else if c > 57 then (if 65 \<le> c \<and> c \<le> 90 then St 187 else St 0)
      else if c \<ge> 48 then St 187 else St 0)"

definition http_case_187 :: "bool \<Rightarrow> int \<Rightarrow> label" where
  "http_case_187 uri_relaxed c =
     (if c = 32 then Tr 4
      else if c > 57 then (if 65 \<le> c \<and> c \<le> 90 then St 188 else St 0)
      else if c \<ge> 48 then St 188 else St 0)"

definition http_case_188 :: "bool \<Rightarrow> int \<Rightarrow> label" where
  "http_case_188 uri_relaxed c =
     (if c = 32 then Tr 4
      else if c > 57 then (if 65 \<le> c \<and> c \<le> 90 then St 189 else St 0)
      else if c \<ge> 48 then St 189 else St 0)"

definition http_case_189 :: "bool \<Rightarrow> int \<Rightarrow> label" where
  "http_case_189 uri_relaxed c =
     (if c = 32 then Tr 4
      else if c > 57 then (if 65 \<le> c \<and> c \<le> 90 then St 190 else St 0)
      else if c \<ge> 48 then St 190 else St 0)"

definition http_case_190 :: "bool \<Rightarrow> int \<Rightarrow> label" where
  "http_case_190 uri_relaxed c =
     (if c = 32 then Tr 4
      else if c > 57 then (if 65 \<le> c \<and> c \<le> 90 then St 191 else St 0)
      else if c \<ge> 48 then St 191 else St 0)"

definition http_case_191 :: "bool \<Rightarrow> int \<Rightarrow> label" where
  "http_case_191 uri_relaxed c =
     (if c = 32 then Tr 4
      else if c > 57 then (if 65 \<le> c \<and> c \<le> 90 then St 192 else St 0)
      else if c \<ge> 48 then St 192 else St 0)"

definition http_case_192 :: "bool \<Rightarrow> int \<Rightarrow> label" where
  "http_case_192 uri_relaxed c =
     (if c = 32 then Tr 4
      else if c > 57 then (if 65 \<le> c \<and> c \<le> 90 then St 193 else St 0)
      else if c \<ge> 48 then St 193 else St 0)"

definition http_case_193 :: "bool \<Rightarrow> int \<Rightarrow> label" where
  "http_case_193 uri_relaxed c =
     (if c = 32 then Tr 4 else St 0)"

definition http_case_194 :: "bool \<Rightarrow> int \<Rightarrow> label" where
  "http_case_194 uri_relaxed c =
     (if c < 48 then (if 45 \<le> c \<and> c \<le> 46 then St 195 else St 0)
      else if c > 57 then
         (if c > 90 then (if 97 \<le> c \<and> c \<le> 122 then St 195 else St 0)
          else if c \<ge> 65 then St 195 else St 0)
      else St 195)"

definition http_case_195 :: "bool \<Rightarrow> int \<Rightarrow> label" where
  "http_case_195 uri_relaxed c =
     (if c = 32 then Tr 224
      else if c = 47 then Tr 224
      else if c = 62 then Tr 224
      else if c < 45 then (if 9 \<le> c \<and> c \<le> 13 then Tr 224 else St 0)
      else if c > 57 then
         (if c > 90 then (if 97 \<le> c \<and> c \<le> 122 then St 195 else St 0)
          else if c \<ge> 65 then St 195 else St 0)
      else St 195)"

definition http_case_196 :: "bool \<Rightarrow> int \<Rightarrow> label" where
  "http_case_196 uri_relaxed c =
     (if c = 62 then St 197 else St 196)"

definition http_case_197 :: "bool \<Rightarrow> int \<Rightarrow> label" where
  "http_case_197 uri_relaxed c =
     (if c = 0 then Tr 227 else if c = 62 then St 197 else St 196)"

definition http_case_198 :: "bool \<Rightarrow> int \<Rightarrow> label" where
  "http_case_198 uri_relaxed c =
     (let w = widec uri_relaxed c in
      if w = 32 then Tr 228
      else if w = 33 then St 202
      else if w = 37 then St 203
      else if w = 47 then St 208
      else if w = 59 then St 202
      else if w = 61 then St 202
      else if w = 95 then St 202
      else if w = 126 then St 202
      else if w = 606 then St 202
      else if w = 635 then St 202
      else if w = 637 then St 202
      else if w < 64 then (if 36 \<le> w \<and> w \<le> 57 then St 202 else St 0)
      else if w > 90 then (if 97 \<le> w \<and> w \<le> 122 then St 202 else St 0) else St 202)"

definition http_case_199 :: "bool \<Rightarrow> int \<Rightarrow> label" where
  "http_case_199 uri_relaxed c =
     (if c = 123 then Tr 232 else St 0)"

definition http_case_200 :: "bool \<Rightarrow> int \<Rightarrow> label" where
  "http_case_200 uri_relaxed c =
     (if c = 125 then St 201 else St 200)"

definition http_case_201 :: "bool \<Rightarrow> int \<Rightarrow> label" where
  "http_case_201 uri_relaxed c =
     (if c = 0 then Tr 235 else if c = 125 then St 201 else St 200)"

definition http_case_202 :: "bool \<Rightarrow> int \<Rightarrow> label" where
  "http_case_202 uri_relaxed c =
     (let w = widec uri_relaxed c in
      if w = 32 then Tr 228
      else if w = 33 then St 202
      else if w = 37 then St 203
      else if w = 47 then St 205
      else if w = 59 then St 202
      else if w = 61 then St 202
      else if w = 95 then St 202
      else if w = 126 then St 202
      else if w = 606 then St 202
      else if w = 635 then St 202
      else if w = 637 then St 202
      else if w < 64 then (if 36 \<le> w \<and> w \<le> 57 then St 202 else St 0)
      else if w > 90 then (if 97 \<le> w \<and> w \<le> 122 then St 202 else St 0) else St 202)"

definition http_case_203 :: "bool \<Rightarrow> int \<Rightarrow> label" where
  "http_case_203 uri_relaxed c =
     (if c < 65 then (if 48 \<le> c \<and> c \<le> 57 then St 204 else St 0)
      else if c > 70 then (if 97 \<le> c \<and> c \<le> 102 then St 204 else St 0) else St 204)"

definition http_case_204 :: "bool \<Rightarrow> int \<Rightarrow> label" where
  "http_case_204 uri_relaxed c =
     (if c < 65 then (if 48 \<le> c \<and> c \<le> 57 then St 202 else St 0)
      else if c > 70 then (if 97 \<le> c \<and> c \<le> 102 then St 202 else St 0) else St 202)"

definition http_case_205 :: "bool \<Rightarrow> int \<Rightarrow> label" where
  "http_case_205 uri_relaxed c =
     (let w = widec uri_relaxed c in
      if w = 32 then Tr 228
      else if w = 33 then St 205
      else if w = 37 then St 206
      else if w = 61 then St 205
      else if w = 95 then St 205
      else if w = 126 then St 205
      else if w = 606 then St 205
      else if w = 635 then St 205
      else if w = 637 then St 205
      else if w < 36 then (if w \<le> - 1 then St 205 else St 0)
      else if w > 59 then
         (if w > 90 then (if 97 \<le> w \<and> w \<le> 122 then St 205 else St 0)
          else if w \<ge> 64 then St 205 else St 0)
      else St 205)"

definition http_case_206 :: "bool \<Rightarrow> int \<Rightarrow> label" where
  "http_case_206 uri_relaxed c =
     (if c < 65 then (if 48 \<le> c \<and> c \<le> 57 then St 207 else St 0)
      else if c > 70 then (if 97 \<le> c \<and> c \<le> 102 then St 207 else St 0) else St 207)"

definition http_case_207 :: "bool \<Rightarrow> int \<Rightarrow> label" where
  "http_case_207 uri_relaxed c =
     (if c < 65 then (if 48 \<le> c \<and> c \<le> 57 then St 205 else St 0)
      else if c > 70 then (if 97 \<le> c \<and> c \<le> 102 then St 205 else St 0) else St 205)"

definition http_case_208 :: "bool \<Rightarrow> int \<Rightarrow> label" where
  "http_case_208 uri_relaxed c =
     (let w = widec uri_relaxed c in
      if w = 32 then Tr 228
      else if w = 33 then St 205
      else if w = 37 then St 206
      else if w = 47 then St 209
      else if w = 61 then St 205
      else if w = 95 then St 205
      else if w = 126 then St 205
      else if w = 606 then St 205
      else if w = 635 then St 205
      else if w = 637 then St 205
      else if w < 36 then (if w \<le> - 1 then St 205 else St 0)
      else if w > 59 then
         (if w > 90 then (if 97 \<le> w \<and> w \<le> 122 then St 205 else St 0)
          else if w \<ge> 64 then St 205 else St 0)
      else St 205)"

definition http_case_209 :: "bool \<Rightarrow> int \<Rightarrow> label" where
  "http_case_209 uri_relaxed c =
     (let w = widec uri_relaxed c in
      if w = 32 then Tr 228
      else if w = 33 then St 210
      else if w = 37 then St 211
      else if w = 47 then St 205
      else if w = 58 then St 213
      else if w = 61 then St 210
      else if w = 64 then St 217
      else if w = 91 then St 222
      else if w = 95 then St 210
      else if w = 126 then St 210
      else if w = 606 then St 210
      else if w = 635 then St 210
      else if w = 637 then St 210
      else if w < 65 then (if 36 \<le> w \<and> w \<le> 59 then St 210 else St 0)
      else if w > 90 then (if 97 \<le> w \<and> w \<le> 122 then St 210 else St 0) else St 210)"

definition http_case_210 :: "bool \<Rightarrow> int \<Rightarrow> label" where
  "http_case_210 uri_relaxed c =
     (let w = widec uri_relaxed c in
      if w = 32 then Tr 228
      else if w = 33 then St 210
      else if w = 37 then St 211
      else if w = 47 then St 205
      else if w = 58 then St 213
      else if w = 61 then St 210
      else if w = 64 then St 217
      else if w = 95 then St 210
      else if w = 126 then St 210
      else if w = 606 then St 210
      else if w = 635 then St 210
      else if w = 637 then St 210
      else if w < 65 then (if 36 \<le> w \<and> w \<le> 59 then St 210 else St 0)
      else if w > 90 then (if 97 \<le> w \<and> w \<le> 122 then St 210 else St 0) else St 210)"

definition http_case_211 :: "bool \<Rightarrow> int \<Rightarrow> label" where
  "http_case_211 uri_relaxed c =
     (if c < 65 then (if 48 \<le> c \<and> c \<le> 57 then St 212 else St 0)
      else if c > 70 then (if 97 \<le> c \<and> c \<le> 102 then St 212 else St 0) else St 212)"

definition http_case_212 :: "bool \<Rightarrow> int \<Rightarrow> label" where
  "http_case_212 uri_relaxed c =
     (if c < 65 then (if 48 \<le> c \<and> c \<le> 57 then St 210 else St 0)
      else if c > 70 then (if 97 \<le> c \<and> c \<le> 102 then St 210 else St 0) else St 210)"

definition http_case_213 :: "bool \<Rightarrow> int \<Rightarrow> label" where
  "http_case_213 uri_relaxed c =
     (let w = widec uri_relaxed c in
      if w = 32 then Tr 228
      else if w = 33 then St 214
      else if w = 37 then St 215
      else if w = 47 then St 205
      else if w = 61 then St 214
      else if w = 64 then St 217
      else if w = 95 then St 214
      else if w = 126 then St 214
      else if w = 606 then St 214
      else if w = 635 then St 214
      else if w = 637 then St 214
      else if w < 58 then
         (if w > 46 then (if 48 \<le> w \<and> w \<le> 57 then St 213 else St 0)
          else if w \<ge> 36 then St 214 else St 0)
      else if w > 59 then
         (if w > 90 then (if 97 \<le> w \<and> w \<le> 122 then St 214 else St 0)
          else if w \<ge> 65 then St 214 else St 0)
      else St 214)"

definition http_case_214 :: "bool \<Rightarrow> int \<Rightarrow> label" where
  "http_case_214 uri_relaxed c =
     (let w = widec uri_relaxed c in
      if w = 33 then St 214
      else if w = 37 then St 215
      else if w = 61 then St 214
      else if w = 64 then St 217
      else if w = 95 then St 214
      else if w = 126 then St 214
      else if w = 606 then St 214
      else if w = 635 then St 214
      else if w = 637 then St 214
      else if w < 48 then (if 36 \<le> w \<and> w \<le> 46 then St 214 else St 0)
      else if w > 59 then
         (if w > 90 then (if 97 \<le> w \<and> w \<le> 122 then St 214 else St 0)
          else if w \<ge> 65 then St 214 else St 0)
      else St 214)"

definition http_case_215 :: "bool \<Rightarrow> int \<Rightarrow> label" where
  "http_case_215 uri_relaxed c =
     (if c < 65 then (if 48 \<le> c \<and> c \<le> 57 then St 216 else St 0)
      else if c > 70 then (if 97 \<le> c \<and> c \<le> 102 then St 216 else St 0) else St 216)"

definition http_case_216 :: "bool \<Rightarrow> int \<Rightarrow> label" where
  "http_case_216 uri_relaxed c =
     (if c < 65 then (if 48 \<le> c \<and> c \<le> 57 then St 214 else St 0)
      else if c > 70 then (if 97 \<le> c \<and> c \<le> 102 then St 214 else St 0) else St 214)"

definition http_case_217 :: "bool \<Rightarrow> int \<Rightarrow> label" where
  "http_case_217 uri_relaxed c =
     (let w = widec uri_relaxed c in
      if w = 32 then Tr 228
      else if w = 33 then St 218
      else if w = 37 then St 219
      else if w = 47 then St 205
      else if w = 58 then St 221
      else if w = 61 then St 218
      else if w = 91 then St 222
      else if w = 95 then St 218
      else if w = 126 then St 218
      else if w = 606 then St 218
      else if w = 635 then St 218
      else if w = 637 then St 218
      else if w < 65 then (if 36 \<le> w \<and> w \<le> 59 then St 218 else St 0)
      else if w > 90 then (if 97 \<le> w \<and> w \<le> 122 then St 218 else St 0) else St 218)"

definition http_case_218 :: "bool \<Rightarrow> int \<Rightarrow> label" where
  "http_case_218 uri_relaxed c =
     (let w = widec uri_relaxed c in
      if w = 32 then Tr 228
      else if w = 33 then St 218
      else if w = 37 then St 219
      else if w = 47 then St 205
      else if w = 58 then St 221
      else if w = 61 then St 218
      else if w = 95 then St 218
      else if w = 126 then St 218
      else if w = 606 then St 218
      else if w = 635 then St 218
      else if w = 637 then St 218
      else if w < 65 then (if 36 \<le> w \<and> w \<le> 59 then St 218 else St 0)
      else if w > 90 then (if 97 \<le> w \<and> w \<le> 122 then St 218 else St 0) else St 218)"

definition http_case_219 :: "bool \<Rightarrow> int \<Rightarrow> label" where
  "http_case_219 uri_relaxed c =
     (if c < 65 then (if 48 \<le> c \<and> c \<le> 57 then St 220 else St 0)
      else if c > 70 then (if 97 \<le> c \<and> c \<le> 102 then St 220 else St 0) else St 220)"

definition http_case_220 :: "bool \<Rightarrow> int \<Rightarrow> label" where
  "http_case_220 uri_relaxed c =
     (if c < 65 then (if 48 \<le> c \<and> c \<le> 57 then St 218 else St 0)
      else if c > 70 then (if 97 \<le> c \<and> c \<le> 102 then St 218 else St 0) else St 218)"

definition http_case_221 :: "bool \<Rightarrow> int \<Rightarrow> label" where
  "http_case_221 uri_relaxed c =
     (if c = 32 then Tr 228
      else if c = 47 then St 205 else if 48 \<le> c \<and> c \<le> 57 then St 221 else St 0)"

definition http_case_222 :: "bool \<Rightarrow> int \<Rightarrow> label" where
  "http_case_222 uri_relaxed c =
     (if c = 6 then St 223
      else if c = 58 then St 342
      else if c = 118 then St 344
      else if c < 65 then (if 48 \<le> c \<and> c \<le> 57 then St 266 else St 0)
      else if c > 70 then (if 97 \<le> c \<and> c \<le> 102 then St 266 else St 0) else St 266)"

definition http_case_223 :: "bool \<Rightarrow> int \<Rightarrow> label" where
  "http_case_223 uri_relaxed c =
     (if c < 65 then (if 48 \<le> c \<and> c \<le> 57 then St 224 else St 0)
      else if c > 70 then (if 97 \<le> c \<and> c \<le> 102 then St 224 else St 0) else St 224)"

definition http_case_224 :: "bool \<Rightarrow> int \<Rightarrow> label" where
  "http_case_224 uri_relaxed c =
     (if c = 58 then St 228
      else if c < 65 then (if 48 \<le> c \<and> c \<le> 57 then St 225 else St 0)
      else if c > 70 then (if 97 \<le> c \<and> c \<le> 102 then St 225 else St 0) else St 225)"

definition http_case_225 :: "bool \<Rightarrow> int \<Rightarrow> label" where
  "http_case_225 uri_relaxed c =
     (if c = 58 then St 228
      else if c < 65 then (if 48 \<le> c \<and> c \<le> 57 then St 226 else St 0)
      else if c > 70 then (if 97 \<le> c \<and> c \<le> 102 then St 226 else St 0) else St 226)"

definition http_case_226 :: "bool \<Rightarrow> int \<Rightarrow> label" where
  "http_case_226 uri_relaxed c =
     (if c = 58 then St 228
      else if c < 65 then (if 48 \<le> c \<and> c \<le> 57 then St 227 else St 0)
      else if c > 70 then (if 97 \<le> c \<and> c \<le> 102 then St 227 else St 0) else St 227)"

definition http_case_227 :: "bool \<Rightarrow> int \<Rightarrow> label" where
  "http_case_227 uri_relaxed c =
     (if c = 58 then St 228 else St 0)"

definition http_case_228 :: "bool \<Rightarrow> int \<Rightarrow> label" where
  "http_case_228 uri_relaxed c =
     (if c = 49 then St 259
      else if c = 50 then St 262
      else if c < 65 then (if 48 \<le> c \<and> c \<le> 57 then St 229 else St 0)
      else if c > 70 then (if 97 \<le> c \<and> c \<le> 102 then St 265 else St 0) else St 265)"

definition http_case_229 :: "bool \<Rightarrow> int \<Rightarrow> label" where
  "http_case_229 uri_relaxed c =
     (if c = 46 then St 230
      else if c = 58 then St 255
      else if c < 65 then (if 48 \<le> c \<and> c \<le> 57 then St 252 else St 0)
      else if c > 70 then (if 97 \<le> c \<and> c \<le> 102 then St 252 else St 0) else St 252)"

definition http_case_230 :: "bool \<Rightarrow> int \<Rightarrow> label" where
  "http_case_230 uri_relaxed c =
     (if c = 49 then St 247
      else if c = 50 then St 249 else if 48 \<le> c \<and> c \<le> 57 then St 231 else St 0)"

end
