(* ===== verification/HttpStates3.thy ===== *)
theory HttpStates3
  imports HttpStates1
begin

text \<open>
  The states 231 to 349 of the request machine of \<^verbatim>\<open>server/http/http11_parser.rl.cc\<close>, as those of
  \<^verbatim>\<open>HttpStates1\<close>.
\<close>

definition http_case_231 :: "bool \<Rightarrow> int \<Rightarrow> label" where
  "http_case_231 uri_relaxed c =
     (if c = 46 then St 232 else St 0)"

definition http_case_232 :: "bool \<Rightarrow> int \<Rightarrow> label" where
  "http_case_232 uri_relaxed c =
     (if c = 49 then St 242
      else if c = 50 then St 244 else if 48 \<le> c \<and> c \<le> 57 then St 233 else St 0)"

definition http_case_233 :: "bool \<Rightarrow> int \<Rightarrow> label" where
  "http_case_233 uri_relaxed c =
     (if c = 46 then St 234 else St 0)"

definition http_case_234 :: "bool \<Rightarrow> int \<Rightarrow> label" where
  "http_case_234 uri_relaxed c =
     (if c = 49 then St 237
      else if c = 50 then St 239 else if 48 \<le> c \<and> c \<le> 57 then St 235 else St 0)"

definition http_case_235 :: "bool \<Rightarrow> int \<Rightarrow> label" where
  "http_case_235 uri_relaxed c =
     (if c = 93 then St 236 else St 0)"

definition http_case_236 :: "bool \<Rightarrow> int \<Rightarrow> label" where
  "http_case_236 uri_relaxed c =
     (if c = 32 then Tr 228 else if c = 47 then St 205 else if c = 58 then St 221 else St 0)"

definition http_case_237 :: "bool \<Rightarrow> int \<Rightarrow> label" where
  "http_case_237 uri_relaxed c =
     (if c = 93 then St 236 else if 48 \<le> c \<and> c \<le> 57 then St 238 else St 0)"

definition http_case_238 :: "bool \<Rightarrow> int \<Rightarrow> label" where
  "http_case_238 uri_relaxed c =
     (if c = 93 then St 236 else if 48 \<le> c \<and> c \<le> 57 then St 235 else St 0)"

definition http_case_239 :: "bool \<Rightarrow> int \<Rightarrow> label" where
  "http_case_239 uri_relaxed c =
     (if c = 48 then St 240 else if c = 53 then St 241 else if c = 93 then St 236 else St 0)"

definition http_case_240 :: "bool \<Rightarrow> int \<Rightarrow> label" where
  "http_case_240 uri_relaxed c =
     (if 48 \<le> c \<and> c \<le> 57 then St 235 else St 0)"

definition http_case_241 :: "bool \<Rightarrow> int \<Rightarrow> label" where
  "http_case_241 uri_relaxed c =
     (if c = 48 then St 235 else St 0)"

definition http_case_242 :: "bool \<Rightarrow> int \<Rightarrow> label" where
  "http_case_242 uri_relaxed c =
     (if c = 46 then St 234 else if 48 \<le> c \<and> c \<le> 57 then St 243 else St 0)"

definition http_case_243 :: "bool \<Rightarrow> int \<Rightarrow> label" where
  "http_case_243 uri_relaxed c =
     (if c = 46 then St 234 else if 48 \<le> c \<and> c \<le> 57 then St 233 else St 0)"

definition http_case_244 :: "bool \<Rightarrow> int \<Rightarrow> label" where
  "http_case_244 uri_relaxed c =
     (if c = 46 then St 234 else if c = 48 then St 245 else if c = 53 then St 246 else St 0)"

definition http_case_245 :: "bool \<Rightarrow> int \<Rightarrow> label" where
  "http_case_245 uri_relaxed c =
     (if 48 \<le> c \<and> c \<le> 57 then St 233 else St 0)"

definition http_case_246 :: "bool \<Rightarrow> int \<Rightarrow> label" where
  "http_case_246 uri_relaxed c =
     (if c = 48 then St 233 else St 0)"

definition http_case_247 :: "bool \<Rightarrow> int \<Rightarrow> label" where
  "http_case_247 uri_relaxed c =
     (if c = 46 then St 232 else if 48 \<le> c \<and> c \<le> 57 then St 248 else St 0)"

definition http_case_248 :: "bool \<Rightarrow> int \<Rightarrow> label" where
  "http_case_248 uri_relaxed c =
     (if c = 46 then St 232 else if 48 \<le> c \<and> c \<le> 57 then St 231 else St 0)"

definition http_case_249 :: "bool \<Rightarrow> int \<Rightarrow> label" where
  "http_case_249 uri_relaxed c =
     (if c = 46 then St 232 else if c = 48 then St 250 else if c = 53 then St 251 else St 0)"

definition http_case_250 :: "bool \<Rightarrow> int \<Rightarrow> label" where
  "http_case_250 uri_relaxed c =
     (if 48 \<le> c \<and> c \<le> 57 then St 231 else St 0)"

definition http_case_251 :: "bool \<Rightarrow> int \<Rightarrow> label" where
  "http_case_251 uri_relaxed c =
     (if c = 48 then St 231 else St 0)"

definition http_case_252 :: "bool \<Rightarrow> int \<Rightarrow> label" where
  "http_case_252 uri_relaxed c =
     (if c = 58 then St 255
      else if c < 65 then (if 48 \<le> c \<and> c \<le> 57 then St 253 else St 0)
      else if c > 70 then (if 97 \<le> c \<and> c \<le> 102 then St 253 else St 0) else St 253)"

definition http_case_253 :: "bool \<Rightarrow> int \<Rightarrow> label" where
  "http_case_253 uri_relaxed c =
     (if c = 58 then St 255
      else if c < 65 then (if 48 \<le> c \<and> c \<le> 57 then St 254 else St 0)
      else if c > 70 then (if 97 \<le> c \<and> c \<le> 102 then St 254 else St 0) else St 254)"

definition http_case_254 :: "bool \<Rightarrow> int \<Rightarrow> label" where
  "http_case_254 uri_relaxed c =
     (if c = 58 then St 255 else St 0)"

definition http_case_255 :: "bool \<Rightarrow> int \<Rightarrow> label" where
  "http_case_255 uri_relaxed c =
     (if c < 65 then (if 48 \<le> c \<and> c \<le> 57 then St 256 else St 0)
      else if c > 70 then (if 97 \<le> c \<and> c \<le> 102 then St 256 else St 0) else St 256)"

definition http_case_256 :: "bool \<Rightarrow> int \<Rightarrow> label" where
  "http_case_256 uri_relaxed c =
     (if c = 93 then St 236
      else if c < 65 then (if 48 \<le> c \<and> c \<le> 57 then St 257 else St 0)
      else if c > 70 then (if 97 \<le> c \<and> c \<le> 102 then St 257 else St 0) else St 257)"

definition http_case_257 :: "bool \<Rightarrow> int \<Rightarrow> label" where
  "http_case_257 uri_relaxed c =
     (if c = 93 then St 236
      else if c < 65 then (if 48 \<le> c \<and> c \<le> 57 then St 258 else St 0)
      else if c > 70 then (if 97 \<le> c \<and> c \<le> 102 then St 258 else St 0) else St 258)"

definition http_case_258 :: "bool \<Rightarrow> int \<Rightarrow> label" where
  "http_case_258 uri_relaxed c =
     (if c = 93 then St 236
      else if c < 65 then (if 48 \<le> c \<and> c \<le> 57 then St 235 else St 0)
      else if c > 70 then (if 97 \<le> c \<and> c \<le> 102 then St 235 else St 0) else St 235)"

definition http_case_259 :: "bool \<Rightarrow> int \<Rightarrow> label" where
  "http_case_259 uri_relaxed c =
     (if c = 46 then St 230
      else if c = 58 then St 255
      else if c < 65 then (if 48 \<le> c \<and> c \<le> 57 then St 260 else St 0)
      else if c > 70 then (if 97 \<le> c \<and> c \<le> 102 then St 252 else St 0) else St 252)"

definition http_case_260 :: "bool \<Rightarrow> int \<Rightarrow> label" where
  "http_case_260 uri_relaxed c =
     (if c = 46 then St 230
      else if c = 58 then St 255
      else if c < 65 then (if 48 \<le> c \<and> c \<le> 57 then St 261 else St 0)
      else if c > 70 then (if 97 \<le> c \<and> c \<le> 102 then St 253 else St 0) else St 253)"

definition http_case_261 :: "bool \<Rightarrow> int \<Rightarrow> label" where
  "http_case_261 uri_relaxed c =
     (if c = 46 then St 230
      else if c = 58 then St 255
      else if c < 65 then (if 48 \<le> c \<and> c \<le> 57 then St 254 else St 0)
      else if c > 70 then (if 97 \<le> c \<and> c \<le> 102 then St 254 else St 0) else St 254)"

definition http_case_262 :: "bool \<Rightarrow> int \<Rightarrow> label" where
  "http_case_262 uri_relaxed c =
     (if c = 46 then St 230
      else if c = 48 then St 263
      else if c = 53 then St 264
      else if c = 58 then St 255
      else if c < 65 then (if 49 \<le> c \<and> c \<le> 57 then St 252 else St 0)
      else if c > 70 then (if 97 \<le> c \<and> c \<le> 102 then St 252 else St 0) else St 252)"

definition http_case_263 :: "bool \<Rightarrow> int \<Rightarrow> label" where
  "http_case_263 uri_relaxed c =
     (if c = 58 then St 255
      else if c < 65 then (if 48 \<le> c \<and> c \<le> 57 then St 261 else St 0)
      else if c > 70 then (if 97 \<le> c \<and> c \<le> 102 then St 253 else St 0) else St 253)"

definition http_case_264 :: "bool \<Rightarrow> int \<Rightarrow> label" where
  "http_case_264 uri_relaxed c =
     (if c = 48 then St 261
      else if c = 58 then St 255
      else if c < 65 then (if 49 \<le> c \<and> c \<le> 57 then St 253 else St 0)
      else if c > 70 then (if 97 \<le> c \<and> c \<le> 102 then St 253 else St 0) else St 253)"

definition http_case_265 :: "bool \<Rightarrow> int \<Rightarrow> label" where
  "http_case_265 uri_relaxed c =
     (if c = 58 then St 255
      else if c < 65 then (if 48 \<le> c \<and> c \<le> 57 then St 252 else St 0)
      else if c > 70 then (if 97 \<le> c \<and> c \<le> 102 then St 252 else St 0) else St 252)"

definition http_case_266 :: "bool \<Rightarrow> int \<Rightarrow> label" where
  "http_case_266 uri_relaxed c =
     (if c = 58 then St 270
      else if c < 65 then (if 48 \<le> c \<and> c \<le> 57 then St 267 else St 0)
      else if c > 70 then (if 97 \<le> c \<and> c \<le> 102 then St 267 else St 0) else St 267)"

definition http_case_267 :: "bool \<Rightarrow> int \<Rightarrow> label" where
  "http_case_267 uri_relaxed c =
     (if c = 58 then St 270
      else if c < 65 then (if 48 \<le> c \<and> c \<le> 57 then St 268 else St 0)
      else if c > 70 then (if 97 \<le> c \<and> c \<le> 102 then St 268 else St 0) else St 268)"

definition http_case_268 :: "bool \<Rightarrow> int \<Rightarrow> label" where
  "http_case_268 uri_relaxed c =
     (if c = 58 then St 270
      else if c < 65 then (if 48 \<le> c \<and> c \<le> 57 then St 269 else St 0)
      else if c > 70 then (if 97 \<le> c \<and> c \<le> 102 then St 269 else St 0) else St 269)"

definition http_case_269 :: "bool \<Rightarrow> int \<Rightarrow> label" where
  "http_case_269 uri_relaxed c =
     (if c = 58 then St 270 else St 0)"

definition http_case_270 :: "bool \<Rightarrow> int \<Rightarrow> label" where
  "http_case_270 uri_relaxed c =
     (if c = 58 then St 341
      else if c < 65 then (if 48 \<le> c \<and> c \<le> 57 then St 271 else St 0)
      else if c > 70 then (if 97 \<le> c \<and> c \<le> 102 then St 271 else St 0) else St 271)"

definition http_case_271 :: "bool \<Rightarrow> int \<Rightarrow> label" where
  "http_case_271 uri_relaxed c =
     (if c = 58 then St 275
      else if c < 65 then (if 48 \<le> c \<and> c \<le> 57 then St 272 else St 0)
      else if c > 70 then (if 97 \<le> c \<and> c \<le> 102 then St 272 else St 0) else St 272)"

definition http_case_272 :: "bool \<Rightarrow> int \<Rightarrow> label" where
  "http_case_272 uri_relaxed c =
     (if c = 58 then St 275
      else if c < 65 then (if 48 \<le> c \<and> c \<le> 57 then St 273 else St 0)
      else if c > 70 then (if 97 \<le> c \<and> c \<le> 102 then St 273 else St 0) else St 273)"

definition http_case_273 :: "bool \<Rightarrow> int \<Rightarrow> label" where
  "http_case_273 uri_relaxed c =
     (if c = 58 then St 275
      else if c < 65 then (if 48 \<le> c \<and> c \<le> 57 then St 274 else St 0)
      else if c > 70 then (if 97 \<le> c \<and> c \<le> 102 then St 274 else St 0) else St 274)"

definition http_case_274 :: "bool \<Rightarrow> int \<Rightarrow> label" where
  "http_case_274 uri_relaxed c =
     (if c = 58 then St 275 else St 0)"

definition http_case_275 :: "bool \<Rightarrow> int \<Rightarrow> label" where
  "http_case_275 uri_relaxed c =
     (if c = 58 then St 340
      else if c < 65 then (if 48 \<le> c \<and> c \<le> 57 then St 276 else St 0)
      else if c > 70 then (if 97 \<le> c \<and> c \<le> 102 then St 276 else St 0) else St 276)"

definition http_case_276 :: "bool \<Rightarrow> int \<Rightarrow> label" where
  "http_case_276 uri_relaxed c =
     (if c = 58 then St 280
      else if c < 65 then (if 48 \<le> c \<and> c \<le> 57 then St 277 else St 0)
      else if c > 70 then (if 97 \<le> c \<and> c \<le> 102 then St 277 else St 0) else St 277)"

definition http_case_277 :: "bool \<Rightarrow> int \<Rightarrow> label" where
  "http_case_277 uri_relaxed c =
     (if c = 58 then St 280
      else if c < 65 then (if 48 \<le> c \<and> c \<le> 57 then St 278 else St 0)
      else if c > 70 then (if 97 \<le> c \<and> c \<le> 102 then St 278 else St 0) else St 278)"

definition http_case_278 :: "bool \<Rightarrow> int \<Rightarrow> label" where
  "http_case_278 uri_relaxed c =
     (if c = 58 then St 280
      else if c < 65 then (if 48 \<le> c \<and> c \<le> 57 then St 279 else St 0)
      else if c > 70 then (if 97 \<le> c \<and> c \<le> 102 then St 279 else St 0) else St 279)"

definition http_case_279 :: "bool \<Rightarrow> int \<Rightarrow> label" where
  "http_case_279 uri_relaxed c =
     (if c = 58 then St 280 else St 0)"

definition http_case_280 :: "bool \<Rightarrow> int \<Rightarrow> label" where
  "http_case_280 uri_relaxed c =
     (if c = 58 then St 339
      else if c < 65 then (if 48 \<le> c \<and> c \<le> 57 then St 281 else St 0)
      else if c > 70 then (if 97 \<le> c \<and> c \<le> 102 then St 281 else St 0) else St 281)"

definition http_case_281 :: "bool \<Rightarrow> int \<Rightarrow> label" where
  "http_case_281 uri_relaxed c =
     (if c = 58 then St 285
      else if c < 65 then (if 48 \<le> c \<and> c \<le> 57 then St 282 else St 0)
      else if c > 70 then (if 97 \<le> c \<and> c \<le> 102 then St 282 else St 0) else St 282)"

definition http_case_282 :: "bool \<Rightarrow> int \<Rightarrow> label" where
  "http_case_282 uri_relaxed c =
     (if c = 58 then St 285
      else if c < 65 then (if 48 \<le> c \<and> c \<le> 57 then St 283 else St 0)
      else if c > 70 then (if 97 \<le> c \<and> c \<le> 102 then St 283 else St 0) else St 283)"

definition http_case_283 :: "bool \<Rightarrow> int \<Rightarrow> label" where
  "http_case_283 uri_relaxed c =
     (if c = 58 then St 285
      else if c < 65 then (if 48 \<le> c \<and> c \<le> 57 then St 284 else St 0)
      else if c > 70 then (if 97 \<le> c \<and> c \<le> 102 then St 284 else St 0) else St 284)"

definition http_case_284 :: "bool \<Rightarrow> int \<Rightarrow> label" where
  "http_case_284 uri_relaxed c =
     (if c = 58 then St 285 else St 0)"

definition http_case_285 :: "bool \<Rightarrow> int \<Rightarrow> label" where
  "http_case_285 uri_relaxed c =
     (if c = 58 then St 338
      else if c < 65 then (if 48 \<le> c \<and> c \<le> 57 then St 286 else St 0)
      else if c > 70 then (if 97 \<le> c \<and> c \<le> 102 then St 286 else St 0) else St 286)"

definition http_case_286 :: "bool \<Rightarrow> int \<Rightarrow> label" where
  "http_case_286 uri_relaxed c =
     (if c = 58 then St 290
      else if c < 65 then (if 48 \<le> c \<and> c \<le> 57 then St 287 else St 0)
      else if c > 70 then (if 97 \<le> c \<and> c \<le> 102 then St 287 else St 0) else St 287)"

definition http_case_287 :: "bool \<Rightarrow> int \<Rightarrow> label" where
  "http_case_287 uri_relaxed c =
     (if c = 58 then St 290
      else if c < 65 then (if 48 \<le> c \<and> c \<le> 57 then St 288 else St 0)
      else if c > 70 then (if 97 \<le> c \<and> c \<le> 102 then St 288 else St 0) else St 288)"

definition http_case_288 :: "bool \<Rightarrow> int \<Rightarrow> label" where
  "http_case_288 uri_relaxed c =
     (if c = 58 then St 290
      else if c < 65 then (if 48 \<le> c \<and> c \<le> 57 then St 289 else St 0)
      else if c > 70 then (if 97 \<le> c \<and> c \<le> 102 then St 289 else St 0) else St 289)"

definition http_case_289 :: "bool \<Rightarrow> int \<Rightarrow> label" where
  "http_case_289 uri_relaxed c =
     (if c = 58 then St 290 else St 0)"

definition http_case_290 :: "bool \<Rightarrow> int \<Rightarrow> label" where
  "http_case_290 uri_relaxed c =
     (if c = 58 then St 326
      else if c < 65 then (if 48 \<le> c \<and> c \<le> 57 then St 291 else St 0)
      else if c > 70 then (if 97 \<le> c \<and> c \<le> 102 then St 291 else St 0) else St 291)"

definition http_case_291 :: "bool \<Rightarrow> int \<Rightarrow> label" where
  "http_case_291 uri_relaxed c =
     (if c = 58 then St 295
      else if c < 65 then (if 48 \<le> c \<and> c \<le> 57 then St 292 else St 0)
      else if c > 70 then (if 97 \<le> c \<and> c \<le> 102 then St 292 else St 0) else St 292)"

definition http_case_292 :: "bool \<Rightarrow> int \<Rightarrow> label" where
  "http_case_292 uri_relaxed c =
     (if c = 58 then St 295
      else if c < 65 then (if 48 \<le> c \<and> c \<le> 57 then St 293 else St 0)
      else if c > 70 then (if 97 \<le> c \<and> c \<le> 102 then St 293 else St 0) else St 293)"

definition http_case_293 :: "bool \<Rightarrow> int \<Rightarrow> label" where
  "http_case_293 uri_relaxed c =
     (if c = 58 then St 295
      else if c < 65 then (if 48 \<le> c \<and> c \<le> 57 then St 294 else St 0)
      else if c > 70 then (if 97 \<le> c \<and> c \<le> 102 then St 294 else St 0) else St 294)"

definition http_case_294 :: "bool \<Rightarrow> int \<Rightarrow> label" where
  "http_case_294 uri_relaxed c =
     (if c = 58 then St 295 else St 0)"

definition http_case_295 :: "bool \<Rightarrow> int \<Rightarrow> label" where
  "http_case_295 uri_relaxed c =
     (if c = 58 then St 325
      else if c < 65 then (if 48 \<le> c \<and> c \<le> 57 then St 296 else St 0)
      else if c > 70 then (if 97 \<le> c \<and> c \<le> 102 then St 296 else St 0) else St 296)"

definition http_case_296 :: "bool \<Rightarrow> int \<Rightarrow> label" where
  "http_case_296 uri_relaxed c =
     (if c = 58 then St 300
      else if c < 65 then (if 48 \<le> c \<and> c \<le> 57 then St 297 else St 0)
      else if c > 70 then (if 97 \<le> c \<and> c \<le> 102 then St 297 else St 0) else St 297)"

definition http_case_297 :: "bool \<Rightarrow> int \<Rightarrow> label" where
  "http_case_297 uri_relaxed c =
     (if c = 58 then St 300
      else if c < 65 then (if 48 \<le> c \<and> c \<le> 57 then St 298 else St 0)
      else if c > 70 then (if 97 \<le> c \<and> c \<le> 102 then St 298 else St 0) else St 298)"

definition http_case_298 :: "bool \<Rightarrow> int \<Rightarrow> label" where
  "http_case_298 uri_relaxed c =
     (if c = 58 then St 300
      else if c < 65 then (if 48 \<le> c \<and> c \<le> 57 then St 299 else St 0)
      else if c > 70 then (if 97 \<le> c \<and> c \<le> 102 then St 299 else St 0) else St 299)"

definition http_case_299 :: "bool \<Rightarrow> int \<Rightarrow> label" where
  "http_case_299 uri_relaxed c =
     (if c = 58 then St 300 else St 0)"

definition http_case_300 :: "bool \<Rightarrow> int \<Rightarrow> label" where
  "http_case_300 uri_relaxed c =
     (if c = 58 then St 301
      else if c < 65 then (if 48 \<le> c \<and> c \<le> 57 then St 296 else St 0)
      else if c > 70 then (if 97 \<le> c \<and> c \<le> 102 then St 296 else St 0) else St 296)"

definition http_case_301 :: "bool \<Rightarrow> int \<Rightarrow> label" where
  "http_case_301 uri_relaxed c =
     (if c = 49 then St 318
      else if c = 50 then St 321
      else if c = 93 then St 236
      else if c < 48 then (if 2 \<le> c \<and> c \<le> 3 then St 223 else St 0)
      else if c > 57 then
         (if c > 70 then (if 97 \<le> c \<and> c \<le> 102 then St 324 else St 0)
          else if c \<ge> 65 then St 324 else St 0)
      else St 302)"

definition http_case_302 :: "bool \<Rightarrow> int \<Rightarrow> label" where
  "http_case_302 uri_relaxed c =
     (if c = 46 then St 230
      else if c = 58 then St 306
      else if c = 93 then St 236
      else if c < 65 then (if 48 \<le> c \<and> c \<le> 57 then St 303 else St 0)
      else if c > 70 then (if 97 \<le> c \<and> c \<le> 102 then St 303 else St 0) else St 303)"

definition http_case_303 :: "bool \<Rightarrow> int \<Rightarrow> label" where
  "http_case_303 uri_relaxed c =
     (if c = 58 then St 306
      else if c = 93 then St 236
      else if c < 65 then (if 48 \<le> c \<and> c \<le> 57 then St 304 else St 0)
      else if c > 70 then (if 97 \<le> c \<and> c \<le> 102 then St 304 else St 0) else St 304)"

definition http_case_304 :: "bool \<Rightarrow> int \<Rightarrow> label" where
  "http_case_304 uri_relaxed c =
     (if c = 58 then St 306
      else if c = 93 then St 236
      else if c < 65 then (if 48 \<le> c \<and> c \<le> 57 then St 305 else St 0)
      else if c > 70 then (if 97 \<le> c \<and> c \<le> 102 then St 305 else St 0) else St 305)"

definition http_case_305 :: "bool \<Rightarrow> int \<Rightarrow> label" where
  "http_case_305 uri_relaxed c =
     (if c = 58 then St 306 else if c = 93 then St 236 else St 0)"

definition http_case_306 :: "bool \<Rightarrow> int \<Rightarrow> label" where
  "http_case_306 uri_relaxed c =
     (if c = 49 then St 311
      else if c = 50 then St 314
      else if c < 65 then (if 48 \<le> c \<and> c \<le> 57 then St 307 else St 0)
      else if c > 70 then (if 97 \<le> c \<and> c \<le> 102 then St 317 else St 0) else St 317)"

definition http_case_307 :: "bool \<Rightarrow> int \<Rightarrow> label" where
  "http_case_307 uri_relaxed c =
     (if c = 46 then St 230
      else if c = 58 then St 255
      else if c = 93 then St 236
      else if c < 65 then (if 48 \<le> c \<and> c \<le> 57 then St 308 else St 0)
      else if c > 70 then (if 97 \<le> c \<and> c \<le> 102 then St 308 else St 0) else St 308)"

definition http_case_308 :: "bool \<Rightarrow> int \<Rightarrow> label" where
  "http_case_308 uri_relaxed c =
     (if c = 58 then St 255
      else if c = 93 then St 236
      else if c < 65 then (if 48 \<le> c \<and> c \<le> 57 then St 309 else St 0)
      else if c > 70 then (if 97 \<le> c \<and> c \<le> 102 then St 309 else St 0) else St 309)"

definition http_case_309 :: "bool \<Rightarrow> int \<Rightarrow> label" where
  "http_case_309 uri_relaxed c =
     (if c = 58 then St 255
      else if c = 93 then St 236
      else if c < 65 then (if 48 \<le> c \<and> c \<le> 57 then St 310 else St 0)
      else if c > 70 then (if 97 \<le> c \<and> c \<le> 102 then St 310 else St 0) else St 310)"

definition http_case_310 :: "bool \<Rightarrow> int \<Rightarrow> label" where
  "http_case_310 uri_relaxed c =
     (if c = 58 then St 255 else if c = 93 then St 236 else St 0)"

definition http_case_311 :: "bool \<Rightarrow> int \<Rightarrow> label" where
  "http_case_311 uri_relaxed c =
     (if c = 46 then St 230
      else if c = 58 then St 255
      else if c = 93 then St 236
      else if c < 65 then (if 48 \<le> c \<and> c \<le> 57 then St 312 else St 0)
      else if c > 70 then (if 97 \<le> c \<and> c \<le> 102 then St 308 else St 0) else St 308)"

definition http_case_312 :: "bool \<Rightarrow> int \<Rightarrow> label" where
  "http_case_312 uri_relaxed c =
     (if c = 46 then St 230
      else if c = 58 then St 255
      else if c = 93 then St 236
      else if c < 65 then (if 48 \<le> c \<and> c \<le> 57 then St 313 else St 0)
      else if c > 70 then (if 97 \<le> c \<and> c \<le> 102 then St 309 else St 0) else St 309)"

definition http_case_313 :: "bool \<Rightarrow> int \<Rightarrow> label" where
  "http_case_313 uri_relaxed c =
     (if c = 46 then St 230
      else if c = 58 then St 255
      else if c = 93 then St 236
      else if c < 65 then (if 48 \<le> c \<and> c \<le> 57 then St 310 else St 0)
      else if c > 70 then (if 97 \<le> c \<and> c \<le> 102 then St 310 else St 0) else St 310)"

definition http_case_314 :: "bool \<Rightarrow> int \<Rightarrow> label" where
  "http_case_314 uri_relaxed c =
     (if c = 46 then St 230
      else if c = 48 then St 315
      else if c = 53 then St 316
      else if c = 58 then St 255
      else if c = 93 then St 236
      else if c < 65 then (if 49 \<le> c \<and> c \<le> 57 then St 308 else St 0)
      else if c > 70 then (if 97 \<le> c \<and> c \<le> 102 then St 308 else St 0) else St 308)"

definition http_case_315 :: "bool \<Rightarrow> int \<Rightarrow> label" where
  "http_case_315 uri_relaxed c =
     (if c = 58 then St 255
      else if c = 93 then St 236
      else if c < 65 then (if 48 \<le> c \<and> c \<le> 57 then St 313 else St 0)
      else if c > 70 then (if 97 \<le> c \<and> c \<le> 102 then St 309 else St 0) else St 309)"

definition http_case_316 :: "bool \<Rightarrow> int \<Rightarrow> label" where
  "http_case_316 uri_relaxed c =
     (if c = 48 then St 313
      else if c = 58 then St 255
      else if c = 93 then St 236
      else if c < 65 then (if 49 \<le> c \<and> c \<le> 57 then St 309 else St 0)
      else if c > 70 then (if 97 \<le> c \<and> c \<le> 102 then St 309 else St 0) else St 309)"

definition http_case_317 :: "bool \<Rightarrow> int \<Rightarrow> label" where
  "http_case_317 uri_relaxed c =
     (if c = 58 then St 255
      else if c = 93 then St 236
      else if c < 65 then (if 48 \<le> c \<and> c \<le> 57 then St 308 else St 0)
      else if c > 70 then (if 97 \<le> c \<and> c \<le> 102 then St 308 else St 0) else St 308)"

definition http_case_318 :: "bool \<Rightarrow> int \<Rightarrow> label" where
  "http_case_318 uri_relaxed c =
     (if c = 46 then St 230
      else if c = 58 then St 306
      else if c = 93 then St 236
      else if c < 65 then (if 48 \<le> c \<and> c \<le> 57 then St 319 else St 0)
      else if c > 70 then (if 97 \<le> c \<and> c \<le> 102 then St 303 else St 0) else St 303)"

definition http_case_319 :: "bool \<Rightarrow> int \<Rightarrow> label" where
  "http_case_319 uri_relaxed c =
     (if c = 46 then St 230
      else if c = 58 then St 306
      else if c = 93 then St 236
      else if c < 65 then (if 48 \<le> c \<and> c \<le> 57 then St 320 else St 0)
      else if c > 70 then (if 97 \<le> c \<and> c \<le> 102 then St 304 else St 0) else St 304)"

definition http_case_320 :: "bool \<Rightarrow> int \<Rightarrow> label" where
  "http_case_320 uri_relaxed c =
     (if c = 46 then St 230
      else if c = 58 then St 306
      else if c = 93 then St 236
      else if c < 65 then (if 48 \<le> c \<and> c \<le> 57 then St 305 else St 0)
      else if c > 70 then (if 97 \<le> c \<and> c \<le> 102 then St 305 else St 0) else St 305)"

definition http_case_321 :: "bool \<Rightarrow> int \<Rightarrow> label" where
  "http_case_321 uri_relaxed c =
     (if c = 46 then St 230
      else if c = 48 then St 322
      else if c = 53 then St 323
      else if c = 58 then St 306
      else if c = 93 then St 236
      else if c < 65 then (if 49 \<le> c \<and> c \<le> 57 then St 303 else St 0)
      else if c > 70 then (if 97 \<le> c \<and> c \<le> 102 then St 303 else St 0) else St 303)"

definition http_case_322 :: "bool \<Rightarrow> int \<Rightarrow> label" where
  "http_case_322 uri_relaxed c =
     (if c = 58 then St 306
      else if c = 93 then St 236
      else if c < 65 then (if 48 \<le> c \<and> c \<le> 57 then St 320 else St 0)
      else if c > 70 then (if 97 \<le> c \<and> c \<le> 102 then St 304 else St 0) else St 304)"

definition http_case_323 :: "bool \<Rightarrow> int \<Rightarrow> label" where
  "http_case_323 uri_relaxed c =
     (if c = 48 then St 320
      else if c = 58 then St 306
      else if c = 93 then St 236
      else if c < 65 then (if 49 \<le> c \<and> c \<le> 57 then St 304 else St 0)
      else if c > 70 then (if 97 \<le> c \<and> c \<le> 102 then St 304 else St 0) else St 304)"

definition http_case_324 :: "bool \<Rightarrow> int \<Rightarrow> label" where
  "http_case_324 uri_relaxed c =
     (if c = 58 then St 306
      else if c = 93 then St 236
      else if c < 65 then (if 48 \<le> c \<and> c \<le> 57 then St 303 else St 0)
      else if c > 70 then (if 97 \<le> c \<and> c \<le> 102 then St 303 else St 0) else St 303)"

definition http_case_325 :: "bool \<Rightarrow> int \<Rightarrow> label" where
  "http_case_325 uri_relaxed c =
     (if c = 49 then St 318
      else if c = 50 then St 321
      else if c < 48 then (if 2 \<le> c \<and> c \<le> 3 then St 223 else St 0)
      else if c > 57 then
         (if c > 70 then (if 97 \<le> c \<and> c \<le> 102 then St 324 else St 0)
          else if c \<ge> 65 then St 324 else St 0)
      else St 302)"

definition http_case_326 :: "bool \<Rightarrow> int \<Rightarrow> label" where
  "http_case_326 uri_relaxed c =
     (if c = 49 then St 331
      else if c = 50 then St 334
      else if c < 48 then (if 2 \<le> c \<and> c \<le> 3 then St 223 else St 0)
      else if c > 57 then
         (if c > 70 then (if 97 \<le> c \<and> c \<le> 102 then St 337 else St 0)
          else if c \<ge> 65 then St 337 else St 0)
      else St 327)"

definition http_case_327 :: "bool \<Rightarrow> int \<Rightarrow> label" where
  "http_case_327 uri_relaxed c =
     (if c = 46 then St 230
      else if c = 58 then St 306
      else if c < 65 then (if 48 \<le> c \<and> c \<le> 57 then St 328 else St 0)
      else if c > 70 then (if 97 \<le> c \<and> c \<le> 102 then St 328 else St 0) else St 328)"

definition http_case_328 :: "bool \<Rightarrow> int \<Rightarrow> label" where
  "http_case_328 uri_relaxed c =
     (if c = 58 then St 306
      else if c < 65 then (if 48 \<le> c \<and> c \<le> 57 then St 329 else St 0)
      else if c > 70 then (if 97 \<le> c \<and> c \<le> 102 then St 329 else St 0) else St 329)"

definition http_case_329 :: "bool \<Rightarrow> int \<Rightarrow> label" where
  "http_case_329 uri_relaxed c =
     (if c = 58 then St 306
      else if c < 65 then (if 48 \<le> c \<and> c \<le> 57 then St 330 else St 0)
      else if c > 70 then (if 97 \<le> c \<and> c \<le> 102 then St 330 else St 0) else St 330)"

definition http_case_330 :: "bool \<Rightarrow> int \<Rightarrow> label" where
  "http_case_330 uri_relaxed c =
     (if c = 58 then St 306 else St 0)"

definition http_case_331 :: "bool \<Rightarrow> int \<Rightarrow> label" where
  "http_case_331 uri_relaxed c =
     (if c = 46 then St 230
      else if c = 58 then St 306
      else if c < 65 then (if 48 \<le> c \<and> c \<le> 57 then St 332 else St 0)
      else if c > 70 then (if 97 \<le> c \<and> c \<le> 102 then St 328 else St 0) else St 328)"

definition http_case_332 :: "bool \<Rightarrow> int \<Rightarrow> label" where
  "http_case_332 uri_relaxed c =
     (if c = 46 then St 230
      else if c = 58 then St 306
      else if c < 65 then (if 48 \<le> c \<and> c \<le> 57 then St 333 else St 0)
      else if c > 70 then (if 97 \<le> c \<and> c \<le> 102 then St 329 else St 0) else St 329)"

definition http_case_333 :: "bool \<Rightarrow> int \<Rightarrow> label" where
  "http_case_333 uri_relaxed c =
     (if c = 46 then St 230
      else if c = 58 then St 306
      else if c < 65 then (if 48 \<le> c \<and> c \<le> 57 then St 330 else St 0)
      else if c > 70 then (if 97 \<le> c \<and> c \<le> 102 then St 330 else St 0) else St 330)"

definition http_case_334 :: "bool \<Rightarrow> int \<Rightarrow> label" where
  "http_case_334 uri_relaxed c =
     (if c = 46 then St 230
      else if c = 48 then St 335
      else if c = 53 then St 336
      else if c = 58 then St 306
      else if c < 65 then (if 49 \<le> c \<and> c \<le> 57 then St 328 else St 0)
      else if c > 70 then (if 97 \<le> c \<and> c \<le> 102 then St 328 else St 0) else St 328)"

definition http_case_335 :: "bool \<Rightarrow> int \<Rightarrow> label" where
  "http_case_335 uri_relaxed c =
     (if c = 58 then St 306
      else if c < 65 then (if 48 \<le> c \<and> c \<le> 57 then St 333 else St 0)
      else if c > 70 then (if 97 \<le> c \<and> c \<le> 102 then St 329 else St 0) else St 329)"

definition http_case_336 :: "bool \<Rightarrow> int \<Rightarrow> label" where
  "http_case_336 uri_relaxed c =
     (if c = 48 then St 333
      else if c = 58 then St 306
      else if c < 65 then (if 49 \<le> c \<and> c \<le> 57 then St 329 else St 0)
      else if c > 70 then (if 97 \<le> c \<and> c \<le> 102 then St 329 else St 0) else St 329)"

definition http_case_337 :: "bool \<Rightarrow> int \<Rightarrow> label" where
  "http_case_337 uri_relaxed c =
     (if c = 58 then St 306
      else if c < 65 then (if 48 \<le> c \<and> c \<le> 57 then St 328 else St 0)
      else if c > 70 then (if 97 \<le> c \<and> c \<le> 102 then St 328 else St 0) else St 328)"

definition http_case_338 :: "bool \<Rightarrow> int \<Rightarrow> label" where
  "http_case_338 uri_relaxed c =
     (if c < 48 then (if 2 \<le> c \<and> c \<le> 3 then St 223 else St 0)
      else if c > 57 then
         (if c > 70 then (if 97 \<le> c \<and> c \<le> 102 then St 224 else St 0)
          else if c \<ge> 65 then St 224 else St 0)
      else St 224)"

definition http_case_339 :: "bool \<Rightarrow> int \<Rightarrow> label" where
  "http_case_339 uri_relaxed c =
     (if 2 \<le> c \<and> c \<le> 3 then St 223 else St 0)"

definition http_case_340 :: "bool \<Rightarrow> int \<Rightarrow> label" where
  "http_case_340 uri_relaxed c =
     (if c = 3 then St 223 else St 0)"

definition http_case_341 :: "bool \<Rightarrow> int \<Rightarrow> label" where
  "http_case_341 uri_relaxed c =
     (if c = 4 then St 223 else St 0)"

definition http_case_342 :: "bool \<Rightarrow> int \<Rightarrow> label" where
  "http_case_342 uri_relaxed c =
     (if c = 58 then St 343 else St 0)"

definition http_case_343 :: "bool \<Rightarrow> int \<Rightarrow> label" where
  "http_case_343 uri_relaxed c =
     (if c = 49 then St 318
      else if c = 50 then St 321
      else if c = 93 then St 236
      else if c < 48 then (if 2 \<le> c \<and> c \<le> 5 then St 223 else St 0)
      else if c > 57 then
         (if c > 70 then (if 97 \<le> c \<and> c \<le> 102 then St 324 else St 0)
          else if c \<ge> 65 then St 324 else St 0)
      else St 302)"

definition http_case_344 :: "bool \<Rightarrow> int \<Rightarrow> label" where
  "http_case_344 uri_relaxed c =
     (if c < 65 then (if 48 \<le> c \<and> c \<le> 57 then St 345 else St 0)
      else if c > 70 then (if 97 \<le> c \<and> c \<le> 102 then St 345 else St 0) else St 345)"

definition http_case_345 :: "bool \<Rightarrow> int \<Rightarrow> label" where
  "http_case_345 uri_relaxed c =
     (if c = 46 then St 346
      else if c < 65 then (if 48 \<le> c \<and> c \<le> 57 then St 345 else St 0)
      else if c > 70 then (if 97 \<le> c \<and> c \<le> 102 then St 345 else St 0) else St 345)"

definition http_case_346 :: "bool \<Rightarrow> int \<Rightarrow> label" where
  "http_case_346 uri_relaxed c =
     (let w = widec uri_relaxed c in
      if w = 33 then St 347
      else if w = 36 then St 347
      else if w = 61 then St 347
      else if w = 95 then St 347
      else if w = 126 then St 347
      else if w = 606 then St 347
      else if w = 635 then St 347
      else if w = 637 then St 347
      else if w < 48 then (if 38 \<le> w \<and> w \<le> 46 then St 347 else St 0)
      else if w > 59 then
         (if w > 90 then (if 97 \<le> w \<and> w \<le> 122 then St 347 else St 0)
          else if w \<ge> 65 then St 347 else St 0)
      else St 347)"

definition http_case_347 :: "bool \<Rightarrow> int \<Rightarrow> label" where
  "http_case_347 uri_relaxed c =
     (let w = widec uri_relaxed c in
      if w = 33 then St 347
      else if w = 36 then St 347
      else if w = 61 then St 347
      else if w = 93 then St 236
      else if w = 95 then St 347
      else if w = 126 then St 347
      else if w = 606 then St 347
      else if w = 635 then St 347
      else if w = 637 then St 347
      else if w < 48 then (if 38 \<le> w \<and> w \<le> 46 then St 347 else St 0)
      else if w > 59 then
         (if w > 90 then (if 97 \<le> w \<and> w \<le> 122 then St 347 else St 0)
          else if w \<ge> 65 then St 347 else St 0)
      else St 347)"

definition http_case_348 :: "bool \<Rightarrow> int \<Rightarrow> label" where
  "http_case_348 uri_relaxed c =
     (if c = 33 then St 14
      else if c = 58 then Tr 27
      else if c = 124 then St 14
      else if c = 126 then St 14
      else if c < 42 then
         (if c < 10 then (if 1 \<le> c \<and> c \<le> 8 then St 14 else St 0)
          else if c > 31 then (if 35 \<le> c \<and> c \<le> 39 then St 14 else St 0) else St 14)
      else if c > 43 then
         (if c < 48 then (if 45 \<le> c \<and> c \<le> 46 then St 14 else St 0)
          else if c > 57 then
             (if c > 90 then (if 94 \<le> c \<and> c \<le> 122 then St 14 else St 0)
              else if c \<ge> 65 then St 14 else St 0)
          else St 14)
      else St 14)"

definition http_case_349 :: "bool \<Rightarrow> int \<Rightarrow> label" where
  "http_case_349 uri_relaxed c = St 0"

end
