(* ===== verification/HttpMachine.thy ===== *)
theory HttpMachine
  imports HttpStates2 HttpStates3
begin

text \<open>
  The request machine of \<^verbatim>\<open>server/http/http11_parser.rl.cc\<close> over its states: the actions of the
  transitions, the loop over the characters, \<^verbatim>\<open>http_parser_init\<close>, \<^verbatim>\<open>http_parser_execute\<close> and
  \<^verbatim>\<open>http_parser_finish\<close>. The callbacks do not touch the parser, so a run returns the calls it makes,
  in their order; an argument \<^verbatim>\<open>at\<close> is the offset in the buffer. A \<^verbatim>\<open>size_t\<close> is a natural number
  and the subtraction of \<^verbatim>\<open>LEN\<close> wraps.
\<close>

section \<open>The parser\<close>

text \<open>The members that are callbacks: which of them are set.\<close>

datatype element = Request_method | Request_uri | Fragment | Request_path | Query_string
  | Http_version | Header_done

record http_parser =
  hp_cs :: nat
  hp_body_start :: nat
  hp_content_len :: int
  hp_nread :: nat
  hp_mark :: nat
  hp_field_start :: nat
  hp_field_len :: nat
  hp_query_start :: nat
  hp_xml_sent :: bool
  hp_json_sent :: bool
  hp_uri_relaxed :: bool
  hp_set :: "element \<Rightarrow> bool"
  hp_http_field_set :: bool

text \<open>A call of a callback: \<open>Element e at length\<close>, or \<open>Field at flen at vlen\<close> for \<^verbatim>\<open>http_field\<close>.\<close>

datatype event = Element element nat nat | Field nat nat nat nat

definition http_parser_init :: "http_parser \<Rightarrow> http_parser" where
  "http_parser_init s = s\<lparr>hp_cs := 1, hp_body_start := 0, hp_content_len := 0, hp_mark := 0, hp_nread := 0,
     hp_field_len := 0, hp_field_start := 0, hp_xml_sent := False, hp_json_sent := False\<rparr>"

section \<open>Actions\<close>

text \<open>An action at the position \<open>p\<close> of a buffer that ends at \<open>pe\<close>.\<close>

type_synonym http_action = "nat \<Rightarrow> nat \<Rightarrow> http_parser \<Rightarrow> http_parser \<times> event list"

definition call_element :: "element \<Rightarrow> nat \<Rightarrow> nat \<Rightarrow> http_parser \<Rightarrow> event list" where
  "call_element e at len s = (if hp_set s e then [Element e at len] else [])"

definition do_mark :: http_action where
  "do_mark p pe s = (s\<lparr>hp_mark := p\<rparr>, [])"

definition do_start_field :: http_action where
  "do_start_field p pe s = (s\<lparr>hp_field_start := p\<rparr>, [])"

definition do_write_field :: http_action where
  "do_write_field p pe s = (s\<lparr>hp_field_len := sub64 p (hp_field_start s)\<rparr>, [])"

definition do_start_value :: http_action where
  "do_start_value p pe s = (s\<lparr>hp_mark := p\<rparr>, [])"

definition do_write_value :: http_action where
  "do_write_value p pe s =
     (s, if hp_http_field_set s
         then [Field (hp_field_start s) (hp_field_len s) (hp_mark s) (sub64 p (hp_mark s))] else [])"

definition do_request_method :: http_action where
  "do_request_method p pe s = (s, call_element Request_method (hp_mark s) (sub64 p (hp_mark s)) s)"

definition do_request_uri :: http_action where
  "do_request_uri p pe s = (s, call_element Request_uri (hp_mark s) (sub64 p (hp_mark s)) s)"

definition do_fragment :: http_action where
  "do_fragment p pe s = (s, call_element Fragment (hp_mark s) (sub64 p (hp_mark s)) s)"

definition do_start_query :: http_action where
  "do_start_query p pe s = (s\<lparr>hp_query_start := p\<rparr>, [])"

definition do_query_string :: http_action where
  "do_query_string p pe s = (s, call_element Query_string (hp_query_start s) (sub64 p (hp_query_start s)) s)"

definition do_http_version :: http_action where
  "do_http_version p pe s = (s, call_element Http_version (hp_mark s) (sub64 p (hp_mark s)) s)"

definition do_request_path :: http_action where
  "do_request_path p pe s = (s, call_element Request_path (hp_mark s) (sub64 p (hp_mark s)) s)"

definition do_done :: http_action where
  "do_done p pe s =
     (if hp_xml_sent s \<or> hp_json_sent s then
        (let s1 = s\<lparr>hp_body_start := hp_mark s\<rparr>
         in (s1\<lparr>hp_content_len := int32 (int (sub64 p (hp_body_start s1)) + 1)\<rparr>, []))
      else (s\<lparr>hp_body_start := p + 1\<rparr>, call_element Header_done (p + 1) (pe - p - 1) s))"

definition do_xml :: http_action where
  "do_xml p pe s = (s\<lparr>hp_xml_sent := True\<rparr>, [])"

definition do_json :: http_action where
  "do_json p pe s = (s\<lparr>hp_json_sent := True\<rparr>, [])"

fun do_all :: "http_action list \<Rightarrow> http_action" where
  "do_all [] p pe s = (s, [])"
| "do_all (a # as) p pe s =
     (case a p pe s of (s1, evs) \<Rightarrow> case do_all as p pe s1 of (s2, evs') \<Rightarrow> (s2, evs @ evs'))"

section \<open>Transitions\<close>

text \<open>
  \<open>Go n\<close> goes on at \<^verbatim>\<open>stn\<close>; \<open>Stop n\<close> is the end of the action \<^verbatim>\<open>done\<close>: \<^verbatim>\<open>p++; cs = n; goto _out\<close>.
\<close>

datatype successor = Go nat | Stop nat

type_synonym http_transition = "http_action list \<times> successor"

definition http_tr_0 :: http_transition where
  "http_tr_0 = ([do_mark], Go 2)"

definition http_tr_2 :: http_transition where
  "http_tr_2 = ([do_mark], Go 194)"

definition http_tr_3 :: http_transition where
  "http_tr_3 = ([do_mark], Go 198)"

definition http_tr_4 :: http_transition where
  "http_tr_4 = ([do_request_method], Go 3)"

definition http_tr_6 :: http_transition where
  "http_tr_6 = ([do_mark, do_request_path, do_request_uri], Go 4)"

definition http_tr_7 :: http_transition where
  "http_tr_7 = ([do_mark], Go 19)"

definition http_tr_8 :: http_transition where
  "http_tr_8 = ([do_mark, do_request_path, do_request_uri], Go 20)"

definition http_tr_9 :: http_transition where
  "http_tr_9 = ([do_mark], Go 24)"

definition http_tr_10 :: http_transition where
  "http_tr_10 = ([do_mark], Go 33)"

definition http_tr_11 :: http_transition where
  "http_tr_11 = ([do_mark, do_request_path], Go 29)"

definition http_tr_12 :: http_transition where
  "http_tr_12 = ([do_mark], Go 173)"

definition http_tr_13 :: http_transition where
  "http_tr_13 = ([do_mark], Go 5)"

definition http_tr_21 :: http_transition where
  "http_tr_21 = ([do_http_version], Go 13)"

definition http_tr_22 :: http_transition where
  "http_tr_22 = ([do_http_version], Go 17)"

definition http_tr_23 :: http_transition where
  "http_tr_23 = ([do_start_field], Go 14)"

definition http_tr_24 :: http_transition where
  "http_tr_24 = ([do_start_field, do_done], Stop 348)"

definition http_tr_25 :: http_transition where
  "http_tr_25 = ([do_start_field], Go 18)"

definition http_tr_27 :: http_transition where
  "http_tr_27 = ([do_write_field], Go 15)"

definition http_tr_28 :: http_transition where
  "http_tr_28 = ([do_start_value], Go 16)"

definition http_tr_29 :: http_transition where
  "http_tr_29 = ([do_start_value], Go 15)"

definition http_tr_30 :: http_transition where
  "http_tr_30 = ([do_start_value, do_write_value], Go 13)"

definition http_tr_31 :: http_transition where
  "http_tr_31 = ([do_start_value, do_write_value], Go 17)"

definition http_tr_33 :: http_transition where
  "http_tr_33 = ([do_write_value], Go 13)"

definition http_tr_34 :: http_transition where
  "http_tr_34 = ([do_write_value], Go 17)"

definition http_tr_36 :: http_transition where
  "http_tr_36 = ([do_done], Stop 348)"

definition http_tr_37 :: http_transition where
  "http_tr_37 = ([do_request_path, do_request_uri], Go 4)"

definition http_tr_39 :: http_transition where
  "http_tr_39 = ([do_request_path, do_request_uri], Go 20)"

definition http_tr_42 :: http_transition where
  "http_tr_42 = ([do_request_path], Go 29)"

definition http_tr_43 :: http_transition where
  "http_tr_43 = ([do_mark], Go 21)"

definition http_tr_44 :: http_transition where
  "http_tr_44 = ([do_mark, do_fragment], Go 4)"

definition http_tr_45 :: http_transition where
  "http_tr_45 = ([do_mark], Go 22)"

definition http_tr_47 :: http_transition where
  "http_tr_47 = ([do_fragment], Go 4)"

definition http_tr_53 :: http_transition where
  "http_tr_53 = ([do_start_query], Go 30)"

definition http_tr_54 :: http_transition where
  "http_tr_54 = ([do_start_query, do_query_string, do_request_uri], Go 4)"

definition http_tr_55 :: http_transition where
  "http_tr_55 = ([do_start_query, do_query_string, do_request_uri], Go 20)"

definition http_tr_56 :: http_transition where
  "http_tr_56 = ([do_start_query], Go 31)"

definition http_tr_58 :: http_transition where
  "http_tr_58 = ([do_query_string, do_request_uri], Go 4)"

definition http_tr_59 :: http_transition where
  "http_tr_59 = ([do_query_string, do_request_uri], Go 20)"

definition http_tr_203 :: http_transition where
  "http_tr_203 = ([do_mark], Go 26)"

definition http_tr_204 :: http_transition where
  "http_tr_204 = ([do_mark], Go 27)"

definition http_tr_224 :: http_transition where
  "http_tr_224 = ([do_request_path], Go 196)"

definition http_tr_227 :: http_transition where
  "http_tr_227 = ([do_xml, do_done], Stop 349)"

definition http_tr_228 :: http_transition where
  "http_tr_228 = ([do_request_path], Go 199)"

definition http_tr_232 :: http_transition where
  "http_tr_232 = ([do_mark], Go 200)"

definition http_tr_235 :: http_transition where
  "http_tr_235 = ([do_json, do_done], Stop 349)"

text \<open>The transitions by their numbers, and the states by theirs.\<close>

definition http_transition :: "nat \<Rightarrow> http_transition" where
  "http_transition k =
    (if k < 33 then
        (if k < 13 then
            (if k < 7 then
                (if k < 3 then (if k < 2 then http_tr_0 else http_tr_2)
                 else if k < 4 then http_tr_3 else if k < 6 then http_tr_4 else http_tr_6)
             else if k < 10 then (if k < 8 then http_tr_7 else if k < 9 then http_tr_8 else http_tr_9)
             else if k < 11 then http_tr_10 else if k < 12 then http_tr_11 else http_tr_12)
         else if k < 25 then
            (if k < 22 then (if k < 21 then http_tr_13 else http_tr_21)
             else if k < 23 then http_tr_22 else if k < 24 then http_tr_23 else http_tr_24)
         else if k < 29 then (if k < 27 then http_tr_25 else if k < 28 then http_tr_27 else http_tr_28)
         else if k < 30 then http_tr_29 else if k < 31 then http_tr_30 else http_tr_31)
     else if k < 54 then
        (if k < 42 then
            (if k < 36 then (if k < 34 then http_tr_33 else http_tr_34)
             else if k < 37 then http_tr_36 else if k < 39 then http_tr_37 else http_tr_39)
         else if k < 45 then (if k < 43 then http_tr_42 else if k < 44 then http_tr_43 else http_tr_44)
         else if k < 47 then http_tr_45 else if k < 53 then http_tr_47 else http_tr_53)
     else if k < 204 then
        (if k < 58 then (if k < 55 then http_tr_54 else if k < 56 then http_tr_55 else http_tr_56)
         else if k < 59 then http_tr_58 else if k < 203 then http_tr_59 else http_tr_203)
     else if k < 228 then
        (if k < 224 then http_tr_204 else if k < 227 then http_tr_224 else http_tr_227)
     else if k < 232 then http_tr_228 else if k < 235 then http_tr_232 else http_tr_235)"

definition http_dispatch :: "bool \<Rightarrow> nat \<Rightarrow> int \<Rightarrow> label" where
  "http_dispatch r cs c =
    (if cs < 175 then
        (if cs < 88 then
            (if cs < 44 then
                (if cs < 22 then
                    (if cs < 11 then
                        (if cs < 6 then
                            (if cs < 3 then (if cs < 2 then http_case_1 r c else http_case_2 r c)
                             else if cs < 4 then http_case_3 r c
                             else if cs < 5 then http_case_4 r c else http_case_5 r c)
                         else if cs < 8 then (if cs < 7 then http_case_6 r c else http_case_7 r c)
                         else if cs < 9 then http_case_8 r c
                         else if cs < 10 then http_case_9 r c else http_case_10 r c)
                     else if cs < 16 then
                        (if cs < 13 then (if cs < 12 then http_case_11 r c else http_case_12 r c)
                         else if cs < 14 then http_case_13 r c
                         else if cs < 15 then http_case_14 r c else http_case_15 r c)
                     else if cs < 19 then
                        (if cs < 17 then http_case_16 r c
                         else if cs < 18 then http_case_17 r c else http_case_18 r c)
                     else if cs < 20 then http_case_19 r c
                     else if cs < 21 then http_case_20 r c else http_case_21 r c)
                 else if cs < 33 then
                    (if cs < 27 then
                        (if cs < 24 then (if cs < 23 then http_case_22 r c else http_case_23 r c)
                         else if cs < 25 then http_case_24 r c
                         else if cs < 26 then http_case_25 r c else http_case_26 r c)
                     else if cs < 30 then
                        (if cs < 28 then http_case_27 r c
                         else if cs < 29 then http_case_28 r c else http_case_29 r c)
                     else if cs < 31 then http_case_30 r c
                     else if cs < 32 then http_case_31 r c else http_case_32 r c)
                 else if cs < 38 then
                    (if cs < 35 then (if cs < 34 then http_case_33 r c else http_case_34 r c)
                     else if cs < 36 then http_case_35 r c
                     else if cs < 37 then http_case_36 r c else http_case_37 r c)
                 else if cs < 41 then
                    (if cs < 39 then http_case_38 r c
                     else if cs < 40 then http_case_39 r c else http_case_40 r c)
                 else if cs < 42 then http_case_41 r c
                 else if cs < 43 then http_case_42 r c else http_case_43 r c)
             else if cs < 66 then
                (if cs < 55 then
                    (if cs < 49 then
                        (if cs < 46 then (if cs < 45 then http_case_44 r c else http_case_45 r c)
                         else if cs < 47 then http_case_46 r c
                         else if cs < 48 then http_case_47 r c else http_case_48 r c)
                     else if cs < 52 then
                        (if cs < 50 then http_case_49 r c
                         else if cs < 51 then http_case_50 r c else http_case_51 r c)
                     else if cs < 53 then http_case_52 r c
                     else if cs < 54 then http_case_53 r c else http_case_54 r c)
                 else if cs < 60 then
                    (if cs < 57 then (if cs < 56 then http_case_55 r c else http_case_56 r c)
                     else if cs < 58 then http_case_57 r c
                     else if cs < 59 then http_case_58 r c else http_case_59 r c)
                 else if cs < 63 then
                    (if cs < 61 then http_case_60 r c
                     else if cs < 62 then http_case_61 r c else http_case_62 r c)
                 else if cs < 64 then http_case_63 r c
                 else if cs < 65 then http_case_64 r c else http_case_65 r c)
             else if cs < 77 then
                (if cs < 71 then
                    (if cs < 68 then (if cs < 67 then http_case_66 r c else http_case_67 r c)
                     else if cs < 69 then http_case_68 r c
                     else if cs < 70 then http_case_69 r c else http_case_70 r c)
                 else if cs < 74 then
                    (if cs < 72 then http_case_71 r c
                     else if cs < 73 then http_case_72 r c else http_case_73 r c)
                 else if cs < 75 then http_case_74 r c
                 else if cs < 76 then http_case_75 r c else http_case_76 r c)
             else if cs < 82 then
                (if cs < 79 then (if cs < 78 then http_case_77 r c else http_case_78 r c)
                 else if cs < 80 then http_case_79 r c
                 else if cs < 81 then http_case_80 r c else http_case_81 r c)
             else if cs < 85 then
                (if cs < 83 then http_case_82 r c
                 else if cs < 84 then http_case_83 r c else http_case_84 r c)
             else if cs < 86 then http_case_85 r c
             else if cs < 87 then http_case_86 r c else http_case_87 r c)
         else if cs < 131 then
            (if cs < 109 then
                (if cs < 98 then
                    (if cs < 93 then
                        (if cs < 90 then (if cs < 89 then http_case_88 r c else http_case_89 r c)
                         else if cs < 91 then http_case_90 r c
                         else if cs < 92 then http_case_91 r c else http_case_92 r c)
                     else if cs < 95 then (if cs < 94 then http_case_93 r c else http_case_94 r c)
                     else if cs < 96 then http_case_95 r c
                     else if cs < 97 then http_case_96 r c else http_case_97 r c)
                 else if cs < 103 then
                    (if cs < 100 then (if cs < 99 then http_case_98 r c else http_case_99 r c)
                     else if cs < 101 then http_case_100 r c
                     else if cs < 102 then http_case_101 r c else http_case_102 r c)
                 else if cs < 106 then
                    (if cs < 104 then http_case_103 r c
                     else if cs < 105 then http_case_104 r c else http_case_105 r c)
                 else if cs < 107 then http_case_106 r c
                 else if cs < 108 then http_case_107 r c else http_case_108 r c)
             else if cs < 120 then
                (if cs < 114 then
                    (if cs < 111 then (if cs < 110 then http_case_109 r c else http_case_110 r c)
                     else if cs < 112 then http_case_111 r c
                     else if cs < 113 then http_case_112 r c else http_case_113 r c)
                 else if cs < 117 then
                    (if cs < 115 then http_case_114 r c
                     else if cs < 116 then http_case_115 r c else http_case_116 r c)
                 else if cs < 118 then http_case_117 r c
                 else if cs < 119 then http_case_118 r c else http_case_119 r c)
             else if cs < 125 then
                (if cs < 122 then (if cs < 121 then http_case_120 r c else http_case_121 r c)
                 else if cs < 123 then http_case_122 r c
                 else if cs < 124 then http_case_123 r c else http_case_124 r c)
             else if cs < 128 then
                (if cs < 126 then http_case_125 r c
                 else if cs < 127 then http_case_126 r c else http_case_127 r c)
             else if cs < 129 then http_case_128 r c
             else if cs < 130 then http_case_129 r c else http_case_130 r c)
         else if cs < 153 then
            (if cs < 142 then
                (if cs < 136 then
                    (if cs < 133 then (if cs < 132 then http_case_131 r c else http_case_132 r c)
                     else if cs < 134 then http_case_133 r c
                     else if cs < 135 then http_case_134 r c else http_case_135 r c)
                 else if cs < 139 then
                    (if cs < 137 then http_case_136 r c
                     else if cs < 138 then http_case_137 r c else http_case_138 r c)
                 else if cs < 140 then http_case_139 r c
                 else if cs < 141 then http_case_140 r c else http_case_141 r c)
             else if cs < 147 then
                (if cs < 144 then (if cs < 143 then http_case_142 r c else http_case_143 r c)
                 else if cs < 145 then http_case_144 r c
                 else if cs < 146 then http_case_145 r c else http_case_146 r c)
             else if cs < 150 then
                (if cs < 148 then http_case_147 r c
                 else if cs < 149 then http_case_148 r c else http_case_149 r c)
             else if cs < 151 then http_case_150 r c
             else if cs < 152 then http_case_151 r c else http_case_152 r c)
         else if cs < 164 then
            (if cs < 158 then
                (if cs < 155 then (if cs < 154 then http_case_153 r c else http_case_154 r c)
                 else if cs < 156 then http_case_155 r c
                 else if cs < 157 then http_case_156 r c else http_case_157 r c)
             else if cs < 161 then
                (if cs < 159 then http_case_158 r c
                 else if cs < 160 then http_case_159 r c else http_case_160 r c)
             else if cs < 162 then http_case_161 r c
             else if cs < 163 then http_case_162 r c else http_case_163 r c)
         else if cs < 169 then
            (if cs < 166 then (if cs < 165 then http_case_164 r c else http_case_165 r c)
             else if cs < 167 then http_case_166 r c
             else if cs < 168 then http_case_167 r c else http_case_168 r c)
         else if cs < 172 then
            (if cs < 170 then http_case_169 r c
             else if cs < 171 then http_case_170 r c else http_case_171 r c)
         else if cs < 173 then http_case_172 r c
         else if cs < 174 then http_case_173 r c else http_case_174 r c)
     else if cs < 262 then
        (if cs < 218 then
            (if cs < 196 then
                (if cs < 185 then
                    (if cs < 180 then
                        (if cs < 177 then
                            (if cs < 176 then http_case_175 r c else http_case_176 r c)
                         else if cs < 178 then http_case_177 r c
                         else if cs < 179 then http_case_178 r c else http_case_179 r c)
                     else if cs < 182 then (if cs < 181 then http_case_180 r c else http_case_181 r c)
                     else if cs < 183 then http_case_182 r c
                     else if cs < 184 then http_case_183 r c else http_case_184 r c)
                 else if cs < 190 then
                    (if cs < 187 then (if cs < 186 then http_case_185 r c else http_case_186 r c)
                     else if cs < 188 then http_case_187 r c
                     else if cs < 189 then http_case_188 r c else http_case_189 r c)
                 else if cs < 193 then
                    (if cs < 191 then http_case_190 r c
                     else if cs < 192 then http_case_191 r c else http_case_192 r c)
                 else if cs < 194 then http_case_193 r c
                 else if cs < 195 then http_case_194 r c else http_case_195 r c)
             else if cs < 207 then
                (if cs < 201 then
                    (if cs < 198 then (if cs < 197 then http_case_196 r c else http_case_197 r c)
                     else if cs < 199 then http_case_198 r c
                     else if cs < 200 then http_case_199 r c else http_case_200 r c)
                 else if cs < 204 then
                    (if cs < 202 then http_case_201 r c
                     else if cs < 203 then http_case_202 r c else http_case_203 r c)
                 else if cs < 205 then http_case_204 r c
                 else if cs < 206 then http_case_205 r c else http_case_206 r c)
             else if cs < 212 then
                (if cs < 209 then (if cs < 208 then http_case_207 r c else http_case_208 r c)
                 else if cs < 210 then http_case_209 r c
                 else if cs < 211 then http_case_210 r c else http_case_211 r c)
             else if cs < 215 then
                (if cs < 213 then http_case_212 r c
                 else if cs < 214 then http_case_213 r c else http_case_214 r c)
             else if cs < 216 then http_case_215 r c
             else if cs < 217 then http_case_216 r c else http_case_217 r c)
         else if cs < 240 then
            (if cs < 229 then
                (if cs < 223 then
                    (if cs < 220 then (if cs < 219 then http_case_218 r c else http_case_219 r c)
                     else if cs < 221 then http_case_220 r c
                     else if cs < 222 then http_case_221 r c else http_case_222 r c)
                 else if cs < 226 then
                    (if cs < 224 then http_case_223 r c
                     else if cs < 225 then http_case_224 r c else http_case_225 r c)
                 else if cs < 227 then http_case_226 r c
                 else if cs < 228 then http_case_227 r c else http_case_228 r c)
             else if cs < 234 then
                (if cs < 231 then (if cs < 230 then http_case_229 r c else http_case_230 r c)
                 else if cs < 232 then http_case_231 r c
                 else if cs < 233 then http_case_232 r c else http_case_233 r c)
             else if cs < 237 then
                (if cs < 235 then http_case_234 r c
                 else if cs < 236 then http_case_235 r c else http_case_236 r c)
             else if cs < 238 then http_case_237 r c
             else if cs < 239 then http_case_238 r c else http_case_239 r c)
         else if cs < 251 then
            (if cs < 245 then
                (if cs < 242 then (if cs < 241 then http_case_240 r c else http_case_241 r c)
                 else if cs < 243 then http_case_242 r c
                 else if cs < 244 then http_case_243 r c else http_case_244 r c)
             else if cs < 248 then
                (if cs < 246 then http_case_245 r c
                 else if cs < 247 then http_case_246 r c else http_case_247 r c)
             else if cs < 249 then http_case_248 r c
             else if cs < 250 then http_case_249 r c else http_case_250 r c)
         else if cs < 256 then
            (if cs < 253 then (if cs < 252 then http_case_251 r c else http_case_252 r c)
             else if cs < 254 then http_case_253 r c
             else if cs < 255 then http_case_254 r c else http_case_255 r c)
         else if cs < 259 then
            (if cs < 257 then http_case_256 r c
             else if cs < 258 then http_case_257 r c else http_case_258 r c)
         else if cs < 260 then http_case_259 r c
         else if cs < 261 then http_case_260 r c else http_case_261 r c)
     else if cs < 306 then
        (if cs < 284 then
            (if cs < 273 then
                (if cs < 267 then
                    (if cs < 264 then (if cs < 263 then http_case_262 r c else http_case_263 r c)
                     else if cs < 265 then http_case_264 r c
                     else if cs < 266 then http_case_265 r c else http_case_266 r c)
                 else if cs < 270 then
                    (if cs < 268 then http_case_267 r c
                     else if cs < 269 then http_case_268 r c else http_case_269 r c)
                 else if cs < 271 then http_case_270 r c
                 else if cs < 272 then http_case_271 r c else http_case_272 r c)
             else if cs < 278 then
                (if cs < 275 then (if cs < 274 then http_case_273 r c else http_case_274 r c)
                 else if cs < 276 then http_case_275 r c
                 else if cs < 277 then http_case_276 r c else http_case_277 r c)
             else if cs < 281 then
                (if cs < 279 then http_case_278 r c
                 else if cs < 280 then http_case_279 r c else http_case_280 r c)
             else if cs < 282 then http_case_281 r c
             else if cs < 283 then http_case_282 r c else http_case_283 r c)
         else if cs < 295 then
            (if cs < 289 then
                (if cs < 286 then (if cs < 285 then http_case_284 r c else http_case_285 r c)
                 else if cs < 287 then http_case_286 r c
                 else if cs < 288 then http_case_287 r c else http_case_288 r c)
             else if cs < 292 then
                (if cs < 290 then http_case_289 r c
                 else if cs < 291 then http_case_290 r c else http_case_291 r c)
             else if cs < 293 then http_case_292 r c
             else if cs < 294 then http_case_293 r c else http_case_294 r c)
         else if cs < 300 then
            (if cs < 297 then (if cs < 296 then http_case_295 r c else http_case_296 r c)
             else if cs < 298 then http_case_297 r c
             else if cs < 299 then http_case_298 r c else http_case_299 r c)
         else if cs < 303 then
            (if cs < 301 then http_case_300 r c
             else if cs < 302 then http_case_301 r c else http_case_302 r c)
         else if cs < 304 then http_case_303 r c
         else if cs < 305 then http_case_304 r c else http_case_305 r c)
     else if cs < 328 then
        (if cs < 317 then
            (if cs < 311 then
                (if cs < 308 then (if cs < 307 then http_case_306 r c else http_case_307 r c)
                 else if cs < 309 then http_case_308 r c
                 else if cs < 310 then http_case_309 r c else http_case_310 r c)
             else if cs < 314 then
                (if cs < 312 then http_case_311 r c
                 else if cs < 313 then http_case_312 r c else http_case_313 r c)
             else if cs < 315 then http_case_314 r c
             else if cs < 316 then http_case_315 r c else http_case_316 r c)
         else if cs < 322 then
            (if cs < 319 then (if cs < 318 then http_case_317 r c else http_case_318 r c)
             else if cs < 320 then http_case_319 r c
             else if cs < 321 then http_case_320 r c else http_case_321 r c)
         else if cs < 325 then
            (if cs < 323 then http_case_322 r c
             else if cs < 324 then http_case_323 r c else http_case_324 r c)
         else if cs < 326 then http_case_325 r c
         else if cs < 327 then http_case_326 r c else http_case_327 r c)
     else if cs < 339 then
        (if cs < 333 then
            (if cs < 330 then (if cs < 329 then http_case_328 r c else http_case_329 r c)
             else if cs < 331 then http_case_330 r c
             else if cs < 332 then http_case_331 r c else http_case_332 r c)
         else if cs < 336 then
            (if cs < 334 then http_case_333 r c
             else if cs < 335 then http_case_334 r c else http_case_335 r c)
         else if cs < 337 then http_case_336 r c
         else if cs < 338 then http_case_337 r c else http_case_338 r c)
     else if cs < 344 then
        (if cs < 341 then (if cs < 340 then http_case_339 r c else http_case_340 r c)
         else if cs < 342 then http_case_341 r c
         else if cs < 343 then http_case_342 r c else http_case_343 r c)
     else if cs < 347 then
        (if cs < 345 then http_case_344 r c
         else if cs < 346 then http_case_345 r c else http_case_346 r c)
     else if cs < 348 then http_case_347 r c
     else if cs < 349 then http_case_348 r c else http_case_349 r c)"

section \<open>The loop\<close>

text \<open>
  From the state \<open>cs\<close> at the position \<open>p\<close>, over the characters up to the end: the position and the
  state at which it stops, and the calls.
\<close>

fun http_run :: "int list \<Rightarrow> nat \<Rightarrow> nat \<Rightarrow> http_parser \<Rightarrow> nat \<times> nat \<times> http_parser \<times> event list" where
  "http_run [] p cs s = (p, cs, s, [])"
| "http_run (c # rest) p cs s =
     (case http_dispatch (hp_uri_relaxed s) cs c of
        St n \<Rightarrow> if n = 0 then (p, 0, s, []) else http_run rest (p + 1) n s
      | Tr k \<Rightarrow>
          (case http_transition k of (acts, succ) \<Rightarrow>
             case do_all acts p (p + 1 + length rest) s of (s1, evs) \<Rightarrow>
               (case succ of
                  Stop n \<Rightarrow> (p + 1, n, s1, evs)
                | Go n \<Rightarrow> (case http_run rest (p + 1) n s1 of (p', cs', s2, evs') \<Rightarrow>
                    (p', cs', s2, evs @ evs')))))"

definition http_parser_has_error :: "http_parser \<Rightarrow> bool" where
  "http_parser_has_error s \<longleftrightarrow> hp_cs s = 0"

definition http_parser_is_finished :: "http_parser \<Rightarrow> bool" where
  "http_parser_is_finished s \<longleftrightarrow> hp_cs s \<ge> 348"

definition http_parser_finish :: "http_parser \<Rightarrow> int" where
  "http_parser_finish s =
     (if http_parser_has_error s then - 1 else if http_parser_is_finished s then 1 else 0)"

text \<open>A failed assertion.\<close>

datatype http_error = HttpAssert

text \<open>
  In the state 0 no case of the switch matches, and the code behind it sets the local \<^verbatim>\<open>cs\<close> to 2.
\<close>

definition http_parser_execute :: "int list \<Rightarrow> nat \<Rightarrow> http_parser
    \<Rightarrow> (http_error + nat) \<times> http_parser \<times> event list" where
  "http_parser_execute buffer off s =
     (let len = length buffer in
      if len = 0 then (Inr 0, s, [])
      else
        let s0 = s\<lparr>hp_nread := 0, hp_mark := 0, hp_field_len := 0, hp_field_start := 0\<rparr> in
        if len < off then (Inl HttpAssert, s0, [])
        else if int (len - off) \<noteq> int32 (int32 (int len) - int32 (int off)) then (Inl HttpAssert, s0, [])
        else
          case (if off \<noteq> len \<and> (hp_cs s = 0 \<or> 349 < hp_cs s) then (off, 2, s0, [])
                else http_run (drop off buffer) off (hp_cs s) s0) of (p, cs, s1, evs) \<Rightarrow>
            let s2 = (if \<not> http_parser_has_error s1 then s1\<lparr>hp_cs := cs\<rparr> else s1);
                s3 = s2\<lparr>hp_nread := hp_nread s2 + (p - off)\<rparr>
            in if hp_nread s3 \<le> len \<and> hp_body_start s3 \<le> len \<and> hp_mark s3 < len
                  \<and> hp_field_len s3 \<le> len \<and> hp_field_start s3 < len
               then (Inr (hp_nread s3), s3, evs) else (Inl HttpAssert, s3, evs))"

section \<open>Bundles\<close>

text \<open>The definitions of all states.\<close>

lemmas http_case_defs =
  http_case_1_def http_case_2_def http_case_3_def http_case_4_def http_case_5_def http_case_6_def
  http_case_7_def http_case_8_def http_case_9_def http_case_10_def http_case_11_def
  http_case_12_def http_case_13_def http_case_14_def http_case_15_def http_case_16_def
  http_case_17_def http_case_18_def http_case_19_def http_case_20_def http_case_21_def
  http_case_22_def http_case_23_def http_case_24_def http_case_25_def http_case_26_def
  http_case_27_def http_case_28_def http_case_29_def http_case_30_def http_case_31_def
  http_case_32_def http_case_33_def http_case_34_def http_case_35_def http_case_36_def
  http_case_37_def http_case_38_def http_case_39_def http_case_40_def http_case_41_def
  http_case_42_def http_case_43_def http_case_44_def http_case_45_def http_case_46_def
  http_case_47_def http_case_48_def http_case_49_def http_case_50_def http_case_51_def
  http_case_52_def http_case_53_def http_case_54_def http_case_55_def http_case_56_def
  http_case_57_def http_case_58_def http_case_59_def http_case_60_def http_case_61_def
  http_case_62_def http_case_63_def http_case_64_def http_case_65_def http_case_66_def
  http_case_67_def http_case_68_def http_case_69_def http_case_70_def http_case_71_def
  http_case_72_def http_case_73_def http_case_74_def http_case_75_def http_case_76_def
  http_case_77_def http_case_78_def http_case_79_def http_case_80_def http_case_81_def
  http_case_82_def http_case_83_def http_case_84_def http_case_85_def http_case_86_def
  http_case_87_def http_case_88_def http_case_89_def http_case_90_def http_case_91_def
  http_case_92_def http_case_93_def http_case_94_def http_case_95_def http_case_96_def
  http_case_97_def http_case_98_def http_case_99_def http_case_100_def http_case_101_def
  http_case_102_def http_case_103_def http_case_104_def http_case_105_def http_case_106_def
  http_case_107_def http_case_108_def http_case_109_def http_case_110_def http_case_111_def
  http_case_112_def http_case_113_def http_case_114_def http_case_115_def http_case_116_def
  http_case_117_def http_case_118_def http_case_119_def http_case_120_def http_case_121_def
  http_case_122_def http_case_123_def http_case_124_def http_case_125_def http_case_126_def
  http_case_127_def http_case_128_def http_case_129_def http_case_130_def http_case_131_def
  http_case_132_def http_case_133_def http_case_134_def http_case_135_def http_case_136_def
  http_case_137_def http_case_138_def http_case_139_def http_case_140_def http_case_141_def
  http_case_142_def http_case_143_def http_case_144_def http_case_145_def http_case_146_def
  http_case_147_def http_case_148_def http_case_149_def http_case_150_def http_case_151_def
  http_case_152_def http_case_153_def http_case_154_def http_case_155_def http_case_156_def
  http_case_157_def http_case_158_def http_case_159_def http_case_160_def http_case_161_def
  http_case_162_def http_case_163_def http_case_164_def http_case_165_def http_case_166_def
  http_case_167_def http_case_168_def http_case_169_def http_case_170_def http_case_171_def
  http_case_172_def http_case_173_def http_case_174_def http_case_175_def http_case_176_def
  http_case_177_def http_case_178_def http_case_179_def http_case_180_def http_case_181_def
  http_case_182_def http_case_183_def http_case_184_def http_case_185_def http_case_186_def
  http_case_187_def http_case_188_def http_case_189_def http_case_190_def http_case_191_def
  http_case_192_def http_case_193_def http_case_194_def http_case_195_def http_case_196_def
  http_case_197_def http_case_198_def http_case_199_def http_case_200_def http_case_201_def
  http_case_202_def http_case_203_def http_case_204_def http_case_205_def http_case_206_def
  http_case_207_def http_case_208_def http_case_209_def http_case_210_def http_case_211_def
  http_case_212_def http_case_213_def http_case_214_def http_case_215_def http_case_216_def
  http_case_217_def http_case_218_def http_case_219_def http_case_220_def http_case_221_def
  http_case_222_def http_case_223_def http_case_224_def http_case_225_def http_case_226_def
  http_case_227_def http_case_228_def http_case_229_def http_case_230_def http_case_231_def
  http_case_232_def http_case_233_def http_case_234_def http_case_235_def http_case_236_def
  http_case_237_def http_case_238_def http_case_239_def http_case_240_def http_case_241_def
  http_case_242_def http_case_243_def http_case_244_def http_case_245_def http_case_246_def
  http_case_247_def http_case_248_def http_case_249_def http_case_250_def http_case_251_def
  http_case_252_def http_case_253_def http_case_254_def http_case_255_def http_case_256_def
  http_case_257_def http_case_258_def http_case_259_def http_case_260_def http_case_261_def
  http_case_262_def http_case_263_def http_case_264_def http_case_265_def http_case_266_def
  http_case_267_def http_case_268_def http_case_269_def http_case_270_def http_case_271_def
  http_case_272_def http_case_273_def http_case_274_def http_case_275_def http_case_276_def
  http_case_277_def http_case_278_def http_case_279_def http_case_280_def http_case_281_def
  http_case_282_def http_case_283_def http_case_284_def http_case_285_def http_case_286_def
  http_case_287_def http_case_288_def http_case_289_def http_case_290_def http_case_291_def
  http_case_292_def http_case_293_def http_case_294_def http_case_295_def http_case_296_def
  http_case_297_def http_case_298_def http_case_299_def http_case_300_def http_case_301_def
  http_case_302_def http_case_303_def http_case_304_def http_case_305_def http_case_306_def
  http_case_307_def http_case_308_def http_case_309_def http_case_310_def http_case_311_def
  http_case_312_def http_case_313_def http_case_314_def http_case_315_def http_case_316_def
  http_case_317_def http_case_318_def http_case_319_def http_case_320_def http_case_321_def
  http_case_322_def http_case_323_def http_case_324_def http_case_325_def http_case_326_def
  http_case_327_def http_case_328_def http_case_329_def http_case_330_def http_case_331_def
  http_case_332_def http_case_333_def http_case_334_def http_case_335_def http_case_336_def
  http_case_337_def http_case_338_def http_case_339_def http_case_340_def http_case_341_def
  http_case_342_def http_case_343_def http_case_344_def http_case_345_def http_case_346_def
  http_case_347_def http_case_348_def http_case_349_def

lemmas http_actions = do_mark_def do_start_field_def do_write_field_def do_start_value_def do_write_value_def
  do_request_method_def do_request_uri_def do_fragment_def do_start_query_def do_query_string_def
  do_http_version_def do_request_path_def do_done_def do_xml_def do_json_def call_element_def

end
