(* ===== verification/HttpRun.thy ===== *)
theory HttpRun
  imports HttpMachine
begin

text \<open>
  Runs of the request machine over the parts of a well-formed request: the method, the target, the
  version, the header fields, and their composition.
\<close>

section \<open>Pieces of a run\<close>

datatype heard = Text element "int list" | Header "int list" "int list"

text \<open>What a callback reads.\<close>

definition slice :: "int list \<Rightarrow> nat \<Rightarrow> nat \<Rightarrow> int list" where
  "slice buffer at len = take len (drop at buffer)"

fun hears :: "int list \<Rightarrow> event \<Rightarrow> heard" where
  "hears buffer (Element e at len) = Text e (slice buffer at len)"
| "hears buffer (Field at flen at' vlen) = Header (slice buffer at flen) (slice buffer at' vlen)"

lemma slice_append [simp]:
  "at = length pre \<Longrightarrow> len = length xs \<Longrightarrow> slice (pre @ xs @ ys) at len = xs"
  by (simp add: slice_def)

definition prepend :: "event list \<Rightarrow> nat \<times> nat \<times> http_parser \<times> event list
    \<Rightarrow> nat \<times> nat \<times> http_parser \<times> event list" where
  "prepend evs r = (case r of (p, cs, s, evs') \<Rightarrow> (p, cs, s, evs @ evs'))"

lemma prepend_simps [simp]: "prepend [] r = r" "prepend e1 (prepend e2 r) = prepend (e1 @ e2) r"
  "prepend e (p, cs, s, e') = (p, cs, s, e @ e')"
  by (simp_all add: prepend_def split: prod.splits)

text \<open>
  After \<open>pre\<close>, in the state \<open>n\<close>, the machine reads \<open>xs\<close>, whatever follows, makes the calls \<open>hs\<close> and is in
  the state \<open>n'\<close>.
\<close>

definition goes :: "int list \<Rightarrow> nat \<Rightarrow> http_parser \<Rightarrow> int list \<Rightarrow> heard list \<Rightarrow> nat \<Rightarrow> http_parser \<Rightarrow> bool" where
  "goes pre n s xs hs n' s' \<longleftrightarrow> (\<forall>ys. \<exists>evs.
     http_run (xs @ ys) (length pre) n s = prepend evs (http_run ys (length pre + length xs) n' s')
     \<and> map (hears (pre @ xs @ ys)) evs = hs)"

lemma goes_Nil [simp]: "goes pre n s [] [] n s"
  by (auto simp: goes_def)

lemma goes_trans:
  assumes "goes pre n s xs hs n1 s1" "goes (pre @ xs) n1 s1 ys hs' n2 s2"
  shows "goes pre n s (xs @ ys) (hs @ hs') n2 s2"
  unfolding goes_def
proof
  fix zs
  obtain e1 where e1: "http_run (xs @ ys @ zs) (length pre) n s
      = prepend e1 (http_run (ys @ zs) (length pre + length xs) n1 s1)"
    "map (hears (pre @ xs @ ys @ zs)) e1 = hs"
    using assms(1) unfolding goes_def by blast
  obtain e2 where e2: "http_run (ys @ zs) (length (pre @ xs)) n1 s1
      = prepend e2 (http_run zs (length (pre @ xs) + length ys) n2 s2)"
    "map (hears ((pre @ xs) @ ys @ zs)) e2 = hs'"
    using assms(2) unfolding goes_def by blast
  show "\<exists>evs. http_run ((xs @ ys) @ zs) (length pre) n s
      = prepend evs (http_run zs (length pre + length (xs @ ys)) n2 s2)
      \<and> map (hears (pre @ (xs @ ys) @ zs)) evs = hs @ hs'"
    using e1 e2 by (intro exI [of _ "e1 @ e2"]) (simp add: add.assoc)
qed

lemma goes_St:
  "http_dispatch (hp_uri_relaxed s) n c = St n' \<Longrightarrow> n' \<noteq> 0 \<Longrightarrow> goes pre n s [c] [] n' s"
  by (auto simp: goes_def intro!: exI [of _ "[]"])

lemma goes_Tr:
  assumes "http_dispatch (hp_uri_relaxed s) n c = Tr k" "http_transition k = (acts, Go n')"
    "\<And>pe. do_all acts (length pre) pe s = (s', evs)" "\<And>ys. map (hears (pre @ c # ys)) evs = hs"
  shows "goes pre n s [c] hs n' s'"
  using assms by (auto simp: goes_def prepend_def split: prod.splits intro!: exI [of _ evs])

lemma goes_loop:
  "\<forall>c \<in> set xs. http_dispatch (hp_uri_relaxed s) n c = St n \<Longrightarrow> n \<noteq> 0 \<Longrightarrow> goes pre n s xs [] n s"
proof (induction xs arbitrary: pre)
  case (Cons c xs)
  have "goes pre n s [c] [] n s" using Cons.prems by (intro goes_St) auto
  moreover have "goes (pre @ [c]) n s xs [] n s" using Cons by auto
  ultimately show ?case using goes_trans [of pre n s "[c]" "[]" n s xs "[]" n s] by simp
qed simp

lemma goes_Cons:
  "goes pre n s [c] hs n1 s1 \<Longrightarrow> goes (pre @ [c]) n1 s1 xs hs' n2 s2 \<Longrightarrow> goes pre n s (c # xs) (hs @ hs') n2 s2"
  using goes_trans [of pre n s "[c]" hs n1 s1 xs hs' n2 s2] by simp

text \<open>All callbacks are set, as the request parser sets them.\<close>

definition all_set :: "http_parser \<Rightarrow> bool" where
  "all_set s \<longleftrightarrow> (\<forall>e. hp_set s e) \<and> hp_http_field_set s"

section \<open>The grammar of a request\<close>

definition method_char :: "int \<Rightarrow> bool" where
  "method_char c \<longleftrightarrow> 48 \<le> c \<and> c \<le> 57 \<or> 65 \<le> c \<and> c \<le> 90"

definition path_char :: "int \<Rightarrow> bool" where
  "path_char c \<longleftrightarrow> c < 0 \<or> c = 33 \<or> c = 36 \<or> 38 \<le> c \<and> c \<le> 59 \<or> c = 61 \<or> 64 \<le> c \<and> c \<le> 90 \<or> c = 95
     \<or> 97 \<le> c \<and> c \<le> 122 \<or> c = 126"

definition hex_char :: "int \<Rightarrow> bool" where
  "hex_char c \<longleftrightarrow> 48 \<le> c \<and> c \<le> 57 \<or> 65 \<le> c \<and> c \<le> 70 \<or> 97 \<le> c \<and> c \<le> 102"

text \<open>Texts of the characters of \<open>P\<close> and of percent-encoded ones.\<close>

fun pct_text :: "(int \<Rightarrow> bool) \<Rightarrow> int list \<Rightarrow> bool" where
  "pct_text P [] \<longleftrightarrow> True"
| "pct_text P (c # cs) \<longleftrightarrow>
     (if c = 37 then (case cs of x # y # ds \<Rightarrow> hex_char x \<and> hex_char y \<and> pct_text P ds | _ \<Rightarrow> False)
      else P c \<and> pct_text P cs)"

definition query_char :: "int \<Rightarrow> bool" where
  "query_char c \<longleftrightarrow> path_char c \<or> c = 63"

text \<open>The characters of a field name, as RFC 7230 has them.\<close>

definition token_char :: "int \<Rightarrow> bool" where
  "token_char c \<longleftrightarrow> c = 33 \<or> 35 \<le> c \<and> c \<le> 39 \<or> c = 42 \<or> c = 43 \<or> c = 45 \<or> c = 46 \<or> 48 \<le> c \<and> c \<le> 57
     \<or> 65 \<le> c \<and> c \<le> 90 \<or> 94 \<le> c \<and> c \<le> 122 \<or> c = 124 \<or> c = 126"

definition value_char :: "int \<Rightarrow> bool" where
  "value_char c \<longleftrightarrow> c \<noteq> 0 \<and> c \<noteq> 10 \<and> c \<noteq> 13 \<and> c \<noteq> 127"

definition field_ok :: "int list \<times> int list \<times> int list \<Rightarrow> bool" where
  "field_ok h = (case h of (name, ws, value) \<Rightarrow> name \<noteq> [] \<and> list_all token_char name
     \<and> list_all (\<lambda>c. c = 32 \<or> c = 9) ws \<and> list_all value_char value
     \<and> (value \<noteq> [] \<longrightarrow> hd value \<noteq> 32 \<and> hd value \<noteq> 9))"

definition field_line :: "int list \<times> int list \<times> int list \<Rightarrow> int list" where
  "field_line h = (case h of (name, ws, value) \<Rightarrow> name @ [58] @ ws @ value @ [13, 10])"

definition http_slash :: "int list" where "http_slash = [72, 84, 84, 80, 47]"

section \<open>The request line\<close>

definition method_state :: "nat \<Rightarrow> nat" where
  "method_state k = (if k = 1 then 2 else 173 + k)"

lemma small_nats: "k < 20 \<Longrightarrow> k \<in> {0,1,2,3,4,5,6,7,8,9,10,11,12,13,14,15,16,17,18,19}" for k :: nat
  unfolding insert_iff empty_iff by presburger

lemma method_step:
  assumes "1 \<le> k" "k < 20" "method_char c"
  shows "http_dispatch r (method_state k) c = St (method_state (k + 1))"
  using small_nats [OF assms(2)] assms(1,3)
  by (elim insertE emptyE)
    (auto simp: method_state_def http_dispatch_def http_case_defs method_char_def)

lemma method_end:
  assumes "1 \<le> k" "k < 21"
  shows "http_dispatch r (method_state k) 32 = Tr 4"
proof -
  have "k = 20 \<or> k \<in> {0,1,2,3,4,5,6,7,8,9,10,11,12,13,14,15,16,17,18,19}"
    using small_nats [of k] assms(2) by linarith
  then show ?thesis
    using assms(1)
    by (elim disjE insertE emptyE) (simp_all add: method_state_def http_dispatch_def http_case_defs)
qed

lemma goes_method_chars:
  "\<forall>c \<in> set m. method_char c \<Longrightarrow> 1 \<le> k \<Longrightarrow> k + length m \<le> 20
    \<Longrightarrow> goes pre (method_state k) s m [] (method_state (k + length m)) s"
proof (induction m arbitrary: pre k)
  case (Cons c m)
  have "goes pre (method_state k) s [c] [] (method_state (k + 1)) s"
    using Cons.prems by (intro goes_St method_step) (auto simp: method_state_def)
  moreover have "goes (pre @ [c]) (method_state (k + 1)) s m [] (method_state (k + 1 + length m)) s"
    using Cons.prems by (intro Cons.IH) auto
  ultimately show ?case using goes_Cons by fastforce
qed simp

lemma goes_method:
  assumes "m \<noteq> []" "\<forall>c \<in> set m. method_char c" "length m \<le> 20" "all_set s" "length pre + length m < 2 ^ 64"
  shows "goes pre 1 s (m @ [32]) [Text Request_method m] 3 (s\<lparr>hp_mark := length pre\<rparr>)"
proof -
  obtain c m' where m: "m = c # m'" using assms(1) by (cases m) auto
  let ?s = "s\<lparr>hp_mark := length pre\<rparr>"
  have "http_dispatch (hp_uri_relaxed s) 1 c = Tr 0"
    using assms(2) m by (auto simp: http_dispatch_def http_case_defs method_char_def)
  then have 1: "goes pre 1 s [c] [] (method_state 1) ?s"
    by (rule goes_Tr [where evs = "[]" and acts = "[do_mark]"])
      (simp_all add: http_transition_def http_tr_0_def http_actions method_state_def)
  have 2: "goes (pre @ [c]) (method_state 1) ?s m' [] (method_state (length m)) ?s"
    using goes_method_chars [of m' 1 "pre @ [c]" ?s] assms m by (simp add: method_state_def)
  from goes_Cons [OF 1 2] have 3: "goes pre 1 s m [] (method_state (length m)) ?s" by (simp add: m)
  have 4: "goes (pre @ m) (method_state (length m)) ?s [32] [Text Request_method m] 3 ?s"
  proof (rule goes_Tr [where evs = "[Element Request_method (length pre) (length m)]"])
    show "http_dispatch (hp_uri_relaxed ?s) (method_state (length m)) 32 = Tr 4"
      using assms(3) m by (intro method_end) auto
    show "http_transition 4 = ([do_request_method], Go 3)" by (simp add: http_transition_def http_tr_4_def)
    show "do_all [do_request_method] (length (pre @ m)) pe ?s
        = (?s, [Element Request_method (length pre) (length m)])" for pe
      using assms(4,5) by (simp add: http_actions all_set_def)
  qed simp
  from goes_trans [OF 3 4] show ?thesis by simp
qed

text \<open>The transitions of a request of the usual form.\<close>

lemma http_transitions [simp]:
  "http_transition 0 = ([do_mark], Go 2)" "http_transition 4 = ([do_request_method], Go 3)"
  "http_transition 10 = ([do_mark], Go 33)" "http_transition 13 = ([do_mark], Go 5)"
  "http_transition 22 = ([do_http_version], Go 17)" "http_transition 23 = ([do_start_field], Go 14)"
  "http_transition 25 = ([do_start_field], Go 18)" "http_transition 27 = ([do_write_field], Go 15)"
  "http_transition 28 = ([do_start_value], Go 16)" "http_transition 29 = ([do_start_value], Go 15)"
  "http_transition 31 = ([do_start_value, do_write_value], Go 17)" "http_transition 34 = ([do_write_value], Go 17)"
  "http_transition 36 = ([do_done], Stop 348)"
  "http_transition 37 = ([do_request_path, do_request_uri], Go 4)"
  "http_transition 39 = ([do_request_path, do_request_uri], Go 20)"
  "http_transition 42 = ([do_request_path], Go 29)"
  "http_transition 43 = ([do_mark], Go 21)" "http_transition 44 = ([do_mark, do_fragment], Go 4)"
  "http_transition 45 = ([do_mark], Go 22)" "http_transition 47 = ([do_fragment], Go 4)"
  "http_transition 53 = ([do_start_query], Go 30)" "http_transition 56 = ([do_start_query], Go 31)"
  "http_transition 54 = ([do_start_query, do_query_string, do_request_uri], Go 4)"
  "http_transition 55 = ([do_start_query, do_query_string, do_request_uri], Go 20)"
  "http_transition 58 = ([do_query_string, do_request_uri], Go 4)"
  "http_transition 59 = ([do_query_string, do_request_uri], Go 20)"
  by (simp_all add: http_transition_def http_tr_0_def http_tr_4_def http_tr_10_def http_tr_13_def
      http_tr_22_def http_tr_23_def http_tr_25_def http_tr_27_def http_tr_28_def http_tr_29_def http_tr_31_def
      http_tr_34_def http_tr_36_def http_tr_37_def http_tr_39_def http_tr_42_def http_tr_43_def http_tr_44_def
      http_tr_45_def http_tr_47_def http_tr_53_def http_tr_54_def http_tr_55_def http_tr_56_def http_tr_58_def
      http_tr_59_def)

text \<open>A loop over a text with percent-encoded characters, in the states \<open>n\<close>, \<open>n1\<close>, \<open>n2\<close>.\<close>

definition pct_loop :: "bool \<Rightarrow> nat \<Rightarrow> nat \<Rightarrow> nat \<Rightarrow> (int \<Rightarrow> bool) \<Rightarrow> bool" where
  "pct_loop r n n1 n2 P \<longleftrightarrow> n \<noteq> 0 \<and> n1 \<noteq> 0 \<and> n2 \<noteq> 0
     \<and> (\<forall>c. P c \<longrightarrow> c \<noteq> 37 \<longrightarrow> http_dispatch r n c = St n) \<and> http_dispatch r n 37 = St n1
     \<and> (\<forall>c. hex_char c \<longrightarrow> http_dispatch r n1 c = St n2 \<and> http_dispatch r n2 c = St n)"

lemma pct_loops: "pct_loop r 26 27 28 path_char" "pct_loop r 30 31 32 query_char" "pct_loop r 21 22 23 query_char"
  by (auto simp: pct_loop_def http_dispatch_def http_case_26_def http_case_27_def http_case_28_def
      http_case_30_def http_case_31_def http_case_32_def http_case_21_def http_case_22_def http_case_23_def
      widec_def Let_def query_char_def path_char_def hex_char_def)

lemma goes_pct_hex:
  assumes "pct_loop (hp_uri_relaxed s) n n1 n2 P" "hex_char x" "hex_char y"
  shows "goes pre n1 s [x, y] [] n s"
proof -
  have "goes pre n1 s [x] [] n2 s" using assms by (intro goes_St) (auto simp: pct_loop_def)
  moreover have "goes (pre @ [x]) n2 s [y] [] n s" using assms by (intro goes_St) (auto simp: pct_loop_def)
  ultimately show ?thesis using goes_Cons by fastforce
qed

lemma goes_pct:
  assumes "pct_loop (hp_uri_relaxed s) n n1 n2 P" "pct_text P xs"
  shows "goes pre n s xs [] n s"
  using assms(2)
proof (induction xs arbitrary: pre rule: length_induct)
  case (1 xs)
  show ?case
  proof (cases xs)
    case (Cons c cs)
    show ?thesis
    proof (cases "c = 37")
      case True
      then obtain x y ds where cs: "cs = x # y # ds" "hex_char x" "hex_char y" "pct_text P ds"
        using 1(2) Cons by (auto split: list.splits)
      have "goes pre n s [c] [] n1 s" using assms(1) True by (intro goes_St) (auto simp: pct_loop_def)
      moreover have "goes (pre @ [c]) n1 s [x, y] [] n s" by (rule goes_pct_hex [OF assms(1) cs(2,3)])
      moreover have "goes (pre @ [c, x, y]) n s ds [] n s" using 1(1) Cons cs by simp
      ultimately show ?thesis
        using goes_trans [of pre n s "[c]" "[]" n1 s "[x, y]" "[]" n s]
          goes_trans [of pre n s "[c, x, y]" "[]" n s ds "[]" n s] Cons cs(1) by simp
    next
      case False
      then have "goes pre n s [c] [] n s"
        using assms(1) 1(2) Cons by (intro goes_St) (auto simp: pct_loop_def)
      moreover have "goes (pre @ [c]) n s cs [] n s" using 1 Cons False by simp
      ultimately show ?thesis using goes_Cons Cons by fastforce
    qed
  qed simp
qed

section \<open>The target of a request\<close>

definition path_ok :: "int list \<Rightarrow> bool" where
  "path_ok path \<longleftrightarrow> (case path of [] \<Rightarrow> False | c # cs \<Rightarrow> c = 47 \<and> pct_text path_char cs
     \<and> (cs \<noteq> [] \<longrightarrow> hd cs \<noteq> 47))"

text \<open>The configuration, which no action changes but the two of the socket protocols.\<close>

definition same_config :: "http_parser \<Rightarrow> http_parser \<Rightarrow> bool" where
  "same_config s s' \<longleftrightarrow> hp_set s' = hp_set s \<and> hp_http_field_set s' = hp_http_field_set s
     \<and> hp_uri_relaxed s' = hp_uri_relaxed s \<and> hp_xml_sent s' = hp_xml_sent s \<and> hp_json_sent s' = hp_json_sent s
     \<and> hp_cs s' = hp_cs s \<and> hp_nread s' = hp_nread s \<and> hp_body_start s' = hp_body_start s"

lemma same_config_refl [simp]: "same_config s s"
  and same_config_trans: "same_config s s1 \<Longrightarrow> same_config s1 s2 \<Longrightarrow> same_config s s2"
  and same_config_all_set: "same_config s s' \<Longrightarrow> all_set s \<Longrightarrow> all_set s'"
  by (auto simp: same_config_def all_set_def)

lemma same_config_upd [simp]:
  "same_config s (s\<lparr>hp_mark := a\<rparr>)" "same_config s (s\<lparr>hp_query_start := a\<rparr>)"
  "same_config s (s\<lparr>hp_field_start := a\<rparr>)" "same_config s (s\<lparr>hp_field_len := a\<rparr>)"
  by (simp_all add: same_config_def)

lemma goes_path:
  assumes "path_ok path"
  shows "\<exists>n. (n = 26 \<or> n = 33) \<and> goes pre 3 s path [] n (s\<lparr>hp_mark := length pre\<rparr>)"
proof -
  obtain cs where p: "path = 47 # cs" "pct_text path_char cs" "cs \<noteq> [] \<longrightarrow> hd cs \<noteq> 47"
    using assms by (auto simp: path_ok_def split: list.splits)
  let ?s = "s\<lparr>hp_mark := length pre\<rparr>"
  have "http_dispatch (hp_uri_relaxed s) 3 47 = Tr 10"
    by (simp add: http_dispatch_def http_case_3_def widec_def)
  then have 1: "goes pre 3 s [47] [] 33 ?s"
    by (rule goes_Tr [where evs = "[]" and acts = "[do_mark]"]) (simp_all add: do_mark_def)
  show ?thesis
  proof (cases cs)
    case Nil
    then show ?thesis using 1 p(1) by blast
  next
    case (Cons c ds)
    have "http_dispatch (hp_uri_relaxed s) 33 c = http_dispatch (hp_uri_relaxed s) 26 c" if "c \<noteq> 47"
      using that by (simp add: http_dispatch_def http_case_33_def http_case_26_def Let_def widec_def)
    then have same: "http_run (cs @ ys) q 33 ?s = http_run (cs @ ys) q 26 ?s" for ys q
      using Cons p(3) by simp
    have "goes (pre @ [47]) 26 ?s cs [] 26 ?s"
      by (rule goes_pct [OF pct_loops(1) p(2)])
    then have "goes (pre @ [47]) 33 ?s cs [] 26 ?s" unfolding goes_def same .
    from goes_Cons [OF 1 this] show ?thesis using p(1) by auto
  qed
qed

text \<open>What ends the target: the space before the version, or the start of a fragment.\<close>

definition target_end :: "int \<Rightarrow> nat \<Rightarrow> bool" where
  "target_end e n \<longleftrightarrow> e = 32 \<and> n = 4 \<or> e = 35 \<and> n = 20"

lemma dispatch_target_end:
  "http_dispatch r 26 32 = Tr 37" "http_dispatch r 33 32 = Tr 37"
  "http_dispatch r 26 35 = Tr 39" "http_dispatch r 33 35 = Tr 39"
  "http_dispatch r 26 63 = Tr 42" "http_dispatch r 33 63 = Tr 42"
  "http_dispatch r 29 32 = Tr 54" "http_dispatch r 29 35 = Tr 55"
  "http_dispatch r 30 32 = Tr 58" "http_dispatch r 30 35 = Tr 59"
  by (simp_all add: http_dispatch_def http_case_26_def http_case_33_def http_case_29_def http_case_30_def widec_def)

lemma dispatch_first_char:
  assumes "query_char c" "c \<noteq> 37"
  shows "http_dispatch r 29 c = Tr 53" "http_dispatch r 20 c = Tr 43"
  using assms unfolding query_char_def path_char_def
  by (elim disjE conjE; simp add: http_dispatch_def http_case_29_def http_case_20_def widec_def Let_def)+

lemma goes_path_end:
  assumes "n = 26 \<or> n = 33" "target_end e n'" "hp_mark s = length pre" "all_set s"
    "length (pre @ path) < 2 ^ 64"
  shows "goes (pre @ path) n s [e] [Text Request_path path, Text Request_uri path] n' s"
proof (rule goes_Tr)
  show "http_dispatch (hp_uri_relaxed s) n e = Tr (if e = 32 then 37 else 39)"
    using assms(1,2) by (auto simp: target_end_def dispatch_target_end)
  show "http_transition (if e = 32 then 37 else 39) = ([do_request_path, do_request_uri], Go n')"
    using assms(2) by (auto simp: target_end_def)
  show "do_all [do_request_path, do_request_uri] (length (pre @ path)) pe s
      = (s, [Element Request_path (length pre) (length path), Element Request_uri (length pre) (length path)])" for pe
    using assms(3-5) by (simp add: http_actions all_set_def)
qed simp

lemma goes_query_start:
  assumes "n = 26 \<or> n = 33" "hp_mark s = length pre" "all_set s" "length (pre @ path) < 2 ^ 64"
  shows "goes (pre @ path) n s [63] [Text Request_path path] 29 s"
proof -
  have "http_dispatch (hp_uri_relaxed s) n 63 = Tr 42"
    using assms(1) by (auto simp: dispatch_target_end)
  then show ?thesis
    by (rule goes_Tr [where acts = "[do_request_path]" and evs = "[Element Request_path (length pre) (length path)]"])
      (use assms(2-4) in \<open>simp_all add: http_actions all_set_def\<close>)
qed

lemma goes_query_text:
  assumes "pct_text query_char q" "q \<noteq> []"
  shows "goes pre 29 s q [] 30 (s\<lparr>hp_query_start := length pre\<rparr>)"
proof -
  let ?s = "s\<lparr>hp_query_start := length pre\<rparr>"
  obtain c cs where q: "q = c # cs" using assms(2) by (cases q) auto
  show ?thesis
  proof (cases "c = 37")
    case True
    then obtain x y ds where cs: "cs = [x, y] @ ds" "hex_char x" "hex_char y" "pct_text query_char ds"
      using assms(1) q by (auto split: list.splits)
    have "http_dispatch (hp_uri_relaxed s) 29 37 = Tr 56"
      by (simp add: http_dispatch_def http_case_29_def widec_def)
    then have 1: "goes pre 29 s [37] [] 31 ?s"
      by (rule goes_Tr [where evs = "[]" and acts = "[do_start_query]"]) (simp_all add: http_actions)
    have l: "pct_loop (hp_uri_relaxed ?s) 30 31 32 query_char" by (rule pct_loops)
    note 2 = goes_trans [OF goes_pct_hex [OF l cs(2,3)] goes_pct [OF l cs(4)]]
    from goes_Cons [OF 1 2] show ?thesis using q True cs(1) by simp
  next
    case False
    then have c: "query_char c" "pct_text query_char cs" using assms(1) q by auto
    have "http_dispatch (hp_uri_relaxed s) 29 c = Tr 53"
      using c(1) False by (rule dispatch_first_char)
    then have 1: "goes pre 29 s [c] [] 30 ?s"
      by (rule goes_Tr [where evs = "[]" and acts = "[do_start_query]"]) (simp_all add: http_actions)
    from goes_Cons [OF 1 goes_pct [OF pct_loops(2) c(2)]] show ?thesis using q by simp
  qed
qed

lemma goes_query:
  assumes "pct_text query_char q" "target_end e n'" "hp_mark s = length pre" "all_set s"
    "length (pre @ path @ 63 # q) < 2 ^ 64"
  shows "\<exists>s'. goes (pre @ path @ [63]) 29 s (q @ [e]) [Text Query_string q, Text Request_uri (path @ 63 # q)] n' s'
    \<and> same_config s s'"
proof (intro exI conjI)
  let ?s = "s\<lparr>hp_query_start := length (pre @ path @ [63])\<rparr>"
  let ?evs = "[Element Query_string (length (pre @ path @ [63])) (length q),
      Element Request_uri (length pre) (length (path @ 63 # q))]"
  have h: "map (hears ((pre @ path @ [63]) @ q @ e # ys)) ?evs
      = [Text Query_string q, Text Request_uri (path @ 63 # q)]" for ys
    using slice_append [of "length (pre @ path @ [63])" "pre @ path @ [63]" "length q" q "e # ys"]
      slice_append [of "length pre" pre "length (path @ 63 # q)" "path @ 63 # q" "e # ys"] by simp
  show "goes (pre @ path @ [63]) 29 s (q @ [e]) [Text Query_string q, Text Request_uri (path @ 63 # q)] n' ?s"
  proof (cases "q = []")
    case True
    have "http_dispatch (hp_uri_relaxed s) 29 e = Tr (if e = 32 then 54 else 55)"
      using assms(2) by (auto simp: target_end_def dispatch_target_end)
    then have "goes (pre @ path @ [63]) 29 s [e] [Text Query_string q, Text Request_uri (path @ 63 # q)] n' ?s"
    proof (rule goes_Tr)
      show "http_transition (if e = 32 then 54 else 55) = ([do_start_query, do_query_string, do_request_uri], Go n')"
        using assms(2) by (auto simp: target_end_def)
      show "do_all [do_start_query, do_query_string, do_request_uri] (length (pre @ path @ [63])) pe s = (?s, ?evs)" for pe
        using assms(3-5) True by (simp add: http_actions all_set_def)
      show "map (hears ((pre @ path @ [63]) @ e # ys)) ?evs = [Text Query_string q, Text Request_uri (path @ 63 # q)]" for ys
        using h [of ys] True by simp
    qed
    then show ?thesis using True by simp
  next
    case False
    note 1 = goes_query_text [OF assms(1) False, of "pre @ path @ [63]" s]
    have "http_dispatch (hp_uri_relaxed ?s) 30 e = Tr (if e = 32 then 58 else 59)"
      using assms(2) by (auto simp: target_end_def dispatch_target_end)
    then have 2: "goes ((pre @ path @ [63]) @ q) 30 ?s [e] [Text Query_string q, Text Request_uri (path @ 63 # q)] n' ?s"
    proof (rule goes_Tr)
      show "http_transition (if e = 32 then 58 else 59) = ([do_query_string, do_request_uri], Go n')"
        using assms(2) by (auto simp: target_end_def)
      show "do_all [do_query_string, do_request_uri] (length ((pre @ path @ [63]) @ q)) pe ?s = (?s, ?evs)" for pe
        using assms(3-5) by (simp add: http_actions all_set_def)
      show "map (hears (((pre @ path @ [63]) @ q) @ e # ys)) ?evs = [Text Query_string q, Text Request_uri (path @ 63 # q)]" for ys
        using h [of ys] by simp
    qed
    from goes_trans [OF 1 2] show ?thesis by simp
  qed
qed simp

lemma goes_fragment_text:
  assumes "pct_text query_char f" "f \<noteq> []"
  shows "goes pre 20 s f [] 21 (s\<lparr>hp_mark := length pre\<rparr>)"
proof -
  let ?s = "s\<lparr>hp_mark := length pre\<rparr>"
  obtain c cs where f: "f = c # cs" using assms(2) by (cases f) auto
  show ?thesis
  proof (cases "c = 37")
    case True
    then obtain x y ds where cs: "cs = [x, y] @ ds" "hex_char x" "hex_char y" "pct_text query_char ds"
      using assms(1) f by (auto split: list.splits)
    have "http_dispatch (hp_uri_relaxed s) 20 37 = Tr 45"
      by (simp add: http_dispatch_def http_case_20_def widec_def)
    then have 1: "goes pre 20 s [37] [] 22 ?s"
      by (rule goes_Tr [where evs = "[]" and acts = "[do_mark]"]) (simp_all add: http_actions)
    have l: "pct_loop (hp_uri_relaxed ?s) 21 22 23 query_char" by (rule pct_loops)
    note 2 = goes_trans [OF goes_pct_hex [OF l cs(2,3)] goes_pct [OF l cs(4)]]
    from goes_Cons [OF 1 2] show ?thesis using f True cs(1) by simp
  next
    case False
    then have c: "query_char c" "pct_text query_char cs" using assms(1) f by auto
    have "http_dispatch (hp_uri_relaxed s) 20 c = Tr 43"
      using c(1) False by (rule dispatch_first_char)
    then have 1: "goes pre 20 s [c] [] 21 ?s"
      by (rule goes_Tr [where evs = "[]" and acts = "[do_mark]"]) (simp_all add: http_actions)
    from goes_Cons [OF 1 goes_pct [OF pct_loops(3) c(2)]] show ?thesis using f by simp
  qed
qed

lemma goes_fragment:
  assumes "pct_text query_char f" "all_set s" "length (pre @ f) < 2 ^ 64"
  shows "goes pre 20 s (f @ [32]) [Text Fragment f] 4 (s\<lparr>hp_mark := length pre\<rparr>)"
proof (cases "f = []")
  case True
  have "http_dispatch (hp_uri_relaxed s) 20 32 = Tr 44"
    by (simp add: http_dispatch_def http_case_20_def widec_def)
  then have "goes pre 20 s [32] [Text Fragment f] 4 (s\<lparr>hp_mark := length pre\<rparr>)"
    by (rule goes_Tr [where acts = "[do_mark, do_fragment]" and evs = "[Element Fragment (length pre) 0]"])
      (use assms True in \<open>simp_all add: http_actions all_set_def slice_def\<close>)
  then show ?thesis using True by simp
next
  case False
  let ?s = "s\<lparr>hp_mark := length pre\<rparr>"
  have "http_dispatch (hp_uri_relaxed ?s) 21 32 = Tr 47"
    by (simp add: http_dispatch_def http_case_21_def widec_def)
  then have 2: "goes (pre @ f) 21 ?s [32] [Text Fragment f] 4 ?s"
    by (rule goes_Tr [where acts = "[do_fragment]" and evs = "[Element Fragment (length pre) (length f)]"])
      (use assms in \<open>simp_all add: http_actions all_set_def\<close>)
  from goes_trans [OF goes_fragment_text [OF assms(1) False] 2] show ?thesis by simp
qed

definition target_bytes :: "int list \<Rightarrow> int list option \<Rightarrow> int list option \<Rightarrow> int list" where
  "target_bytes path q f = path @ (case q of None \<Rightarrow> [] | Some q \<Rightarrow> 63 # q) @ (case f of None \<Rightarrow> [] | Some f \<Rightarrow> 35 # f)"

definition target_ok :: "int list \<Rightarrow> int list option \<Rightarrow> int list option \<Rightarrow> bool" where
  "target_ok path q f \<longleftrightarrow> path_ok path \<and> pred_option (pct_text query_char) q \<and> pred_option (pct_text query_char) f"

definition target_heard :: "int list \<Rightarrow> int list option \<Rightarrow> int list option \<Rightarrow> heard list" where
  "target_heard path q f = Text Request_path path
     # (case q of None \<Rightarrow> [Text Request_uri path]
        | Some q \<Rightarrow> [Text Query_string q, Text Request_uri (path @ 63 # q)])
     @ (case f of None \<Rightarrow> [] | Some f \<Rightarrow> [Text Fragment f])"

text \<open>The path and the query, up to what ends them.\<close>

lemma goes_hier:
  assumes "path_ok path" "pred_option (pct_text query_char) q" "target_end e n'" "all_set s"
    "length (pre @ target_bytes path q None) < 2 ^ 64"
  shows "\<exists>s'. goes pre 3 s (target_bytes path q None @ [e]) (target_heard path q None) n' s' \<and> same_config s s'"
proof -
  let ?s = "s\<lparr>hp_mark := length pre\<rparr>"
  have set: "all_set ?s" using assms(4) by (simp add: all_set_def)
  obtain n where n: "n = 26 \<or> n = 33" "goes pre 3 s path [] n ?s"
    using goes_path [OF assms(1)] by blast
  show ?thesis
  proof (cases q)
    case None
    have "goes (pre @ path) n ?s [e] [Text Request_path path, Text Request_uri path] n' ?s"
      using assms(3,5) set None by (intro goes_path_end [OF n(1)]) (auto simp: target_bytes_def)
    from goes_trans [OF n(2) this] None show ?thesis
      by (auto simp: target_bytes_def target_heard_def)
  next
    case (Some r)
    have 1: "goes (pre @ path) n ?s [63] [Text Request_path path] 29 ?s"
      using assms(5) set Some by (intro goes_query_start [OF n(1)]) (auto simp: target_bytes_def)
    have "pct_text query_char r" using assms(2) Some by simp
    from goes_query [OF this assms(3) _ set, of pre path] assms(5) Some obtain s' where
      2: "goes (pre @ path @ [63]) 29 ?s (r @ [e]) [Text Query_string r, Text Request_uri (path @ 63 # r)] n' s'"
      and c: "same_config ?s s'" by (auto simp: target_bytes_def)
    have "goes pre 3 s (target_bytes path q None @ [e]) (target_heard path q None) n' s'"
      using goes_trans [OF goes_trans [OF n(2) 1]] 2 Some by (simp add: target_bytes_def target_heard_def)
    moreover have "same_config s s'" using c by (rule same_config_trans [rotated]) simp
    ultimately show ?thesis by blast
  qed
qed

lemma goes_target:
  assumes "target_ok path q f" "all_set s" "length (pre @ target_bytes path q f) < 2 ^ 64"
  shows "\<exists>s'. goes pre 3 s (target_bytes path q f @ [32]) (target_heard path q f) 4 s' \<and> same_config s s'"
proof (cases f)
  case None
  then show ?thesis using goes_hier [of path q 32 4 s pre] assms by (simp add: target_ok_def target_end_def)
next
  case (Some g)
  have split: "target_bytes path q f = target_bytes path q None @ [35] @ g"
    "target_heard path q f = target_heard path q None @ [Text Fragment g]"
    using Some by (simp_all add: target_bytes_def target_heard_def split: option.split)
  obtain s1 where s1: "goes pre 3 s (target_bytes path q None @ [35]) (target_heard path q None) 20 s1"
    "same_config s s1"
    using goes_hier [of path q 35 20 s pre] assms split by (auto simp: target_ok_def target_end_def)
  have "goes (pre @ target_bytes path q None @ [35]) 20 s1 (g @ [32]) [Text Fragment g] 4
      (s1\<lparr>hp_mark := length (pre @ target_bytes path q None @ [35])\<rparr>)"
    using assms Some split same_config_all_set [OF s1(2) assms(2)]
    by (intro goes_fragment) (auto simp: target_ok_def)
  with goes_trans [OF s1(1)] have "goes pre 3 s (target_bytes path q f @ [32]) (target_heard path q f) 4
      (s1\<lparr>hp_mark := length (pre @ target_bytes path q None @ [35])\<rparr>)"
    using split by simp
  then show ?thesis using same_config_trans [OF s1(2) same_config_upd(1)] by blast
qed

section \<open>The version and the header fields\<close>

definition version_ok :: "int list \<Rightarrow> bool" where
  "version_ok v \<longleftrightarrow> v = [72, 84, 84, 80, 47, 49, 46, 48] \<or> v = [72, 84, 84, 80, 47, 49, 46, 49]"

lemma dispatch_version:
  "http_dispatch r 4 72 = Tr 13" "http_dispatch r 5 84 = St 6" "http_dispatch r 6 84 = St 7"
  "http_dispatch r 7 80 = St 8" "http_dispatch r 8 47 = St 9" "http_dispatch r 9 49 = St 10"
  "http_dispatch r 10 46 = St 11" "http_dispatch r 11 48 = St 12" "http_dispatch r 11 49 = St 12"
  "http_dispatch r 12 13 = Tr 22" "http_dispatch r 17 10 = St 13"
  by (simp_all add: http_dispatch_def http_case_4_def http_case_5_def http_case_6_def http_case_7_def
      http_case_8_def http_case_9_def http_case_10_def http_case_11_def http_case_12_def http_case_17_def)

lemma goes_version:
  assumes "version_ok v" "all_set s" "length (pre @ v) < 2 ^ 64"
  shows "goes pre 4 s (v @ [13, 10]) [Text Http_version v] 13 (s\<lparr>hp_mark := length pre\<rparr>)"
proof -
  let ?s = "s\<lparr>hp_mark := length pre\<rparr>"
  obtain d where v: "v = [72, 84, 84, 80, 47, 49, 46, d]" "d = 48 \<or> d = 49"
    using assms(1) by (auto simp: version_ok_def)
  have "goes pre 4 s [72] [] 5 ?s"
    by (rule goes_Tr [where acts = "[do_mark]" and evs = "[]" and k = 13])
      (simp_all add: dispatch_version do_mark_def)
  moreover have "goes (pre @ [72]) 5 ?s [84] [] 6 ?s" "goes ((pre @ [72]) @ [84]) 6 ?s [84] [] 7 ?s"
    "goes (((pre @ [72]) @ [84]) @ [84]) 7 ?s [80] [] 8 ?s"
    "goes ((((pre @ [72]) @ [84]) @ [84]) @ [80]) 8 ?s [47] [] 9 ?s"
    "goes (((((pre @ [72]) @ [84]) @ [84]) @ [80]) @ [47]) 9 ?s [49] [] 10 ?s"
    "goes ((((((pre @ [72]) @ [84]) @ [84]) @ [80]) @ [47]) @ [49]) 10 ?s [46] [] 11 ?s"
    "goes (((((((pre @ [72]) @ [84]) @ [84]) @ [80]) @ [47]) @ [49]) @ [46]) 11 ?s [d] [] 12 ?s"
    using v(2) by (auto intro!: goes_St simp: dispatch_version)
  ultimately have 1: "goes pre 4 s v [] 12 ?s"
    unfolding v(1) by (blast intro: goes_Cons [where hs = "[]" and hs' = "[]", simplified])
  have "goes (pre @ v) 12 ?s [13] [Text Http_version v] 17 ?s"
    by (rule goes_Tr [where acts = "[do_http_version]" and k = 22
          and evs = "[Element Http_version (length pre) (length v)]"])
      (use assms(2,3) in \<open>simp_all add: dispatch_version http_actions all_set_def\<close>)
  moreover have "goes ((pre @ v) @ [13]) 17 ?s [10] [] 13 ?s"
    by (rule goes_St) (simp_all add: dispatch_version)
  ultimately have "goes (pre @ v) 12 ?s [13, 10] [Text Http_version v] 13 ?s"
    using goes_Cons by fastforce
  from goes_trans [OF 1 this] show ?thesis by simp
qed

lemma dispatch_field:
  shows "token_char c \<Longrightarrow> http_dispatch r 13 c = Tr 23" "token_char c \<Longrightarrow> http_dispatch r 14 c = St 14"
    "http_dispatch r 14 58 = Tr 27"
    "http_dispatch r 15 32 = Tr 29" "http_dispatch r 15 9 = Tr 29" "http_dispatch r 15 13 = Tr 31"
    "value_char c \<Longrightarrow> c \<noteq> 32 \<Longrightarrow> c \<noteq> 9 \<Longrightarrow> http_dispatch r 15 c = Tr 28"
    "value_char c \<Longrightarrow> http_dispatch r 16 c = St 16" "http_dispatch r 16 13 = Tr 34"
    "http_dispatch r 13 13 = Tr 25" "http_dispatch r 18 10 = Tr 36"
  unfolding token_char_def value_char_def
  by ((elim disjE conjE)?; simp add: http_dispatch_def http_case_13_def http_case_14_def http_case_15_def
      http_case_16_def http_case_18_def)+

lemma goes_ws: "\<forall>c \<in> set ws. c = 32 \<or> c = 9 \<Longrightarrow> \<exists>a. goes pre 15 s ws [] 15 (s\<lparr>hp_mark := a\<rparr>)"
proof (induction ws arbitrary: pre s)
  case Nil
  then show ?case by (intro exI [of _ "hp_mark s"]) simp
next
  case (Cons c ws)
  let ?s = "s\<lparr>hp_mark := length pre\<rparr>"
  have "http_dispatch (hp_uri_relaxed s) 15 c = Tr 29" using Cons.prems(1) by (auto simp: dispatch_field)
  then have 1: "goes pre 15 s [c] [] 15 ?s"
    by (rule goes_Tr [where acts = "[do_start_value]" and evs = "[]"]) (simp_all add: do_start_value_def)
  obtain a where "goes (pre @ [c]) 15 ?s ws [] 15 (?s\<lparr>hp_mark := a\<rparr>)"
    using Cons.IH [of "pre @ [c]" ?s] Cons.prems(1) by auto
  with goes_Cons [OF 1] show ?case by (intro exI [of _ a]) fastforce
qed

lemma goes_field_name:
  assumes "name \<noteq> []" "\<forall>c \<in> set name. token_char c" "length (pre @ name) < 2 ^ 64"
  shows "goes pre 13 s (name @ [58]) [] 15 (s\<lparr>hp_field_start := length pre, hp_field_len := length name\<rparr>)"
proof -
  let ?s = "s\<lparr>hp_field_start := length pre\<rparr>"
  obtain c cs where n: "name = c # cs" using assms(1) by (cases name) auto
  have "http_dispatch (hp_uri_relaxed s) 13 c = Tr 23" using assms(2) n by (auto simp: dispatch_field)
  then have 1: "goes pre 13 s [c] [] 14 ?s"
    by (rule goes_Tr [where acts = "[do_start_field]" and evs = "[]"]) (simp_all add: do_start_field_def)
  have 2: "goes (pre @ [c]) 14 ?s cs [] 14 ?s"
    using assms(2) n by (intro goes_loop) (auto simp: dispatch_field)
  have 3: "goes (pre @ name) 14 ?s [58] [] 15 (?s\<lparr>hp_field_len := length name\<rparr>)"
    by (rule goes_Tr [where acts = "[do_write_field]" and k = 27 and evs = "[]"])
      (use assms(3) in \<open>simp_all add: dispatch_field do_write_field_def\<close>)
  from goes_trans [OF goes_Cons [OF 1 2], of "[58]"] 3 show ?thesis by (simp add: n)
qed

section \<open>A whole request\<close>

lemma goes_field_value:
  assumes "\<forall>c \<in> set v. value_char c" "v \<noteq> [] \<longrightarrow> hd v \<noteq> 32 \<and> hd v \<noteq> 9" "all_set s"
    "hp_field_start s = length pre" "hp_field_len s = length name"
    "length (pre @ name @ mid @ v) < 2 ^ 64"
  shows "\<exists>a. goes (pre @ name @ mid) 15 s (v @ [13, 10]) [Header name v] 13 (s\<lparr>hp_mark := a\<rparr>)"
proof -
  let ?s = "s\<lparr>hp_mark := length (pre @ name @ mid)\<rparr>"
  let ?evs = "[Field (length pre) (length name) (length (pre @ name @ mid)) (length v)]"
  have h: "map (hears ((pre @ name @ mid) @ v @ 13 # ys)) ?evs = [Header name v]" for ys
    using slice_append [of "length pre" pre "length name" name "mid @ v @ 13 # ys"]
      slice_append [of "length (pre @ name @ mid)" "pre @ name @ mid" "length v" v "13 # ys"] by simp
  have cr: "goes (pre @ name @ mid) 15 s (v @ [13]) [Header name v] 17 ?s"
  proof (cases v)
    case Nil
    have "goes (pre @ name @ mid) 15 s [13] [Header name v] 17 ?s"
    proof (rule goes_Tr)
      show "http_dispatch (hp_uri_relaxed s) 15 13 = Tr 31" by (simp add: dispatch_field)
      show "do_all [do_start_value, do_write_value] (length (pre @ name @ mid)) pe s = (?s, ?evs)" for pe
        using assms(3-6) Nil by (simp add: http_actions all_set_def)
      show "map (hears ((pre @ name @ mid) @ 13 # ys)) ?evs = [Header name v]" for ys
        using h [of ys] Nil by simp
    qed simp
    then show ?thesis using Nil by simp
  next
    case (Cons c cs)
    have "http_dispatch (hp_uri_relaxed s) 15 c = Tr 28"
      using assms(1,2) Cons by (intro dispatch_field) auto
    then have 1: "goes (pre @ name @ mid) 15 s [c] [] 16 ?s"
      by (rule goes_Tr [where acts = "[do_start_value]" and evs = "[]"]) (simp_all add: do_start_value_def)
    have 2: "goes ((pre @ name @ mid) @ [c]) 16 ?s cs [] 16 ?s"
      using assms(1) Cons by (intro goes_loop) (auto simp: dispatch_field)
    have 3: "goes ((pre @ name @ mid) @ v) 16 ?s [13] [Header name v] 17 ?s"
    proof (rule goes_Tr)
      show "http_dispatch (hp_uri_relaxed ?s) 16 13 = Tr 34" by (simp add: dispatch_field)
      show "do_all [do_write_value] (length ((pre @ name @ mid) @ v)) pe ?s = (?s, ?evs)" for pe
        using assms(3-6) by (simp add: http_actions all_set_def)
      show "map (hears (((pre @ name @ mid) @ v) @ 13 # ys)) ?evs = [Header name v]" for ys
        using h [of ys] by simp
    qed simp
    from goes_trans [OF goes_Cons [OF 1 2], of "[13]"] 3 show ?thesis using Cons by simp
  qed
  have "goes ((pre @ name @ mid) @ v @ [13]) 17 ?s [10] [] 13 ?s"
    by (rule goes_St) (simp_all add: dispatch_version)
  from goes_trans [OF cr this] show ?thesis by auto
qed

definition header_of :: "int list \<times> int list \<times> int list \<Rightarrow> heard" where
  "header_of h = (case h of (name, ws, v) \<Rightarrow> Header name v)"

lemma goes_field:
  assumes "field_ok h" "all_set s" "length (pre @ field_line h) < 2 ^ 64"
  shows "\<exists>s'. goes pre 13 s (field_line h) [header_of h] 13 s' \<and> same_config s s'"
proof -
  obtain name ws v where h: "h = (name, ws, v)" by (cases h)
  note ok = assms(1)[unfolded h field_ok_def, simplified]
  let ?s = "s\<lparr>hp_field_start := length pre, hp_field_len := length name\<rparr>"
  have 1: "goes pre 13 s (name @ [58]) [] 15 ?s"
    using ok assms(3) h by (intro goes_field_name) (auto simp: list_all_iff field_line_def)
  obtain a where 2: "goes (pre @ name @ [58]) 15 ?s ws [] 15 (?s\<lparr>hp_mark := a\<rparr>)"
    using goes_ws [of ws "pre @ name @ [58]" ?s] ok by (auto simp: list_all_iff)
  obtain b where 3: "goes (pre @ name @ [58] @ ws) 15 (?s\<lparr>hp_mark := a\<rparr>) (v @ [13, 10]) [Header name v] 13
      (?s\<lparr>hp_mark := a, hp_mark := b\<rparr>)"
    using goes_field_value [of v "?s\<lparr>hp_mark := a\<rparr>" pre name "[58] @ ws"] ok assms(2,3) h
    by (auto simp: list_all_iff field_line_def all_set_def)
  have "goes pre 13 s (field_line h) [header_of h] 13 (?s\<lparr>hp_mark := a, hp_mark := b\<rparr>)"
    using goes_trans [OF goes_trans [OF 1], of ws] 2 goes_trans 3
    by (fastforce simp: h field_line_def header_of_def)
  moreover have "same_config s (?s\<lparr>hp_mark := a, hp_mark := b\<rparr>)" by (simp add: same_config_def)
  ultimately show ?thesis by blast
qed

lemma goes_fields:
  "list_all field_ok hs \<Longrightarrow> all_set s \<Longrightarrow> length (pre @ concat (map field_line hs)) < 2 ^ 64
    \<Longrightarrow> \<exists>s'. goes pre 13 s (concat (map field_line hs)) (map header_of hs) 13 s' \<and> same_config s s'"
proof (induction hs arbitrary: pre s)
  case Nil
  then show ?case by (intro exI [of _ s]) simp
next
  case (Cons h hs)
  obtain s1 where s1: "goes pre 13 s (field_line h) [header_of h] 13 s1" "same_config s s1"
    using goes_field [of h s pre] Cons.prems by auto
  obtain s2 where s2: "goes (pre @ field_line h) 13 s1 (concat (map field_line hs)) (map header_of hs) 13 s2"
    "same_config s1 s2"
    using Cons.IH [of s1 "pre @ field_line h"] Cons.prems same_config_all_set [OF s1(2)] by auto
  from goes_trans [OF s1(1) s2(1)] same_config_trans [OF s1(2) s2(2)] show ?case by auto
qed

definition request_bytes :: "int list \<Rightarrow> int list \<Rightarrow> int list option \<Rightarrow> int list option \<Rightarrow> int list
    \<Rightarrow> (int list \<times> int list \<times> int list) list \<Rightarrow> int list" where
  "request_bytes m path q f v hs = (m @ [32]) @ (target_bytes path q f @ [32]) @ (v @ [13, 10])
     @ concat (map field_line hs) @ [13, 10]"

definition request_ok :: "int list \<Rightarrow> int list \<Rightarrow> int list option \<Rightarrow> int list option \<Rightarrow> int list
    \<Rightarrow> (int list \<times> int list \<times> int list) list \<Rightarrow> bool" where
  "request_ok m path q f v hs \<longleftrightarrow> m \<noteq> [] \<and> list_all method_char m \<and> length m \<le> 20 \<and> target_ok path q f
     \<and> version_ok v \<and> list_all field_ok hs"

definition request_heard :: "int list \<Rightarrow> int list \<Rightarrow> int list option \<Rightarrow> int list option \<Rightarrow> int list
    \<Rightarrow> (int list \<times> int list \<times> int list) list \<Rightarrow> heard list" where
  "request_heard m path q f v hs =
     Text Request_method m # target_heard path q f @ Text Http_version v # map header_of hs"

lemma goes_request:
  assumes "request_ok m path q f v hs" "all_set s" "length (request_bytes m path q f v hs) < 2 ^ 64"
  shows "\<exists>s'. goes [] 1 s ((m @ [32]) @ (target_bytes path q f @ [32]) @ (v @ [13, 10]) @ concat (map field_line hs))
    (request_heard m path q f v hs) 13 s' \<and> same_config s s'"
proof -
  note ok = assms(1)[unfolded request_ok_def]
  note len = assms(3)[unfolded request_bytes_def]
  let ?s1 = "s\<lparr>hp_mark := length ([] :: int list)\<rparr>"
  have 1: "goes [] 1 s (m @ [32]) [Text Request_method m] 3 ?s1"
    using ok len assms(2) by (intro goes_method) (auto simp: list_all_iff)
  have c1: "same_config s ?s1" by simp
  obtain s2 where 2: "goes ([] @ m @ [32]) 3 ?s1 (target_bytes path q f @ [32]) (target_heard path q f) 4 s2"
    "same_config ?s1 s2"
    using goes_target [of path q f ?s1 "[] @ m @ [32]"] ok len same_config_all_set [OF c1 assms(2)] by auto
  have c2: "same_config s s2" by (rule same_config_trans [OF c1 2(2)])
  let ?pre = "[] @ (m @ [32]) @ target_bytes path q f @ [32]"
  let ?s3 = "s2\<lparr>hp_mark := length ?pre\<rparr>"
  have 3: "goes ?pre 4 s2 (v @ [13, 10]) [Text Http_version v] 13 ?s3"
    using ok len same_config_all_set [OF c2 assms(2)] by (intro goes_version) auto
  have c3: "same_config s ?s3" using c2 by (simp add: same_config_def)
  obtain s4 where 4: "goes (?pre @ v @ [13, 10]) 13 ?s3 (concat (map field_line hs)) (map header_of hs) 13 s4"
    "same_config ?s3 s4"
    using goes_fields [of hs ?s3 "?pre @ v @ [13, 10]"] ok len same_config_all_set [OF c3 assms(2)] by auto
  have "same_config s s4" by (rule same_config_trans [OF c3 4(2)])
  then show ?thesis
    using goes_trans [OF goes_trans [OF goes_trans [OF 1 2(1)], of "v @ [13, 10]"], of "[Text Http_version v]" 13 ?s3
        "concat (map field_line hs)" "map header_of hs" 13 s4] 3 4(1)
    by (auto simp: request_heard_def)
qed

text \<open>The empty line ends the request.\<close>

lemma run_empty_line:
  assumes "all_set s" "\<not> hp_xml_sent s" "\<not> hp_json_sent s"
  shows "\<exists>s'. http_run ([13, 10] @ body) p 13 s
      = (p + 2, 348, s', [Element Header_done (p + 2) (length body)]) \<and> hp_body_start s' = p + 2"
  using assms
  by (simp add: dispatch_field http_actions all_set_def numeral_2_eq_2)

end
