(* ===== verification/HttpInside.thy ===== *)
theory HttpInside
  imports HttpMachine
begin

text \<open>
  The marks of the request machine: in every state the slices that the actions pass on are inside the
  buffer, and the assertions behind the loop hold.
\<close>

section \<open>Slices stay inside the buffer\<close>

text \<open>
  The states that read a query (30, 31, 32) and the value of a field (15, 16) rely on marks set earlier;
  \<open>plain\<close> labels neither enter these states nor use these marks.
\<close>

definition plain_trs :: "nat set" where
  "plain_trs = {0, 2, 3, 4, 6, 7, 8, 9, 10, 11, 12, 13, 21, 22, 23, 24, 25, 27, 36, 37, 39, 42, 43, 44, 45, 47,
     53, 54, 55, 56, 203, 204, 224, 227, 228, 232, 235}"

fun plain :: "label \<Rightarrow> bool" where
  "plain (St n) \<longleftrightarrow> n \<notin> {15, 16, 30, 31, 32}"
| "plain (Tr k) \<longleftrightarrow> k \<in> plain_trs"

lemma plain_if: "plain (if b then x else y) = (if b then plain x else plain y)"
  by simp

lemma plain_cases [simp]:
  shows "plain (http_case_1 r c)" "plain (http_case_2 r c)" "plain (http_case_3 r c)"
    "plain (http_case_4 r c)" "plain (http_case_5 r c)" "plain (http_case_6 r c)"
    "plain (http_case_7 r c)" "plain (http_case_8 r c)" "plain (http_case_9 r c)"
    "plain (http_case_10 r c)" "plain (http_case_11 r c)" "plain (http_case_12 r c)"
    "plain (http_case_13 r c)" "plain (http_case_14 r c)" "plain (http_case_17 r c)"
    "plain (http_case_18 r c)" "plain (http_case_19 r c)" "plain (http_case_20 r c)"
    "plain (http_case_21 r c)" "plain (http_case_22 r c)" "plain (http_case_23 r c)"
    "plain (http_case_24 r c)" "plain (http_case_25 r c)" "plain (http_case_26 r c)"
    "plain (http_case_27 r c)" "plain (http_case_28 r c)" "plain (http_case_29 r c)"
    "plain (http_case_33 r c)" "plain (http_case_34 r c)" "plain (http_case_35 r c)"
    "plain (http_case_36 r c)" "plain (http_case_37 r c)" "plain (http_case_38 r c)"
    "plain (http_case_39 r c)" "plain (http_case_40 r c)" "plain (http_case_41 r c)"
    "plain (http_case_42 r c)" "plain (http_case_43 r c)" "plain (http_case_44 r c)"
    "plain (http_case_45 r c)" "plain (http_case_46 r c)" "plain (http_case_47 r c)"
    "plain (http_case_48 r c)" "plain (http_case_49 r c)" "plain (http_case_50 r c)"
    "plain (http_case_51 r c)" "plain (http_case_52 r c)" "plain (http_case_53 r c)"
    "plain (http_case_54 r c)" "plain (http_case_55 r c)" "plain (http_case_56 r c)"
    "plain (http_case_57 r c)" "plain (http_case_58 r c)" "plain (http_case_59 r c)"
    "plain (http_case_60 r c)" "plain (http_case_61 r c)" "plain (http_case_62 r c)"
    "plain (http_case_63 r c)" "plain (http_case_64 r c)" "plain (http_case_65 r c)"
    "plain (http_case_66 r c)" "plain (http_case_67 r c)" "plain (http_case_68 r c)"
    "plain (http_case_69 r c)" "plain (http_case_70 r c)" "plain (http_case_71 r c)"
    "plain (http_case_72 r c)" "plain (http_case_73 r c)" "plain (http_case_74 r c)"
    "plain (http_case_75 r c)" "plain (http_case_76 r c)" "plain (http_case_77 r c)"
    "plain (http_case_78 r c)" "plain (http_case_79 r c)" "plain (http_case_80 r c)"
    "plain (http_case_81 r c)" "plain (http_case_82 r c)" "plain (http_case_83 r c)"
    "plain (http_case_84 r c)" "plain (http_case_85 r c)" "plain (http_case_86 r c)"
    "plain (http_case_87 r c)" "plain (http_case_88 r c)" "plain (http_case_89 r c)"
    "plain (http_case_90 r c)" "plain (http_case_91 r c)" "plain (http_case_92 r c)"
    "plain (http_case_93 r c)" "plain (http_case_94 r c)" "plain (http_case_95 r c)"
    "plain (http_case_96 r c)" "plain (http_case_97 r c)" "plain (http_case_98 r c)"
    "plain (http_case_99 r c)" "plain (http_case_100 r c)" "plain (http_case_101 r c)"
    "plain (http_case_102 r c)" "plain (http_case_103 r c)" "plain (http_case_104 r c)"
    "plain (http_case_105 r c)" "plain (http_case_106 r c)" "plain (http_case_107 r c)"
    "plain (http_case_108 r c)" "plain (http_case_109 r c)" "plain (http_case_110 r c)"
    "plain (http_case_111 r c)" "plain (http_case_112 r c)" "plain (http_case_113 r c)"
    "plain (http_case_114 r c)" "plain (http_case_115 r c)" "plain (http_case_116 r c)"
    "plain (http_case_117 r c)" "plain (http_case_118 r c)" "plain (http_case_119 r c)"
    "plain (http_case_120 r c)" "plain (http_case_121 r c)" "plain (http_case_122 r c)"
    "plain (http_case_123 r c)" "plain (http_case_124 r c)" "plain (http_case_125 r c)"
    "plain (http_case_126 r c)" "plain (http_case_127 r c)" "plain (http_case_128 r c)"
    "plain (http_case_129 r c)" "plain (http_case_130 r c)" "plain (http_case_131 r c)"
    "plain (http_case_132 r c)" "plain (http_case_133 r c)" "plain (http_case_134 r c)"
    "plain (http_case_135 r c)" "plain (http_case_136 r c)" "plain (http_case_137 r c)"
    "plain (http_case_138 r c)" "plain (http_case_139 r c)" "plain (http_case_140 r c)"
    "plain (http_case_141 r c)" "plain (http_case_142 r c)" "plain (http_case_143 r c)"
    "plain (http_case_144 r c)" "plain (http_case_145 r c)" "plain (http_case_146 r c)"
    "plain (http_case_147 r c)" "plain (http_case_148 r c)" "plain (http_case_149 r c)"
    "plain (http_case_150 r c)" "plain (http_case_151 r c)" "plain (http_case_152 r c)"
    "plain (http_case_153 r c)" "plain (http_case_154 r c)" "plain (http_case_155 r c)"
    "plain (http_case_156 r c)" "plain (http_case_157 r c)" "plain (http_case_158 r c)"
    "plain (http_case_159 r c)" "plain (http_case_160 r c)" "plain (http_case_161 r c)"
    "plain (http_case_162 r c)" "plain (http_case_163 r c)" "plain (http_case_164 r c)"
    "plain (http_case_165 r c)" "plain (http_case_166 r c)" "plain (http_case_167 r c)"
    "plain (http_case_168 r c)" "plain (http_case_169 r c)" "plain (http_case_170 r c)"
    "plain (http_case_171 r c)" "plain (http_case_172 r c)" "plain (http_case_173 r c)"
    "plain (http_case_174 r c)" "plain (http_case_175 r c)" "plain (http_case_176 r c)"
    "plain (http_case_177 r c)" "plain (http_case_178 r c)" "plain (http_case_179 r c)"
    "plain (http_case_180 r c)" "plain (http_case_181 r c)" "plain (http_case_182 r c)"
    "plain (http_case_183 r c)" "plain (http_case_184 r c)" "plain (http_case_185 r c)"
    "plain (http_case_186 r c)" "plain (http_case_187 r c)" "plain (http_case_188 r c)"
    "plain (http_case_189 r c)" "plain (http_case_190 r c)" "plain (http_case_191 r c)"
    "plain (http_case_192 r c)" "plain (http_case_193 r c)" "plain (http_case_194 r c)"
    "plain (http_case_195 r c)" "plain (http_case_196 r c)" "plain (http_case_197 r c)"
    "plain (http_case_198 r c)" "plain (http_case_199 r c)" "plain (http_case_200 r c)"
    "plain (http_case_201 r c)" "plain (http_case_202 r c)" "plain (http_case_203 r c)"
    "plain (http_case_204 r c)" "plain (http_case_205 r c)" "plain (http_case_206 r c)"
    "plain (http_case_207 r c)" "plain (http_case_208 r c)" "plain (http_case_209 r c)"
    "plain (http_case_210 r c)" "plain (http_case_211 r c)" "plain (http_case_212 r c)"
    "plain (http_case_213 r c)" "plain (http_case_214 r c)" "plain (http_case_215 r c)"
    "plain (http_case_216 r c)" "plain (http_case_217 r c)" "plain (http_case_218 r c)"
    "plain (http_case_219 r c)" "plain (http_case_220 r c)" "plain (http_case_221 r c)"
    "plain (http_case_222 r c)" "plain (http_case_223 r c)" "plain (http_case_224 r c)"
    "plain (http_case_225 r c)" "plain (http_case_226 r c)" "plain (http_case_227 r c)"
    "plain (http_case_228 r c)" "plain (http_case_229 r c)" "plain (http_case_230 r c)"
    "plain (http_case_231 r c)" "plain (http_case_232 r c)" "plain (http_case_233 r c)"
    "plain (http_case_234 r c)" "plain (http_case_235 r c)" "plain (http_case_236 r c)"
    "plain (http_case_237 r c)" "plain (http_case_238 r c)" "plain (http_case_239 r c)"
    "plain (http_case_240 r c)" "plain (http_case_241 r c)" "plain (http_case_242 r c)"
    "plain (http_case_243 r c)" "plain (http_case_244 r c)" "plain (http_case_245 r c)"
    "plain (http_case_246 r c)" "plain (http_case_247 r c)" "plain (http_case_248 r c)"
    "plain (http_case_249 r c)" "plain (http_case_250 r c)" "plain (http_case_251 r c)"
    "plain (http_case_252 r c)" "plain (http_case_253 r c)" "plain (http_case_254 r c)"
    "plain (http_case_255 r c)" "plain (http_case_256 r c)" "plain (http_case_257 r c)"
    "plain (http_case_258 r c)" "plain (http_case_259 r c)" "plain (http_case_260 r c)"
    "plain (http_case_261 r c)" "plain (http_case_262 r c)" "plain (http_case_263 r c)"
    "plain (http_case_264 r c)" "plain (http_case_265 r c)" "plain (http_case_266 r c)"
    "plain (http_case_267 r c)" "plain (http_case_268 r c)" "plain (http_case_269 r c)"
    "plain (http_case_270 r c)" "plain (http_case_271 r c)" "plain (http_case_272 r c)"
    "plain (http_case_273 r c)" "plain (http_case_274 r c)" "plain (http_case_275 r c)"
    "plain (http_case_276 r c)" "plain (http_case_277 r c)" "plain (http_case_278 r c)"
    "plain (http_case_279 r c)" "plain (http_case_280 r c)" "plain (http_case_281 r c)"
    "plain (http_case_282 r c)" "plain (http_case_283 r c)" "plain (http_case_284 r c)"
    "plain (http_case_285 r c)" "plain (http_case_286 r c)" "plain (http_case_287 r c)"
    "plain (http_case_288 r c)" "plain (http_case_289 r c)" "plain (http_case_290 r c)"
    "plain (http_case_291 r c)" "plain (http_case_292 r c)" "plain (http_case_293 r c)"
    "plain (http_case_294 r c)" "plain (http_case_295 r c)" "plain (http_case_296 r c)"
    "plain (http_case_297 r c)" "plain (http_case_298 r c)" "plain (http_case_299 r c)"
    "plain (http_case_300 r c)" "plain (http_case_301 r c)" "plain (http_case_302 r c)"
    "plain (http_case_303 r c)" "plain (http_case_304 r c)" "plain (http_case_305 r c)"
    "plain (http_case_306 r c)" "plain (http_case_307 r c)" "plain (http_case_308 r c)"
    "plain (http_case_309 r c)" "plain (http_case_310 r c)" "plain (http_case_311 r c)"
    "plain (http_case_312 r c)" "plain (http_case_313 r c)" "plain (http_case_314 r c)"
    "plain (http_case_315 r c)" "plain (http_case_316 r c)" "plain (http_case_317 r c)"
    "plain (http_case_318 r c)" "plain (http_case_319 r c)" "plain (http_case_320 r c)"
    "plain (http_case_321 r c)" "plain (http_case_322 r c)" "plain (http_case_323 r c)"
    "plain (http_case_324 r c)" "plain (http_case_325 r c)" "plain (http_case_326 r c)"
    "plain (http_case_327 r c)" "plain (http_case_328 r c)" "plain (http_case_329 r c)"
    "plain (http_case_330 r c)" "plain (http_case_331 r c)" "plain (http_case_332 r c)"
    "plain (http_case_333 r c)" "plain (http_case_334 r c)" "plain (http_case_335 r c)"
    "plain (http_case_336 r c)" "plain (http_case_337 r c)" "plain (http_case_338 r c)"
    "plain (http_case_339 r c)" "plain (http_case_340 r c)" "plain (http_case_341 r c)"
    "plain (http_case_342 r c)" "plain (http_case_343 r c)" "plain (http_case_344 r c)"
    "plain (http_case_345 r c)" "plain (http_case_346 r c)" "plain (http_case_347 r c)"
    "plain (http_case_348 r c)" "plain (http_case_349 r c)"
  by (simp_all add: http_case_defs Let_def plain_if plain_trs_def)

lemma plain_ifI: "(b \<Longrightarrow> plain x) \<Longrightarrow> (\<not> b \<Longrightarrow> plain y) \<Longrightarrow> plain (if b then x else y)"
  by simp

lemma dispatch_plain: "cs \<notin> {15, 16, 30, 31, 32} \<Longrightarrow> plain (http_dispatch r cs c)"
  unfolding http_dispatch_def by (intro plain_ifI plain_cases; simp; linarith)

text \<open>The five states themselves.\<close>

fun edge_ok :: "nat \<Rightarrow> label \<Rightarrow> bool" where
  "edge_ok cs (St n) \<longleftrightarrow> (n \<in> {30, 31, 32} \<longrightarrow> cs \<in> {30, 31, 32}) \<and> (n \<in> {15, 16} \<longrightarrow> cs \<in> {15, 16})"
| "edge_ok cs (Tr k) \<longleftrightarrow> k \<in> plain_trs \<or> cs \<in> {30, 31, 32} \<and> k \<in> {58, 59}
     \<or> cs \<in> {15, 16} \<and> k \<in> {28, 29, 30, 31, 33, 34}"

lemma edge_ok_plain: "plain l \<Longrightarrow> edge_ok cs l"
  by (cases l) auto

lemma edge_ok_if: "edge_ok cs (if b then x else y) = (if b then edge_ok cs x else edge_ok cs y)"
  by simp

lemma dispatch_edge: "edge_ok cs (http_dispatch r cs c)"
proof (cases "cs \<in> {15, 16, 30, 31, 32}")
  case True
  then show ?thesis
    by (elim insertE emptyE; simp add: http_dispatch_def http_case_15_def http_case_16_def http_case_30_def
        http_case_31_def http_case_32_def Let_def edge_ok_if)
next
  case False
  then show ?thesis by (intro edge_ok_plain dispatch_plain)
qed

lemmas http_tr_defs = http_tr_0_def http_tr_2_def http_tr_3_def http_tr_4_def http_tr_6_def http_tr_7_def
  http_tr_8_def http_tr_9_def http_tr_10_def http_tr_11_def http_tr_12_def http_tr_13_def http_tr_21_def
  http_tr_22_def http_tr_23_def http_tr_24_def http_tr_25_def http_tr_27_def http_tr_28_def http_tr_29_def
  http_tr_30_def http_tr_31_def http_tr_33_def http_tr_34_def http_tr_36_def http_tr_37_def http_tr_39_def
  http_tr_42_def http_tr_43_def http_tr_44_def http_tr_45_def http_tr_47_def http_tr_53_def http_tr_54_def
  http_tr_55_def http_tr_56_def http_tr_58_def http_tr_59_def http_tr_203_def http_tr_204_def http_tr_224_def
  http_tr_227_def http_tr_228_def http_tr_232_def http_tr_235_def

fun inside :: "nat \<Rightarrow> event \<Rightarrow> bool" where
  "inside pe (Element e at len) \<longleftrightarrow> at + len \<le> pe"
| "inside pe (Field at flen at' vlen) \<longleftrightarrow> at + flen \<le> pe \<and> at' + vlen \<le> pe"

definition marks_upto :: "nat \<Rightarrow> http_parser \<Rightarrow> bool" where
  "marks_upto p s \<longleftrightarrow> hp_mark s \<le> p \<and> hp_field_start s \<le> p \<and> hp_field_len s \<le> p"

definition late_marks :: "nat \<Rightarrow> nat \<Rightarrow> http_parser \<Rightarrow> bool" where
  "late_marks cs p s \<longleftrightarrow> (cs \<in> {30, 31, 32} \<longrightarrow> hp_query_start s \<le> p)
     \<and> (cs \<in> {15, 16} \<longrightarrow> hp_field_start s + hp_field_len s \<le> p)"

definition tr_ok :: "nat \<Rightarrow> nat \<Rightarrow> http_parser \<Rightarrow> http_transition \<Rightarrow> bool" where
  "tr_ok p pe s t \<longleftrightarrow> (case t of (acts, succ) \<Rightarrow> case do_all acts p pe s of (s', evs) \<Rightarrow>
     marks_upto p s' \<and> hp_body_start s' \<le> pe \<and> hp_cs s' = hp_cs s \<and> hp_nread s' = hp_nread s
     \<and> hp_uri_relaxed s' = hp_uri_relaxed s
     \<and> list_all (inside pe) evs \<and> (case succ of Go n \<Rightarrow> late_marks n p s' | Stop n \<Rightarrow> n \<noteq> 0))"

lemma do_all_transition_ok:
  assumes "marks_upto p s" "hp_body_start s \<le> pe" "p < pe" "pe < 2 ^ 64"
  shows "k \<in> plain_trs \<Longrightarrow> tr_ok p pe s (http_transition k)"
    and "k \<in> {58, 59} \<Longrightarrow> hp_query_start s \<le> p \<Longrightarrow> tr_ok p pe s (http_transition k)"
    and "k \<in> {28, 29, 30, 31, 33, 34} \<Longrightarrow> hp_field_start s + hp_field_len s \<le> p
      \<Longrightarrow> tr_ok p pe s (http_transition k)"
  using assms unfolding plain_trs_def
  by (elim insertE emptyE; simp add: http_transition_def http_tr_defs tr_ok_def http_actions marks_upto_def
      late_marks_def Let_def)+

definition marks_before :: "nat \<Rightarrow> http_parser \<Rightarrow> bool" where
  "marks_before p s \<longleftrightarrow> hp_mark s < max p 1 \<and> hp_field_start s < max p 1 \<and> hp_field_len s \<le> p"

lemma marks_simps: "marks_before p s \<Longrightarrow> marks_upto p s" "marks_upto p s \<Longrightarrow> marks_before (p + 1) s"
  by (auto simp: marks_before_def marks_upto_def max_def split: if_splits)

lemma late_marks_St:
  "edge_ok cs (St n) \<Longrightarrow> late_marks cs p s \<Longrightarrow> late_marks n (p + 1) s"
  unfolding edge_ok.simps late_marks_def by (meson trans_le_add1)

lemma tr_ok_edge:
  assumes "edge_ok cs (Tr k)" "marks_upto p s" "late_marks cs p s" "hp_body_start s \<le> pe" "p < pe" "pe < 2 ^ 64"
  shows "tr_ok p pe s (http_transition k)"
proof -
  note ok = do_all_transition_ok [OF assms(2,4-6), of k]
  consider "k \<in> plain_trs" | "cs \<in> {30, 31, 32}" "k \<in> {58, 59}"
    | "cs \<in> {15, 16}" "k \<in> {28, 29, 30, 31, 33, 34}"
    using assms(1) unfolding edge_ok.simps by argo
  then show ?thesis
  proof cases
    case 2
    then have "hp_query_start s \<le> p" using assms(3) unfolding late_marks_def by argo
    with 2(2) show ?thesis by (rule ok(2))
  next
    case 3
    then have "hp_field_start s + hp_field_len s \<le> p" using assms(3) unfolding late_marks_def by argo
    with 3(2) show ?thesis by (rule ok(3))
  qed (rule ok(1))
qed

definition run_ok :: "nat \<Rightarrow> nat \<Rightarrow> http_parser \<Rightarrow> nat \<times> nat \<times> http_parser \<times> event list \<Rightarrow> bool" where
  "run_ok p pe s r \<longleftrightarrow> (case r of (p', cs', s', evs) \<Rightarrow> p \<le> p' \<and> p' \<le> pe \<and> marks_before p' s'
     \<and> hp_body_start s' \<le> pe \<and> hp_cs s' = hp_cs s \<and> hp_nread s' = hp_nread s \<and> list_all (inside pe) evs)"

lemma http_run_inside:
  assumes "marks_before p s" "late_marks cs p s" "hp_body_start s \<le> pe" "p + length rest = pe" "pe < 2 ^ 64"
  shows "run_ok p pe s (http_run rest p cs s)"
  using assms(1-4)
proof (induction rest arbitrary: p cs s)
  case Nil
  then show ?case by (simp add: run_ok_def)
next
  case (Cons c rest)
  note edge = dispatch_edge [of cs "hp_uri_relaxed s" c]
  have pe: "p < pe" "p + 1 + length rest = pe" using Cons.prems(4) by simp_all
  show ?case
  proof (cases "http_dispatch (hp_uri_relaxed s) cs c")
    case (St n)
    show ?thesis
    proof (cases "n = 0")
      case True
      then show ?thesis using St Cons.prems by (simp add: run_ok_def)
    next
      case False
      have "run_ok (p + 1) pe s (http_run rest (p + 1) n s)"
      proof (rule Cons.IH)
        show "marks_before (p + 1) s" using marks_simps Cons.prems(1) by blast
        show "late_marks n (p + 1) s" using late_marks_St edge Cons.prems(2) unfolding St by blast
      qed (use Cons.prems(3) pe(2) in simp_all)
      then show ?thesis using St False by (auto simp: run_ok_def split: prod.splits)
    qed
  next
    case (Tr k)
    obtain acts succ where t: "http_transition k = (acts, succ)" by force
    obtain s1 evs where d: "do_all acts p pe s = (s1, evs)" by force
    have ok: "tr_ok p pe s (acts, succ)"
      using tr_ok_edge [OF edge [unfolded Tr] marks_simps(1) [OF Cons.prems(1)] Cons.prems(2,3) pe(1) assms(5)]
      unfolding t .
    then have s1: "marks_before (p + 1) s1" "hp_body_start s1 \<le> pe" "hp_cs s1 = hp_cs s" "hp_nread s1 = hp_nread s"
      "list_all (inside pe) evs" "succ = Go n \<Longrightarrow> late_marks n p s1" for n
      using d marks_simps(2) by (auto simp: tr_ok_def)
    show ?thesis
    proof (cases succ)
      case (Go n)
      have "late_marks n (p + 1) s1" using s1(6) [OF Go] by (auto simp: late_marks_def)
      then have "run_ok (p + 1) pe s1 (http_run rest (p + 1) n s1)"
        using s1 pe(2) by (intro Cons.IH) auto
      then show ?thesis using Tr t Go d s1 pe(2) by (auto simp: run_ok_def split: prod.splits)
    next
      case (Stop n)
      then show ?thesis using Tr t d s1 pe by (auto simp: run_ok_def)
    qed
  qed
qed

text \<open>An execution of a parser that is not in the error state, from the start of a buffer.\<close>

lemma http_parser_execute_run:
  assumes "buffer \<noteq> []" "length buffer < 2 ^ 31" "hp_cs s \<in> {1..349}" "hp_body_start s = 0"
    "hp_cs s \<notin> {15, 16, 30, 31, 32}"
    "http_run buffer 0 (hp_cs s) (s\<lparr>hp_nread := 0, hp_mark := 0, hp_field_len := 0, hp_field_start := 0\<rparr>)
      = (p, cs, s1, evs)"
  shows "http_parser_execute buffer 0 s = (Inr p, s1\<lparr>hp_cs := cs, hp_nread := p\<rparr>, evs)"
    and "run_ok 0 (length buffer) s (p, cs, s1\<lparr>hp_nread := hp_nread s\<rparr>, evs)"
proof -
  let ?s = "s\<lparr>hp_nread := 0, hp_mark := 0, hp_field_len := 0, hp_field_start := 0\<rparr>"
  have "run_ok 0 (length buffer) ?s (p, cs, s1, evs)"
    unfolding assms(6) [symmetric] using assms(2,4,5)
    by (intro http_run_inside) (auto simp: marks_before_def late_marks_def)
  then have ok: "p \<le> length buffer" "marks_before p s1" "hp_body_start s1 \<le> length buffer" "hp_cs s1 = hp_cs s"
    "hp_nread s1 = 0" "list_all (inside (length buffer)) evs"
    by (simp_all add: run_ok_def)
  have "int32 (int (length buffer)) = int (length buffer)" "int32 0 = 0"
    using assms(2) by (simp_all add: int32_small)
  then show "http_parser_execute buffer 0 s = (Inr p, s1\<lparr>hp_cs := cs, hp_nread := p\<rparr>, evs)"
    using assms ok
    by (auto simp: http_parser_execute_def Let_def http_parser_has_error_def marks_before_def max_def
        split: if_splits)
  show "run_ok 0 (length buffer) s (p, cs, s1\<lparr>hp_nread := hp_nread s\<rparr>, evs)"
    using ok by (simp add: run_ok_def marks_before_def)
qed

end
