(* ===== verification/HttpMachineProps.thy ===== *)
theory HttpMachineProps
  imports HttpRun HttpInside
begin

text \<open>
  What the request machine does: a well-formed request is accepted and its parts are handed to the
  callbacks; every slice a callback gets lies inside the buffer and no assertion fails; the error state is
  final.
\<close>

section \<open>The run over a request\<close>

lemma execute_request:
  assumes "request_ok m path q f v hs" "all_set s"
    "length (request_bytes m path q f v hs @ body) < 2 ^ 31"
  defines "buffer \<equiv> request_bytes m path q f v hs @ body"
  shows "\<exists>s' evs. http_parser_execute buffer 0 (http_parser_init s) = (Inr (length (request_bytes m path q f v hs)), s', evs)
    \<and> hp_cs s' = 348 \<and> hp_body_start s' = length (request_bytes m path q f v hs)
    \<and> map (hears buffer) evs = request_heard m path q f v hs @ [Text Header_done body]
    \<and> list_all (inside (length buffer)) evs"
proof -
  define i where "i = (http_parser_init s)\<lparr>hp_nread := 0, hp_mark := 0, hp_field_len := 0, hp_field_start := 0\<rparr>"
  have i: "all_set i" "\<not> hp_xml_sent i" "\<not> hp_json_sent i"
    using assms(2) by (simp_all add: i_def http_parser_init_def all_set_def)
  define line where "line = (m @ [32]) @ (target_bytes path q f @ [32]) @ (v @ [13, 10]) @ concat (map field_line hs)"
  have req: "request_bytes m path q f v hs = line @ [13, 10]" by (simp add: request_bytes_def line_def)
  have len: "length (request_bytes m path q f v hs) < 2 ^ 64" using assms(3) by simp
  obtain s1 where s1: "goes [] 1 i line (request_heard m path q f v hs) 13 s1" "same_config i s1"
    using goes_request [OF assms(1) i(1) len] by (auto simp: line_def)
  obtain evs where r1: "http_run (line @ [13, 10] @ body) 0 1 i
      = prepend evs (http_run ([13, 10] @ body) (length line) 13 s1)"
    and h1: "map (hears (line @ [13, 10] @ body)) evs = request_heard m path q f v hs"
    using s1(1) unfolding goes_def by (metis append_Nil list.size(3) plus_nat.add_0)
  have "all_set s1" "\<not> hp_xml_sent s1" "\<not> hp_json_sent s1"
    using same_config_all_set [OF s1(2) i(1)] s1(2) i(2,3) by (simp_all add: same_config_def)
  from run_empty_line [OF this, of body "length line"] obtain s2 where
    r2: "http_run ([13, 10] @ body) (length line) 13 s1
      = (length line + 2, 348, s2, [Element Header_done (length line + 2) (length body)])"
    "hp_body_start s2 = length line + 2" by blast
  have buf: "buffer = line @ [13, 10] @ body" by (simp add: buffer_def req)
  have run: "http_run buffer 0 (hp_cs (http_parser_init s)) i
      = (length line + 2, 348, s2, evs @ [Element Header_done (length line + 2) (length body)])"
    using r1 r2(1) by (simp add: buf http_parser_init_def)
  note ex = http_parser_execute_run [OF _ _ _ _ _ run [unfolded i_def]]
  have "http_parser_execute buffer 0 (http_parser_init s)
      = (Inr (length line + 2), s2\<lparr>hp_cs := 348, hp_nread := length line + 2\<rparr>,
         evs @ [Element Header_done (length line + 2) (length body)])"
    by (rule ex(1)) (use assms(3) in \<open>simp_all add: buf req http_parser_init_def\<close>)
  moreover have "run_ok 0 (length buffer) (http_parser_init s) (length line + 2, 348, s2\<lparr>hp_nread := hp_nread (http_parser_init s)\<rparr>,
      evs @ [Element Header_done (length line + 2) (length body)])"
    by (rule ex(2)) (use assms(3) in \<open>simp_all add: buf req http_parser_init_def\<close>)
  moreover have "hears buffer (Element Header_done (length line + 2) (length body)) = Text Header_done body"
    using slice_append [of "length line + 2" "line @ [13, 10]" "length body" body "[]"] by (simp add: buf)
  ultimately show ?thesis
    using h1 r2(2) by (simp add: buf req run_ok_def)
qed

section \<open>Claims\<close>

text \<open>
  C10. A well-formed request is parsed exactly: executed on a buffer with the request and any body behind
  it, a new parser consumes the bytes of the request up to and with the empty line, is finished, says where
  the body starts, and calls the callbacks with the method, the path, the query, the target, the fragment
  and the version, then each header field with its name and value, then with the body, in this order.
\<close>

theorem well_formed_request_parsed:
  assumes "request_ok m path q f v hs" "all_set s"
    "length (request_bytes m path q f v hs @ body) < 2 ^ 31"
  defines "buffer \<equiv> request_bytes m path q f v hs @ body"
  shows "\<exists>s' evs. http_parser_execute buffer 0 (http_parser_init s) = (Inr (length (request_bytes m path q f v hs)), s', evs)
    \<and> http_parser_finish s' = 1 \<and> hp_body_start s' = length (request_bytes m path q f v hs)
    \<and> map (hears buffer) evs = request_heard m path q f v hs @ [Text Header_done body]"
  using execute_request [OF assms(1,2), of body] assms(3)
  by (fastforce simp: buffer_def http_parser_finish_def http_parser_has_error_def http_parser_is_finished_def)

definition raw_parser :: http_parser where
  "raw_parser = \<lparr>hp_cs = 7, hp_body_start = 3, hp_content_len = 0, hp_nread = 9, hp_mark = 8, hp_field_start = 0,
     hp_field_len = 0, hp_query_start = 77, hp_xml_sent = True, hp_json_sent = False, hp_uri_relaxed = True,
     hp_set = (\<lambda>_. True), hp_http_field_set = True\<rparr>"

text \<open>\<^verbatim>\<open>GET /a%41?b HTTP/1.1\<close>, the field \<^verbatim>\<open>H: v\<close>, and the body \<^verbatim>\<open>x\<close>.\<close>

theorem well_formed_request_parsed_witness:
  "\<exists>s' evs. http_parser_execute ([71, 69, 84, 32, 47, 97, 37, 52, 49, 63, 98, 32, 72, 84, 84, 80, 47, 49, 46, 49, 13, 10,
       72, 58, 32, 118, 13, 10, 13, 10] @ [120]) 0 (http_parser_init raw_parser) = (Inr 30, s', evs)
    \<and> http_parser_finish s' = 1"
  using well_formed_request_parsed [of "[71, 69, 84]" "[47, 97, 37, 52, 49]" "Some [98]" None
      "[72, 84, 84, 80, 47, 49, 46, 49]" "[([72], [32], [118])]" raw_parser "[120]"]
  by (auto simp: request_ok_def request_bytes_def target_ok_def target_bytes_def path_ok_def query_char_def
      path_char_def hex_char_def method_char_def version_ok_def field_ok_def field_line_def token_char_def
      value_char_def raw_parser_def all_set_def)

text \<open>
  C16. Whatever the bytes, an execution of a new parser on a buffer of less than 2 GB consumes no more than
  the buffer, none of its assertions fails, and every slice it hands to a callback, names and values of
  fields included, lies inside the buffer.
\<close>

theorem callbacks_stay_inside:
  assumes "buffer \<noteq> []" "length buffer < 2 ^ 31"
  shows "\<exists>n s' evs. http_parser_execute buffer 0 (http_parser_init s) = (Inr n, s', evs)
    \<and> n \<le> length buffer \<and> list_all (inside (length buffer)) evs"
proof -
  let ?s = "http_parser_init s"
  obtain p cs s1 evs where run: "http_run buffer 0 (hp_cs ?s)
      (?s\<lparr>hp_nread := 0, hp_mark := 0, hp_field_len := 0, hp_field_start := 0\<rparr>) = (p, cs, s1, evs)"
    by (metis prod_cases4)
  have i: "hp_cs ?s = 1" "hp_body_start ?s = 0" by (simp_all add: http_parser_init_def)
  note ex = http_parser_execute_run [OF assms _ i(2) _ run]
  have "p \<le> length buffer" "list_all (inside (length buffer)) evs"
    using ex(2) by (simp_all add: i(1) run_ok_def)
  then show ?thesis using ex(1) by (simp add: i(1))
qed

theorem callbacks_stay_inside_witness:
  "\<exists>n s' evs. http_parser_execute [71, 69, 84, 32, 10] 0 (http_parser_init raw_parser) = (Inr n, s', evs) \<and> n \<le> 5"
  using callbacks_stay_inside [of "[71, 69, 84, 32, 10]" raw_parser] by auto

text \<open>
  The error state is final: an execution of a parser in it consumes nothing, calls nothing and leaves
  it there, although the switch of the machine, which has no case for it, falls through to the code that
  sets the state 2.
\<close>

theorem error_is_final:
  assumes "http_parser_has_error s" "hp_body_start s \<le> length buffer" "0 < length buffer" "length buffer < 2 ^ 31"
  shows "\<exists>s'. http_parser_execute buffer 0 s = (Inr 0, s', []) \<and> http_parser_has_error s' \<and> http_parser_finish s' = - 1"
  using assms
  by (auto simp: http_parser_execute_def Let_def http_parser_has_error_def http_parser_finish_def int32_small)

theorem error_is_final_witness:
  "\<exists>s'. http_parser_execute [71] 0 (raw_parser\<lparr>hp_cs := 0, hp_body_start := 0\<rparr>) = (Inr 0, s', []) \<and> http_parser_finish s' = - 1"
  using error_is_final [of "raw_parser\<lparr>hp_cs := 0, hp_body_start := 0\<rparr>" "[71]"]
  by (auto simp: http_parser_has_error_def raw_parser_def)

section \<open>Where the code falls short\<close>

text \<open>
  A request that arrives in two reads: when the first ends inside the method, the callback gets only the
  rest of it, as each execution starts with its marks at the start of its own buffer.
\<close>

lemma split_method_truncated:
  assumes "m1 \<noteq> []" "m2 \<noteq> []" "list_all method_char (m1 @ m2)" "length (m1 @ m2) \<le> 20" "all_set s" "hp_mark s = 0"
  shows "goes [] (method_state (length m1)) s (m2 @ [32]) [Text Request_method m2] 3 s"
proof -
  have 1: "goes [] (method_state (length m1)) s m2 [] (method_state (length (m1 @ m2))) s"
    using goes_method_chars [of m2 "length m1" "[]" s] assms(1-4)
    by (auto simp: list_all_iff Suc_le_eq)
  have "goes ([] @ m2) (method_state (length (m1 @ m2))) s [32] [Text Request_method m2] 3 s"
  proof (rule goes_Tr)
    show "http_dispatch (hp_uri_relaxed s) (method_state (length (m1 @ m2))) 32 = Tr 4"
      using assms(1,4) by (intro method_end) (auto simp: Suc_le_eq)
    show "do_all [do_request_method] (length ([] @ m2)) pe s = (s, [Element Request_method 0 (length m2)])" for pe
      using assms(4-6) by (simp add: http_actions all_set_def)
    show "map (hears (([] @ m2) @ 32 # ys)) [Element Request_method 0 (length m2)] = [Text Request_method m2]" for ys
      using slice_append [of 0 "[]" "length m2" m2 "32 # ys"] by simp
  qed simp
  from goes_trans [OF 1 this] show ?thesis by simp
qed

text \<open>
  The grammar writes the control characters as a set difference, \<^verbatim>\<open>(0 - 31)\<close>, which is only the character 0:
  the name of a field may contain a line feed.
\<close>

lemma line_feed_in_field_name: "http_dispatch r 14 10 = St 14" "http_dispatch r 14 13 = St 14"
  by (simp_all add: http_dispatch_def http_case_14_def)

end
