(* ===== verification/StdMap.thy ===== *)
theory StdMap
  imports Prelude
begin

text \<open>
  \<^verbatim>\<open>std::map\<close> with a comparator: the list of its entries in the order of the keys. Keys that neither
  precede the other are one key to the map, which keeps the spelling that came first.
\<close>

type_synonym ('k, 'v) std_map = "('k \<times> 'v) list"

text \<open>\<^verbatim>\<open>find\<close>, \<^verbatim>\<open>m[k] = v\<close> and \<^verbatim>\<open>erase(k)\<close>.\<close>

definition map_find :: "('k \<Rightarrow> 'k \<Rightarrow> bool) \<Rightarrow> 'k \<Rightarrow> ('k, 'v) std_map \<Rightarrow> ('k \<times> 'v) option" where
  "map_find cmp k m = List.find (\<lambda>e. \<not> cmp k (fst e) \<and> \<not> cmp (fst e) k) m"

fun map_put :: "('k \<Rightarrow> 'k \<Rightarrow> bool) \<Rightarrow> 'k \<Rightarrow> 'v \<Rightarrow> ('k, 'v) std_map \<Rightarrow> ('k, 'v) std_map" where
  "map_put cmp k v [] = [(k, v)]"
| "map_put cmp k v ((k', v') # m) =
     (if cmp k k' then (k, v) # (k', v') # m
      else if cmp k' k then (k', v') # map_put cmp k v m
      else (k', v) # m)"

definition map_erase :: "('k \<Rightarrow> 'k \<Rightarrow> bool) \<Rightarrow> 'k \<Rightarrow> ('k, 'v) std_map \<Rightarrow> ('k, 'v) std_map" where
  "map_erase cmp k m = filter (\<lambda>e. cmp k (fst e) \<or> cmp (fst e) k) m"

text \<open>
  The contract of a comparator: it is the order of a key, by which the map stands for a function. What the
  operations do to that function is all their users rely on.
\<close>

locale ordered_map =
  fixes cmp :: "'k \<Rightarrow> 'k \<Rightarrow> bool" and key :: "'k \<Rightarrow> 'c :: linorder"
  assumes by_key: "cmp x y \<longleftrightarrow> key x < key y"
begin

definition in_order :: "('k, 'v) std_map \<Rightarrow> bool" where
  "in_order m \<longleftrightarrow> sorted_wrt cmp (map fst m)"

definition stands_for :: "('k, 'v) std_map \<Rightarrow> 'c \<Rightarrow> 'v option" where
  "stands_for m = map_of (map (\<lambda>(k, v). (key k, v)) m)"

lemma in_order_Nil [simp]: "in_order []"
  by (simp add: in_order_def)

lemma stands_for_Nil [simp]: "stands_for [] = (\<lambda>_. None)"
  by (simp add: stands_for_def)

lemma equiv_key: "\<not> cmp x y \<and> \<not> cmp y x \<longleftrightarrow> key x = key y"
  by (auto simp: by_key)

lemma find_stands_for: "map_option snd (map_find cmp k m) = stands_for m (key k)"
  by (induction m) (auto simp: map_find_def stands_for_def by_key)

lemma find_None: "map_find cmp k m = None \<longleftrightarrow> stands_for m (key k) = None"
  by (simp add: find_stands_for [symmetric])

lemma set_put: "e \<in> set (map_put cmp k v m) \<Longrightarrow> fst e = k \<or> fst e \<in> fst ` set m"
proof (induction m)
  case (Cons e' m)
  then show ?case by (cases e') (auto split: if_splits)
qed simp

lemma put_in_order: "in_order m \<Longrightarrow> in_order (map_put cmp k v m)"
proof (induction m)
  case Nil
  then show ?case by (simp add: in_order_def)
next
  case (Cons e m)
  obtain k' v' where e: "e = (k', v')" by (cases e)
  have IH: "sorted_wrt cmp (map fst (map_put cmp k v m))"
    using Cons by (simp add: in_order_def)
  have "cmp k x" if "cmp k k'" "cmp k' x" for x
    using that by (simp add: by_key)
  then show ?case
    using Cons.prems IH by (fastforce simp: in_order_def e dest: set_put)
qed

lemma put_stands_for:
  "in_order m \<Longrightarrow> stands_for (map_put cmp k v m) = (stands_for m)(key k \<mapsto> v)"
proof (induction m)
  case (Cons e m)
  have "in_order m" using Cons.prems by (simp add: in_order_def)
  with Cons.IH have IH: "stands_for (map_put cmp k v m) = (stands_for m)(key k \<mapsto> v)" .
  obtain k' v' where e: "e = (k', v')" by (cases e)
  show ?case
    using IH by_key [of k k'] by_key [of k' k] by (auto simp: stands_for_def e fun_eq_iff)
qed (simp add: stands_for_def fun_eq_iff)

lemma erase_in_order: "in_order m \<Longrightarrow> in_order (map_erase cmp k m)"
  by (induction m) (auto simp: in_order_def map_erase_def)

lemma erase_stands_for: "stands_for (map_erase cmp k m) = (stands_for m)(key k := None)"
  by (induction m) (auto simp: stands_for_def map_erase_def by_key fun_eq_iff)

text \<open>An entry that comes behind all others is put at the end.\<close>

lemma put_behind: "list_all (\<lambda>e. cmp (fst e) k) m \<Longrightarrow> map_put cmp k v m = m @ [(k, v)]"
  by (induction m) (auto simp: by_key)

lemma put_all:
  "in_order (m @ xs) \<Longrightarrow> fold (\<lambda>(k, v). map_put cmp k v) xs m = m @ xs"
proof (induction xs arbitrary: m)
  case (Cons e xs)
  obtain k v where e: "e = (k, v)" by (cases e)
  have "map_put cmp k v m = m @ [(k, v)]"
    using Cons.prems by (intro put_behind) (auto simp: in_order_def e sorted_wrt_append list_all_iff)
  then show ?case using Cons by (simp add: e)
qed simp

text \<open>Entries put one after the other, and those of a map in its order.\<close>

lemma fold_put:
  "in_order m \<Longrightarrow> in_order (fold (\<lambda>(k, v). map_put cmp k v) xs m)
    \<and> stands_for (fold (\<lambda>(k, v). map_put cmp k v) xs m) = fold (\<lambda>(k, v) f. f(key k \<mapsto> v)) xs (stands_for m)"
  by (induction xs arbitrary: m) (auto simp: put_in_order put_stands_for)

lemma fold_entries: "in_order m \<Longrightarrow> fold (\<lambda>(k, v) f. f(key k \<mapsto> v)) m f = f ++ stands_for m"
proof (induction m arbitrary: f)
  case (Cons e m)
  obtain k v where e: "e = (k, v)" by (cases e)
  have "cmp k (fst x)" if "x \<in> set m" for x using Cons.prems that by (simp add: in_order_def e)
  then have "stands_for m (key k) = None"
    by (force simp: stands_for_def map_of_eq_None_iff by_key [of k])
  then have "f(key k \<mapsto> v) ++ stands_for m = f ++ (stands_for m)(key k \<mapsto> v)"
    by (auto simp: fun_eq_iff map_add_def split: option.split)
  moreover have "in_order m" using Cons.prems by (simp add: in_order_def)
  moreover have "stands_for (e # m) = (stands_for m)(key k \<mapsto> v)" by (simp add: stands_for_def e)
  ultimately show ?case using Cons.IH by (simp only: e fold_simps prod.case)
qed simp

lemma in_order_filter: "in_order m \<Longrightarrow> in_order (filter P m)"
  by (induction m) (auto simp: in_order_def)

end

end
