(* ===== verification/Http.thy ===== *)
theory Http
  imports StdMap "HOL-Library.List_Lexorder"
begin

text \<open>
  \<^verbatim>\<open>server/http/http.h\<close> and \<^verbatim>\<open>server/http/http.cc\<close>: methods and status codes, requests and responses
  with their header fields, and how they are printed. A string is the list of its characters as C++ has
  them, a \<^verbatim>\<open>char\<close> with its sign.
\<close>

unbundle bit_operations_syntax

type_synonym str = "int list"

definition chars :: "string \<Rightarrow> str" where
  "chars = map (\<lambda>c. of_char c)"

lemma chars_simps [simp]: "chars [] = []" "chars (c # cs) = of_char c # chars cs"
  by (simp_all add: chars_def)

text \<open>What a C string function sees of a string: the bytes up to the first that is 0.\<close>

definition c_str :: "str \<Rightarrow> str" where
  "c_str s = takeWhile (\<lambda>c. c mod 256 \<noteq> 0) s"

section \<open>Methods and status codes\<close>

datatype HttpMethod =
  DELETE | GET | HEAD | POST | PUT | CONNECT | OPTIONS | TRACE | COPY | LOCK | MKCOL | MOVE
  | PROPFIND | PROPPATCH | SEARCH | UNLOCK | BIND | REBIND | UNBIND | ACL | REPORT | MKACTIVITY
  | CHECKOUT | MERGE | MSEARCH | NOTIFY | SUBSCRIBE | UNSUBSCRIBE | PATCH | PURGE | MKCALENDAR
  | LINK | UNLINK | SOURCE | INVALID_METHOD

definition HTTP_METHOD_MAP :: "(HttpMethod \<times> int list) list" where
  "HTTP_METHOD_MAP = [
     (DELETE, chars ''DELETE''), (GET, chars ''GET''), (HEAD, chars ''HEAD''),
     (POST, chars ''POST''), (PUT, chars ''PUT''), (CONNECT, chars ''CONNECT''),
     (OPTIONS, chars ''OPTIONS''), (TRACE, chars ''TRACE''), (COPY, chars ''COPY''),
     (LOCK, chars ''LOCK''), (MKCOL, chars ''MKCOL''), (MOVE, chars ''MOVE''),
     (PROPFIND, chars ''PROPFIND''), (PROPPATCH, chars ''PROPPATCH''), (SEARCH, chars ''SEARCH''),
     (UNLOCK, chars ''UNLOCK''), (BIND, chars ''BIND''), (REBIND, chars ''REBIND''),
     (UNBIND, chars ''UNBIND''), (ACL, chars ''ACL''), (REPORT, chars ''REPORT''),
     (MKACTIVITY, chars ''MKACTIVITY''), (CHECKOUT, chars ''CHECKOUT''), (MERGE, chars ''MERGE''),
     (MSEARCH, chars ''M-SEARCH''), (NOTIFY, chars ''NOTIFY''), (SUBSCRIBE, chars ''SUBSCRIBE''),
     (UNSUBSCRIBE, chars ''UNSUBSCRIBE''), (PATCH, chars ''PATCH''), (PURGE, chars ''PURGE''),
     (MKCALENDAR, chars ''MKCALENDAR''), (LINK, chars ''LINK''), (UNLINK, chars ''UNLINK''),
     (SOURCE, chars ''SOURCE'')]"

definition HTTP_STATUS_MAP :: "(int \<times> int list) list" where
  "HTTP_STATUS_MAP = [
     (100, chars ''Continue''), (101, chars ''Switching Protocols''),
     (102, chars ''Processing''), (200, chars ''OK''),
     (201, chars ''Created''), (202, chars ''Accepted''),
     (203, chars ''Non-Authoritative Information''), (204, chars ''No Content''),
     (205, chars ''Reset Content''), (206, chars ''Partial Content''),
     (207, chars ''Multi-Status''), (208, chars ''Already Reported''),
     (226, chars ''IM Used''), (300, chars ''Multiple Choices''),
     (301, chars ''Moved Permanently''), (302, chars ''Found''),
     (303, chars ''See Other''), (304, chars ''Not Modified''),
     (305, chars ''Use Proxy''), (307, chars ''Temporary Redirect''),
     (308, chars ''Permanent Redirect''), (400, chars ''Bad Request''),
     (401, chars ''Unauthorized''), (402, chars ''Payment Required''),
     (403, chars ''Forbidden''), (404, chars ''Not Found''),
     (405, chars ''Method Not Allowed''), (406, chars ''Not Acceptable''),
     (407, chars ''Proxy Authentication Required''), (408, chars ''Request Timeout''),
     (409, chars ''Conflict''), (410, chars ''Gone''),
     (411, chars ''Length Required''), (412, chars ''Precondition Failed''),
     (413, chars ''Payload Too Large''), (414, chars ''URI Too Long''),
     (415, chars ''Unsupported Media Type''), (416, chars ''Range Not Satisfiable''),
     (417, chars ''Expectation Failed''), (421, chars ''Misdirected Request''),
     (422, chars ''Unprocessable Entity''), (423, chars ''Locked''),
     (424, chars ''Failed Dependency''), (426, chars ''Upgrade Required''),
     (428, chars ''Precondition Required''), (429, chars ''Too Many Requests''),
     (431, chars ''Request Header Fields Too Large''), (451, chars ''Unavailable For Legal Reasons''),
     (500, chars ''Internal Server Error''), (501, chars ''Not Implemented''),
     (502, chars ''Bad Gateway''), (503, chars ''Service Unavailable''),
     (504, chars ''Gateway Timeout''), (505, chars ''HTTP Version Not Supported''),
     (506, chars ''Variant Also Negotiates''), (507, chars ''Insufficient Storage''),
     (508, chars ''Loop Detected''), (510, chars ''Not Extended''),
     (511, chars ''Network Authentication Required'')]"

text \<open>The first entry for which the test of the unrolled macro holds.\<close>

definition StringToHttpMethod :: "str \<Rightarrow> HttpMethod" where
  "StringToHttpMethod m =
     (case List.find (\<lambda>(name, s). s = c_str m) HTTP_METHOD_MAP of
        Some (name, s) \<Rightarrow> name | None \<Rightarrow> INVALID_METHOD)"

text \<open>\<open>m\<close> is the memory from the pointer on: the comparison ends with the literal.\<close>

definition CharsToHttpMethod :: "str \<Rightarrow> HttpMethod" where
  "CharsToHttpMethod m =
     (case List.find (\<lambda>(name, s). take (length s) m = s) HTTP_METHOD_MAP of
        Some (name, s) \<Rightarrow> name | None \<Rightarrow> INVALID_METHOD)"

text \<open>The number of an enumerator, its place in the table.\<close>

definition method_num :: "HttpMethod \<Rightarrow> nat" where
  "method_num m = length (takeWhile (\<lambda>(name, s). name \<noteq> m) HTTP_METHOD_MAP)"

definition HttpMethodToString :: "HttpMethod \<Rightarrow> str" where
  "HttpMethodToString m =
     (let idx = method_num m; s_method_string = map snd HTTP_METHOD_MAP
      in if idx \<ge> length s_method_string then chars ''<unknown>'' else s_method_string ! idx)"

text \<open>A status is the number of its enumerator; a cast can make one without a name.\<close>

definition HttpStatusToString :: "int \<Rightarrow> str" where
  "HttpStatusToString s =
     (case map_of HTTP_STATUS_MAP s of Some msg \<Rightarrow> msg | None \<Rightarrow> chars ''<unknown>'')"

section \<open>Maps without regard to case\<close>

text \<open>\<^verbatim>\<open>tolower\<close> of a character taken as an \<^verbatim>\<open>unsigned char\<close>, in the C locale.\<close>

definition lower :: "int \<Rightarrow> int" where
  "lower c = (let u = c mod 256 in if 65 \<le> u \<and> u \<le> 90 then u + 32 else u)"

fun strcasecmp :: "str \<Rightarrow> str \<Rightarrow> int" where
  "strcasecmp [] [] = 0"
| "strcasecmp [] (y # ys) = 0 - lower y"
| "strcasecmp (x # xs) [] = lower x"
| "strcasecmp (x # xs) (y # ys) = (if lower x = lower y then strcasecmp xs ys else lower x - lower y)"

definition CaseInsensitiveLess :: "str \<Rightarrow> str \<Rightarrow> bool" where
  "CaseInsensitiveLess lhs rhs \<longleftrightarrow> strcasecmp (c_str lhs) (c_str rhs) < 0"

text \<open>The comparator is the order of the lower-case strings, so the maps are maps from these.\<close>

definition ci_key :: "str \<Rightarrow> str" where
  "ci_key s = map lower (c_str s)"

lemma lower_pos: "c mod 256 \<noteq> 0 \<Longrightarrow> 0 < lower c"
  using pos_mod_sign [of 256 c] by (auto simp: lower_def Let_def)

lemma c_str_pos: "list_all (\<lambda>c. 0 < lower c) (c_str s)"
  by (induction s) (auto simp: c_str_def lower_pos)

lemma strcasecmp_key:
  assumes "list_all (\<lambda>c. 0 < lower c) xs" "list_all (\<lambda>c. 0 < lower c) ys"
  shows "strcasecmp xs ys < 0 \<longleftrightarrow> map lower xs < map lower ys" "strcasecmp xs ys = 0 \<longleftrightarrow> map lower xs = map lower ys"
  using assms by (induction xs ys rule: strcasecmp.induct) auto

lemma CaseInsensitiveLess_key: "CaseInsensitiveLess x y \<longleftrightarrow> ci_key x < ci_key y"
  by (simp add: CaseInsensitiveLess_def ci_key_def strcasecmp_key c_str_pos)

type_synonym MapType = "(str, str) std_map"

abbreviation ci_find :: "str \<Rightarrow> MapType \<Rightarrow> (str \<times> str) option" where
  "ci_find \<equiv> map_find CaseInsensitiveLess"

abbreviation ci_put :: "str \<Rightarrow> str \<Rightarrow> MapType \<Rightarrow> MapType" where
  "ci_put \<equiv> map_put CaseInsensitiveLess"

abbreviation ci_erase :: "str \<Rightarrow> MapType \<Rightarrow> MapType" where
  "ci_erase \<equiv> map_erase CaseInsensitiveLess"

text \<open>\<^verbatim>\<open>getHeader\<close> and its kin, and \<^verbatim>\<open>hasHeader\<close> with the value it stores.\<close>

definition get_or :: "MapType \<Rightarrow> str \<Rightarrow> str \<Rightarrow> str" where
  "get_or m key d = (case ci_find key m of None \<Rightarrow> d | Some (k, v) \<Rightarrow> v)"

definition has_key :: "MapType \<Rightarrow> str \<Rightarrow> bool \<times> str option" where
  "has_key m key = (case ci_find key m of None \<Rightarrow> (False, None) | Some (k, v) \<Rightarrow> (True, Some v))"

text \<open>
  \<^verbatim>\<open>boost::lexical_cast\<close> is the argument \<open>lexical_cast\<close>, \<open>None\<close> when it throws. The results of
  \<open>checkGetAs\<close> are the value returned and the one stored in \<^verbatim>\<open>val\<close>.
\<close>

definition checkGetAs :: "(str \<Rightarrow> 'a option) \<Rightarrow> MapType \<Rightarrow> str \<Rightarrow> 'a \<Rightarrow> bool \<times> 'a" where
  "checkGetAs lexical_cast m key d =
     (case ci_find key m of
        None \<Rightarrow> (False, d)
      | Some (k, v) \<Rightarrow> (case lexical_cast v of Some a \<Rightarrow> (True, a) | None \<Rightarrow> (False, d)))"

definition getAs :: "(str \<Rightarrow> 'a option) \<Rightarrow> MapType \<Rightarrow> str \<Rightarrow> 'a \<Rightarrow> 'a" where
  "getAs lexical_cast m key d =
     (case ci_find key m of
        None \<Rightarrow> d
      | Some (k, v) \<Rightarrow> (case lexical_cast v of Some a \<Rightarrow> a | None \<Rightarrow> d))"

interpretation ci: ordered_map CaseInsensitiveLess ci_key
  by unfold_locales (rule CaseInsensitiveLess_key)

lemma get_or_stands_for: "get_or m key d = (case ci.stands_for m (ci_key key) of None \<Rightarrow> d | Some v \<Rightarrow> v)"
  by (simp add: get_or_def ci.find_stands_for [symmetric] split: option.splits)

lemma has_key_stands_for: "has_key m key = (ci.stands_for m (ci_key key) \<noteq> None, ci.stands_for m (ci_key key))"
  by (auto simp: has_key_def ci.find_stands_for [symmetric] split: option.splits)

lemma getAs_stands_for:
  "getAs lexical_cast m key d = (case Option.bind (ci.stands_for m (ci_key key)) lexical_cast of None \<Rightarrow> d | Some a \<Rightarrow> a)"
  by (auto simp: getAs_def ci.find_stands_for [symmetric] split: option.splits)

section \<open>Requests\<close>

record http_request =
  rq_method :: HttpMethod
  rq_status :: int
  rq_version :: u16
  rq_close :: bool
  rq_path :: str
  rq_query :: str
  rq_fragment :: str
  rq_body :: str
  rq_headers :: MapType
  rq_params :: MapType
  rq_cookies :: MapType

text \<open>The constructor does not set the status: it is what the memory held, \<open>status\<close>.\<close>

definition HttpRequest :: "int \<Rightarrow> u16 \<Rightarrow> bool \<Rightarrow> http_request" where
  "HttpRequest status version close =
     \<lparr>rq_method = GET, rq_status = status, rq_version = version, rq_close = close, rq_path = chars ''/'',
      rq_query = [], rq_fragment = [], rq_body = [], rq_headers = [], rq_params = [], rq_cookies = []\<rparr>"

definition rq_getHeader :: "str \<Rightarrow> str \<Rightarrow> http_request \<Rightarrow> str" where
  "rq_getHeader key d r = get_or (rq_headers r) key d"

definition rq_getParam :: "str \<Rightarrow> str \<Rightarrow> http_request \<Rightarrow> str" where
  "rq_getParam key d r = get_or (rq_params r) key d"

definition rq_getCookie :: "str \<Rightarrow> str \<Rightarrow> http_request \<Rightarrow> str" where
  "rq_getCookie key d r = get_or (rq_cookies r) key d"

definition rq_setHeader :: "str \<Rightarrow> str \<Rightarrow> http_request \<Rightarrow> http_request" where
  "rq_setHeader key val r = r\<lparr>rq_headers := ci_put key val (rq_headers r)\<rparr>"

definition rq_setParam :: "str \<Rightarrow> str \<Rightarrow> http_request \<Rightarrow> http_request" where
  "rq_setParam key val r = r\<lparr>rq_params := ci_put key val (rq_params r)\<rparr>"

definition rq_setCookie :: "str \<Rightarrow> str \<Rightarrow> http_request \<Rightarrow> http_request" where
  "rq_setCookie key val r = r\<lparr>rq_cookies := ci_put key val (rq_cookies r)\<rparr>"

definition rq_delHeader :: "str \<Rightarrow> http_request \<Rightarrow> http_request" where
  "rq_delHeader key r = r\<lparr>rq_headers := ci_erase key (rq_headers r)\<rparr>"

definition rq_delParam :: "str \<Rightarrow> http_request \<Rightarrow> http_request" where
  "rq_delParam key r = r\<lparr>rq_params := ci_erase key (rq_params r)\<rparr>"

definition rq_delCookie :: "str \<Rightarrow> http_request \<Rightarrow> http_request" where
  "rq_delCookie key r = r\<lparr>rq_cookies := ci_erase key (rq_cookies r)\<rparr>"

definition rq_hasHeader :: "str \<Rightarrow> http_request \<Rightarrow> bool \<times> str option" where
  "rq_hasHeader key r = has_key (rq_headers r) key"

definition rq_hasParam :: "str \<Rightarrow> http_request \<Rightarrow> bool \<times> str option" where
  "rq_hasParam key r = has_key (rq_params r) key"

definition rq_hasCookie :: "str \<Rightarrow> http_request \<Rightarrow> bool \<times> str option" where
  "rq_hasCookie key r = has_key (rq_cookies r) key"

text \<open>All six of these read the header fields.\<close>

definition rq_checkGetHeaderAs :: "(str \<Rightarrow> 'a option) \<Rightarrow> str \<Rightarrow> 'a \<Rightarrow> http_request \<Rightarrow> bool \<times> 'a" where
  "rq_checkGetHeaderAs lexical_cast key d r = checkGetAs lexical_cast (rq_headers r) key d"

definition rq_getHeaderAs :: "(str \<Rightarrow> 'a option) \<Rightarrow> str \<Rightarrow> 'a \<Rightarrow> http_request \<Rightarrow> 'a" where
  "rq_getHeaderAs lexical_cast key d r = getAs lexical_cast (rq_headers r) key d"

definition rq_checkGetParamAs :: "(str \<Rightarrow> 'a option) \<Rightarrow> str \<Rightarrow> 'a \<Rightarrow> http_request \<Rightarrow> bool \<times> 'a" where
  "rq_checkGetParamAs lexical_cast key d r = checkGetAs lexical_cast (rq_headers r) key d"

definition rq_getParamAs :: "(str \<Rightarrow> 'a option) \<Rightarrow> str \<Rightarrow> 'a \<Rightarrow> http_request \<Rightarrow> 'a" where
  "rq_getParamAs lexical_cast key d r = getAs lexical_cast (rq_headers r) key d"

definition rq_checkGetCookieAs :: "(str \<Rightarrow> 'a option) \<Rightarrow> str \<Rightarrow> 'a \<Rightarrow> http_request \<Rightarrow> bool \<times> 'a" where
  "rq_checkGetCookieAs lexical_cast key d r = checkGetAs lexical_cast (rq_headers r) key d"

definition rq_getCookieAs :: "(str \<Rightarrow> 'a option) \<Rightarrow> str \<Rightarrow> 'a \<Rightarrow> http_request \<Rightarrow> 'a" where
  "rq_getCookieAs lexical_cast key d r = getAs lexical_cast (rq_headers r) key d"

section \<open>Printing\<close>

text \<open>An unsigned number printed by a stream.\<close>

fun decimal :: "nat \<Rightarrow> str" where
  "decimal n = (if n < 10 then [48 + int n] else decimal (n div 10) @ [48 + int (n mod 10)])"

declare decimal.simps [simp del]

definition crlf :: str where "crlf = [13, 10]"

definition version_text :: "u16 \<Rightarrow> str" where
  "version_text v = chars ''HTTP/'' @ decimal (unat (drop_bit 4 v)) @ chars ''.'' @ decimal (unat (v AND 0x0F))"

definition header_lines :: "MapType \<Rightarrow> str" where
  "header_lines m = concat (map (\<lambda>(k, v). if strcasecmp (c_str k) (chars ''connection'') = 0 then []
     else k @ chars '': '' @ v @ crlf) m)"

definition connection_line :: "bool \<Rightarrow> str" where
  "connection_line close = chars ''connection: '' @ (if close then chars ''close'' else chars ''keep-alive'') @ crlf"

definition body_part :: "str \<Rightarrow> str" where
  "body_part body =
     (if body \<noteq> [] then chars ''content-length: '' @ decimal (length body) @ crlf @ crlf @ body else crlf)"

definition rq_dump :: "http_request \<Rightarrow> str" where
  "rq_dump r = HttpMethodToString (rq_method r) @ chars '' '' @ rq_path r
     @ (if rq_query r = [] then [] else chars ''?'') @ rq_query r
     @ (if rq_fragment r = [] then [] else chars ''#'') @ rq_fragment r
     @ chars '' '' @ version_text (rq_version r) @ crlf
     @ connection_line (rq_close r) @ header_lines (rq_headers r) @ body_part (rq_body r)"

definition rq_toString :: "http_request \<Rightarrow> str" where
  "rq_toString r = rq_dump r"

section \<open>Responses\<close>

record http_response =
  rs_status :: int
  rs_version :: u16
  rs_close :: bool
  rs_body :: str
  rs_reason :: str
  rs_headers :: MapType

definition HttpResponse :: "u16 \<Rightarrow> bool \<Rightarrow> http_response" where
  "HttpResponse version close =
     \<lparr>rs_status = 200, rs_version = version, rs_close = close, rs_body = [], rs_reason = [], rs_headers = []\<rparr>"

definition rs_getHeader :: "str \<Rightarrow> str \<Rightarrow> http_response \<Rightarrow> str" where
  "rs_getHeader key d r = get_or (rs_headers r) key d"

definition rs_setHeader :: "str \<Rightarrow> str \<Rightarrow> http_response \<Rightarrow> http_response" where
  "rs_setHeader key val r = r\<lparr>rs_headers := ci_put key val (rs_headers r)\<rparr>"

definition rs_delHeader :: "str \<Rightarrow> http_response \<Rightarrow> http_response" where
  "rs_delHeader key r = r\<lparr>rs_headers := ci_erase key (rs_headers r)\<rparr>"

definition rs_checkGetHeaderAs :: "(str \<Rightarrow> 'a option) \<Rightarrow> str \<Rightarrow> 'a \<Rightarrow> http_response \<Rightarrow> bool \<times> 'a" where
  "rs_checkGetHeaderAs lexical_cast key d r = checkGetAs lexical_cast (rs_headers r) key d"

definition rs_getHeaderAs :: "(str \<Rightarrow> 'a option) \<Rightarrow> str \<Rightarrow> 'a \<Rightarrow> http_response \<Rightarrow> 'a" where
  "rs_getHeaderAs lexical_cast key d r = getAs lexical_cast (rs_headers r) key d"

text \<open>A negative status is printed as the 32-bit number it is cast to.\<close>

definition rs_dump :: "http_response \<Rightarrow> str" where
  "rs_dump r = version_text (rs_version r) @ chars '' '' @ decimal (nat (rs_status r mod 2 ^ 32)) @ chars '' ''
     @ (if rs_reason r = [] then HttpStatusToString (rs_status r) else rs_reason r) @ crlf
     @ header_lines (rs_headers r) @ connection_line (rs_close r) @ body_part (rs_body r)"

definition rs_toString :: "http_response \<Rightarrow> str" where
  "rs_toString r = rs_dump r"

end
