(* ===== verification/HttpProps.thy ===== *)
theory HttpProps
  imports Http
begin

text \<open>
  Header fields are found whatever the case of their names, and the methods are printed and read back.
\<close>

section \<open>Header fields\<close>

text \<open>Changes of the header fields, and what they do to a function from lower-case names.\<close>

datatype header_op = SetHeader str str | DelHeader str

fun header_step :: "http_request \<Rightarrow> header_op \<Rightarrow> http_request" where
  "header_step r (SetHeader key val) = rq_setHeader key val r"
| "header_step r (DelHeader key) = rq_delHeader key r"

fun header_spec :: "(str \<Rightarrow> str option) \<Rightarrow> header_op \<Rightarrow> str \<Rightarrow> str option" where
  "header_spec f (SetHeader key val) = f(ci_key key \<mapsto> val)"
| "header_spec f (DelHeader key) = f(ci_key key := None)"

lemma header_steps:
  "ci.in_order (rq_headers r) \<Longrightarrow> ci.in_order (rq_headers (foldl header_step r ops))
    \<and> ci.stands_for (rq_headers (foldl header_step r ops)) = foldl header_spec (ci.stands_for (rq_headers r)) ops"
proof (induction ops arbitrary: r)
  case (Cons op ops)
  have "ci.in_order (rq_headers (header_step r op))"
    "ci.stands_for (rq_headers (header_step r op)) = header_spec (ci.stands_for (rq_headers r)) op"
    using Cons.prems
    by (cases op; simp add: rq_setHeader_def rq_delHeader_def ci.put_in_order ci.put_stands_for ci.erase_in_order
        ci.erase_stands_for)+
  then show ?case using Cons.IH by simp
qed simp

text \<open>
  C38. The header fields of a request are a map from names without regard to case: after any sequence of
  \<open>setHeader\<close> and \<open>delHeader\<close> on a new request, \<open>getHeader\<close> and \<open>hasHeader\<close> give the value last set under any
  spelling of the name, if it was not deleted since, and the entries stand in strict order.
\<close>

theorem header_maps_ignore_case:
  fixes ops :: "header_op list" and status :: int and version :: u16 and close :: bool
  defines "r \<equiv> foldl header_step (HttpRequest status version close) ops"
    and "f \<equiv> foldl header_spec (\<lambda>_. None) ops"
  shows "rq_getHeader key d r = (case f (ci_key key) of None \<Rightarrow> d | Some v \<Rightarrow> v)
    \<and> rq_hasHeader key r = (f (ci_key key) \<noteq> None, f (ci_key key))
    \<and> sorted_wrt CaseInsensitiveLess (map fst (rq_headers r))"
proof -
  have "ci.in_order (rq_headers r)" "ci.stands_for (rq_headers r) = f"
    using header_steps [of "HttpRequest status version close" ops] by (simp_all add: r_def f_def HttpRequest_def)
  then show ?thesis
    by (simp_all add: rq_getHeader_def rq_hasHeader_def get_or_stands_for has_key_stands_for ci.in_order_def)
qed

section \<open>Methods\<close>

lemma method_names:
  "m \<noteq> INVALID_METHOD \<Longrightarrow> (m, HttpMethodToString m) \<in> set HTTP_METHOD_MAP"
  by (cases m) (simp_all add: HttpMethodToString_def method_num_def HTTP_METHOD_MAP_def)

lemma names_prefix_free:
  "list_all (\<lambda>(n, s). list_all (\<lambda>(n', s'). take (length s) s' = s \<longrightarrow> n = n') HTTP_METHOD_MAP) HTTP_METHOD_MAP"
  by (simp add: HTTP_METHOD_MAP_def)

lemma names_distinct: "distinct (map fst HTTP_METHOD_MAP)"
  by (simp add: HTTP_METHOD_MAP_def)

lemma invalid_not_named: "(n, s) \<in> set HTTP_METHOD_MAP \<Longrightarrow> n \<noteq> INVALID_METHOD"
proof -
  have "INVALID_METHOD \<notin> fst ` set HTTP_METHOD_MAP" by (simp add: HTTP_METHOD_MAP_def)
  then show "(n, s) \<in> set HTTP_METHOD_MAP \<Longrightarrow> n \<noteq> INVALID_METHOD" by force
qed

lemma name_unique:
  assumes "(n, s) \<in> set HTTP_METHOD_MAP" "(n', s') \<in> set HTTP_METHOD_MAP" "take (length s) s' = s"
  shows "n = n'" "s = s'"
proof -
  show n: "n = n'" using names_prefix_free assms by (auto simp: list_all_iff)
  show "s = s'" using names_distinct assms(1,2) n by (metis eq_key_imp_eq_value)
qed

lemma name_not_outside:
  assumes "(n, s) \<in> set HTTP_METHOD_MAP"
  shows "\<not> list_ex (\<lambda>(n', s'). length (s @ rest) < length s' \<and> take (length (s @ rest)) s' = s @ rest) HTTP_METHOD_MAP"
proof
  assume "list_ex (\<lambda>(n', s'). length (s @ rest) < length s' \<and> take (length (s @ rest)) s' = s @ rest) HTTP_METHOD_MAP"
  then obtain n' s' where s': "(n', s') \<in> set HTTP_METHOD_MAP" "length (s @ rest) < length s'" "take (length (s @ rest)) s' = s @ rest"
    by (auto simp: list_ex_iff)
  have "take (length s) (take (length (s @ rest)) s') = s" unfolding s'(3) by simp
  then have "take (length s) s' = s" by (simp add: min_def split: if_splits)
  then have "s = s'" by (rule name_unique(2) [OF assms s'(1)])
  then show False using s'(2) by simp
qed

lemma CharsToHttpMethod_name:
  assumes "(n, s) \<in> set HTTP_METHOD_MAP"
  shows "CharsToHttpMethod (s @ rest) = n"
proof -
  obtain n' s' where f: "List.find (\<lambda>(name, t). take (length t) (s @ rest) = t) HTTP_METHOD_MAP = Some (n', s')"
  proof (cases "List.find (\<lambda>(name, t). take (length t) (s @ rest) = t) HTTP_METHOD_MAP")
    case None
    then have "\<not> take (length s) (s @ rest) = s" using assms unfolding find_None_iff by blast
    then show ?thesis by simp
  qed auto
  then have s': "(n', s') \<in> set HTTP_METHOD_MAP" "take (length s') (s @ rest) = s'"
    by (auto simp: find_Some_iff) (metis nth_mem)
  have "take (length s) s' = s \<or> take (length s') s = s'"
    using s'(2) by (metis append_eq_append_conv2 append_eq_conv_conj append_take_drop_id take_append)
  then have "n = n'" using name_unique(1) assms s'(1) by metis
  then show ?thesis using f by (simp add: CharsToHttpMethod_def)
qed

lemma StringToHttpMethod_name:
  assumes "(n, s) \<in> set HTTP_METHOD_MAP"
  shows "StringToHttpMethod s = n"
proof -
  have "list_all (\<lambda>(n, s). list_all (\<lambda>c. c mod 256 \<noteq> 0) s) HTTP_METHOD_MAP"
    by (simp add: HTTP_METHOD_MAP_def)
  from bspec [OF this [unfolded list_all_iff [of _ HTTP_METHOD_MAP]] assms]
  have "list_all (\<lambda>c. c mod 256 \<noteq> 0) s" by (simp only: case_prod_conv)
  then have s: "c_str s = s" unfolding c_str_def list_all_iff by (intro takeWhile_eq_all_conv [THEN iffD2]) blast
  obtain n' s' where f: "List.find (\<lambda>(name, t). t = c_str s) HTTP_METHOD_MAP = Some (n', s')"
    using assms s by (cases "List.find (\<lambda>(name, t). t = c_str s) HTTP_METHOD_MAP") (auto simp: find_None_iff)
  then have "(n', s') \<in> set HTTP_METHOD_MAP" "s' = s"
    using s by (auto simp: find_Some_iff) (metis nth_mem)
  then have "n = n'" using name_unique(1) [OF assms, of n' s'] by simp
  then show ?thesis using f by (simp add: StringToHttpMethod_def)
qed

text \<open>
  Methods are printed and read back: the text of every method but the invalid one, alone or at the front
  of a request line, is read as that method, and a text read as a method is its text.
\<close>

theorem method_round_trip:
  assumes "m \<noteq> INVALID_METHOD" "StringToHttpMethod t \<noteq> INVALID_METHOD"
  shows "StringToHttpMethod (HttpMethodToString m) = m \<and> CharsToHttpMethod (HttpMethodToString m @ rest) = m
    \<and> HttpMethodToString (StringToHttpMethod t) = c_str t"
proof -
  obtain n s where f: "List.find (\<lambda>(name, s). s = c_str t) HTTP_METHOD_MAP = Some (n, s)"
    using assms(2) by (auto simp: StringToHttpMethod_def split: option.splits)
  then have "StringToHttpMethod t = n" "(n, c_str t) \<in> set HTTP_METHOD_MAP"
    by (simp add: StringToHttpMethod_def) (use f in \<open>auto simp: find_Some_iff, metis nth_mem\<close>)
  then have "HttpMethodToString (StringToHttpMethod t) = c_str t"
    using method_names [OF assms(2)] names_distinct by (metis eq_key_imp_eq_value)
  then show ?thesis
    using method_names [OF assms(1)] CharsToHttpMethod_name StringToHttpMethod_name by blast
qed

theorem method_round_trip_witness:
  "CharsToHttpMethod (HttpMethodToString MSEARCH @ [32]) = MSEARCH \<and> HttpMethodToString (StringToHttpMethod (chars ''GET'')) = chars ''GET''"
proof -
  have "StringToHttpMethod (chars ''GET'') \<noteq> INVALID_METHOD" "c_str (chars ''GET'') = chars ''GET''"
    by (simp_all add: StringToHttpMethod_def HTTP_METHOD_MAP_def c_str_def)
  then show ?thesis using method_round_trip [of MSEARCH "chars ''GET''" "[32]"] by simp
qed

section \<open>Where the code falls short\<close>

text \<open>The method of a request is compared without its end: \<^verbatim>\<open>GETX\<close> is \<^verbatim>\<open>GET\<close>.\<close>

lemma method_prefix_accepted: "CharsToHttpMethod (HttpMethodToString GET @ chars ''X /'') = GET"
  by (rule CharsToHttpMethod_name) (rule method_names, simp)

text \<open>A parameter or a cookie is looked up among the header fields.\<close>

lemma params_not_read:
  "rq_getParamAs lexical_cast key d (rq_setParam key val (HttpRequest status version close)) = d"
  by (simp add: rq_getParamAs_def rq_setParam_def HttpRequest_def getAs_def map_find_def)

text \<open>A field \<^verbatim>\<open>content-length\<close> that is set is printed, and then once more for the body.\<close>

lemma content_length_twice:
  "rq_headers r = [(chars ''content-length'', v)] \<Longrightarrow> rq_body r \<noteq> []
    \<Longrightarrow> \<exists>front. rq_dump r = front @ chars ''content-length: '' @ v @ crlf @ chars ''content-length: ''
          @ decimal (length (rq_body r)) @ crlf @ crlf @ rq_body r"
  by (simp add: rq_dump_def header_lines_def body_part_def c_str_def lower_def)

end
