(* ===== verification/ClientStates.thy ===== *)
theory ClientStates
  imports HttpMachine
begin

text \<open>
  The states of the response machine of \<^verbatim>\<open>server/http/httpclient_parser.rl.cc\<close>: for each \<^verbatim>\<open>case\<close> of the
  switch, the label it jumps to for the character \<open>c\<close>, as in \<^verbatim>\<open>HttpStates1\<close>.
\<close>

definition client_case_1 :: "int \<Rightarrow> label" where
  "client_case_1 c =
     (if c = 72 then Tr 2
      else if c < 65 then (if 48 \<le> c \<and> c \<le> 57 then Tr 0 else St 0)
      else if c > 70 then (if 97 \<le> c \<and> c \<le> 102 then Tr 0 else St 0) else Tr 0)"

definition client_case_2 :: "int \<Rightarrow> label" where
  "client_case_2 c =
     (if c = 10 then Tr 3
      else if c = 13 then Tr 4
      else if c = 59 then Tr 6
      else if c < 65 then (if 48 \<le> c \<and> c \<le> 57 then St 2 else St 0)
      else if c > 70 then (if 97 \<le> c \<and> c \<le> 102 then St 2 else St 0) else St 2)"

definition client_case_3 :: "int \<Rightarrow> label" where
  "client_case_3 c =
     (if c = 10 then Tr 7 else St 0)"

definition client_case_4 :: "int \<Rightarrow> label" where
  "client_case_4 c =
     (if c = 33 then Tr 8
      else if c = 124 then Tr 8
      else if c = 126 then Tr 8
      else if c < 45 then
         (if c > 39 then (if 42 \<le> c \<and> c \<le> 43 then Tr 8 else St 0)
          else if c \<ge> 35 then Tr 8 else St 0)
      else if c > 46 then
         (if c < 65 then (if 48 \<le> c \<and> c \<le> 57 then Tr 8 else St 0)
          else if c > 90 then (if 94 \<le> c \<and> c \<le> 122 then Tr 8 else St 0) else Tr 8)
      else Tr 8)"

definition client_case_5 :: "int \<Rightarrow> label" where
  "client_case_5 c =
     (if c = 10 then Tr 9
      else if c = 13 then Tr 10
      else if c = 33 then St 5
      else if c = 59 then Tr 12
      else if c = 61 then Tr 13
      else if c = 124 then St 5
      else if c = 126 then St 5
      else if c < 45 then
         (if c > 39 then (if 42 \<le> c \<and> c \<le> 43 then St 5 else St 0)
          else if c \<ge> 35 then St 5 else St 0)
      else if c > 46 then
         (if c < 65 then (if 48 \<le> c \<and> c \<le> 57 then St 5 else St 0)
          else if c > 90 then (if 94 \<le> c \<and> c \<le> 122 then St 5 else St 0) else St 5)
      else St 5)"

definition client_case_6 :: "int \<Rightarrow> label" where
  "client_case_6 c =
     (if c = 33 then Tr 14
      else if c = 124 then Tr 14
      else if c = 126 then Tr 14
      else if c < 45 then
         (if c > 39 then (if 42 \<le> c \<and> c \<le> 43 then Tr 14 else St 0)
          else if c \<ge> 35 then Tr 14 else St 0)
      else if c > 46 then
         (if c < 65 then (if 48 \<le> c \<and> c \<le> 57 then Tr 14 else St 0)
          else if c > 90 then (if 94 \<le> c \<and> c \<le> 122 then Tr 14 else St 0) else Tr 14)
      else Tr 14)"

definition client_case_7 :: "int \<Rightarrow> label" where
  "client_case_7 c =
     (if c = 10 then Tr 15
      else if c = 13 then Tr 16
      else if c = 33 then St 7
      else if c = 59 then Tr 18
      else if c = 124 then St 7
      else if c = 126 then St 7
      else if c < 45 then
         (if c > 39 then (if 42 \<le> c \<and> c \<le> 43 then St 7 else St 0)
          else if c \<ge> 35 then St 7 else St 0)
      else if c > 46 then
         (if c < 65 then (if 48 \<le> c \<and> c \<le> 57 then St 7 else St 0)
          else if c > 90 then (if 94 \<le> c \<and> c \<le> 122 then St 7 else St 0) else St 7)
      else St 7)"

definition client_case_8 :: "int \<Rightarrow> label" where
  "client_case_8 c =
     (if c = 84 then St 9 else St 0)"

definition client_case_9 :: "int \<Rightarrow> label" where
  "client_case_9 c =
     (if c = 84 then St 10 else St 0)"

definition client_case_10 :: "int \<Rightarrow> label" where
  "client_case_10 c =
     (if c = 80 then St 11 else St 0)"

definition client_case_11 :: "int \<Rightarrow> label" where
  "client_case_11 c =
     (if c = 47 then St 12 else St 0)"

definition client_case_12 :: "int \<Rightarrow> label" where
  "client_case_12 c =
     (if 48 \<le> c \<and> c \<le> 57 then St 13 else St 0)"

definition client_case_13 :: "int \<Rightarrow> label" where
  "client_case_13 c =
     (if c = 46 then St 14 else if 48 \<le> c \<and> c \<le> 57 then St 13 else St 0)"

definition client_case_14 :: "int \<Rightarrow> label" where
  "client_case_14 c =
     (if 48 \<le> c \<and> c \<le> 57 then St 15 else St 0)"

definition client_case_15 :: "int \<Rightarrow> label" where
  "client_case_15 c =
     (if c = 32 then Tr 26 else if 48 \<le> c \<and> c \<le> 57 then St 15 else St 0)"

definition client_case_16 :: "int \<Rightarrow> label" where
  "client_case_16 c =
     (if 48 \<le> c \<and> c \<le> 57 then Tr 27 else St 0)"

definition client_case_17 :: "int \<Rightarrow> label" where
  "client_case_17 c =
     (if c = 32 then Tr 28 else if 48 \<le> c \<and> c \<le> 57 then St 17 else St 0)"

definition client_case_18 :: "int \<Rightarrow> label" where
  "client_case_18 c =
     (if c = 10 then St 0 else Tr 30)"

definition client_case_19 :: "int \<Rightarrow> label" where
  "client_case_19 c =
     (if c = 10 then Tr 32 else if c = 13 then Tr 33 else St 19)"

definition client_case_20 :: "int \<Rightarrow> label" where
  "client_case_20 c =
     (if c = 10 then Tr 7
      else if c = 13 then St 3
      else if c = 33 then Tr 35
      else if c = 67 then Tr 36
      else if c = 84 then Tr 37
      else if c = 99 then Tr 36
      else if c = 116 then Tr 37
      else if c = 124 then Tr 35
      else if c = 126 then Tr 35
      else if c < 45 then
         (if c > 39 then (if 42 \<le> c \<and> c \<le> 43 then Tr 35 else St 0)
          else if c \<ge> 35 then Tr 35 else St 0)
      else if c > 46 then
         (if c < 65 then (if 48 \<le> c \<and> c \<le> 57 then Tr 35 else St 0)
          else if c > 90 then (if 94 \<le> c \<and> c \<le> 122 then Tr 35 else St 0) else Tr 35)
      else Tr 35)"

definition client_case_21 :: "int \<Rightarrow> label" where
  "client_case_21 c =
     (if c = 33 then St 21
      else if c = 58 then Tr 39
      else if c = 124 then St 21
      else if c = 126 then St 21
      else if c < 45 then
         (if c > 39 then (if 42 \<le> c \<and> c \<le> 43 then St 21 else St 0)
          else if c \<ge> 35 then St 21 else St 0)
      else if c > 46 then
         (if c < 65 then (if 48 \<le> c \<and> c \<le> 57 then St 21 else St 0)
          else if c > 90 then (if 94 \<le> c \<and> c \<le> 122 then St 21 else St 0) else St 21)
      else St 21)"

definition client_case_22 :: "int \<Rightarrow> label" where
  "client_case_22 c =
     (if c = 10 then Tr 42
      else if c = 13 then Tr 43
      else if c = 32 then Tr 41 else if 9 \<le> c \<and> c \<le> 12 then Tr 41 else Tr 40)"

definition client_case_23 :: "int \<Rightarrow> label" where
  "client_case_23 c =
     (if c = 10 then Tr 45 else if c = 13 then Tr 46 else St 23)"

definition client_case_24 :: "int \<Rightarrow> label" where
  "client_case_24 c =
     (if c = 10 then St 20 else St 0)"

definition client_case_25 :: "int \<Rightarrow> label" where
  "client_case_25 c =
     (if c = 33 then St 21
      else if c = 58 then Tr 39
      else if c = 79 then St 26
      else if c = 111 then St 26
      else if c = 124 then St 21
      else if c = 126 then St 21
      else if c < 45 then
         (if c > 39 then (if 42 \<le> c \<and> c \<le> 43 then St 21 else St 0)
          else if c \<ge> 35 then St 21 else St 0)
      else if c > 46 then
         (if c < 65 then (if 48 \<le> c \<and> c \<le> 57 then St 21 else St 0)
          else if c > 90 then (if 94 \<le> c \<and> c \<le> 122 then St 21 else St 0) else St 21)
      else St 21)"

definition client_case_26 :: "int \<Rightarrow> label" where
  "client_case_26 c =
     (if c = 33 then St 21
      else if c = 58 then Tr 39
      else if c = 78 then St 27
      else if c = 110 then St 27
      else if c = 124 then St 21
      else if c = 126 then St 21
      else if c < 45 then
         (if c > 39 then (if 42 \<le> c \<and> c \<le> 43 then St 21 else St 0)
          else if c \<ge> 35 then St 21 else St 0)
      else if c > 46 then
         (if c < 65 then (if 48 \<le> c \<and> c \<le> 57 then St 21 else St 0)
          else if c > 90 then (if 94 \<le> c \<and> c \<le> 122 then St 21 else St 0) else St 21)
      else St 21)"

definition client_case_27 :: "int \<Rightarrow> label" where
  "client_case_27 c =
     (if c = 33 then St 21
      else if c = 58 then Tr 39
      else if c = 78 then St 28
      else if c = 84 then St 101
      else if c = 110 then St 28
      else if c = 116 then St 101
      else if c = 124 then St 21
      else if c = 126 then St 21
      else if c < 45 then
         (if c > 39 then (if 42 \<le> c \<and> c \<le> 43 then St 21 else St 0)
          else if c \<ge> 35 then St 21 else St 0)
      else if c > 46 then
         (if c < 65 then (if 48 \<le> c \<and> c \<le> 57 then St 21 else St 0)
          else if c > 90 then (if 94 \<le> c \<and> c \<le> 122 then St 21 else St 0) else St 21)
      else St 21)"

definition client_case_28 :: "int \<Rightarrow> label" where
  "client_case_28 c =
     (if c = 33 then St 21
      else if c = 58 then Tr 39
      else if c = 69 then St 29
      else if c = 101 then St 29
      else if c = 124 then St 21
      else if c = 126 then St 21
      else if c < 45 then
         (if c > 39 then (if 42 \<le> c \<and> c \<le> 43 then St 21 else St 0)
          else if c \<ge> 35 then St 21 else St 0)
      else if c > 46 then
         (if c < 65 then (if 48 \<le> c \<and> c \<le> 57 then St 21 else St 0)
          else if c > 90 then (if 94 \<le> c \<and> c \<le> 122 then St 21 else St 0) else St 21)
      else St 21)"

definition client_case_29 :: "int \<Rightarrow> label" where
  "client_case_29 c =
     (if c = 33 then St 21
      else if c = 58 then Tr 39
      else if c = 67 then St 30
      else if c = 99 then St 30
      else if c = 124 then St 21
      else if c = 126 then St 21
      else if c < 45 then
         (if c > 39 then (if 42 \<le> c \<and> c \<le> 43 then St 21 else St 0)
          else if c \<ge> 35 then St 21 else St 0)
      else if c > 46 then
         (if c < 65 then (if 48 \<le> c \<and> c \<le> 57 then St 21 else St 0)
          else if c > 90 then (if 94 \<le> c \<and> c \<le> 122 then St 21 else St 0) else St 21)
      else St 21)"

definition client_case_30 :: "int \<Rightarrow> label" where
  "client_case_30 c =
     (if c = 33 then St 21
      else if c = 58 then Tr 39
      else if c = 84 then St 31
      else if c = 116 then St 31
      else if c = 124 then St 21
      else if c = 126 then St 21
      else if c < 45 then
         (if c > 39 then (if 42 \<le> c \<and> c \<le> 43 then St 21 else St 0)
          else if c \<ge> 35 then St 21 else St 0)
      else if c > 46 then
         (if c < 65 then (if 48 \<le> c \<and> c \<le> 57 then St 21 else St 0)
          else if c > 90 then (if 94 \<le> c \<and> c \<le> 122 then St 21 else St 0) else St 21)
      else St 21)"

definition client_case_31 :: "int \<Rightarrow> label" where
  "client_case_31 c =
     (if c = 33 then St 21
      else if c = 58 then Tr 39
      else if c = 73 then St 32
      else if c = 105 then St 32
      else if c = 124 then St 21
      else if c = 126 then St 21
      else if c < 45 then
         (if c > 39 then (if 42 \<le> c \<and> c \<le> 43 then St 21 else St 0)
          else if c \<ge> 35 then St 21 else St 0)
      else if c > 46 then
         (if c < 65 then (if 48 \<le> c \<and> c \<le> 57 then St 21 else St 0)
          else if c > 90 then (if 94 \<le> c \<and> c \<le> 122 then St 21 else St 0) else St 21)
      else St 21)"

definition client_case_32 :: "int \<Rightarrow> label" where
  "client_case_32 c =
     (if c = 33 then St 21
      else if c = 58 then Tr 39
      else if c = 79 then St 33
      else if c = 111 then St 33
      else if c = 124 then St 21
      else if c = 126 then St 21
      else if c < 45 then
         (if c > 39 then (if 42 \<le> c \<and> c \<le> 43 then St 21 else St 0)
          else if c \<ge> 35 then St 21 else St 0)
      else if c > 46 then
         (if c < 65 then (if 48 \<le> c \<and> c \<le> 57 then St 21 else St 0)
          else if c > 90 then (if 94 \<le> c \<and> c \<le> 122 then St 21 else St 0) else St 21)
      else St 21)"

definition client_case_33 :: "int \<Rightarrow> label" where
  "client_case_33 c =
     (if c = 33 then St 21
      else if c = 58 then Tr 39
      else if c = 78 then St 34
      else if c = 110 then St 34
      else if c = 124 then St 21
      else if c = 126 then St 21
      else if c < 45 then
         (if c > 39 then (if 42 \<le> c \<and> c \<le> 43 then St 21 else St 0)
          else if c \<ge> 35 then St 21 else St 0)
      else if c > 46 then
         (if c < 65 then (if 48 \<le> c \<and> c \<le> 57 then St 21 else St 0)
          else if c > 90 then (if 94 \<le> c \<and> c \<le> 122 then St 21 else St 0) else St 21)
      else St 21)"

definition client_case_34 :: "int \<Rightarrow> label" where
  "client_case_34 c =
     (if c = 33 then St 21
      else if c = 58 then Tr 58
      else if c = 124 then St 21
      else if c = 126 then St 21
      else if c < 45 then
         (if c > 39 then (if 42 \<le> c \<and> c \<le> 43 then St 21 else St 0)
          else if c \<ge> 35 then St 21 else St 0)
      else if c > 46 then
         (if c < 65 then (if 48 \<le> c \<and> c \<le> 57 then St 21 else St 0)
          else if c > 90 then (if 94 \<le> c \<and> c \<le> 122 then St 21 else St 0) else St 21)
      else St 21)"

definition client_case_35 :: "int \<Rightarrow> label" where
  "client_case_35 c =
     (if c = 10 then Tr 60
      else if c = 13 then Tr 61
      else if c = 32 then Tr 59
      else if c = 67 then Tr 62
      else if c = 99 then Tr 62 else if 9 \<le> c \<and> c \<le> 12 then Tr 59 else Tr 40)"

definition client_case_36 :: "int \<Rightarrow> label" where
  "client_case_36 c =
     (if c = 10 then Tr 64
      else if c = 13 then St 89
      else if c = 32 then St 37
      else if c = 33 then Tr 35
      else if c = 67 then Tr 66
      else if c = 84 then Tr 37
      else if c = 99 then Tr 66
      else if c = 116 then Tr 37
      else if c = 124 then Tr 35
      else if c = 126 then Tr 35
      else if c < 45 then
         (if c < 35 then (if 9 \<le> c \<and> c \<le> 12 then St 37 else St 0)
          else if c > 39 then (if 42 \<le> c \<and> c \<le> 43 then Tr 35 else St 0) else Tr 35)
      else if c > 46 then
         (if c < 65 then (if 48 \<le> c \<and> c \<le> 57 then Tr 35 else St 0)
          else if c > 90 then (if 94 \<le> c \<and> c \<le> 122 then Tr 35 else St 0) else Tr 35)
      else Tr 35)"

definition client_case_37 :: "int \<Rightarrow> label" where
  "client_case_37 c =
     (if c = 32 then St 37
      else if c = 67 then St 38
      else if c = 99 then St 38 else if 9 \<le> c \<and> c \<le> 13 then St 37 else St 0)"

definition client_case_38 :: "int \<Rightarrow> label" where
  "client_case_38 c =
     (if c = 76 then St 39 else if c = 108 then St 39 else St 0)"

definition client_case_39 :: "int \<Rightarrow> label" where
  "client_case_39 c =
     (if c = 79 then St 40 else if c = 111 then St 40 else St 0)"

definition client_case_40 :: "int \<Rightarrow> label" where
  "client_case_40 c =
     (if c = 83 then St 41 else if c = 115 then St 41 else St 0)"

definition client_case_41 :: "int \<Rightarrow> label" where
  "client_case_41 c =
     (if c = 69 then St 42 else if c = 101 then St 42 else St 0)"

definition client_case_42 :: "int \<Rightarrow> label" where
  "client_case_42 c =
     (if c = 10 then St 43 else if c = 13 then St 88 else St 0)"

definition client_case_43 :: "int \<Rightarrow> label" where
  "client_case_43 c =
     (if c = 10 then Tr 74
      else if c = 13 then Tr 75
      else if c = 33 then Tr 76
      else if c = 67 then Tr 77
      else if c = 84 then Tr 78
      else if c = 99 then Tr 77
      else if c = 116 then Tr 78
      else if c = 124 then Tr 76
      else if c = 126 then Tr 76
      else if c < 45 then
         (if c > 39 then (if 42 \<le> c \<and> c \<le> 43 then Tr 76 else St 0)
          else if c \<ge> 35 then Tr 76 else St 0)
      else if c > 46 then
         (if c < 65 then (if 48 \<le> c \<and> c \<le> 57 then Tr 76 else St 0)
          else if c > 90 then (if 94 \<le> c \<and> c \<le> 122 then Tr 76 else St 0) else Tr 76)
      else Tr 76)"

definition client_case_44 :: "int \<Rightarrow> label" where
  "client_case_44 c =
     (if c = 33 then St 21
      else if c = 58 then Tr 39
      else if c = 82 then St 45
      else if c = 114 then St 45
      else if c = 124 then St 21
      else if c = 126 then St 21
      else if c < 45 then
         (if c > 39 then (if 42 \<le> c \<and> c \<le> 43 then St 21 else St 0)
          else if c \<ge> 35 then St 21 else St 0)
      else if c > 46 then
         (if c < 65 then (if 48 \<le> c \<and> c \<le> 57 then St 21 else St 0)
          else if c > 90 then (if 94 \<le> c \<and> c \<le> 122 then St 21 else St 0) else St 21)
      else St 21)"

definition client_case_45 :: "int \<Rightarrow> label" where
  "client_case_45 c =
     (if c = 33 then St 21
      else if c = 58 then Tr 39
      else if c = 65 then St 46
      else if c = 97 then St 46
      else if c = 124 then St 21
      else if c = 126 then St 21
      else if c < 45 then
         (if c > 39 then (if 42 \<le> c \<and> c \<le> 43 then St 21 else St 0)
          else if c \<ge> 35 then St 21 else St 0)
      else if c > 46 then
         (if c < 66 then (if 48 \<le> c \<and> c \<le> 57 then St 21 else St 0)
          else if c > 90 then (if 94 \<le> c \<and> c \<le> 122 then St 21 else St 0) else St 21)
      else St 21)"

definition client_case_46 :: "int \<Rightarrow> label" where
  "client_case_46 c =
     (if c = 33 then St 21
      else if c = 58 then Tr 39
      else if c = 78 then St 47
      else if c = 110 then St 47
      else if c = 124 then St 21
      else if c = 126 then St 21
      else if c < 45 then
         (if c > 39 then (if 42 \<le> c \<and> c \<le> 43 then St 21 else St 0)
          else if c \<ge> 35 then St 21 else St 0)
      else if c > 46 then
         (if c < 65 then (if 48 \<le> c \<and> c \<le> 57 then St 21 else St 0)
          else if c > 90 then (if 94 \<le> c \<and> c \<le> 122 then St 21 else St 0) else St 21)
      else St 21)"

definition client_case_47 :: "int \<Rightarrow> label" where
  "client_case_47 c =
     (if c = 33 then St 21
      else if c = 58 then Tr 39
      else if c = 83 then St 48
      else if c = 115 then St 48
      else if c = 124 then St 21
      else if c = 126 then St 21
      else if c < 45 then
         (if c > 39 then (if 42 \<le> c \<and> c \<le> 43 then St 21 else St 0)
          else if c \<ge> 35 then St 21 else St 0)
      else if c > 46 then
         (if c < 65 then (if 48 \<le> c \<and> c \<le> 57 then St 21 else St 0)
          else if c > 90 then (if 94 \<le> c \<and> c \<le> 122 then St 21 else St 0) else St 21)
      else St 21)"

definition client_case_48 :: "int \<Rightarrow> label" where
  "client_case_48 c =
     (if c = 33 then St 21
      else if c = 58 then Tr 39
      else if c = 70 then St 49
      else if c = 102 then St 49
      else if c = 124 then St 21
      else if c = 126 then St 21
      else if c < 45 then
         (if c > 39 then (if 42 \<le> c \<and> c \<le> 43 then St 21 else St 0)
          else if c \<ge> 35 then St 21 else St 0)
      else if c > 46 then
         (if c < 65 then (if 48 \<le> c \<and> c \<le> 57 then St 21 else St 0)
          else if c > 90 then (if 94 \<le> c \<and> c \<le> 122 then St 21 else St 0) else St 21)
      else St 21)"

definition client_case_49 :: "int \<Rightarrow> label" where
  "client_case_49 c =
     (if c = 33 then St 21
      else if c = 58 then Tr 39
      else if c = 69 then St 50
      else if c = 101 then St 50
      else if c = 124 then St 21
      else if c = 126 then St 21
      else if c < 45 then
         (if c > 39 then (if 42 \<le> c \<and> c \<le> 43 then St 21 else St 0)
          else if c \<ge> 35 then St 21 else St 0)
      else if c > 46 then
         (if c < 65 then (if 48 \<le> c \<and> c \<le> 57 then St 21 else St 0)
          else if c > 90 then (if 94 \<le> c \<and> c \<le> 122 then St 21 else St 0) else St 21)
      else St 21)"

definition client_case_50 :: "int \<Rightarrow> label" where
  "client_case_50 c =
     (if c = 33 then St 21
      else if c = 58 then Tr 39
      else if c = 82 then St 51
      else if c = 114 then St 51
      else if c = 124 then St 21
      else if c = 126 then St 21
      else if c < 45 then
         (if c > 39 then (if 42 \<le> c \<and> c \<le> 43 then St 21 else St 0)
          else if c \<ge> 35 then St 21 else St 0)
      else if c > 46 then
         (if c < 65 then (if 48 \<le> c \<and> c \<le> 57 then St 21 else St 0)
          else if c > 90 then (if 94 \<le> c \<and> c \<le> 122 then St 21 else St 0) else St 21)
      else St 21)"

definition client_case_51 :: "int \<Rightarrow> label" where
  "client_case_51 c =
     (if c = 33 then St 21
      else if c = 45 then St 52
      else if c = 46 then St 21
      else if c = 58 then Tr 39
      else if c = 124 then St 21
      else if c = 126 then St 21
      else if c < 48 then
         (if c > 39 then (if 42 \<le> c \<and> c \<le> 43 then St 21 else St 0)
          else if c \<ge> 35 then St 21 else St 0)
      else if c > 57 then
         (if c > 90 then (if 94 \<le> c \<and> c \<le> 122 then St 21 else St 0)
          else if c \<ge> 65 then St 21 else St 0)
      else St 21)"

definition client_case_52 :: "int \<Rightarrow> label" where
  "client_case_52 c =
     (if c = 33 then St 21
      else if c = 58 then Tr 39
      else if c = 69 then St 53
      else if c = 101 then St 53
      else if c = 124 then St 21
      else if c = 126 then St 21
      else if c < 45 then
         (if c > 39 then (if 42 \<le> c \<and> c \<le> 43 then St 21 else St 0)
          else if c \<ge> 35 then St 21 else St 0)
      else if c > 46 then
         (if c < 65 then (if 48 \<le> c \<and> c \<le> 57 then St 21 else St 0)
          else if c > 90 then (if 94 \<le> c \<and> c \<le> 122 then St 21 else St 0) else St 21)
      else St 21)"

definition client_case_53 :: "int \<Rightarrow> label" where
  "client_case_53 c =
     (if c = 33 then St 21
      else if c = 58 then Tr 39
      else if c = 78 then St 54
      else if c = 110 then St 54
      else if c = 124 then St 21
      else if c = 126 then St 21
      else if c < 45 then
         (if c > 39 then (if 42 \<le> c \<and> c \<le> 43 then St 21 else St 0)
          else if c \<ge> 35 then St 21 else St 0)
      else if c > 46 then
         (if c < 65 then (if 48 \<le> c \<and> c \<le> 57 then St 21 else St 0)
          else if c > 90 then (if 94 \<le> c \<and> c \<le> 122 then St 21 else St 0) else St 21)
      else St 21)"

definition client_case_54 :: "int \<Rightarrow> label" where
  "client_case_54 c =
     (if c = 33 then St 21
      else if c = 58 then Tr 39
      else if c = 67 then St 55
      else if c = 99 then St 55
      else if c = 124 then St 21
      else if c = 126 then St 21
      else if c < 45 then
         (if c > 39 then (if 42 \<le> c \<and> c \<le> 43 then St 21 else St 0)
          else if c \<ge> 35 then St 21 else St 0)
      else if c > 46 then
         (if c < 65 then (if 48 \<le> c \<and> c \<le> 57 then St 21 else St 0)
          else if c > 90 then (if 94 \<le> c \<and> c \<le> 122 then St 21 else St 0) else St 21)
      else St 21)"

definition client_case_55 :: "int \<Rightarrow> label" where
  "client_case_55 c =
     (if c = 33 then St 21
      else if c = 58 then Tr 39
      else if c = 79 then St 56
      else if c = 111 then St 56
      else if c = 124 then St 21
      else if c = 126 then St 21
      else if c < 45 then
         (if c > 39 then (if 42 \<le> c \<and> c \<le> 43 then St 21 else St 0)
          else if c \<ge> 35 then St 21 else St 0)
      else if c > 46 then
         (if c < 65 then (if 48 \<le> c \<and> c \<le> 57 then St 21 else St 0)
          else if c > 90 then (if 94 \<le> c \<and> c \<le> 122 then St 21 else St 0) else St 21)
      else St 21)"

definition client_case_56 :: "int \<Rightarrow> label" where
  "client_case_56 c =
     (if c = 33 then St 21
      else if c = 58 then Tr 39
      else if c = 68 then St 57
      else if c = 100 then St 57
      else if c = 124 then St 21
      else if c = 126 then St 21
      else if c < 45 then
         (if c > 39 then (if 42 \<le> c \<and> c \<le> 43 then St 21 else St 0)
          else if c \<ge> 35 then St 21 else St 0)
      else if c > 46 then
         (if c < 65 then (if 48 \<le> c \<and> c \<le> 57 then St 21 else St 0)
          else if c > 90 then (if 94 \<le> c \<and> c \<le> 122 then St 21 else St 0) else St 21)
      else St 21)"

definition client_case_57 :: "int \<Rightarrow> label" where
  "client_case_57 c =
     (if c = 33 then St 21
      else if c = 58 then Tr 39
      else if c = 73 then St 58
      else if c = 105 then St 58
      else if c = 124 then St 21
      else if c = 126 then St 21
      else if c < 45 then
         (if c > 39 then (if 42 \<le> c \<and> c \<le> 43 then St 21 else St 0)
          else if c \<ge> 35 then St 21 else St 0)
      else if c > 46 then
         (if c < 65 then (if 48 \<le> c \<and> c \<le> 57 then St 21 else St 0)
          else if c > 90 then (if 94 \<le> c \<and> c \<le> 122 then St 21 else St 0) else St 21)
      else St 21)"

definition client_case_58 :: "int \<Rightarrow> label" where
  "client_case_58 c =
     (if c = 33 then St 21
      else if c = 58 then Tr 39
      else if c = 78 then St 59
      else if c = 110 then St 59
      else if c = 124 then St 21
      else if c = 126 then St 21
      else if c < 45 then
         (if c > 39 then (if 42 \<le> c \<and> c \<le> 43 then St 21 else St 0)
          else if c \<ge> 35 then St 21 else St 0)
      else if c > 46 then
         (if c < 65 then (if 48 \<le> c \<and> c \<le> 57 then St 21 else St 0)
          else if c > 90 then (if 94 \<le> c \<and> c \<le> 122 then St 21 else St 0) else St 21)
      else St 21)"

definition client_case_59 :: "int \<Rightarrow> label" where
  "client_case_59 c =
     (if c = 33 then St 21
      else if c = 58 then Tr 39
      else if c = 71 then St 60
      else if c = 103 then St 60
      else if c = 124 then St 21
      else if c = 126 then St 21
      else if c < 45 then
         (if c > 39 then (if 42 \<le> c \<and> c \<le> 43 then St 21 else St 0)
          else if c \<ge> 35 then St 21 else St 0)
      else if c > 46 then
         (if c < 65 then (if 48 \<le> c \<and> c \<le> 57 then St 21 else St 0)
          else if c > 90 then (if 94 \<le> c \<and> c \<le> 122 then St 21 else St 0) else St 21)
      else St 21)"

definition client_case_60 :: "int \<Rightarrow> label" where
  "client_case_60 c =
     (if c = 33 then St 21
      else if c = 58 then Tr 95
      else if c = 124 then St 21
      else if c = 126 then St 21
      else if c < 45 then
         (if c > 39 then (if 42 \<le> c \<and> c \<le> 43 then St 21 else St 0)
          else if c \<ge> 35 then St 21 else St 0)
      else if c > 46 then
         (if c < 65 then (if 48 \<le> c \<and> c \<le> 57 then St 21 else St 0)
          else if c > 90 then (if 94 \<le> c \<and> c \<le> 122 then St 21 else St 0) else St 21)
      else St 21)"

definition client_case_61 :: "int \<Rightarrow> label" where
  "client_case_61 c =
     (if c = 10 then Tr 97
      else if c = 13 then Tr 98
      else if c = 32 then Tr 96
      else if c = 67 then Tr 99
      else if c = 99 then Tr 99 else if 9 \<le> c \<and> c \<le> 12 then Tr 96 else Tr 40)"

definition client_case_62 :: "int \<Rightarrow> label" where
  "client_case_62 c =
     (if c = 10 then Tr 101
      else if c = 13 then St 72
      else if c = 32 then St 63
      else if c = 33 then Tr 35
      else if c = 67 then Tr 103
      else if c = 84 then Tr 37
      else if c = 99 then Tr 103
      else if c = 116 then Tr 37
      else if c = 124 then Tr 35
      else if c = 126 then Tr 35
      else if c < 45 then
         (if c < 35 then (if 9 \<le> c \<and> c \<le> 12 then St 63 else St 0)
          else if c > 39 then (if 42 \<le> c \<and> c \<le> 43 then Tr 35 else St 0) else Tr 35)
      else if c > 46 then
         (if c < 65 then (if 48 \<le> c \<and> c \<le> 57 then Tr 35 else St 0)
          else if c > 90 then (if 94 \<le> c \<and> c \<le> 122 then Tr 35 else St 0) else Tr 35)
      else Tr 35)"

definition client_case_63 :: "int \<Rightarrow> label" where
  "client_case_63 c =
     (if c = 32 then St 63
      else if c = 67 then Tr 104
      else if c = 99 then Tr 104 else if 9 \<le> c \<and> c \<le> 13 then St 63 else St 0)"

definition client_case_64 :: "int \<Rightarrow> label" where
  "client_case_64 c =
     (if c = 72 then St 65 else if c = 104 then St 65 else St 0)"

definition client_case_65 :: "int \<Rightarrow> label" where
  "client_case_65 c =
     (if c = 85 then St 66 else if c = 117 then St 66 else St 0)"

definition client_case_66 :: "int \<Rightarrow> label" where
  "client_case_66 c =
     (if c = 78 then St 67 else if c = 110 then St 67 else St 0)"

definition client_case_67 :: "int \<Rightarrow> label" where
  "client_case_67 c =
     (if c = 75 then St 68 else if c = 107 then St 68 else St 0)"

definition client_case_68 :: "int \<Rightarrow> label" where
  "client_case_68 c =
     (if c = 69 then St 69 else if c = 101 then St 69 else St 0)"

definition client_case_69 :: "int \<Rightarrow> label" where
  "client_case_69 c =
     (if c = 68 then St 70 else if c = 100 then St 70 else St 0)"

definition client_case_70 :: "int \<Rightarrow> label" where
  "client_case_70 c =
     (if c = 10 then Tr 111 else if c = 13 then Tr 112 else St 0)"

definition client_case_71 :: "int \<Rightarrow> label" where
  "client_case_71 c =
     (if c = 10 then Tr 113 else St 0)"

definition client_case_72 :: "int \<Rightarrow> label" where
  "client_case_72 c =
     (if c = 10 then Tr 101
      else if c = 32 then St 63
      else if c = 67 then Tr 104
      else if c = 99 then Tr 104 else if 9 \<le> c \<and> c \<le> 13 then St 63 else St 0)"

definition client_case_73 :: "int \<Rightarrow> label" where
  "client_case_73 c =
     (if c = 33 then St 21
      else if c = 58 then Tr 39
      else if c = 72 then St 74
      else if c = 79 then St 26
      else if c = 104 then St 74
      else if c = 111 then St 26
      else if c = 124 then St 21
      else if c = 126 then St 21
      else if c < 45 then
         (if c > 39 then (if 42 \<le> c \<and> c \<le> 43 then St 21 else St 0)
          else if c \<ge> 35 then St 21 else St 0)
      else if c > 46 then
         (if c < 65 then (if 48 \<le> c \<and> c \<le> 57 then St 21 else St 0)
          else if c > 90 then (if 94 \<le> c \<and> c \<le> 122 then St 21 else St 0) else St 21)
      else St 21)"

definition client_case_74 :: "int \<Rightarrow> label" where
  "client_case_74 c =
     (if c = 33 then St 21
      else if c = 58 then Tr 39
      else if c = 85 then St 75
      else if c = 117 then St 75
      else if c = 124 then St 21
      else if c = 126 then St 21
      else if c < 45 then
         (if c > 39 then (if 42 \<le> c \<and> c \<le> 43 then St 21 else St 0)
          else if c \<ge> 35 then St 21 else St 0)
      else if c > 46 then
         (if c < 65 then (if 48 \<le> c \<and> c \<le> 57 then St 21 else St 0)
          else if c > 90 then (if 94 \<le> c \<and> c \<le> 122 then St 21 else St 0) else St 21)
      else St 21)"

definition client_case_75 :: "int \<Rightarrow> label" where
  "client_case_75 c =
     (if c = 33 then St 21
      else if c = 58 then Tr 39
      else if c = 78 then St 76
      else if c = 110 then St 76
      else if c = 124 then St 21
      else if c = 126 then St 21
      else if c < 45 then
         (if c > 39 then (if 42 \<le> c \<and> c \<le> 43 then St 21 else St 0)
          else if c \<ge> 35 then St 21 else St 0)
      else if c > 46 then
         (if c < 65 then (if 48 \<le> c \<and> c \<le> 57 then St 21 else St 0)
          else if c > 90 then (if 94 \<le> c \<and> c \<le> 122 then St 21 else St 0) else St 21)
      else St 21)"

definition client_case_76 :: "int \<Rightarrow> label" where
  "client_case_76 c =
     (if c = 33 then St 21
      else if c = 58 then Tr 39
      else if c = 75 then St 77
      else if c = 107 then St 77
      else if c = 124 then St 21
      else if c = 126 then St 21
      else if c < 45 then
         (if c > 39 then (if 42 \<le> c \<and> c \<le> 43 then St 21 else St 0)
          else if c \<ge> 35 then St 21 else St 0)
      else if c > 46 then
         (if c < 65 then (if 48 \<le> c \<and> c \<le> 57 then St 21 else St 0)
          else if c > 90 then (if 94 \<le> c \<and> c \<le> 122 then St 21 else St 0) else St 21)
      else St 21)"

definition client_case_77 :: "int \<Rightarrow> label" where
  "client_case_77 c =
     (if c = 33 then St 21
      else if c = 58 then Tr 39
      else if c = 69 then St 78
      else if c = 101 then St 78
      else if c = 124 then St 21
      else if c = 126 then St 21
      else if c < 45 then
         (if c > 39 then (if 42 \<le> c \<and> c \<le> 43 then St 21 else St 0)
          else if c \<ge> 35 then St 21 else St 0)
      else if c > 46 then
         (if c < 65 then (if 48 \<le> c \<and> c \<le> 57 then St 21 else St 0)
          else if c > 90 then (if 94 \<le> c \<and> c \<le> 122 then St 21 else St 0) else St 21)
      else St 21)"

definition client_case_78 :: "int \<Rightarrow> label" where
  "client_case_78 c =
     (if c = 33 then St 21
      else if c = 58 then Tr 39
      else if c = 68 then St 79
      else if c = 100 then St 79
      else if c = 124 then St 21
      else if c = 126 then St 21
      else if c < 45 then
         (if c > 39 then (if 42 \<le> c \<and> c \<le> 43 then St 21 else St 0)
          else if c \<ge> 35 then St 21 else St 0)
      else if c > 46 then
         (if c < 65 then (if 48 \<le> c \<and> c \<le> 57 then St 21 else St 0)
          else if c > 90 then (if 94 \<le> c \<and> c \<le> 122 then St 21 else St 0) else St 21)
      else St 21)"

definition client_case_79 :: "int \<Rightarrow> label" where
  "client_case_79 c =
     (if c = 10 then Tr 111
      else if c = 13 then Tr 112
      else if c = 33 then St 21
      else if c = 58 then Tr 39
      else if c = 124 then St 21
      else if c = 126 then St 21
      else if c < 45 then
         (if c > 39 then (if 42 \<le> c \<and> c \<le> 43 then St 21 else St 0)
          else if c \<ge> 35 then St 21 else St 0)
      else if c > 46 then
         (if c < 65 then (if 48 \<le> c \<and> c \<le> 57 then St 21 else St 0)
          else if c > 90 then (if 94 \<le> c \<and> c \<le> 122 then St 21 else St 0) else St 21)
      else St 21)"

definition client_case_80 :: "int \<Rightarrow> label" where
  "client_case_80 c =
     (if c = 10 then St 62
      else if c = 32 then St 63
      else if c = 67 then Tr 104
      else if c = 99 then Tr 104 else if 9 \<le> c \<and> c \<le> 13 then St 63 else St 0)"

definition client_case_81 :: "int \<Rightarrow> label" where
  "client_case_81 c =
     (if c = 10 then Tr 45
      else if c = 13 then Tr 46 else if c = 72 then St 82 else if c = 104 then St 82 else St 23)"

definition client_case_82 :: "int \<Rightarrow> label" where
  "client_case_82 c =
     (if c = 10 then Tr 45
      else if c = 13 then Tr 46 else if c = 85 then St 83 else if c = 117 then St 83 else St 23)"

definition client_case_83 :: "int \<Rightarrow> label" where
  "client_case_83 c =
     (if c = 10 then Tr 45
      else if c = 13 then Tr 46 else if c = 78 then St 84 else if c = 110 then St 84 else St 23)"

definition client_case_84 :: "int \<Rightarrow> label" where
  "client_case_84 c =
     (if c = 10 then Tr 45
      else if c = 13 then Tr 46 else if c = 75 then St 85 else if c = 107 then St 85 else St 23)"

definition client_case_85 :: "int \<Rightarrow> label" where
  "client_case_85 c =
     (if c = 10 then Tr 45
      else if c = 13 then Tr 46 else if c = 69 then St 86 else if c = 101 then St 86 else St 23)"

definition client_case_86 :: "int \<Rightarrow> label" where
  "client_case_86 c =
     (if c = 10 then Tr 45
      else if c = 13 then Tr 46 else if c = 68 then St 87 else if c = 100 then St 87 else St 23)"

definition client_case_87 :: "int \<Rightarrow> label" where
  "client_case_87 c =
     (if c = 10 then Tr 111 else if c = 13 then Tr 112 else St 23)"

definition client_case_88 :: "int \<Rightarrow> label" where
  "client_case_88 c =
     (if c = 10 then St 43 else St 0)"

definition client_case_89 :: "int \<Rightarrow> label" where
  "client_case_89 c =
     (if c = 10 then Tr 64
      else if c = 32 then St 37
      else if c = 67 then St 38
      else if c = 99 then St 38 else if 9 \<le> c \<and> c \<le> 13 then St 37 else St 0)"

definition client_case_90 :: "int \<Rightarrow> label" where
  "client_case_90 c =
     (if c = 33 then St 21
      else if c = 58 then Tr 39
      else if c = 76 then St 91
      else if c = 79 then St 26
      else if c = 108 then St 91
      else if c = 111 then St 26
      else if c = 124 then St 21
      else if c = 126 then St 21
      else if c < 45 then
         (if c > 39 then (if 42 \<le> c \<and> c \<le> 43 then St 21 else St 0)
          else if c \<ge> 35 then St 21 else St 0)
      else if c > 46 then
         (if c < 65 then (if 48 \<le> c \<and> c \<le> 57 then St 21 else St 0)
          else if c > 90 then (if 94 \<le> c \<and> c \<le> 122 then St 21 else St 0) else St 21)
      else St 21)"

definition client_case_91 :: "int \<Rightarrow> label" where
  "client_case_91 c =
     (if c = 33 then St 21
      else if c = 58 then Tr 39
      else if c = 79 then St 92
      else if c = 111 then St 92
      else if c = 124 then St 21
      else if c = 126 then St 21
      else if c < 45 then
         (if c > 39 then (if 42 \<le> c \<and> c \<le> 43 then St 21 else St 0)
          else if c \<ge> 35 then St 21 else St 0)
      else if c > 46 then
         (if c < 65 then (if 48 \<le> c \<and> c \<le> 57 then St 21 else St 0)
          else if c > 90 then (if 94 \<le> c \<and> c \<le> 122 then St 21 else St 0) else St 21)
      else St 21)"

definition client_case_92 :: "int \<Rightarrow> label" where
  "client_case_92 c =
     (if c = 33 then St 21
      else if c = 58 then Tr 39
      else if c = 83 then St 93
      else if c = 115 then St 93
      else if c = 124 then St 21
      else if c = 126 then St 21
      else if c < 45 then
         (if c > 39 then (if 42 \<le> c \<and> c \<le> 43 then St 21 else St 0)
          else if c \<ge> 35 then St 21 else St 0)
      else if c > 46 then
         (if c < 65 then (if 48 \<le> c \<and> c \<le> 57 then St 21 else St 0)
          else if c > 90 then (if 94 \<le> c \<and> c \<le> 122 then St 21 else St 0) else St 21)
      else St 21)"

definition client_case_93 :: "int \<Rightarrow> label" where
  "client_case_93 c =
     (if c = 33 then St 21
      else if c = 58 then Tr 39
      else if c = 69 then St 94
      else if c = 101 then St 94
      else if c = 124 then St 21
      else if c = 126 then St 21
      else if c < 45 then
         (if c > 39 then (if 42 \<le> c \<and> c \<le> 43 then St 21 else St 0)
          else if c \<ge> 35 then St 21 else St 0)
      else if c > 46 then
         (if c < 65 then (if 48 \<le> c \<and> c \<le> 57 then St 21 else St 0)
          else if c > 90 then (if 94 \<le> c \<and> c \<le> 122 then St 21 else St 0) else St 21)
      else St 21)"

definition client_case_94 :: "int \<Rightarrow> label" where
  "client_case_94 c =
     (if c = 10 then St 43
      else if c = 13 then St 88
      else if c = 33 then St 21
      else if c = 58 then Tr 39
      else if c = 124 then St 21
      else if c = 126 then St 21
      else if c < 45 then
         (if c > 39 then (if 42 \<le> c \<and> c \<le> 43 then St 21 else St 0)
          else if c \<ge> 35 then St 21 else St 0)
      else if c > 46 then
         (if c < 65 then (if 48 \<le> c \<and> c \<le> 57 then St 21 else St 0)
          else if c > 90 then (if 94 \<le> c \<and> c \<le> 122 then St 21 else St 0) else St 21)
      else St 21)"

definition client_case_95 :: "int \<Rightarrow> label" where
  "client_case_95 c =
     (if c = 10 then St 36
      else if c = 32 then St 37
      else if c = 67 then St 38
      else if c = 99 then St 38 else if 9 \<le> c \<and> c \<le> 13 then St 37 else St 0)"

definition client_case_96 :: "int \<Rightarrow> label" where
  "client_case_96 c =
     (if c = 10 then Tr 45
      else if c = 13 then Tr 46 else if c = 76 then St 97 else if c = 108 then St 97 else St 23)"

definition client_case_97 :: "int \<Rightarrow> label" where
  "client_case_97 c =
     (if c = 10 then Tr 45
      else if c = 13 then Tr 46 else if c = 79 then St 98 else if c = 111 then St 98 else St 23)"

definition client_case_98 :: "int \<Rightarrow> label" where
  "client_case_98 c =
     (if c = 10 then Tr 45
      else if c = 13 then Tr 46 else if c = 83 then St 99 else if c = 115 then St 99 else St 23)"

definition client_case_99 :: "int \<Rightarrow> label" where
  "client_case_99 c =
     (if c = 10 then Tr 45
      else if c = 13 then Tr 46 else if c = 69 then St 100 else if c = 101 then St 100 else St 23)"

definition client_case_100 :: "int \<Rightarrow> label" where
  "client_case_100 c =
     (if c = 10 then Tr 136 else if c = 13 then Tr 137 else St 23)"

definition client_case_101 :: "int \<Rightarrow> label" where
  "client_case_101 c =
     (if c = 33 then St 21
      else if c = 58 then Tr 39
      else if c = 69 then St 102
      else if c = 101 then St 102
      else if c = 124 then St 21
      else if c = 126 then St 21
      else if c < 45 then
         (if c > 39 then (if 42 \<le> c \<and> c \<le> 43 then St 21 else St 0)
          else if c \<ge> 35 then St 21 else St 0)
      else if c > 46 then
         (if c < 65 then (if 48 \<le> c \<and> c \<le> 57 then St 21 else St 0)
          else if c > 90 then (if 94 \<le> c \<and> c \<le> 122 then St 21 else St 0) else St 21)
      else St 21)"

definition client_case_102 :: "int \<Rightarrow> label" where
  "client_case_102 c =
     (if c = 33 then St 21
      else if c = 58 then Tr 39
      else if c = 78 then St 103
      else if c = 110 then St 103
      else if c = 124 then St 21
      else if c = 126 then St 21
      else if c < 45 then
         (if c > 39 then (if 42 \<le> c \<and> c \<le> 43 then St 21 else St 0)
          else if c \<ge> 35 then St 21 else St 0)
      else if c > 46 then
         (if c < 65 then (if 48 \<le> c \<and> c \<le> 57 then St 21 else St 0)
          else if c > 90 then (if 94 \<le> c \<and> c \<le> 122 then St 21 else St 0) else St 21)
      else St 21)"

definition client_case_103 :: "int \<Rightarrow> label" where
  "client_case_103 c =
     (if c = 33 then St 21
      else if c = 58 then Tr 39
      else if c = 84 then St 104
      else if c = 116 then St 104
      else if c = 124 then St 21
      else if c = 126 then St 21
      else if c < 45 then
         (if c > 39 then (if 42 \<le> c \<and> c \<le> 43 then St 21 else St 0)
          else if c \<ge> 35 then St 21 else St 0)
      else if c > 46 then
         (if c < 65 then (if 48 \<le> c \<and> c \<le> 57 then St 21 else St 0)
          else if c > 90 then (if 94 \<le> c \<and> c \<le> 122 then St 21 else St 0) else St 21)
      else St 21)"

definition client_case_104 :: "int \<Rightarrow> label" where
  "client_case_104 c =
     (if c = 33 then St 21
      else if c = 45 then St 105
      else if c = 46 then St 21
      else if c = 58 then Tr 39
      else if c = 124 then St 21
      else if c = 126 then St 21
      else if c < 48 then
         (if c > 39 then (if 42 \<le> c \<and> c \<le> 43 then St 21 else St 0)
          else if c \<ge> 35 then St 21 else St 0)
      else if c > 57 then
         (if c > 90 then (if 94 \<le> c \<and> c \<le> 122 then St 21 else St 0)
          else if c \<ge> 65 then St 21 else St 0)
      else St 21)"

definition client_case_105 :: "int \<Rightarrow> label" where
  "client_case_105 c =
     (if c = 33 then St 21
      else if c = 58 then Tr 39
      else if c = 76 then St 106
      else if c = 108 then St 106
      else if c = 124 then St 21
      else if c = 126 then St 21
      else if c < 45 then
         (if c > 39 then (if 42 \<le> c \<and> c \<le> 43 then St 21 else St 0)
          else if c \<ge> 35 then St 21 else St 0)
      else if c > 46 then
         (if c < 65 then (if 48 \<le> c \<and> c \<le> 57 then St 21 else St 0)
          else if c > 90 then (if 94 \<le> c \<and> c \<le> 122 then St 21 else St 0) else St 21)
      else St 21)"

definition client_case_106 :: "int \<Rightarrow> label" where
  "client_case_106 c =
     (if c = 33 then St 21
      else if c = 58 then Tr 39
      else if c = 69 then St 107
      else if c = 101 then St 107
      else if c = 124 then St 21
      else if c = 126 then St 21
      else if c < 45 then
         (if c > 39 then (if 42 \<le> c \<and> c \<le> 43 then St 21 else St 0)
          else if c \<ge> 35 then St 21 else St 0)
      else if c > 46 then
         (if c < 65 then (if 48 \<le> c \<and> c \<le> 57 then St 21 else St 0)
          else if c > 90 then (if 94 \<le> c \<and> c \<le> 122 then St 21 else St 0) else St 21)
      else St 21)"

definition client_case_107 :: "int \<Rightarrow> label" where
  "client_case_107 c =
     (if c = 33 then St 21
      else if c = 58 then Tr 39
      else if c = 78 then St 108
      else if c = 110 then St 108
      else if c = 124 then St 21
      else if c = 126 then St 21
      else if c < 45 then
         (if c > 39 then (if 42 \<le> c \<and> c \<le> 43 then St 21 else St 0)
          else if c \<ge> 35 then St 21 else St 0)
      else if c > 46 then
         (if c < 65 then (if 48 \<le> c \<and> c \<le> 57 then St 21 else St 0)
          else if c > 90 then (if 94 \<le> c \<and> c \<le> 122 then St 21 else St 0) else St 21)
      else St 21)"

definition client_case_108 :: "int \<Rightarrow> label" where
  "client_case_108 c =
     (if c = 33 then St 21
      else if c = 58 then Tr 39
      else if c = 71 then St 109
      else if c = 103 then St 109
      else if c = 124 then St 21
      else if c = 126 then St 21
      else if c < 45 then
         (if c > 39 then (if 42 \<le> c \<and> c \<le> 43 then St 21 else St 0)
          else if c \<ge> 35 then St 21 else St 0)
      else if c > 46 then
         (if c < 65 then (if 48 \<le> c \<and> c \<le> 57 then St 21 else St 0)
          else if c > 90 then (if 94 \<le> c \<and> c \<le> 122 then St 21 else St 0) else St 21)
      else St 21)"

definition client_case_109 :: "int \<Rightarrow> label" where
  "client_case_109 c =
     (if c = 33 then St 21
      else if c = 58 then Tr 39
      else if c = 84 then St 110
      else if c = 116 then St 110
      else if c = 124 then St 21
      else if c = 126 then St 21
      else if c < 45 then
         (if c > 39 then (if 42 \<le> c \<and> c \<le> 43 then St 21 else St 0)
          else if c \<ge> 35 then St 21 else St 0)
      else if c > 46 then
         (if c < 65 then (if 48 \<le> c \<and> c \<le> 57 then St 21 else St 0)
          else if c > 90 then (if 94 \<le> c \<and> c \<le> 122 then St 21 else St 0) else St 21)
      else St 21)"

definition client_case_110 :: "int \<Rightarrow> label" where
  "client_case_110 c =
     (if c = 33 then St 21
      else if c = 58 then Tr 39
      else if c = 72 then St 111
      else if c = 104 then St 111
      else if c = 124 then St 21
      else if c = 126 then St 21
      else if c < 45 then
         (if c > 39 then (if 42 \<le> c \<and> c \<le> 43 then St 21 else St 0)
          else if c \<ge> 35 then St 21 else St 0)
      else if c > 46 then
         (if c < 65 then (if 48 \<le> c \<and> c \<le> 57 then St 21 else St 0)
          else if c > 90 then (if 94 \<le> c \<and> c \<le> 122 then St 21 else St 0) else St 21)
      else St 21)"

definition client_case_111 :: "int \<Rightarrow> label" where
  "client_case_111 c =
     (if c = 33 then St 21
      else if c = 58 then Tr 148
      else if c = 124 then St 21
      else if c = 126 then St 21
      else if c < 45 then
         (if c > 39 then (if 42 \<le> c \<and> c \<le> 43 then St 21 else St 0)
          else if c \<ge> 35 then St 21 else St 0)
      else if c > 46 then
         (if c < 65 then (if 48 \<le> c \<and> c \<le> 57 then St 21 else St 0)
          else if c > 90 then (if 94 \<le> c \<and> c \<le> 122 then St 21 else St 0) else St 21)
      else St 21)"

definition client_case_112 :: "int \<Rightarrow> label" where
  "client_case_112 c =
     (if c = 10 then Tr 150
      else if c = 13 then Tr 151
      else if c = 32 then Tr 149
      else if c > 12 then (if 48 \<le> c \<and> c \<le> 57 then Tr 152 else Tr 40)
      else if c \<ge> 9 then Tr 149 else Tr 40)"

definition client_case_113 :: "int \<Rightarrow> label" where
  "client_case_113 c =
     (if c = 10 then Tr 154
      else if c = 13 then St 116
      else if c = 32 then St 114
      else if c = 33 then Tr 35
      else if c = 67 then Tr 36
      else if c = 84 then Tr 37
      else if c = 99 then Tr 36
      else if c = 116 then Tr 37
      else if c = 124 then Tr 35
      else if c = 126 then Tr 35
      else if c < 45 then
         (if c < 35 then (if 9 \<le> c \<and> c \<le> 12 then St 114 else St 0)
          else if c > 39 then (if 42 \<le> c \<and> c \<le> 43 then Tr 35 else St 0) else Tr 35)
      else if c > 46 then
         (if c < 65 then (if 48 \<le> c \<and> c \<le> 57 then Tr 156 else St 0)
          else if c > 90 then (if 94 \<le> c \<and> c \<le> 122 then Tr 35 else St 0) else Tr 35)
      else Tr 35)"

definition client_case_114 :: "int \<Rightarrow> label" where
  "client_case_114 c =
     (if c = 32 then St 114
      else if c > 13 then (if 48 \<le> c \<and> c \<le> 57 then Tr 157 else St 0)
      else if c \<ge> 9 then St 114 else St 0)"

definition client_case_115 :: "int \<Rightarrow> label" where
  "client_case_115 c =
     (if c = 10 then Tr 158
      else if c = 13 then Tr 159 else if 48 \<le> c \<and> c \<le> 57 then St 115 else St 0)"

definition client_case_116 :: "int \<Rightarrow> label" where
  "client_case_116 c =
     (if c = 10 then Tr 154
      else if c = 32 then St 114
      else if c > 13 then (if 48 \<le> c \<and> c \<le> 57 then Tr 157 else St 0)
      else if c \<ge> 9 then St 114 else St 0)"

definition client_case_117 :: "int \<Rightarrow> label" where
  "client_case_117 c =
     (if c = 10 then Tr 158
      else if c = 13 then Tr 159
      else if c = 33 then St 21
      else if c = 58 then Tr 39
      else if c = 124 then St 21
      else if c = 126 then St 21
      else if c < 45 then
         (if c > 39 then (if 42 \<le> c \<and> c \<le> 43 then St 21 else St 0)
          else if c \<ge> 35 then St 21 else St 0)
      else if c > 46 then
         (if c < 65 then (if 48 \<le> c \<and> c \<le> 57 then St 117 else St 0)
          else if c > 90 then (if 94 \<le> c \<and> c \<le> 122 then St 21 else St 0) else St 21)
      else St 21)"

definition client_case_118 :: "int \<Rightarrow> label" where
  "client_case_118 c =
     (if c = 10 then St 113
      else if c = 32 then St 114
      else if c > 13 then (if 48 \<le> c \<and> c \<le> 57 then Tr 157 else St 0)
      else if c \<ge> 9 then St 114 else St 0)"

definition client_case_119 :: "int \<Rightarrow> label" where
  "client_case_119 c =
     (if c = 10 then Tr 158
      else if c = 13 then Tr 159 else if 48 \<le> c \<and> c \<le> 57 then St 119 else St 23)"

definition client_case_120 :: "int \<Rightarrow> label" where
  "client_case_120 c = St 0"

definition client_case_121 :: "int \<Rightarrow> label" where
  "client_case_121 c =
     (if c = 32 then St 63
      else if c = 67 then Tr 104
      else if c = 99 then Tr 104 else if 9 \<le> c \<and> c \<le> 13 then St 63 else St 0)"

definition client_case_122 :: "int \<Rightarrow> label" where
  "client_case_122 c =
     (if c = 32 then St 37
      else if c = 67 then St 38
      else if c = 99 then St 38 else if 9 \<le> c \<and> c \<le> 13 then St 37 else St 0)"

definition client_case_123 :: "int \<Rightarrow> label" where
  "client_case_123 c =
     (if c = 32 then St 114
      else if c > 13 then (if 48 \<le> c \<and> c \<le> 57 then Tr 157 else St 0)
      else if c \<ge> 9 then St 114 else St 0)"

text \<open>The definitions of all states.\<close>

lemmas client_case_defs =
  client_case_1_def client_case_2_def client_case_3_def client_case_4_def client_case_5_def
  client_case_6_def client_case_7_def client_case_8_def client_case_9_def client_case_10_def
  client_case_11_def client_case_12_def client_case_13_def client_case_14_def client_case_15_def
  client_case_16_def client_case_17_def client_case_18_def client_case_19_def client_case_20_def
  client_case_21_def client_case_22_def client_case_23_def client_case_24_def client_case_25_def
  client_case_26_def client_case_27_def client_case_28_def client_case_29_def client_case_30_def
  client_case_31_def client_case_32_def client_case_33_def client_case_34_def client_case_35_def
  client_case_36_def client_case_37_def client_case_38_def client_case_39_def client_case_40_def
  client_case_41_def client_case_42_def client_case_43_def client_case_44_def client_case_45_def
  client_case_46_def client_case_47_def client_case_48_def client_case_49_def client_case_50_def
  client_case_51_def client_case_52_def client_case_53_def client_case_54_def client_case_55_def
  client_case_56_def client_case_57_def client_case_58_def client_case_59_def client_case_60_def
  client_case_61_def client_case_62_def client_case_63_def client_case_64_def client_case_65_def
  client_case_66_def client_case_67_def client_case_68_def client_case_69_def client_case_70_def
  client_case_71_def client_case_72_def client_case_73_def client_case_74_def client_case_75_def
  client_case_76_def client_case_77_def client_case_78_def client_case_79_def client_case_80_def
  client_case_81_def client_case_82_def client_case_83_def client_case_84_def client_case_85_def
  client_case_86_def client_case_87_def client_case_88_def client_case_89_def client_case_90_def
  client_case_91_def client_case_92_def client_case_93_def client_case_94_def client_case_95_def
  client_case_96_def client_case_97_def client_case_98_def client_case_99_def client_case_100_def
  client_case_101_def client_case_102_def client_case_103_def client_case_104_def client_case_105_def
  client_case_106_def client_case_107_def client_case_108_def client_case_109_def client_case_110_def
  client_case_111_def client_case_112_def client_case_113_def client_case_114_def client_case_115_def
  client_case_116_def client_case_117_def client_case_118_def client_case_119_def client_case_120_def
  client_case_121_def client_case_122_def client_case_123_def

end
