(* ===== verification/ClientMachine.thy ===== *)
theory ClientMachine
  imports ClientStates
begin

text \<open>
  The response machine of \<^verbatim>\<open>server/http/httpclient_parser.rl.cc\<close> over its states: the actions, the loop,
  \<^verbatim>\<open>httpclient_parser_init\<close>, \<^verbatim>\<open>httpclient_parser_execute\<close> and \<^verbatim>\<open>httpclient_parser_finish\<close>, as the request
  machine in \<^verbatim>\<open>HttpMachine\<close>. Some actions read numbers out of the buffer, so they take the memory it is in.
\<close>

section \<open>Numbers in C strings\<close>

definition c_isspace :: "int \<Rightarrow> bool" where
  "c_isspace c \<longleftrightarrow> c = 32 \<or> 9 \<le> c \<and> c \<le> 13"

definition digit_value :: "int \<Rightarrow> int" where
  "digit_value c = (if 48 \<le> c \<and> c \<le> 57 then c - 48 else if 65 \<le> c \<and> c \<le> 90 then c - 55
     else if 97 \<le> c \<and> c \<le> 122 then c - 87 else 36)"

definition number_of :: "int \<Rightarrow> int list \<Rightarrow> int" where
  "number_of base cs = foldl (\<lambda>n c. n * base + digit_value c) 0 (takeWhile (\<lambda>c. digit_value c < base) cs)"

text \<open>\<^verbatim>\<open>strtol\<close> with the base 10 or 16: spaces, a sign, for 16 a prefix, and the digits; it saturates.\<close>

fun skip_prefix :: "int \<Rightarrow> int list \<Rightarrow> int list" where
  "skip_prefix base (z # x # d # ds) =
     (if base = 16 \<and> z = 48 \<and> (x = 120 \<or> x = 88) \<and> digit_value d < 16 then d # ds else z # x # d # ds)"
| "skip_prefix base ds = ds"

definition strtol :: "int \<Rightarrow> int list \<Rightarrow> int" where
  "strtol base s =
     (let s1 = dropWhile c_isspace s;
          neg = (s1 \<noteq> [] \<and> hd s1 = 45);
          s2 = (if s1 \<noteq> [] \<and> (hd s1 = 45 \<or> hd s1 = 43) then tl s1 else s1);
          n = number_of base (skip_prefix base s2)
      in max (- (2 ^ 63)) (min (2 ^ 63 - 1) (if neg then - n else n)))"

section \<open>The parser\<close>

datatype cl_element = Reason_phrase | Status_code | Chunk_size | Cl_http_version | Cl_header_done | Last_chunk

record client_parser =
  cp_cs :: nat
  cp_body_start :: nat
  cp_content_len :: int
  cp_status :: int
  cp_chunked :: bool
  cp_chunks_done :: bool
  cp_close :: bool
  cp_nread :: nat
  cp_mark :: nat
  cp_field_start :: nat
  cp_field_len :: nat
  cp_set :: "cl_element \<Rightarrow> bool"
  cp_http_field_set :: bool

datatype cl_event = Cl_element cl_element nat nat | Cl_field nat nat nat nat

text \<open>The member \<^verbatim>\<open>status\<close> is left as it was.\<close>

definition client_parser_init :: "client_parser \<Rightarrow> client_parser" where
  "client_parser_init s = s\<lparr>cp_cs := 1, cp_body_start := 0, cp_content_len := - 1, cp_chunked := False,
     cp_chunks_done := False, cp_mark := 0, cp_nread := 0, cp_field_len := 0, cp_field_start := 0,
     cp_close := False\<rparr>"

section \<open>Actions\<close>

text \<open>An action at the position \<open>p\<close> of a buffer that ends at \<open>pe\<close>, in the memory \<open>mem\<close>.\<close>

type_synonym client_action = "int list \<Rightarrow> nat \<Rightarrow> nat \<Rightarrow> client_parser \<Rightarrow> client_parser \<times> cl_event list"

definition cl_call :: "cl_element \<Rightarrow> nat \<Rightarrow> nat \<Rightarrow> client_parser \<Rightarrow> cl_event list" where
  "cl_call e at len s = (if cp_set s e then [Cl_element e at len] else [])"

definition cl_mark :: client_action where
  "cl_mark mem p pe s = (s\<lparr>cp_mark := p\<rparr>, [])"

definition cl_start_field :: client_action where
  "cl_start_field mem p pe s = (s\<lparr>cp_field_start := p\<rparr>, [])"

definition cl_write_field :: client_action where
  "cl_write_field mem p pe s = (s\<lparr>cp_field_len := sub64 p (cp_field_start s)\<rparr>, [])"

definition cl_start_value :: client_action where
  "cl_start_value mem p pe s = (s\<lparr>cp_mark := p\<rparr>, [])"

definition cl_write_content_len :: client_action where
  "cl_write_content_len mem p pe s = (s\<lparr>cp_content_len := int32 (strtol 10 (drop (cp_mark s) mem))\<rparr>, [])"

definition cl_write_connection_close :: client_action where
  "cl_write_connection_close mem p pe s = (s\<lparr>cp_close := True\<rparr>, [])"

definition cl_write_value :: client_action where
  "cl_write_value mem p pe s =
     (s, if cp_http_field_set s
         then [Cl_field (cp_field_start s) (cp_field_len s) (cp_mark s) (sub64 p (cp_mark s))] else [])"

definition cl_reason_phrase :: client_action where
  "cl_reason_phrase mem p pe s = (s, cl_call Reason_phrase (cp_mark s) (sub64 p (cp_mark s)) s)"

definition cl_status_code :: client_action where
  "cl_status_code mem p pe s =
     (let s1 = s\<lparr>cp_status := int32 (strtol 10 (drop (cp_mark s) mem))\<rparr>
      in (s1, cl_call Status_code (cp_mark s1) (sub64 p (cp_mark s1)) s1))"

definition cl_http_version :: client_action where
  "cl_http_version mem p pe s = (s, cl_call Cl_http_version (cp_mark s) (sub64 p (cp_mark s)) s)"

definition cl_chunk_size :: client_action where
  "cl_chunk_size mem p pe s =
     (let n = int32 (strtol 16 (drop (cp_mark s) mem));
          s1 = s\<lparr>cp_chunked := True, cp_content_len := n, cp_chunks_done := (n \<le> 0)\<rparr>
      in (s1, if cp_chunks_done s1 \<and> cp_set s1 Last_chunk then [Cl_element Last_chunk (cp_mark s1) (sub64 p (cp_mark s1))]
              else cl_call Chunk_size (cp_mark s1) (sub64 p (cp_mark s1)) s1))"

definition cl_trans_chunked :: client_action where
  "cl_trans_chunked mem p pe s = (s\<lparr>cp_chunked := True\<rparr>, [])"

definition cl_done :: client_action where
  "cl_done mem p pe s = (s\<lparr>cp_body_start := p + 1\<rparr>, cl_call Cl_header_done (p + 1) (pe - p - 1) s)"

fun cl_do_all :: "client_action list \<Rightarrow> client_action" where
  "cl_do_all [] mem p pe s = (s, [])"
| "cl_do_all (a # as) mem p pe s =
     (case a mem p pe s of (s1, evs) \<Rightarrow> case cl_do_all as mem p pe s1 of (s2, evs') \<Rightarrow> (s2, evs @ evs'))"

section \<open>Transitions\<close>

type_synonym client_transition = "client_action list \<times> successor"

definition client_tr_0 :: client_transition where
  "client_tr_0 = ([cl_mark], Go 2)"

definition client_tr_2 :: client_transition where
  "client_tr_2 = ([cl_mark], Go 8)"

definition client_tr_3 :: client_transition where
  "client_tr_3 = ([cl_chunk_size, cl_done], Stop 120)"

definition client_tr_4 :: client_transition where
  "client_tr_4 = ([cl_chunk_size], Go 3)"

definition client_tr_6 :: client_transition where
  "client_tr_6 = ([cl_chunk_size], Go 4)"

definition client_tr_7 :: client_transition where
  "client_tr_7 = ([cl_done], Stop 120)"

definition client_tr_8 :: client_transition where
  "client_tr_8 = ([cl_start_field], Go 5)"

definition client_tr_9 :: client_transition where
  "client_tr_9 = ([cl_write_field, cl_start_value, cl_write_value, cl_done], Stop 120)"

definition client_tr_10 :: client_transition where
  "client_tr_10 = ([cl_write_field, cl_start_value, cl_write_value], Go 3)"

definition client_tr_12 :: client_transition where
  "client_tr_12 = ([cl_write_field, cl_start_value, cl_write_value], Go 4)"

definition client_tr_13 :: client_transition where
  "client_tr_13 = ([cl_write_field, cl_start_value], Go 6)"

definition client_tr_14 :: client_transition where
  "client_tr_14 = ([cl_start_value], Go 7)"

definition client_tr_15 :: client_transition where
  "client_tr_15 = ([cl_write_value, cl_done], Stop 120)"

definition client_tr_16 :: client_transition where
  "client_tr_16 = ([cl_write_value], Go 3)"

definition client_tr_18 :: client_transition where
  "client_tr_18 = ([cl_write_value], Go 4)"

definition client_tr_26 :: client_transition where
  "client_tr_26 = ([cl_http_version], Go 16)"

definition client_tr_27 :: client_transition where
  "client_tr_27 = ([cl_mark], Go 17)"

definition client_tr_28 :: client_transition where
  "client_tr_28 = ([cl_status_code], Go 18)"

definition client_tr_30 :: client_transition where
  "client_tr_30 = ([cl_mark], Go 19)"

definition client_tr_32 :: client_transition where
  "client_tr_32 = ([cl_reason_phrase], Go 20)"

definition client_tr_33 :: client_transition where
  "client_tr_33 = ([cl_reason_phrase], Go 24)"

definition client_tr_35 :: client_transition where
  "client_tr_35 = ([cl_start_field], Go 21)"

definition client_tr_36 :: client_transition where
  "client_tr_36 = ([cl_start_field], Go 25)"

definition client_tr_37 :: client_transition where
  "client_tr_37 = ([cl_start_field], Go 44)"

definition client_tr_39 :: client_transition where
  "client_tr_39 = ([cl_write_field], Go 22)"

definition client_tr_40 :: client_transition where
  "client_tr_40 = ([cl_start_value], Go 23)"

definition client_tr_41 :: client_transition where
  "client_tr_41 = ([cl_start_value], Go 22)"

definition client_tr_42 :: client_transition where
  "client_tr_42 = ([cl_start_value, cl_write_value], Go 20)"

definition client_tr_43 :: client_transition where
  "client_tr_43 = ([cl_start_value, cl_write_value], Go 24)"

definition client_tr_45 :: client_transition where
  "client_tr_45 = ([cl_write_value], Go 20)"

definition client_tr_46 :: client_transition where
  "client_tr_46 = ([cl_write_value], Go 24)"

definition client_tr_58 :: client_transition where
  "client_tr_58 = ([cl_write_field], Go 35)"

definition client_tr_59 :: client_transition where
  "client_tr_59 = ([cl_start_value], Go 35)"

definition client_tr_60 :: client_transition where
  "client_tr_60 = ([cl_start_value, cl_write_value], Go 36)"

definition client_tr_61 :: client_transition where
  "client_tr_61 = ([cl_start_value, cl_write_value], Go 95)"

definition client_tr_62 :: client_transition where
  "client_tr_62 = ([cl_start_value], Go 96)"

definition client_tr_64 :: client_transition where
  "client_tr_64 = ([cl_done], Stop 122)"

definition client_tr_66 :: client_transition where
  "client_tr_66 = ([cl_start_field], Go 90)"

definition client_tr_74 :: client_transition where
  "client_tr_74 = ([cl_write_connection_close, cl_done], Stop 120)"

definition client_tr_75 :: client_transition where
  "client_tr_75 = ([cl_write_connection_close], Go 3)"

definition client_tr_76 :: client_transition where
  "client_tr_76 = ([cl_write_connection_close, cl_start_field], Go 21)"

definition client_tr_77 :: client_transition where
  "client_tr_77 = ([cl_write_connection_close, cl_start_field], Go 25)"

definition client_tr_78 :: client_transition where
  "client_tr_78 = ([cl_write_connection_close, cl_start_field], Go 44)"

definition client_tr_95 :: client_transition where
  "client_tr_95 = ([cl_write_field], Go 61)"

definition client_tr_96 :: client_transition where
  "client_tr_96 = ([cl_start_value], Go 61)"

definition client_tr_97 :: client_transition where
  "client_tr_97 = ([cl_start_value, cl_write_value], Go 62)"

definition client_tr_98 :: client_transition where
  "client_tr_98 = ([cl_start_value, cl_write_value], Go 80)"

definition client_tr_99 :: client_transition where
  "client_tr_99 = ([cl_start_value], Go 81)"

definition client_tr_101 :: client_transition where
  "client_tr_101 = ([cl_done], Stop 121)"

definition client_tr_103 :: client_transition where
  "client_tr_103 = ([cl_start_value, cl_start_field], Go 73)"

definition client_tr_104 :: client_transition where
  "client_tr_104 = ([cl_start_value], Go 64)"

definition client_tr_111 :: client_transition where
  "client_tr_111 = ([cl_write_value, cl_trans_chunked], Go 20)"

definition client_tr_112 :: client_transition where
  "client_tr_112 = ([cl_write_value], Go 71)"

definition client_tr_113 :: client_transition where
  "client_tr_113 = ([cl_trans_chunked], Go 20)"

definition client_tr_136 :: client_transition where
  "client_tr_136 = ([cl_write_value], Go 43)"

definition client_tr_137 :: client_transition where
  "client_tr_137 = ([cl_write_value], Go 88)"

definition client_tr_148 :: client_transition where
  "client_tr_148 = ([cl_write_field], Go 112)"

definition client_tr_149 :: client_transition where
  "client_tr_149 = ([cl_start_value], Go 112)"

definition client_tr_150 :: client_transition where
  "client_tr_150 = ([cl_start_value, cl_write_value], Go 113)"

definition client_tr_151 :: client_transition where
  "client_tr_151 = ([cl_start_value, cl_write_value], Go 118)"

definition client_tr_152 :: client_transition where
  "client_tr_152 = ([cl_start_value], Go 119)"

definition client_tr_154 :: client_transition where
  "client_tr_154 = ([cl_done], Stop 123)"

definition client_tr_156 :: client_transition where
  "client_tr_156 = ([cl_start_value, cl_start_field], Go 117)"

definition client_tr_157 :: client_transition where
  "client_tr_157 = ([cl_start_value], Go 115)"

definition client_tr_158 :: client_transition where
  "client_tr_158 = ([cl_write_content_len, cl_write_value], Go 20)"

definition client_tr_159 :: client_transition where
  "client_tr_159 = ([cl_write_content_len, cl_write_value], Go 24)"

definition client_transition :: "nat \<Rightarrow> client_transition" where
  "client_transition k =
    (if k < 60 then
        (if k < 27 then
            (if k < 10 then
                (if k < 6 then
                    (if k < 3 then (if k < 2 then client_tr_0 else client_tr_2)
                     else if k < 4 then client_tr_3 else client_tr_4)
                 else if k < 8 then (if k < 7 then client_tr_6 else client_tr_7)
                 else if k < 9 then client_tr_8 else client_tr_9)
             else if k < 15 then
                (if k < 13 then (if k < 12 then client_tr_10 else client_tr_12)
                 else if k < 14 then client_tr_13 else client_tr_14)
             else if k < 18 then (if k < 16 then client_tr_15 else client_tr_16)
             else if k < 26 then client_tr_18 else client_tr_26)
         else if k < 39 then
            (if k < 33 then
                (if k < 30 then (if k < 28 then client_tr_27 else client_tr_28)
                 else if k < 32 then client_tr_30 else client_tr_32)
             else if k < 36 then (if k < 35 then client_tr_33 else client_tr_35)
             else if k < 37 then client_tr_36 else client_tr_37)
         else if k < 43 then
            (if k < 41 then (if k < 40 then client_tr_39 else client_tr_40)
             else if k < 42 then client_tr_41 else client_tr_42)
         else if k < 46 then (if k < 45 then client_tr_43 else client_tr_45)
         else if k < 58 then client_tr_46 else if k < 59 then client_tr_58 else client_tr_59)
     else if k < 103 then
        (if k < 77 then
            (if k < 66 then
                (if k < 62 then (if k < 61 then client_tr_60 else client_tr_61)
                 else if k < 64 then client_tr_62 else client_tr_64)
             else if k < 75 then (if k < 74 then client_tr_66 else client_tr_74)
             else if k < 76 then client_tr_75 else client_tr_76)
         else if k < 97 then
            (if k < 95 then (if k < 78 then client_tr_77 else client_tr_78)
             else if k < 96 then client_tr_95 else client_tr_96)
         else if k < 99 then (if k < 98 then client_tr_97 else client_tr_98)
         else if k < 101 then client_tr_99 else client_tr_101)
     else if k < 149 then
        (if k < 113 then
            (if k < 111 then (if k < 104 then client_tr_103 else client_tr_104)
             else if k < 112 then client_tr_111 else client_tr_112)
         else if k < 137 then (if k < 136 then client_tr_113 else client_tr_136)
         else if k < 148 then client_tr_137 else client_tr_148)
     else if k < 154 then
        (if k < 151 then (if k < 150 then client_tr_149 else client_tr_150)
         else if k < 152 then client_tr_151 else client_tr_152)
     else if k < 157 then (if k < 156 then client_tr_154 else client_tr_156)
     else if k < 158 then client_tr_157 else if k < 159 then client_tr_158 else client_tr_159)"

definition client_dispatch :: "nat \<Rightarrow> int \<Rightarrow> label" where
  "client_dispatch cs c =
    (if cs < 62 then
        (if cs < 31 then
            (if cs < 16 then
                (if cs < 8 then
                    (if cs < 4 then
                        (if cs < 2 then client_case_1 c
                         else if cs < 3 then client_case_2 c else client_case_3 c)
                     else if cs < 6 then (if cs < 5 then client_case_4 c else client_case_5 c)
                     else if cs < 7 then client_case_6 c else client_case_7 c)
                 else if cs < 12 then
                    (if cs < 10 then (if cs < 9 then client_case_8 c else client_case_9 c)
                     else if cs < 11 then client_case_10 c else client_case_11 c)
                 else if cs < 14 then (if cs < 13 then client_case_12 c else client_case_13 c)
                 else if cs < 15 then client_case_14 c else client_case_15 c)
             else if cs < 23 then
                (if cs < 19 then
                    (if cs < 17 then client_case_16 c
                     else if cs < 18 then client_case_17 c else client_case_18 c)
                 else if cs < 21 then (if cs < 20 then client_case_19 c else client_case_20 c)
                 else if cs < 22 then client_case_21 c else client_case_22 c)
             else if cs < 27 then
                (if cs < 25 then (if cs < 24 then client_case_23 c else client_case_24 c)
                 else if cs < 26 then client_case_25 c else client_case_26 c)
             else if cs < 29 then (if cs < 28 then client_case_27 c else client_case_28 c)
             else if cs < 30 then client_case_29 c else client_case_30 c)
         else if cs < 46 then
            (if cs < 38 then
                (if cs < 34 then
                    (if cs < 32 then client_case_31 c
                     else if cs < 33 then client_case_32 c else client_case_33 c)
                 else if cs < 36 then (if cs < 35 then client_case_34 c else client_case_35 c)
                 else if cs < 37 then client_case_36 c else client_case_37 c)
             else if cs < 42 then
                (if cs < 40 then (if cs < 39 then client_case_38 c else client_case_39 c)
                 else if cs < 41 then client_case_40 c else client_case_41 c)
             else if cs < 44 then (if cs < 43 then client_case_42 c else client_case_43 c)
             else if cs < 45 then client_case_44 c else client_case_45 c)
         else if cs < 54 then
            (if cs < 50 then
                (if cs < 48 then (if cs < 47 then client_case_46 c else client_case_47 c)
                 else if cs < 49 then client_case_48 c else client_case_49 c)
             else if cs < 52 then (if cs < 51 then client_case_50 c else client_case_51 c)
             else if cs < 53 then client_case_52 c else client_case_53 c)
         else if cs < 58 then
            (if cs < 56 then (if cs < 55 then client_case_54 c else client_case_55 c)
             else if cs < 57 then client_case_56 c else client_case_57 c)
         else if cs < 60 then (if cs < 59 then client_case_58 c else client_case_59 c)
         else if cs < 61 then client_case_60 c else client_case_61 c)
     else if cs < 93 then
        (if cs < 77 then
            (if cs < 69 then
                (if cs < 65 then
                    (if cs < 63 then client_case_62 c
                     else if cs < 64 then client_case_63 c else client_case_64 c)
                 else if cs < 67 then (if cs < 66 then client_case_65 c else client_case_66 c)
                 else if cs < 68 then client_case_67 c else client_case_68 c)
             else if cs < 73 then
                (if cs < 71 then (if cs < 70 then client_case_69 c else client_case_70 c)
                 else if cs < 72 then client_case_71 c else client_case_72 c)
             else if cs < 75 then (if cs < 74 then client_case_73 c else client_case_74 c)
             else if cs < 76 then client_case_75 c else client_case_76 c)
         else if cs < 85 then
            (if cs < 81 then
                (if cs < 79 then (if cs < 78 then client_case_77 c else client_case_78 c)
                 else if cs < 80 then client_case_79 c else client_case_80 c)
             else if cs < 83 then (if cs < 82 then client_case_81 c else client_case_82 c)
             else if cs < 84 then client_case_83 c else client_case_84 c)
         else if cs < 89 then
            (if cs < 87 then (if cs < 86 then client_case_85 c else client_case_86 c)
             else if cs < 88 then client_case_87 c else client_case_88 c)
         else if cs < 91 then (if cs < 90 then client_case_89 c else client_case_90 c)
         else if cs < 92 then client_case_91 c else client_case_92 c)
     else if cs < 108 then
        (if cs < 100 then
            (if cs < 96 then
                (if cs < 94 then client_case_93 c
                 else if cs < 95 then client_case_94 c else client_case_95 c)
             else if cs < 98 then (if cs < 97 then client_case_96 c else client_case_97 c)
             else if cs < 99 then client_case_98 c else client_case_99 c)
         else if cs < 104 then
            (if cs < 102 then (if cs < 101 then client_case_100 c else client_case_101 c)
             else if cs < 103 then client_case_102 c else client_case_103 c)
         else if cs < 106 then (if cs < 105 then client_case_104 c else client_case_105 c)
         else if cs < 107 then client_case_106 c else client_case_107 c)
     else if cs < 116 then
        (if cs < 112 then
            (if cs < 110 then (if cs < 109 then client_case_108 c else client_case_109 c)
             else if cs < 111 then client_case_110 c else client_case_111 c)
         else if cs < 114 then (if cs < 113 then client_case_112 c else client_case_113 c)
         else if cs < 115 then client_case_114 c else client_case_115 c)
     else if cs < 120 then
        (if cs < 118 then (if cs < 117 then client_case_116 c else client_case_117 c)
         else if cs < 119 then client_case_118 c else client_case_119 c)
     else if cs < 122 then (if cs < 121 then client_case_120 c else client_case_121 c)
     else if cs < 123 then client_case_122 c else client_case_123 c)"

lemmas client_tr_defs =
  client_tr_0_def client_tr_2_def client_tr_3_def client_tr_4_def client_tr_6_def client_tr_7_def
  client_tr_8_def client_tr_9_def client_tr_10_def client_tr_12_def client_tr_13_def client_tr_14_def
  client_tr_15_def client_tr_16_def client_tr_18_def client_tr_26_def client_tr_27_def
  client_tr_28_def client_tr_30_def client_tr_32_def client_tr_33_def client_tr_35_def
  client_tr_36_def client_tr_37_def client_tr_39_def client_tr_40_def client_tr_41_def
  client_tr_42_def client_tr_43_def client_tr_45_def client_tr_46_def client_tr_58_def
  client_tr_59_def client_tr_60_def client_tr_61_def client_tr_62_def client_tr_64_def
  client_tr_66_def client_tr_74_def client_tr_75_def client_tr_76_def client_tr_77_def
  client_tr_78_def client_tr_95_def client_tr_96_def client_tr_97_def client_tr_98_def
  client_tr_99_def client_tr_101_def client_tr_103_def client_tr_104_def client_tr_111_def
  client_tr_112_def client_tr_113_def client_tr_136_def client_tr_137_def client_tr_148_def
  client_tr_149_def client_tr_150_def client_tr_151_def client_tr_152_def client_tr_154_def
  client_tr_156_def client_tr_157_def client_tr_158_def client_tr_159_def

lemmas client_actions = cl_mark_def cl_start_field_def cl_write_field_def cl_start_value_def
  cl_write_content_len_def cl_write_connection_close_def cl_write_value_def cl_reason_phrase_def
  cl_status_code_def cl_http_version_def cl_chunk_size_def cl_trans_chunked_def cl_done_def cl_call_def

section \<open>The loop\<close>

fun client_run :: "int list \<Rightarrow> int list \<Rightarrow> nat \<Rightarrow> nat \<Rightarrow> client_parser
    \<Rightarrow> nat \<times> nat \<times> client_parser \<times> cl_event list" where
  "client_run mem [] p cs s = (p, cs, s, [])"
| "client_run mem (c # rest) p cs s =
     (case client_dispatch cs c of
        St n \<Rightarrow> if n = 0 then (p, 0, s, []) else client_run mem rest (p + 1) n s
      | Tr k \<Rightarrow>
          (case client_transition k of (acts, succ) \<Rightarrow>
             case cl_do_all acts mem p (p + 1 + length rest) s of (s1, evs) \<Rightarrow>
               (case succ of
                  Stop n \<Rightarrow> (p + 1, n, s1, evs)
                | Go n \<Rightarrow> (case client_run mem rest (p + 1) n s1 of (p', cs', s2, evs') \<Rightarrow>
                    (p', cs', s2, evs @ evs')))))"

definition client_parser_has_error :: "client_parser \<Rightarrow> bool" where
  "client_parser_has_error s \<longleftrightarrow> cp_cs s = 0"

definition client_parser_is_finished :: "client_parser \<Rightarrow> bool" where
  "client_parser_is_finished s \<longleftrightarrow> cp_cs s = 120"

definition client_parser_finish :: "client_parser \<Rightarrow> int" where
  "client_parser_finish s =
     (if client_parser_has_error s then - 1 else if client_parser_is_finished s then 1 else 0)"

text \<open>Behind the loop: a failed assertion, or the value, -1 when a check fails.\<close>

datatype client_error = ClientAssert

definition client_leave :: "nat \<Rightarrow> nat \<Rightarrow> nat \<Rightarrow> nat \<Rightarrow> client_parser \<Rightarrow> (client_error + int) \<times> client_parser" where
  "client_leave len off p cs s =
     (let s1 = s\<lparr>cp_cs := cs, cp_nread := cp_nread s + (p - off)\<rparr>
      in if \<not> (p \<le> len \<and> cp_nread s1 \<le> len \<and> cp_body_start s1 \<le> len) then (Inl ClientAssert, s1)
         else if cp_mark s1 < len \<and> cp_field_len s1 \<le> len \<and> cp_field_start s1 < len
              then (Inr (int32 (int (cp_nread s1))), s1)
         else (Inr (- 1), s1))"

text \<open>
  The buffer are the first \<open>len\<close> characters of \<open>mem\<close>; an assertion looks at the one behind,
  and fails here when it is outside the memory given. In a state
  without a case, 0 among them, the code behind the switch sets the local \<^verbatim>\<open>cs\<close> to 2.
\<close>

definition client_execute :: "int list \<Rightarrow> nat \<Rightarrow> nat \<Rightarrow> client_parser
    \<Rightarrow> (client_error + int) \<times> client_parser \<times> cl_event list" where
  "client_execute mem len off s =
     (let s0 = s\<lparr>cp_nread := 0, cp_mark := 0, cp_field_len := 0, cp_field_start := 0\<rparr> in
      if len < off \<or> length mem \<le> len \<or> mem ! len \<noteq> 0 \<or> int (len - off) \<noteq> int32 (int32 (int len) - int32 (int off))
      then (Inl ClientAssert, s0, [])
      else
        case (if off \<noteq> len \<and> (cp_cs s = 0 \<or> 123 < cp_cs s) then (off, 2, s0, [])
              else client_run mem (drop off (take len mem)) off (cp_cs s) s0) of (p, cs, s1, evs) \<Rightarrow>
          (case client_leave len off p cs s1 of (r, s2) \<Rightarrow> (r, s2, evs)))"

end
