(* ===== verification/ClientProps.thy ===== *)
theory ClientProps
  imports ClientMachine HttpRun
begin

text \<open>
  What the response machine does: no assertion of its fails and its slices begin and end inside the
  buffer, but for the names of fields; a chunk header is read with its size.
\<close>

section \<open>Marks\<close>

fun cl_inside :: "nat \<Rightarrow> cl_event \<Rightarrow> bool" where
  "cl_inside pe (Cl_element e at len) \<longleftrightarrow> at + len \<le> pe"
| "cl_inside pe (Cl_field at flen at' vlen) \<longleftrightarrow> at < pe \<and> flen < pe \<and> at' + vlen \<le> pe"

definition cl_marks_upto :: "nat \<Rightarrow> client_parser \<Rightarrow> bool" where
  "cl_marks_upto p s \<longleftrightarrow> cp_mark s \<le> p \<and> cp_field_start s \<le> p \<and> cp_field_len s \<le> p"

definition cl_tr_ok :: "nat \<Rightarrow> nat \<Rightarrow> client_parser \<Rightarrow> client_transition \<Rightarrow> bool" where
  "cl_tr_ok p pe s t \<longleftrightarrow> (case t of (acts, succ) \<Rightarrow> \<forall>mem. case cl_do_all acts mem p pe s of (s', evs) \<Rightarrow>
     cl_marks_upto p s' \<and> cp_body_start s' \<le> pe \<and> cp_nread s' = cp_nread s \<and> list_all (cl_inside pe) evs)"

lemma cl_tr_ok_if: "(b \<Longrightarrow> cl_tr_ok p pe s x) \<Longrightarrow> (\<not> b \<Longrightarrow> cl_tr_ok p pe s y) \<Longrightarrow> cl_tr_ok p pe s (if b then x else y)"
  by simp

lemma cl_trs_ok:
  assumes "cl_marks_upto p s" "cp_body_start s \<le> pe" "p < pe" "pe < 2 ^ 64"
  shows "cl_tr_ok p pe s (client_transition k)"
  unfolding client_transition_def
  by (intro cl_tr_ok_if; insert assms; simp add: client_tr_defs cl_tr_ok_def client_actions cl_marks_upto_def Let_def
      less_imp_diff_less)

definition cl_marks_before :: "nat \<Rightarrow> client_parser \<Rightarrow> bool" where
  "cl_marks_before p s \<longleftrightarrow> cp_mark s < max p 1 \<and> cp_field_start s < max p 1 \<and> cp_field_len s \<le> p"

lemma cl_marks_simps: "cl_marks_before p s \<Longrightarrow> cl_marks_upto p s" "cl_marks_upto p s \<Longrightarrow> cl_marks_before (p + 1) s"
  by (auto simp: cl_marks_before_def cl_marks_upto_def max_def split: if_splits)

lemma client_run_inside:
  assumes "cl_marks_before p s" "cp_body_start s \<le> pe" "p + length rest = pe" "pe < 2 ^ 64"
    "client_run mem rest p cs s = (p', cs', s', evs)"
  shows "p \<le> p' \<and> p' \<le> pe \<and> cl_marks_before p' s' \<and> cp_body_start s' \<le> pe \<and> cp_nread s' = cp_nread s
    \<and> list_all (cl_inside pe) evs"
  using assms(1-3,5)
proof (induction rest arbitrary: p cs s p' cs' s' evs)
  case (Cons c rest)
  have pe: "p < pe" "p + 1 + length rest = pe" using Cons.prems(3) by simp_all
  show ?case
  proof (cases "client_dispatch cs c")
    case (St n)
    then show ?thesis
      using Cons.IH [of "p + 1" s n p' cs' s' evs] Cons.prems pe cl_marks_simps
      by (cases "n = 0") fastforce+
  next
    case (Tr k)
    obtain acts succ where t: "client_transition k = (acts, succ)" by force
    obtain s1 evs1 where d: "cl_do_all acts mem p pe s = (s1, evs1)" by force
    have "cl_tr_ok p pe s (acts, succ)"
      using cl_trs_ok [OF cl_marks_simps(1) [OF Cons.prems(1)] Cons.prems(2) pe(1) assms(4), of k] unfolding t .
    then have s1: "cl_marks_before (p + 1) s1" "cp_body_start s1 \<le> pe" "cp_nread s1 = cp_nread s"
      "list_all (cl_inside pe) evs1"
      using d cl_marks_simps(2) by (auto simp: cl_tr_ok_def dest!: spec [of _ mem])
    show ?thesis
    proof (cases succ)
      case (Go n)
      obtain p2 cs2 s2 evs2 where r: "client_run mem rest (p + 1) n s1 = (p2, cs2, s2, evs2)" by (metis prod_cases4)
      show ?thesis using Cons.IH [OF s1(1,2) pe(2) r] Cons.prems(4) Tr t d Go r s1 pe(2) by auto
    next
      case (Stop n)
      then show ?thesis using Cons.prems(4) Tr t d s1 pe by auto
    qed
  qed
qed auto

lemma client_execute_new:
  assumes "0 < len" "len < length mem" "mem ! len = 0" "len < 2 ^ 31"
    "client_run mem (take len mem) 0 1
       ((client_parser_init s)\<lparr>cp_nread := 0, cp_mark := 0, cp_field_len := 0, cp_field_start := 0\<rparr>) = (p, cs, s1, evs)"
  shows "client_execute mem len 0 (client_parser_init s) = (Inr (int p), s1\<lparr>cp_cs := cs, cp_nread := p\<rparr>, evs)"
    and "p \<le> len" "list_all (cl_inside len) evs"
proof -
  have ok: "0 \<le> p \<and> p \<le> len \<and> cl_marks_before p s1 \<and> cp_body_start s1 \<le> len \<and> cp_nread s1 = 0
    \<and> list_all (cl_inside len) evs"
    using client_run_inside [OF _ _ _ _ assms(5), of len] assms(2,4)
    by (simp add: cl_marks_before_def client_parser_init_def)
  have "int32 (int len) = int len" "int32 0 = 0" "int32 (int p) = int p"
    using assms(4) ok by (simp_all add: int32_small)
  then show "client_execute mem len 0 (client_parser_init s) = (Inr (int p), s1\<lparr>cp_cs := cs, cp_nread := p\<rparr>, evs)"
    using assms ok
    by (auto simp: client_execute_def client_leave_def Let_def cl_marks_before_def client_parser_init_def max_def
        split: if_splits)
  show "p \<le> len" "list_all (cl_inside len) evs" using ok by auto
qed

section \<open>Claims\<close>

text \<open>
  C17. Whatever the bytes of a response, an execution of a new parser on a buffer of less than 2 GB fails no
  assertion and none of its checks, consumes no more than the buffer, and hands to the callbacks only
  elements and values of fields that lie inside the buffer; the names of fields begin inside and are no
  longer than the buffer.
\<close>

theorem client_slices_inside:
  assumes "0 < len" "len < length mem" "mem ! len = 0" "len < 2 ^ 31"
  shows "\<exists>n s' evs. client_execute mem len 0 (client_parser_init s) = (Inr (int n), s', evs)
    \<and> n \<le> len \<and> list_all (cl_inside len) evs"
proof -
  obtain p cs s1 evs where run: "client_run mem (take len mem) 0 1
      ((client_parser_init s)\<lparr>cp_nread := 0, cp_mark := 0, cp_field_len := 0, cp_field_start := 0\<rparr>) = (p, cs, s1, evs)"
    by (metis prod_cases4)
  show ?thesis using client_execute_new [OF assms run] by blast
qed

definition raw_client :: client_parser where
  "raw_client = \<lparr>cp_cs = 9, cp_body_start = 4, cp_content_len = 0, cp_status = 7, cp_chunked = True,
     cp_chunks_done = True, cp_close = True, cp_nread = 3, cp_mark = 5, cp_field_start = 1, cp_field_len = 2,
     cp_set = (\<lambda>_. True), cp_http_field_set = True\<rparr>"

theorem client_slices_inside_witness:
  "\<exists>n s' evs. client_execute [72, 84, 0] 2 0 (client_parser_init raw_client) = (Inr (int n), s', evs) \<and> n \<le> 2"
  using client_slices_inside [of 2 "[72, 84, 0]" raw_client] by auto

section \<open>Chunk headers\<close>

lemma hex_digit_value: "hex_char c \<Longrightarrow> digit_value c < 16"
  by (auto simp: hex_char_def digit_value_def)

lemma takeWhile_hex:
  assumes "list_all hex_char ds"
  shows "takeWhile (\<lambda>c. digit_value c < 16) ds = ds"
    "takeWhile (\<lambda>c. digit_value c < 16) (ds @ 13 # ys) = ds"
  using assms hex_digit_value by (auto simp: list_all_iff takeWhile_append2 digit_value_def)

lemma number_of_nonneg: "list_all hex_char ds \<Longrightarrow> 0 \<le> number_of 16 ds"
proof -
  have "0 \<le> foldl (\<lambda>n c. n * 16 + digit_value c) a cs" if "0 \<le> a" "list_all hex_char cs" for a cs
    using that by (induction cs arbitrary: a) (auto simp: hex_char_def digit_value_def)
  then show "list_all hex_char ds \<Longrightarrow> 0 \<le> number_of 16 ds"
    by (simp only: number_of_def takeWhile_hex(1))
qed

lemma strtol_hex:
  assumes "ds \<noteq> []" "list_all hex_char ds" "number_of 16 ds < 2 ^ 63"
  shows "strtol 16 (ds @ 13 # ys) = number_of 16 ds"
proof -
  obtain d ds' where d: "ds = d # ds'" using assms(1) by (cases ds) auto
  have no_space: "\<not> c_isspace d" "d \<noteq> 45" "d \<noteq> 43"
    using assms(2) by (auto simp: d hex_char_def c_isspace_def)
  have "ds' = [] \<or> hd ds' \<noteq> 120 \<and> hd ds' \<noteq> 88"
    using assms(2) by (cases ds') (auto simp: d hex_char_def)
  then have no_prefix: "skip_prefix 16 (ds @ 13 # ys) = ds @ 13 # ys"
    by (cases ds'; cases "tl ds'"; cases ys) (auto simp: d neq_Nil_conv split: list.splits)
  have num: "number_of 16 (ds @ 13 # ys) = number_of 16 ds"
    by (simp only: number_of_def takeWhile_hex [OF assms(2)])
  have "dropWhile c_isspace (ds @ 13 # ys) = ds @ 13 # ys" "hd (ds @ 13 # ys) = d" using no_space by (simp_all add: d)
  then show ?thesis
    unfolding strtol_def Let_def
    using no_space no_prefix num number_of_nonneg [OF assms(2)] assms(3) by simp
qed

lemma client_dispatch_hex:
  "hex_char c \<Longrightarrow> client_dispatch (Suc 0) c = Tr 0" "hex_char c \<Longrightarrow> client_dispatch 2 c = St 2"
  "client_dispatch 2 13 = Tr 4" "client_dispatch 3 10 = Tr 7"
  by (auto simp: client_dispatch_def client_case_1_def client_case_2_def client_case_3_def hex_char_def)

lemma client_run_digits:
  "list_all hex_char ds \<Longrightarrow> client_run mem (ds @ rest) p 2 s = client_run mem rest (p + length ds) 2 s"
  by (induction ds arbitrary: p) (simp_all add: client_dispatch_hex)

text \<open>
  The header of a chunk is read with its size: a new parser executed on the hexadecimal digits of a
  number below $2^{31}$, the line end and the bytes of the chunk consumes the line, is finished, has the
  number as the length of the content, calls the callback of a chunk with the digits, and that of the last
  chunk instead exactly when the number is 0.
\<close>

theorem chunk_header_read:
  assumes "ds \<noteq> []" "list_all hex_char ds" "number_of 16 ds < 2 ^ 31" "cp_set s = (\<lambda>_. True)"
    "length (ds @ [13, 10] @ body) < 2 ^ 31"
  defines "mem \<equiv> ds @ [13, 10] @ body @ [0]" and "len \<equiv> length (ds @ [13, 10] @ body)"
  shows "\<exists>s'. client_execute mem len 0 (client_parser_init s) = (Inr (int (length ds + 2)), s',
       [Cl_element (if number_of 16 ds \<le> 0 then Last_chunk else Chunk_size) 0 (length ds),
        Cl_element Cl_header_done (length ds + 2) (length body)])
    \<and> client_parser_finish s' = 1 \<and> cp_chunked s' \<and> cp_content_len s' = number_of 16 ds
    \<and> cp_body_start s' = length ds + 2"
proof -
  let ?s = "(client_parser_init s)\<lparr>cp_nread := 0, cp_mark := 0, cp_field_len := 0, cp_field_start := 0\<rparr>"
  obtain d ds' where d: "ds = d # ds'" using assms(1) by (cases ds) auto
  have buf: "take len mem = d # ds' @ 13 # 10 # body" "mem ! len = 0" "mem = ds @ 13 # (10 # body @ [0])"
    unfolding mem_def len_def by (simp_all add: d nth_append)
  have num: "int32 (strtol 16 mem) = number_of 16 ds"
    using assms(3) number_of_nonneg [OF assms(2)] strtol_hex [OF assms(1,2), of "10 # body @ [0]"]
    by (simp add: buf(3) int32_small)
  have hex: "hex_char d" "list_all hex_char ds'" using assms(2) by (simp_all add: d)
  let ?s1 = "?s\<lparr>cp_chunked := True, cp_content_len := number_of 16 ds, cp_chunks_done := (number_of 16 ds \<le> 0)\<rparr>"
  have run: "client_run mem (take len mem) 0 1 ?s = (length ds + 2, 120, ?s1\<lparr>cp_body_start := length ds + 2\<rparr>,
      [Cl_element (if number_of 16 ds \<le> 0 then Last_chunk else Chunk_size) 0 (length ds),
        Cl_element Cl_header_done (length ds + 2) (length body)])"
    unfolding buf(1)
    using assms(4,5) hex num
    by (simp add: client_dispatch_hex client_run_digits client_transition_def client_tr_defs client_actions Let_def
        client_parser_init_def d)
  have len: "0 < len" "len < length mem" "len < 2 ^ 31" using assms(5) by (simp_all add: len_def mem_def d)
  show ?thesis
    using client_execute_new(1) [OF len(1,2) buf(2) len(3) run]
    by (auto simp: client_parser_finish_def client_parser_has_error_def client_parser_is_finished_def)
qed

theorem chunk_header_read_witness:
  "\<exists>s'. client_execute [49, 65, 13, 10, 0] 4 0 (client_parser_init raw_client)
      = (Inr 4, s', [Cl_element Chunk_size 0 2, Cl_element Cl_header_done 4 0]) \<and> cp_content_len s' = 26"
proof -
  have num: "number_of 16 [49, 65] = 26" by (simp add: number_of_def digit_value_def)
  have nats: "(2 :: nat) = Suc (Suc 0)" "(4 :: nat) = Suc (Suc (Suc (Suc 0)))" by simp_all
  have hyps: "[49, 65] \<noteq> ([] :: int list)" "list_all hex_char [49, 65]" "number_of 16 [49, 65] < 2 ^ 31"
    "cp_set raw_client = (\<lambda>_. True)" "length ([49, 65] @ [13, 10] @ ([] :: int list)) < 2 ^ 31"
    by (simp_all add: hex_char_def raw_client_def num)
  from chunk_header_read [OF hyps] show ?thesis
    unfolding num by (simp add: nats) blast
qed

section \<open>Where the code falls short\<close>

text \<open>
  The size is an \<^verbatim>\<open>int\<close>: that of a chunk of 2 GB is negative, and the chunk is taken for the last one.
\<close>

lemma huge_chunk_is_last:
  "int32 (strtol 16 (chunk @ 13 # ys)) = - (2 ^ 31)" if "chunk = [56, 48, 48, 48, 48, 48, 48, 48]" for chunk ys
proof -
  have "list_all hex_char chunk" "number_of 16 chunk = 2 ^ 31" "chunk \<noteq> []"
    by (simp_all add: that hex_char_def number_of_def digit_value_def)
  then show ?thesis using strtol_hex [of chunk ys] by (simp add: int32_def)
qed

text \<open>The error is not final, as it is for requests: executed once more, the parser is in the state 2.\<close>

lemma client_error_forgotten:
  assumes "client_parser_has_error s" "0 < len" "len < length mem" "mem ! len = 0" "len < 2 ^ 31" "cp_body_start s \<le> len"
  shows "\<exists>s'. client_execute mem len 0 s = (Inr 0, s', []) \<and> \<not> client_parser_has_error s'"
  using assms by (auto simp: client_execute_def client_leave_def Let_def client_parser_has_error_def int32_small)

text \<open>
  An empty buffer fails the check of a mark, 0, that is not before its end, and the value is -1: taken for
  a number of bytes, it is $2^{64} - 1$.
\<close>

lemma empty_buffer_fails:
  "cp_body_start s = 0 \<Longrightarrow> fst (client_execute [0] 0 0 s) = Inr (- 1)"
  by (auto simp: client_execute_def client_leave_def Let_def int32_small)

text \<open>
  \<^verbatim>\<open>Content-Length:\<close>, a line feed and a digit: the start of the field is marked again but not its length,
  and the slice of the name ends behind the buffer.
\<close>

lemma name_outside_buffer:
  assumes "cp_set s = (\<lambda>_. False)" "cp_http_field_set s"
  shows "\<exists>s'. client_run [] [72, 84, 84, 80, 47, 49, 46, 49, 32, 50, 48, 48, 32, 79, 75, 10,
      67, 111, 110, 116, 101, 110, 116, 45, 76, 101, 110, 103, 116, 104, 58, 10, 48, 10] 0 1 s
    = (34, 20, s', [Cl_field 16 14 31 0, Cl_field 32 14 32 1])"
  using assms
  by (simp add: client_dispatch_def client_case_defs client_transition_def client_tr_defs client_actions Let_def)

end
