(* ===== verification/HttpParser.thy ===== *)
theory HttpParser
  imports Http ClientMachine HttpRun
begin

text \<open>
  \<^verbatim>\<open>server/http/http_parser.h\<close> and \<^verbatim>\<open>server/http/http_parser.cc\<close>: the callbacks that build a request out of
  the calls of the request machine and a response out of those of the response machine, and the two parser
  classes. The machines return the calls they make; a parser replays them, in their order, with the
  callbacks it set.
\<close>

text \<open>
  A \<^verbatim>\<open>std::string\<close> made of characters behind the buffer, or with a length that has wrapped, for which it
  throws; and a failed assertion of a machine.
\<close>

datatype parser_error = ReadsOutside | AssertFails

definition std_string :: "str \<Rightarrow> nat \<Rightarrow> nat \<Rightarrow> parser_error + str" where
  "std_string buffer at len = (if at + len \<le> length buffer then Inr (slice buffer at len) else Inl ReadsOutside)"

text \<open>\<^verbatim>\<open>strncmp(a, b, n) == 0\<close>.\<close>

definition strncmp_eq :: "str \<Rightarrow> str \<Rightarrow> nat \<Rightarrow> bool" where
  "strncmp_eq a b n \<longleftrightarrow> take n (c_str a @ [0]) = take n (c_str b @ [0])"

fun replay :: "('e \<Rightarrow> 'p \<Rightarrow> parser_error + 'p) \<Rightarrow> 'e list \<Rightarrow> 'p \<Rightarrow> parser_error + 'p" where
  "replay f [] p = Inr p"
| "replay f (e # es) p = (case f e p of Inl x \<Rightarrow> Inl x | Inr p1 \<Rightarrow> replay f es p1)"

lemma replay_append: "replay f (xs @ ys) p = (case replay f xs p of Inl x \<Rightarrow> Inl x | Inr p1 \<Rightarrow> replay f ys p1)"
  by (induction xs arbitrary: p) (simp_all split: sum.split)

section \<open>Requests\<close>

record request_parser =
  rp_parser :: http_parser
  rp_data :: http_request
  rp_error :: int

text \<open>The comparison with a method leaves the buffer when it ends with a part of the method.\<close>

definition on_request_method :: "str \<Rightarrow> nat \<Rightarrow> nat \<Rightarrow> request_parser \<Rightarrow> parser_error + request_parser" where
  "on_request_method buffer at len p =
     (let text = drop at buffer; m = CharsToHttpMethod text in
      if list_ex (\<lambda>(name, s). length text < length s \<and> take (length text) s = text) HTTP_METHOD_MAP
      then Inl ReadsOutside
      else if m = INVALID_METHOD
      then (case std_string buffer at len of Inl x \<Rightarrow> Inl x | Inr s \<Rightarrow> Inr (p\<lparr>rp_error := 1000\<rparr>))
      else Inr (p\<lparr>rp_data := (rp_data p)\<lparr>rq_method := m\<rparr>\<rparr>))"

definition on_request_uri :: "str \<Rightarrow> nat \<Rightarrow> nat \<Rightarrow> request_parser \<Rightarrow> parser_error + request_parser" where
  "on_request_uri buffer at len p = Inr p"

definition on_request_fragment :: "str \<Rightarrow> nat \<Rightarrow> nat \<Rightarrow> request_parser \<Rightarrow> parser_error + request_parser" where
  "on_request_fragment buffer at len p =
     map_sum id (\<lambda>s. p\<lparr>rp_data := (rp_data p)\<lparr>rq_fragment := s\<rparr>\<rparr>) (std_string buffer at len)"

definition on_request_path :: "str \<Rightarrow> nat \<Rightarrow> nat \<Rightarrow> request_parser \<Rightarrow> parser_error + request_parser" where
  "on_request_path buffer at len p =
     map_sum id (\<lambda>s. p\<lparr>rp_data := (rp_data p)\<lparr>rq_path := s\<rparr>\<rparr>) (std_string buffer at len)"

definition on_request_query :: "str \<Rightarrow> nat \<Rightarrow> nat \<Rightarrow> request_parser \<Rightarrow> parser_error + request_parser" where
  "on_request_query buffer at len p =
     map_sum id (\<lambda>s. p\<lparr>rp_data := (rp_data p)\<lparr>rq_query := s\<rparr>\<rparr>) (std_string buffer at len)"

definition on_request_version :: "str \<Rightarrow> nat \<Rightarrow> nat \<Rightarrow> request_parser \<Rightarrow> parser_error + request_parser" where
  "on_request_version buffer at len p =
     (case std_string buffer at len of
        Inl x \<Rightarrow> Inl x
      | Inr s \<Rightarrow>
          (if strncmp_eq s (chars ''HTTP/1.1'') len then Inr (p\<lparr>rp_data := (rp_data p)\<lparr>rq_version := 0x11\<rparr>\<rparr>)
           else if strncmp_eq s (chars ''HTTP/1.0'') len then Inr (p\<lparr>rp_data := (rp_data p)\<lparr>rq_version := 0x10\<rparr>\<rparr>)
           else Inr (p\<lparr>rp_error := 1001\<rparr>)))"

definition on_request_header_done :: "str \<Rightarrow> nat \<Rightarrow> nat \<Rightarrow> request_parser \<Rightarrow> parser_error + request_parser" where
  "on_request_header_done buffer at len p = Inr p"

definition on_request_http_field :: "str \<Rightarrow> nat \<Rightarrow> nat \<Rightarrow> nat \<Rightarrow> nat \<Rightarrow> request_parser
    \<Rightarrow> parser_error + request_parser" where
  "on_request_http_field buffer field flen value vlen p =
     (if flen = 0 then Inr p
      else case std_string buffer field flen of
        Inl x \<Rightarrow> Inl x
      | Inr k \<Rightarrow> map_sum id (\<lambda>v. p\<lparr>rp_data := rq_setHeader k v (rp_data p)\<rparr>) (std_string buffer value vlen))"

fun on_request :: "str \<Rightarrow> event \<Rightarrow> request_parser \<Rightarrow> parser_error + request_parser" where
  "on_request buffer (Element Request_method at len) p = on_request_method buffer at len p"
| "on_request buffer (Element Request_uri at len) p = on_request_uri buffer at len p"
| "on_request buffer (Element Fragment at len) p = on_request_fragment buffer at len p"
| "on_request buffer (Element Request_path at len) p = on_request_path buffer at len p"
| "on_request buffer (Element Query_string at len) p = on_request_query buffer at len p"
| "on_request buffer (Element Http_version at len) p = on_request_version buffer at len p"
| "on_request buffer (Element Header_done at len) p = on_request_header_done buffer at len p"
| "on_request buffer (Field field flen value vlen) p = on_request_http_field buffer field flen value vlen p"

text \<open>\<open>raw\<close> and \<open>status\<close> are what the memory of the parser and of the request held before.\<close>

definition HttpRequestParser :: "http_parser \<Rightarrow> int \<Rightarrow> request_parser" where
  "HttpRequestParser raw status =
     \<lparr>rp_parser = (http_parser_init raw)\<lparr>hp_set := (\<lambda>_. True), hp_http_field_set := True\<rparr>,
      rp_data = HttpRequest status 0x11 True, rp_error = 0\<rparr>"

text \<open>
  \<open>data\<close> are the characters given; in the end those not consumed stand at their front. The result is an
  exception or the number of characters consumed, the characters and the parser.
\<close>

definition rp_execute :: "str \<Rightarrow> request_parser \<Rightarrow> parser_error + (nat \<times> str \<times> request_parser)" where
  "rp_execute data p =
     (case http_parser_execute data 0 (rp_parser p) of (r, hp, evs) \<Rightarrow>
        case replay (on_request data) evs p of
          Inl x \<Rightarrow> Inl x
        | Inr p1 \<Rightarrow>
            (case r of
               Inl x \<Rightarrow> Inl AssertFails
             | Inr off \<Rightarrow> Inr (off, overwrite data 0 (drop off data), p1\<lparr>rp_parser := hp\<rparr>)))"

definition rp_isFinished :: "request_parser \<Rightarrow> int" where
  "rp_isFinished p = http_parser_finish (rp_parser p)"

definition rp_hasError :: "request_parser \<Rightarrow> bool" where
  "rp_hasError p \<longleftrightarrow> rp_error p \<noteq> 0 \<or> http_parser_has_error (rp_parser p)"

definition rp_getContentLength :: "(str \<Rightarrow> u64 option) \<Rightarrow> request_parser \<Rightarrow> u64" where
  "rp_getContentLength lexical_cast p = rq_getHeaderAs lexical_cast (chars ''content-length'') 0 (rp_data p)"

definition GetHttpRequestBufferSize :: nat where "GetHttpRequestBufferSize = 4 * 1024"
definition GetHttpRequestMaxBodySize :: nat where "GetHttpRequestMaxBodySize = 64 * 1024 * 1024"

section \<open>Responses\<close>

record response_parser =
  sp_parser :: client_parser
  sp_data :: http_response
  sp_error :: int

definition on_response_reason :: "str \<Rightarrow> nat \<Rightarrow> nat \<Rightarrow> response_parser \<Rightarrow> parser_error + response_parser" where
  "on_response_reason buffer at len p =
     map_sum id (\<lambda>s. p\<lparr>sp_data := (sp_data p)\<lparr>rs_reason := s\<rparr>\<rparr>) (std_string buffer at len)"

text \<open>\<^verbatim>\<open>atoi\<close> reads from the pointer on, whatever the length.\<close>

definition on_response_status :: "str \<Rightarrow> nat \<Rightarrow> nat \<Rightarrow> response_parser \<Rightarrow> parser_error + response_parser" where
  "on_response_status buffer at len p =
     Inr (p\<lparr>sp_data := (sp_data p)\<lparr>rs_status := int32 (strtol 10 (drop at buffer))\<rparr>\<rparr>)"

definition on_response_version :: "str \<Rightarrow> nat \<Rightarrow> nat \<Rightarrow> response_parser \<Rightarrow> parser_error + response_parser" where
  "on_response_version buffer at len p =
     (case std_string buffer at len of
        Inl x \<Rightarrow> Inl x
      | Inr s \<Rightarrow>
          (if strncmp_eq s (chars ''HTTP/1.1'') len then Inr (p\<lparr>sp_data := (sp_data p)\<lparr>rs_version := 0x11\<rparr>\<rparr>)
           else if strncmp_eq s (chars ''HTTP/1.0'') len then Inr (p\<lparr>sp_data := (sp_data p)\<lparr>rs_version := 0x10\<rparr>\<rparr>)
           else Inr (p\<lparr>sp_error := 1001\<rparr>)))"

definition on_response_http_field :: "str \<Rightarrow> nat \<Rightarrow> nat \<Rightarrow> nat \<Rightarrow> nat \<Rightarrow> response_parser
    \<Rightarrow> parser_error + response_parser" where
  "on_response_http_field buffer field flen value vlen p =
     (if flen = 0 then Inr p
      else case std_string buffer field flen of
        Inl x \<Rightarrow> Inl x
      | Inr k \<Rightarrow> map_sum id (\<lambda>v. p\<lparr>sp_data := rs_setHeader k v (sp_data p)\<rparr>) (std_string buffer value vlen))"

text \<open>The callbacks of chunks and of the end of the header do nothing.\<close>

fun on_response :: "str \<Rightarrow> cl_event \<Rightarrow> response_parser \<Rightarrow> parser_error + response_parser" where
  "on_response buffer (Cl_element Reason_phrase at len) p = on_response_reason buffer at len p"
| "on_response buffer (Cl_element Status_code at len) p = on_response_status buffer at len p"
| "on_response buffer (Cl_element Chunk_size at len) p = Inr p"
| "on_response buffer (Cl_element Cl_http_version at len) p = on_response_version buffer at len p"
| "on_response buffer (Cl_element Cl_header_done at len) p = Inr p"
| "on_response buffer (Cl_element Last_chunk at len) p = Inr p"
| "on_response buffer (Cl_field field flen value vlen) p = on_response_http_field buffer field flen value vlen p"

definition HttpResponseParser :: "client_parser \<Rightarrow> response_parser" where
  "HttpResponseParser raw =
     \<lparr>sp_parser = (client_parser_init raw)\<lparr>cp_set := (\<lambda>_. True), cp_http_field_set := True\<rparr>,
      sp_data = HttpResponse 0x11 True, sp_error = 0\<rparr>"

text \<open>
  \<open>mem\<close> is the memory the buffer begins, with the NUL behind it. A value of -1 becomes the offset
  $2^{64} - 1$, from which \<^verbatim>\<open>memmove\<close> reads outside.
\<close>

definition sp_execute :: "str \<Rightarrow> nat \<Rightarrow> bool \<Rightarrow> response_parser
    \<Rightarrow> parser_error + (nat \<times> str \<times> response_parser)" where
  "sp_execute mem len chunck p =
     (let p0 = (if chunck then p\<lparr>sp_parser := client_parser_init (sp_parser p)\<rparr> else p) in
      case client_execute mem len 0 (sp_parser p0) of (r, cp, evs) \<Rightarrow>
        case replay (on_response mem) evs p0 of
          Inl x \<Rightarrow> Inl x
        | Inr p1 \<Rightarrow>
            (case r of
               Inl x \<Rightarrow> Inl AssertFails
             | Inr v \<Rightarrow>
                 (let off = nat (v mod 2 ^ 64) in
                  if len < off then Inl ReadsOutside
                  else Inr (off, overwrite mem 0 (drop off (take len mem)), p1\<lparr>sp_parser := cp\<rparr>))))"

definition sp_isFinished :: "response_parser \<Rightarrow> int" where
  "sp_isFinished p = client_parser_finish (sp_parser p)"

definition sp_hasError :: "response_parser \<Rightarrow> bool" where
  "sp_hasError p \<longleftrightarrow> sp_error p \<noteq> 0 \<or> client_parser_has_error (sp_parser p)"

definition sp_getContentLength :: "(str \<Rightarrow> u64 option) \<Rightarrow> response_parser \<Rightarrow> u64" where
  "sp_getContentLength lexical_cast p = rs_getHeaderAs lexical_cast (chars ''content-length'') 0 (sp_data p)"

definition GetHttpResponseBufferSize :: nat where "GetHttpResponseBufferSize = 4 * 1024"
definition GetHttpResponseMaxBodySize :: nat where "GetHttpResponseMaxBodySize = 64 * 1024 * 1024"

end
