(* ===== verification/Stream.thy ===== *)
theory Stream
  imports Prelude
begin

text \<open>
  \<^verbatim>\<open>server/stream.h\<close> and \<^verbatim>\<open>server/stream.cc\<close>: reading and writing a fixed number of bytes over a stream
  whose calls move any number of them. The virtual functions of the class are a record of functions on the
  state of the stream.
\<close>

section \<open>The interface\<close>

text \<open>
  \<^verbatim>\<open>read\<close> takes the number of bytes asked for and returns its value and the bytes it stored, \<^verbatim>\<open>write\<close> takes the
  bytes; the two on a \<open>ByteArray\<close> take it and give it back. A value above 0 is the number of bytes moved.
\<close>

record ('s, 'b, 'a) stream =
  st_read :: "nat \<Rightarrow> 's \<Rightarrow> int \<times> 'b list \<times> 's"
  st_read_ba :: "nat \<Rightarrow> 'a \<times> 's \<Rightarrow> int \<times> 'a \<times> 's"
  st_write :: "'b list \<Rightarrow> 's \<Rightarrow> int \<times> 's"
  st_write_ba :: "nat \<Rightarrow> 'a \<times> 's \<Rightarrow> int \<times> 'a \<times> 's"
  st_close :: "'s \<Rightarrow> 's"

section \<open>The loops\<close>

text \<open>
  \<^verbatim>\<open>while(left > 0)\<close> with a call that moves some of the bytes left: \<open>Some len\<close> is the return out of the loop.
\<close>

function fix_loop :: "(nat \<Rightarrow> 't \<Rightarrow> int \<times> 't) \<Rightarrow> int \<Rightarrow> 't \<Rightarrow> int option \<times> 't" where
  "fix_loop call left t =
     (if left > 0 then
        (case call (nat left) t of (len, t1) \<Rightarrow>
           if len \<le> 0 then (Some len, t1) else fix_loop call (left - len) t1)
      else (None, t))"
  by auto
termination by (relation "measure (\<lambda>(call, left, t). nat left)") auto

declare fix_loop.simps [simp del]

text \<open>The value of the function, an \<^verbatim>\<open>int\<close> made of an \<^verbatim>\<open>int64_t\<close> or of the \<^verbatim>\<open>size_t\<close> given.\<close>

definition fix_result :: "nat \<Rightarrow> int option \<Rightarrow> int" where
  "fix_result n r = (case r of Some len \<Rightarrow> int32 len | None \<Rightarrow> int32 (int n))"

text \<open>\<open>buffer\<close> is what has been stored so far; \<^verbatim>\<open>offset\<close> is its length.\<close>

definition read_call :: "('s, 'b, 'a) stream \<Rightarrow> nat \<Rightarrow> 'b list \<times> 's \<Rightarrow> int \<times> 'b list \<times> 's" where
  "read_call st n t = (case t of (buffer, s) \<Rightarrow> case st_read st n s of (len, bs, s1) \<Rightarrow>
     (len, if len \<le> 0 then buffer else buffer @ bs, s1))"

definition readFixSize :: "('s, 'b, 'a) stream \<Rightarrow> nat \<Rightarrow> 's \<Rightarrow> int \<times> 'b list \<times> 's" where
  "readFixSize st n s =
     (case fix_loop (read_call st) (int64 (int n)) ([], s) of (r, t) \<Rightarrow> (fix_result n r, t))"

definition readFixSize_ba :: "('s, 'b, 'a) stream \<Rightarrow> nat \<Rightarrow> 'a \<times> 's \<Rightarrow> int \<times> 'a \<times> 's" where
  "readFixSize_ba st n t =
     (case fix_loop (st_read_ba st) (int64 (int n)) t of (r, t1) \<Rightarrow> (fix_result n r, t1))"

text \<open>\<open>rest\<close> is the buffer from \<^verbatim>\<open>offset\<close> on.\<close>

definition write_call :: "('s, 'b, 'a) stream \<Rightarrow> nat \<Rightarrow> 'b list \<times> 's \<Rightarrow> int \<times> 'b list \<times> 's" where
  "write_call st n t = (case t of (rest, s) \<Rightarrow> case st_write st (take n rest) s of (len, s1) \<Rightarrow>
     (len, drop (nat len) rest, s1))"

definition writeFixSize :: "('s, 'b, 'a) stream \<Rightarrow> 'b list \<Rightarrow> 's \<Rightarrow> int \<times> 's" where
  "writeFixSize st buffer s =
     (case fix_loop (write_call st) (int64 (int (length buffer))) (buffer, s) of (r, rest, s1) \<Rightarrow>
        (fix_result (length buffer) r, s1))"

definition writeFixSize_ba :: "('s, 'b, 'a) stream \<Rightarrow> nat \<Rightarrow> 'a \<times> 's \<Rightarrow> int \<times> 'a \<times> 's" where
  "writeFixSize_ba st n t =
     (case fix_loop (st_write_ba st) (int64 (int n)) t of (r, t1) \<Rightarrow> (fix_result n r, t1))"

section \<open>What a loop moves\<close>

text \<open>
  The contract of a call: in a good state it reports how many bytes it moved, no more than it was asked for,
  and leaves a good state, or it failed and moved none. \<open>moved t t1\<close> are the bytes between two states.
\<close>

locale transfer =
  fixes call :: "nat \<Rightarrow> 't \<Rightarrow> int \<times> 't" and moved :: "'t \<Rightarrow> 'b list \<Rightarrow> 't \<Rightarrow> bool" and good :: "'t \<Rightarrow> bool"
  assumes moved_Nil: "good t \<Longrightarrow> moved t [] t"
    and moved_append: "good t \<Longrightarrow> moved t xs t1 \<Longrightarrow> moved t1 ys t2 \<Longrightarrow> moved t (xs @ ys) t2"
    and call_moves: "call n t = (len, t1) \<Longrightarrow> good t \<Longrightarrow> 0 < n \<Longrightarrow> 0 < len
      \<Longrightarrow> good t1 \<and> (\<exists>bs. moved t bs t1 \<and> int (length bs) = len \<and> len \<le> int n)"
    and call_fails: "call n t = (len, t1) \<Longrightarrow> good t \<Longrightarrow> 0 < n \<Longrightarrow> len \<le> 0
      \<Longrightarrow> - (2 ^ 31) \<le> len \<and> good t1 \<and> moved t [] t1"
begin

lemma loop_moves:
  "fix_loop call left t = (r, t1) \<Longrightarrow> good t \<Longrightarrow> good t1 \<and> (\<exists>bs. moved t bs t1
    \<and> (case r of None \<Rightarrow> int (length bs) = max 0 left
       | Some len \<Rightarrow> - (2 ^ 31) \<le> len \<and> len \<le> 0 \<and> int (length bs) < left))"
proof (induction "nat left" arbitrary: left t rule: less_induct)
  case less
  show ?case
  proof (cases "left > 0")
    case False
    then show ?thesis using less.prems by (auto simp: fix_loop.simps [of _ left] moved_Nil intro!: exI [of _ "[]"])
  next
    case True
    obtain len t2 where c: "call (nat left) t = (len, t2)" by (cases "call (nat left) t")
    show ?thesis
    proof (cases "len \<le> 0")
      case fails: True
      then have "r = Some len" "t1 = t2" using less.prems True c by (simp_all add: fix_loop.simps [of _ left])
      then show ?thesis using call_fails [OF c less.prems(2)] True fails by (auto intro!: exI [of _ "[]"])
    next
      case False
      then have rest: "fix_loop call (left - len) t2 = (r, t1)"
        using less.prems True c by (simp add: fix_loop.simps [of _ left])
      obtain bs where bs: "good t2" "moved t bs t2" "int (length bs) = len" "len \<le> left"
        using call_moves [OF c less.prems(2)] True False by auto
      obtain bs' where bs': "good t1" "moved t2 bs' t1" "case r of None \<Rightarrow> int (length bs') = max 0 (left - len)
          | Some len' \<Rightarrow> - (2 ^ 31) \<le> len' \<and> len' \<le> 0 \<and> int (length bs') < left - len"
        using less.hyps [OF _ rest bs(1)] True False by auto
      show ?thesis
        using moved_append [OF less.prems(2) bs(2) bs'(2)] bs bs'(1,3)
        by (auto split: option.splits intro!: exI [of _ "bs @ bs'"])
    qed
  qed
qed

text \<open>What the function that runs the loop returns: all the bytes moved, or a part and a failure.\<close>

lemma fix_moves:
  assumes "fix_loop call (int64 (int n)) t = (r, t1)" "good t" "n < 2 ^ 31"
  shows "good t1" "\<exists>bs. moved t bs t1 \<and> (case r of None \<Rightarrow> fix_result n r = int n \<and> length bs = n
    | Some len \<Rightarrow> fix_result n r \<le> 0 \<and> length bs < n)"
proof -
  have n: "int64 (int n) = int n" "int32 (int n) = int n"
    using assms(3) by (simp_all add: int64_small int32_small)
  from loop_moves [OF assms(1)[unfolded n] assms(2)]
  show "good t1" "\<exists>bs. moved t bs t1 \<and> (case r of None \<Rightarrow> fix_result n r = int n \<and> length bs = n
    | Some len \<Rightarrow> fix_result n r \<le> 0 \<and> length bs < n)"
    by (auto simp: fix_result_def n int32_small split: option.splits)
qed

end

text \<open>A call that does not fail as long as it is asked for no more than is \<open>ready\<close> to be moved.\<close>

locale live_transfer = transfer +
  fixes ready :: "'a \<Rightarrow> nat"
  assumes ready_moves: "call n t = (len, t1) \<Longrightarrow> good t \<Longrightarrow> 0 < n \<Longrightarrow> n \<le> ready t \<Longrightarrow> 0 < len"
    and ready_less: "good t \<Longrightarrow> moved t bs t1 \<Longrightarrow> ready t \<le> length bs + ready t1"
begin

lemma loop_live:
  "fix_loop call left t = (r, t1) \<Longrightarrow> good t \<Longrightarrow> left \<le> int (ready t) \<Longrightarrow> r = None"
proof (induction "nat left" arbitrary: left t rule: less_induct)
  case less
  show ?case
  proof (cases "left > 0")
    case True
    obtain len t2 where c: "call (nat left) t = (len, t2)" by (cases "call (nat left) t")
    have "0 < len" using ready_moves [OF c less.prems(2)] True less.prems(3) by auto
    moreover from call_moves [OF c less.prems(2) _ this] True
    obtain bs where "good t2" "moved t bs t2" "int (length bs) = len" by auto
    ultimately show ?thesis
      using less.hyps [of "left - len" t2] less.prems True c ready_less [of t bs t2]
      by (simp add: fix_loop.simps [of _ left])
  qed (use less.prems in \<open>simp add: fix_loop.simps [of _ left]\<close>)
qed

end

text \<open>A call that counts itself.\<close>

definition counted :: "(nat \<Rightarrow> 't \<Rightarrow> int \<times> 't) \<Rightarrow> nat \<Rightarrow> 't \<times> nat \<Rightarrow> int \<times> 't \<times> nat" where
  "counted call n tk = (case call n (fst tk) of (len, t1) \<Rightarrow> (len, t1, snd tk + 1))"

lemma fix_loop_counted:
  "\<exists>r t1 k1. fix_loop (counted call) left (t, k) = (r, t1, k1) \<and> fix_loop call left t = (r, t1)
     \<and> k1 \<le> k + nat left"
proof (induction "nat left" arbitrary: left t k rule: less_induct)
  case less
  show ?case
  proof (cases "left > 0")
    case True
    obtain len t2 where c: "call (nat left) t = (len, t2)" by (cases "call (nat left) t")
    show ?thesis
    proof (cases "len \<le> 0")
      case False
      then obtain r t1 k1 where "fix_loop (counted call) (left - len) (t2, k + 1) = (r, t1, k1)"
          "fix_loop call (left - len) t2 = (r, t1)" "k1 \<le> k + 1 + nat (left - len)"
        using less [of "left - len" t2 "k + 1"] True by auto
      then show ?thesis using True False c by (auto simp: fix_loop.simps [of _ left] counted_def)
    qed (use True c in \<open>auto simp: fix_loop.simps [of _ left] counted_def\<close>)
  qed (simp add: fix_loop.simps [of _ left])
qed

section \<open>Sources and sinks\<close>

text \<open>A stream to read from: \<open>pending\<close> are the bytes to come.\<close>

locale byte_source =
  fixes st :: "('s, 'b, 'a) stream" and pending :: "'s \<Rightarrow> 'b list"
  assumes read_moves: "st_read st n s = (len, bs, s1) \<Longrightarrow> 0 < n \<Longrightarrow> 0 < len
      \<Longrightarrow> int (length bs) = len \<and> len \<le> int n \<and> pending s = bs @ pending s1"
    and read_fails: "st_read st n s = (len, bs, s1) \<Longrightarrow> 0 < n \<Longrightarrow> len \<le> 0
      \<Longrightarrow> - (2 ^ 31) \<le> len \<and> pending s1 = pending s"

sublocale byte_source \<subseteq> rd: transfer "read_call st"
  "\<lambda>(b, s) bs (b1, s1). b1 = b @ bs \<and> pending s = bs @ pending s1" "\<lambda>_. True"
proof unfold_locales
  fix n t len t1
  assume c: "read_call st n t = (len, t1)" "0 < (n :: nat)"
  obtain b s where t: "t = (b, s)" by (cases t)
  obtain len' bs s1 where rd: "st_read st n s = (len', bs, s1)" by (cases "st_read st n s")
  show "True \<and> (\<exists>bs. (case t of (b, s) \<Rightarrow> \<lambda>bs (b1, s1). b1 = b @ bs \<and> pending s = bs @ pending s1) bs t1
      \<and> int (length bs) = len \<and> len \<le> int n)" if "0 < len"
    using c t rd that read_moves [OF rd] by (auto simp: read_call_def)
  show "- (2 ^ 31) \<le> len \<and> True
      \<and> (case t of (b, s) \<Rightarrow> \<lambda>bs (b1, s1). b1 = b @ bs \<and> pending s = bs @ pending s1) [] t1" if "len \<le> 0"
    using c t rd that read_fails [OF rd] by (auto simp: read_call_def)
qed auto

context byte_source
begin

lemma readFixSize_moves:
  assumes "readFixSize st n s = (v, bs, s1)" "n < 2 ^ 31"
  shows "pending s = bs @ pending s1" "v = int n \<and> length bs = n \<or> v \<le> 0 \<and> length bs < n"
proof -
  obtain r where r: "fix_loop (read_call st) (int64 (int n)) ([], s) = (r, bs, s1)" "v = fix_result n r"
    using assms(1) by (auto simp: readFixSize_def split: prod.splits)
  from rd.fix_moves(2) [OF r(1) TrueI assms(2)]
  show "pending s = bs @ pending s1" "v = int n \<and> length bs = n \<or> v \<le> 0 \<and> length bs < n"
    using r(2) by (auto split: option.splits)
qed

end

text \<open>A source that has bytes gives some.\<close>

locale live_source = byte_source +
  assumes read_live: "0 < n \<Longrightarrow> pending s \<noteq> [] \<Longrightarrow> st_read st n s = (len, bs, s1) \<Longrightarrow> 0 < len"

sublocale live_source \<subseteq> rd: live_transfer "read_call st"
  "\<lambda>(b, s) bs (b1, s1). b1 = b @ bs \<and> pending s = bs @ pending s1" "\<lambda>_. True" "\<lambda>(b, s). length (pending s)"
  by unfold_locales (auto simp: read_call_def split: prod.splits, metis length_greater_0_conv order_less_le_trans read_live)

context live_source
begin

lemma readFixSize_live:
  assumes "n \<le> length (pending s)" "n < 2 ^ 31"
  shows "\<exists>s1. readFixSize st n s = (int n, take n (pending s), s1) \<and> pending s1 = drop n (pending s)"
proof -
  obtain v bs s1 where rd: "readFixSize st n s = (v, bs, s1)" by (cases "readFixSize st n s")
  have n: "int64 (int n) = int n" "int32 (int n) = int n"
    using assms(2) by (simp_all add: int64_small int32_small)
  have "v = int n"
    using rd rd.loop_live [of "int n" "([], s)"] assms(1) n
    by (auto simp: readFixSize_def fix_result_def split: prod.splits)
  then have "pending s = bs @ pending s1" "length bs = n"
    using readFixSize_moves [OF rd assms(2)] by auto
  then show ?thesis using rd \<open>v = int n\<close> by simp
qed

end

text \<open>A stream to write to: \<open>sent\<close> are the bytes it took.\<close>

locale byte_sink =
  fixes st :: "('s, 'b, 'a) stream" and sent :: "'s \<Rightarrow> 'b list"
  assumes write_moves: "st_write st bs s = (len, s1) \<Longrightarrow> 0 < len
      \<Longrightarrow> len \<le> int (length bs) \<and> sent s1 = sent s @ take (nat len) bs"
    and write_fails: "st_write st bs s = (len, s1) \<Longrightarrow> len \<le> 0 \<Longrightarrow> - (2 ^ 31) \<le> len \<and> sent s1 = sent s"

sublocale byte_sink \<subseteq> wr: transfer "write_call st"
  "\<lambda>(b, s) bs (b1, s1). b = bs @ b1 \<and> sent s1 = sent s @ bs" "\<lambda>_. True"
proof unfold_locales
  fix n t len t1
  assume c: "write_call st n t = (len, t1)" "0 < (n :: nat)"
  obtain b s where t: "t = (b, s)" by (cases t)
  obtain len' s1 where wr: "st_write st (take n b) s = (len', s1)" by (cases "st_write st (take n b) s")
  have t1: "len = len'" "t1 = (drop (nat len) b, s1)" using c(1) t wr by (auto simp: write_call_def)
  show "True \<and> (\<exists>bs. (case t of (b, s) \<Rightarrow> \<lambda>bs (b1, s1). b = bs @ b1 \<and> sent s1 = sent s @ bs) bs t1
      \<and> int (length bs) = len \<and> len \<le> int n)" if "0 < len"
  proof (intro exI [of _ "take (nat len) b"] conjI TrueI)
    have "len \<le> int (min n (length b))" "sent s1 = sent s @ take (nat len) (take n b)"
      using write_moves [OF wr] that t1 by (simp_all add: min.commute)
    then show "int (length (take (nat len) b)) = len" "len \<le> int n"
      "(case t of (b, s) \<Rightarrow> \<lambda>bs (b1, s1). b = bs @ b1 \<and> sent s1 = sent s @ bs) (take (nat len) b) t1"
      using t t1 that by (auto simp: min_absorb2)
  qed
  show "- (2 ^ 31) \<le> len \<and> True
      \<and> (case t of (b, s) \<Rightarrow> \<lambda>bs (b1, s1). b = bs @ b1 \<and> sent s1 = sent s @ bs) [] t1" if "len \<le> 0"
    using t t1 that write_fails [OF wr] by auto
qed auto

context byte_sink
begin

lemma writeFixSize_moves:
  assumes "writeFixSize st bs s = (v, s1)" "length bs < 2 ^ 31"
  shows "v = int (length bs) \<and> sent s1 = sent s @ bs
    \<or> v \<le> 0 \<and> (\<exists>k < length bs. sent s1 = sent s @ take k bs)"
proof -
  obtain r rest where r: "fix_loop (write_call st) (int64 (int (length bs))) (bs, s) = (r, rest, s1)"
    "v = fix_result (length bs) r"
    using assms(1) by (auto simp: writeFixSize_def split: prod.splits)
  from wr.fix_moves(2) [OF r(1) TrueI assms(2)]
  obtain bs' where bs': "bs = bs' @ rest" "sent s1 = sent s @ bs'" "case r of
      None \<Rightarrow> v = int (length bs) \<and> length bs' = length bs | Some len \<Rightarrow> v \<le> 0 \<and> length bs' < length bs"
    using r(2) by auto
  then have "sent s1 = sent s @ take (length bs') bs" by simp
  moreover have "length bs' \<le> length bs" using bs'(1) by simp
  ultimately show ?thesis using bs'
    by (cases r) (simp, metis option.simps(5))
qed

end

end
