(* ===== verification/HttpSession.thy ===== *)
theory HttpSession
  imports HttpParser Stream "HOL-Library.Monad_Syntax"
begin

text \<open>
  \<^verbatim>\<open>server/http/http_session.cc\<close>: a request read from a stream, head and body, and a response written to
  it. The stream is the record of its virtual functions.
\<close>

section \<open>Receiving\<close>

text \<open>An exception of the parser, and \<^verbatim>\<open>std::bad_alloc\<close>.\<close>

datatype session_error = SessionParser parser_error | BadAlloc

text \<open>
  The loop that reads the head. \<open>data\<close> is the buffer. It ends without a request (\<open>None\<close>), when the stream
  is closed, or with the parser, the buffer and the number of characters left in it; for a client that goes
  on sending fields it does not end.
\<close>

type_synonym head = "(request_parser \<times> str \<times> nat) option"

partial_function (option) recv_head :: "('s, int, 'a) stream \<Rightarrow> request_parser \<Rightarrow> str \<Rightarrow> nat \<Rightarrow> 's
    \<Rightarrow> ((session_error + head) \<times> 's) option" where
  "recv_head st p data off s =
     (case st_read st (GetHttpRequestBufferSize - off) s of (len, bs, s1) \<Rightarrow>
        if len \<le> 0 then Some (Inr None, st_close st s1)
        else
          let data1 = overwrite data off bs; n = nat len + off in
          case rp_execute (take n data1) p of
            Inl x \<Rightarrow> Some (Inl (SessionParser x), s1)
          | Inr (nparser, data2, p1) \<Rightarrow>
              if rp_hasError p1 then Some (Inr None, st_close st s1)
              else if n - nparser = GetHttpRequestBufferSize then Some (Inr None, st_close st s1)
              else if rp_isFinished p1 \<noteq> 0 then Some (Inr (Some (p1, overwrite data1 0 data2, n - nparser)), s1)
              else recv_head st p1 (overwrite data1 0 data2) (n - nparser) s1)"

text \<open>
  The body: what is left in the buffer, and as much from the stream as is missing. \<open>memory\<close> is the length of
  the longest string that can be made.
\<close>

definition recv_body :: "nat \<Rightarrow> (str \<Rightarrow> u64 option) \<Rightarrow> ('s, int, 'a) stream \<Rightarrow> request_parser \<Rightarrow> str \<Rightarrow> nat \<Rightarrow> 's
    \<Rightarrow> (session_error + http_request option) \<times> 's" where
  "recv_body memory lexical_cast st p data off s =
     (let length = int64 (uint (rp_getContentLength lexical_cast p)) in
      if length > 0 then
        (if int memory < length then (Inl BadAlloc, s)
         else
           let body = (if length \<ge> int off then take off data else take (nat length) data);
               missing = length - int off
           in if missing > 0 then
                (case readFixSize st (nat missing) s of (v, bs, s1) \<Rightarrow>
                   if v \<le> 0 then (Inr None, st_close st s1)
                   else (Inr (Some ((rp_data p)\<lparr>rq_body := body @ bs\<rparr>)), s1))
              else (Inr (Some ((rp_data p)\<lparr>rq_body := body\<rparr>)), s))
      else (Inr (Some (rp_data p)), s))"

definition recv_connection :: "http_request \<Rightarrow> http_request" where
  "recv_connection r =
     (if strcasecmp (c_str (rq_getHeader (chars ''Connection'') [] r)) (chars ''keep-alive'') = 0
      then r\<lparr>rq_close := False\<rparr> else r)"

text \<open>\<open>buffer\<close>, \<open>raw\<close> and \<open>status\<close> are what the memory held before.\<close>

definition recvRequest :: "nat \<Rightarrow> (str \<Rightarrow> u64 option) \<Rightarrow> ('s, int, 'a) stream \<Rightarrow> http_parser \<Rightarrow> int \<Rightarrow> str \<Rightarrow> 's
    \<Rightarrow> ((session_error + http_request option) \<times> 's) option" where
  "recvRequest memory lexical_cast st raw status buffer s =
     (case recv_head st (HttpRequestParser raw status) buffer 0 s of
        None \<Rightarrow> None
      | Some (Inl x, s1) \<Rightarrow> Some (Inl x, s1)
      | Some (Inr None, s1) \<Rightarrow> Some (Inr None, s1)
      | Some (Inr (Some (p, data, off)), s1) \<Rightarrow>
          Some (case recv_body memory lexical_cast st p data off s1 of (r, s2) \<Rightarrow>
            (map_sum id (map_option recv_connection) r, s2)))"

section \<open>Sending\<close>

definition sendResponse :: "('s, int, 'a) stream \<Rightarrow> http_response \<Rightarrow> 's \<Rightarrow> int \<times> 's" where
  "sendResponse st rsp s = writeFixSize st (rs_dump rsp) s"

end
