(* ===== verification/Address.thy ===== *)
theory Address
  imports Endian Http
begin

text \<open>
  \<^verbatim>\<open>server/address.h\<close> and \<^verbatim>\<open>server/address.cc\<close>: the socket addresses. Each class holds a structure of the
  system; \<open>h\<close> is the byte order of the host, and \<open>getAddr\<close> gives the bytes of the structure in memory.
  What \<^verbatim>\<open>getaddrinfo\<close> and \<^verbatim>\<open>inet_pton\<close> answer are arguments.
\<close>

section \<open>Addresses\<close>

record sockaddr_in =
  sin_family :: u16
  sin_port :: u16
  sin_addr :: u32
  sin_zero :: "u8 list"

record sockaddr_in6 =
  sin6_family :: u16
  sin6_port :: u16
  sin6_flowinfo :: u32
  sin6_addr :: "u8 list"
  sin6_scope_id :: u32

record sockaddr_un =
  sun_family :: u16
  sun_path :: "u8 list"

text \<open>The number of a \<open>UnixAddress\<close> is its \<^verbatim>\<open>m_length\<close>; a plain \<^verbatim>\<open>sockaddr\<close> are its 16 bytes.\<close>

datatype address = IPv4Address sockaddr_in | IPv6Address sockaddr_in6 | UnixAddress sockaddr_un nat
  | UnknownAddress "u8 list"

definition AF_UNIX :: u16 where "AF_UNIX = 1"
definition AF_INET :: u16 where "AF_INET = 2"
definition AF_INET6 :: u16 where "AF_INET6 = 10"

fun getAddr :: "endian \<Rightarrow> address \<Rightarrow> u8 list" where
  "getAddr h (IPv4Address a) = mem_bytes h 2 (unat (sin_family a)) @ mem_bytes h 2 (unat (sin_port a))
     @ mem_bytes h 4 (unat (sin_addr a)) @ sin_zero a"
| "getAddr h (IPv6Address a) = mem_bytes h 2 (unat (sin6_family a)) @ mem_bytes h 2 (unat (sin6_port a))
     @ mem_bytes h 4 (unat (sin6_flowinfo a)) @ sin6_addr a @ mem_bytes h 4 (unat (sin6_scope_id a))"
| "getAddr h (UnixAddress a len) = mem_bytes h 2 (unat (sun_family a)) @ sun_path a"
| "getAddr h (UnknownAddress bs) = bs"

fun getAddrLen :: "address \<Rightarrow> nat" where
  "getAddrLen (IPv4Address a) = 16"
| "getAddrLen (IPv6Address a) = 28"
| "getAddrLen (UnixAddress a len) = len"
| "getAddrLen (UnknownAddress bs) = 16"

definition getFamily :: "endian \<Rightarrow> address \<Rightarrow> nat" where
  "getFamily h a = of_mem_bytes h (take 2 (getAddr h a))"

text \<open>Structures of the right size, with a length that does not pass the end.\<close>

fun addr_wf :: "address \<Rightarrow> bool" where
  "addr_wf (IPv4Address a) \<longleftrightarrow> length (sin_zero a) = 8"
| "addr_wf (IPv6Address a) \<longleftrightarrow> length (sin6_addr a) = 16"
| "addr_wf (UnixAddress a len) \<longleftrightarrow> length (sun_path a) = 108 \<and> len \<le> 110"
| "addr_wf (UnknownAddress bs) \<longleftrightarrow> length bs = 16"

section \<open>Making addresses\<close>

definition new_IPv4Address :: "endian \<Rightarrow> u32 \<Rightarrow> u16 \<Rightarrow> sockaddr_in" where
  "new_IPv4Address h addr port =
     \<lparr>sin_family = AF_INET, sin_port = byteswapOnLittleEndian16 h port, sin_addr = byteswapOnLittleEndian32 h addr,
      sin_zero = replicate 8 0\<rparr>"

text \<open>\<open>pton\<close> is what \<^verbatim>\<open>inet_pton\<close> makes of the text, the value as it is stored.\<close>

definition IPv4Address_Create :: "endian \<Rightarrow> (str \<Rightarrow> u32 option) \<Rightarrow> str \<Rightarrow> u16 \<Rightarrow> sockaddr_in option" where
  "IPv4Address_Create h pton addr port =
     (let rt = (new_IPv4Address h 0 0)\<lparr>sin_port := byteswapOnLittleEndian16 h port\<rparr>
      in case pton addr of None \<Rightarrow> None | Some a \<Rightarrow> Some (rt\<lparr>sin_addr := a\<rparr>))"

definition new_IPv6Address :: sockaddr_in6 where
  "new_IPv6Address = \<lparr>sin6_family = AF_INET6, sin6_port = 0, sin6_flowinfo = 0, sin6_addr = replicate 16 0, sin6_scope_id = 0\<rparr>"

definition IPv6Address_of :: "endian \<Rightarrow> u8 list \<Rightarrow> u16 \<Rightarrow> sockaddr_in6" where
  "IPv6Address_of h addr port =
     new_IPv6Address\<lparr>sin6_port := byteswapOnLittleEndian16 h port, sin6_addr := take 16 addr\<rparr>"

definition IPv6Address_Create :: "endian \<Rightarrow> (str \<Rightarrow> u8 list option) \<Rightarrow> str \<Rightarrow> u16 \<Rightarrow> sockaddr_in6 option" where
  "IPv6Address_Create h pton addr port =
     (let rt = new_IPv6Address\<lparr>sin6_port := byteswapOnLittleEndian16 h port\<rparr>
      in case pton addr of None \<Rightarrow> None | Some a \<Rightarrow> Some (rt\<lparr>sin6_addr := a\<rparr>))"

definition MAX_PATH_LEN :: nat where "MAX_PATH_LEN = 107"

definition new_UnixAddress :: address where
  "new_UnixAddress = UnixAddress \<lparr>sun_family = AF_UNIX, sun_path = replicate 108 0\<rparr> (2 + MAX_PATH_LEN)"

text \<open>\<open>None\<close> is the exception; the copy takes the NUL behind the string with it, but not for an abstract path.\<close>

definition UnixAddress_of :: "u8 list \<Rightarrow> address option" where
  "UnixAddress_of path =
     (let len = (if path \<noteq> [] \<and> hd path = 0 then length path else length path + 1) in
      if len > 108 then None
      else Some (UnixAddress \<lparr>sun_family = AF_UNIX, sun_path = overwrite (replicate 108 0) 0 (take len (path @ [0]))\<rparr> (len + 2)))"

fun setAddrLen :: "nat \<Rightarrow> address \<Rightarrow> address" where
  "setAddrLen v (UnixAddress a len) = UnixAddress a v"
| "setAddrLen v a = a"

definition UnknownAddress_of :: "endian \<Rightarrow> nat \<Rightarrow> address" where
  "UnknownAddress_of h family = UnknownAddress (mem_bytes h 2 (family mod 2 ^ 16) @ replicate 14 0)"

text \<open>The parts of \<^verbatim>\<open>Address::Create\<close>: a structure of the system, by its family; others as a plain \<^verbatim>\<open>sockaddr\<close>.\<close>

datatype system_addr = System_in sockaddr_in | System_in6 sockaddr_in6 | System_other "u8 list"

fun Address_Create :: "system_addr option \<Rightarrow> address option" where
  "Address_Create None = None"
| "Address_Create (Some (System_in a)) = Some (IPv4Address a)"
| "Address_Create (Some (System_in6 a)) = Some (IPv6Address a)"
| "Address_Create (Some (System_other bs)) = Some (UnknownAddress (take 16 bs))"

text \<open>A port; the two classes of \<^verbatim>\<open>IPAddress\<close> have one.\<close>

fun getPort :: "endian \<Rightarrow> address \<Rightarrow> u32 option" where
  "getPort h (IPv4Address a) = Some (ucast (byteswapOnLittleEndian16 h (sin_port a)))"
| "getPort h (IPv6Address a) = Some (ucast (byteswapOnLittleEndian16 h (sin6_port a)))"
| "getPort h a = None"

fun setPort :: "endian \<Rightarrow> u16 \<Rightarrow> address \<Rightarrow> address" where
  "setPort h v (IPv4Address a) = IPv4Address (a\<lparr>sin_port := byteswapOnLittleEndian16 h v\<rparr>)"
| "setPort h v (IPv6Address a) = IPv6Address (a\<lparr>sin6_port := byteswapOnLittleEndian16 h v\<rparr>)"
| "setPort h v a = a"

definition is_ip :: "address \<Rightarrow> bool" where
  "is_ip a = (case a of IPv4Address x \<Rightarrow> True | IPv6Address x \<Rightarrow> True | _ \<Rightarrow> False)"

definition IPAddress_Create :: "endian \<Rightarrow> (str \<Rightarrow> system_addr list option) \<Rightarrow> str \<Rightarrow> u16 \<Rightarrow> address option" where
  "IPAddress_Create h getaddrinfo addr port =
     (case getaddrinfo addr of
        None \<Rightarrow> None
      | Some results \<Rightarrow>
          (case Address_Create (Some (hd results)) of
             Some a \<Rightarrow> if is_ip a then Some (setPort h port a) else None
           | None \<Rightarrow> None))"

section \<open>Looking up a host\<close>

text \<open>\<^verbatim>\<open>memchr\<close>: the rest of a string from the first \<open>c\<close> on.\<close>

definition memchr :: "int \<Rightarrow> str \<Rightarrow> str option" where
  "memchr c s = (if c \<in> set s then Some (dropWhile (\<lambda>x. x \<noteq> c) s) else None)"

text \<open>The node and the service \<^verbatim>\<open>Lookup\<close> takes a host apart into.\<close>

definition lookup_split :: "str \<Rightarrow> str \<times> str option" where
  "lookup_split host =
     (let (node, service) =
        (if host \<noteq> [] \<and> hd host = 91 then
           (case memchr 93 (tl host) of
              None \<Rightarrow> ([], None)
            | Some endipv6 \<Rightarrow>
                (takeWhile (\<lambda>x. x \<noteq> 93) (tl host),
                 if tl endipv6 \<noteq> [] \<and> hd (tl endipv6) = 58 then Some (tl (tl endipv6)) else None))
         else ([], None));
          (node, service) =
        (if node = [] then
           (case memchr 58 host of
              None \<Rightarrow> (node, None)
            | Some s \<Rightarrow> if memchr 58 (tl s) = None then (takeWhile (\<lambda>x. x \<noteq> 58) host, Some (tl s)) else (node, Some s))
         else (node, service))
      in (if node = [] then host else node, service))"

definition Lookup :: "(str \<Rightarrow> str option \<Rightarrow> system_addr list option) \<Rightarrow> str \<Rightarrow> bool \<times> address option list" where
  "Lookup getaddrinfo host =
     (case lookup_split host of (node, service) \<Rightarrow>
        (case getaddrinfo node service of
           None \<Rightarrow> (False, [])
         | Some results \<Rightarrow> (results \<noteq> [], map (\<lambda>a. Address_Create (Some a)) results)))"

definition LookupAny :: "(str \<Rightarrow> str option \<Rightarrow> system_addr list option) \<Rightarrow> str \<Rightarrow> address option" where
  "LookupAny getaddrinfo host = (case Lookup getaddrinfo host of (ok, result) \<Rightarrow> if ok then result ! 0 else None)"

definition LookupAnyIPAddress :: "(str \<Rightarrow> str option \<Rightarrow> system_addr list option) \<Rightarrow> str \<Rightarrow> address option" where
  "LookupAnyIPAddress getaddrinfo host =
     (case Lookup getaddrinfo host of (ok, result) \<Rightarrow>
        if ok then (case List.find (\<lambda>a. a \<noteq> None \<and> is_ip (the a)) result of Some a \<Rightarrow> a | None \<Rightarrow> None) else None)"

section \<open>Comparing\<close>

fun memcmp :: "u8 list \<Rightarrow> u8 list \<Rightarrow> int" where
  "memcmp (x # xs) (y # ys) = (if x = y then memcmp xs ys else uint x - uint y)"
| "memcmp xs ys = 0"

definition addr_less :: "endian \<Rightarrow> address \<Rightarrow> address \<Rightarrow> bool" where
  "addr_less h a b =
     (let minlen = min (getAddrLen a) (getAddrLen b);
          result = memcmp (take minlen (getAddr h a)) (take minlen (getAddr h b))
      in if result < 0 then True
         else if result > 0 then False
         else if getAddrLen a < getAddrLen b then True else False)"

definition addr_eq :: "endian \<Rightarrow> address \<Rightarrow> address \<Rightarrow> bool" where
  "addr_eq h a b \<longleftrightarrow> getAddrLen a = getAddrLen b
     \<and> memcmp (take (getAddrLen a) (getAddr h a)) (take (getAddrLen a) (getAddr h b)) = 0"

definition addr_neq :: "endian \<Rightarrow> address \<Rightarrow> address \<Rightarrow> bool" where
  "addr_neq h a b \<longleftrightarrow> \<not> addr_eq h a b"

section \<open>Printing\<close>

text \<open>A number printed with \<^verbatim>\<open>std::hex\<close>.\<close>

definition hexa_digit :: "nat \<Rightarrow> int" where
  "hexa_digit d = (if d < 10 then 48 + int d else 87 + int d)"

fun hexadecimal :: "nat \<Rightarrow> str" where
  "hexadecimal n = (if n < 16 then [hexa_digit n] else hexadecimal (n div 16) @ [hexa_digit (n mod 16)])"

declare hexadecimal.simps [simp del]

definition IPv4Address_insert :: "endian \<Rightarrow> sockaddr_in \<Rightarrow> str" where
  "IPv4Address_insert h a =
     (let addr = byteswapOnLittleEndian32 h (sin_addr a) in
      decimal (unat (drop_bit 24 addr AND 0xff)) @ chars ''.'' @ decimal (unat (drop_bit 16 addr AND 0xff)) @ chars ''.''
      @ decimal (unat (drop_bit 8 addr AND 0xff)) @ chars ''.'' @ decimal (unat (addr AND 0xff))
      @ chars '':'' @ decimal (unat (byteswapOnLittleEndian16 h (sin_port a))))"

text \<open>
  The loop over the eight groups: \<open>prev\<close> is \<^verbatim>\<open>addr[i - 1]\<close>, \<open>None\<close> for \<open>i = 0\<close>. The results are the text and
  \<^verbatim>\<open>used_zeros\<close> in the end.
\<close>

fun insert_groups :: "endian \<Rightarrow> u16 option \<Rightarrow> bool \<Rightarrow> u16 list \<Rightarrow> str \<times> bool" where
  "insert_groups h prev used_zeros [] = ([], used_zeros)"
| "insert_groups h prev used_zeros (w # ws) =
     (if w = 0 \<and> \<not> used_zeros then insert_groups h (Some w) used_zeros ws
      else
        let zeros = (prev = Some 0 \<and> \<not> used_zeros);
            os = (if zeros then chars '':'' else []) @ (if prev \<noteq> None then chars '':'' else [])
              @ hexadecimal (unat (byteswapOnLittleEndian16 h w))
        in case insert_groups h (Some w) (used_zeros \<or> zeros) ws of (os', used) \<Rightarrow> (os @ os', used))"

text \<open>The \<^verbatim>\<open>uint16_t\<close> values in the bytes of the address.\<close>

fun groups :: "endian \<Rightarrow> u8 list \<Rightarrow> u16 list" where
  "groups h (x # y # bs) = of_nat (of_mem_bytes h [x, y]) # groups h bs"
| "groups h bs = []"

definition IPv6Address_insert :: "endian \<Rightarrow> sockaddr_in6 \<Rightarrow> str" where
  "IPv6Address_insert h a =
     (let addr = groups h (sin6_addr a) in
      case insert_groups h None False addr of (os, used_zeros) \<Rightarrow>
        chars ''['' @ os @ (if \<not> used_zeros \<and> addr ! 7 = 0 then chars ''::'' else []) @ chars '']:''
        @ decimal (unat (byteswapOnLittleEndian16 h (sin6_port a))))"

text \<open>A \<^verbatim>\<open>char\<close> has its sign. \<open>getPath\<close> and \<open>insert\<close> print the same.\<close>

definition as_chars :: "u8 list \<Rightarrow> str" where
  "as_chars = map sint"

definition UnixAddress_getPath :: "sockaddr_un \<Rightarrow> nat \<Rightarrow> str" where
  "UnixAddress_getPath a len =
     (if len > 2 \<and> hd (sun_path a) = 0
      then [92, 48] @ as_chars (take (len - 2 - 1) (tl (sun_path a)))
      else as_chars (takeWhile (\<lambda>b. b \<noteq> 0) (sun_path a)))"

fun addr_insert :: "endian \<Rightarrow> address \<Rightarrow> str" where
  "addr_insert h (IPv4Address a) = IPv4Address_insert h a"
| "addr_insert h (IPv6Address a) = IPv6Address_insert h a"
| "addr_insert h (UnixAddress a len) = UnixAddress_getPath a len"
| "addr_insert h (UnknownAddress bs) =
     chars ''[UnknownAddress family='' @ decimal (of_mem_bytes h (take 2 bs)) @ chars '']''"

definition addr_toString :: "endian \<Rightarrow> address \<Rightarrow> str" where
  "addr_toString h a = addr_insert h a"

section \<open>Bits\<close>

text \<open>\<^verbatim>\<open>CreateMask\<close> for 32 bits: the 1 is an \<^verbatim>\<open>int\<close>, which a shift by 32 leaves undefined.\<close>

definition CreateMask32 :: "nat \<Rightarrow> u32 option" where
  "CreateMask32 bits = (if bits = 0 \<or> 32 < bits then None else Some (push_bit (32 - bits) 1 - 1))"

lemma and_minus_one_less: "v \<noteq> 0 \<Longrightarrow> unat (v AND (v - 1)) < unat v" for v :: u32
proof -
  assume nz: "v \<noteq> 0"
  have "v AND (v - 1) \<le> v - 1" by (rule word_and_le1)
  also have "v - 1 < v" using nz by (simp add: word_less_nat_alt unat_minus_one unat_gt_0)
  finally show ?thesis by (simp add: word_less_nat_alt)
qed

function CountBytes :: "u32 \<Rightarrow> nat \<Rightarrow> nat" where
  "CountBytes v result = (if v \<noteq> 0 then CountBytes (v AND (v - 1)) (result + 1) else result)"
  by auto
termination by (relation "measure (\<lambda>(v, result). unat v)") (auto intro: and_minus_one_less)

declare CountBytes.simps [simp del]

end
