(* ===== verification/Socket.thy ===== *)
theory Socket
  imports Address "HOL-Library.Signed_Division"
begin

text \<open>
  \<^verbatim>\<open>server/socket.h\<close> and \<^verbatim>\<open>server/socket.cc\<close>: a socket, its descriptor, its addresses and whether it is
  connected. The calls it makes, of the system and of the managers of descriptors and events, are a record
  of functions on their state; an operation takes the socket with that state and gives both back.
\<close>

section \<open>What a socket calls\<close>

datatype so_value = So_int int | So_timeval int int

text \<open>
  \<open>os_connect\<close> is \<^verbatim>\<open>connect\<close>, or \<^verbatim>\<open>connect_with_timeout\<close> with a limit. \<open>os_fdctx\<close> is what \<^verbatim>\<open>FdMgr\<close> knows of a
  descriptor: whether it is a socket, whether it is closed and its time limits. The messages of \<open>os_sendmsg\<close>
  and \<open>os_recvmsg\<close> are lists of buffers, to be filled with bytes of the given lengths.
\<close>

record 'k os =
  os_socket :: "int \<Rightarrow> int \<Rightarrow> int \<Rightarrow> 'k \<Rightarrow> int \<times> 'k"
  os_close :: "int \<Rightarrow> 'k \<Rightarrow> int \<times> 'k"
  os_setsockopt :: "int \<Rightarrow> int \<Rightarrow> int \<Rightarrow> so_value \<Rightarrow> 'k \<Rightarrow> int \<times> 'k"
  os_getsockopt :: "int \<Rightarrow> int \<Rightarrow> int \<Rightarrow> 'k \<Rightarrow> int \<times> int \<times> 'k"
  os_bind :: "int \<Rightarrow> address \<Rightarrow> 'k \<Rightarrow> int \<times> 'k"
  os_listen :: "int \<Rightarrow> int \<Rightarrow> 'k \<Rightarrow> int \<times> 'k"
  os_connect :: "int \<Rightarrow> address \<Rightarrow> u64 option \<Rightarrow> 'k \<Rightarrow> int \<times> 'k"
  os_accept :: "int \<Rightarrow> 'k \<Rightarrow> int \<times> 'k"
  os_send :: "int \<Rightarrow> str \<Rightarrow> int \<Rightarrow> 'k \<Rightarrow> int \<times> 'k"
  os_sendmsg :: "int \<Rightarrow> str list \<Rightarrow> address option \<Rightarrow> int \<Rightarrow> 'k \<Rightarrow> int \<times> 'k"
  os_sendto :: "int \<Rightarrow> str \<Rightarrow> int \<Rightarrow> address \<Rightarrow> 'k \<Rightarrow> int \<times> 'k"
  os_recv :: "int \<Rightarrow> nat \<Rightarrow> int \<Rightarrow> 'k \<Rightarrow> int \<times> str \<times> 'k"
  os_recvmsg :: "int \<Rightarrow> nat list \<Rightarrow> address option \<Rightarrow> int \<Rightarrow> 'k \<Rightarrow> int \<times> str \<times> 'k"
  os_recvfrom :: "int \<Rightarrow> nat \<Rightarrow> int \<Rightarrow> address \<Rightarrow> 'k \<Rightarrow> int \<times> str \<times> 'k"
  os_getpeername :: "int \<Rightarrow> address \<Rightarrow> 'k \<Rightarrow> (address \<times> nat) option \<times> 'k"
  os_getsockname :: "int \<Rightarrow> address \<Rightarrow> 'k \<Rightarrow> (address \<times> nat) option \<times> 'k"
  os_unlink :: "str \<Rightarrow> 'k \<Rightarrow> 'k"
  os_fdctx :: "int \<Rightarrow> 'k \<Rightarrow> (bool \<times> bool \<times> u64 \<times> u64) option"
  os_errno :: "'k \<Rightarrow> int"
  os_cancel :: "int \<Rightarrow> u32 \<Rightarrow> 'k \<Rightarrow> bool \<times> 'k"
  os_cancelAll :: "int \<Rightarrow> 'k \<Rightarrow> bool \<times> 'k"

section \<open>Sockets\<close>

record socket =
  m_sock :: int
  m_family :: int
  m_type :: int
  m_protocol :: int
  m_isConnected :: bool
  m_localAddress :: "address option"
  m_remoteAddress :: "address option"

definition TCP :: int where "TCP = 1"
definition UDP :: int where "UDP = 2"

definition SOL_SOCKET :: int where "SOL_SOCKET = 1"
definition opt_REUSEADDR :: int where "opt_REUSEADDR = 2"
definition opt_ERROR :: int where "opt_ERROR = 4"
definition opt_RCVTIMEO :: int where "opt_RCVTIMEO = 20"
definition opt_SNDTIMEO :: int where "opt_SNDTIMEO = 21"
definition IPPROTO_TCP :: int where "IPPROTO_TCP = 6"
definition TCP_NODELAY :: int where "TCP_NODELAY = 1"

type_synonym ('k, 'a) sk = "socket \<times> 'k \<Rightarrow> 'a \<times> socket \<times> 'k"

definition Socket :: "int \<Rightarrow> int \<Rightarrow> int \<Rightarrow> socket" where
  "Socket family type protocol =
     \<lparr>m_sock = - 1, m_family = family, m_type = type, m_protocol = protocol, m_isConnected = False,
      m_localAddress = None, m_remoteAddress = None\<rparr>"

definition isValid :: "socket \<Rightarrow> bool" where
  "isValid s \<longleftrightarrow> m_sock s \<noteq> - 1"

definition setOption :: "'k os \<Rightarrow> int \<Rightarrow> int \<Rightarrow> so_value \<Rightarrow> ('k, bool) sk" where
  "setOption os level option v t = (case t of (s, k) \<Rightarrow>
     case os_setsockopt os (m_sock s) level option v k of (rt, k1) \<Rightarrow> (rt = 0, s, k1))"

definition getOption :: "'k os \<Rightarrow> int \<Rightarrow> int \<Rightarrow> ('k, int option) sk" where
  "getOption os level option t = (case t of (s, k) \<Rightarrow>
     case os_getsockopt os (m_sock s) level option k of (rt, v, k1) \<Rightarrow> (if rt \<noteq> 0 then None else Some v, s, k1))"

definition getError :: "'k os \<Rightarrow> ('k, int) sk" where
  "getError os t = (case getOption os SOL_SOCKET opt_ERROR t of (r, s, k) \<Rightarrow>
     (case r of None \<Rightarrow> os_errno os k | Some v \<Rightarrow> v, s, k))"

definition initSock :: "'k os \<Rightarrow> ('k, unit) sk" where
  "initSock os t =
     (case setOption os SOL_SOCKET opt_REUSEADDR (So_int 1) t of (_, t1) \<Rightarrow>
        if m_type (fst t1) = TCP
        then (case setOption os IPPROTO_TCP TCP_NODELAY (So_int 1) t1 of (_, t2) \<Rightarrow> ((), t2))
        else ((), t1))"

definition newSock :: "'k os \<Rightarrow> ('k, unit) sk" where
  "newSock os t = (case t of (s, k) \<Rightarrow>
     case os_socket os (m_family s) (m_type s) (m_protocol s) k of (fd, k1) \<Rightarrow>
       if fd \<noteq> - 1 then initSock os (s\<lparr>m_sock := fd\<rparr>, k1) else ((), s\<lparr>m_sock := fd\<rparr>, k1))"

section \<open>Making sockets\<close>

definition CreateTCP :: "endian \<Rightarrow> address \<Rightarrow> socket" where
  "CreateTCP h a = Socket (int (getFamily h a)) TCP 0"

definition CreateUDP :: "endian \<Rightarrow> 'k os \<Rightarrow> address \<Rightarrow> 'k \<Rightarrow> socket \<times> 'k" where
  "CreateUDP h os a k = (case newSock os (Socket (int (getFamily h a)) UDP 0, k) of (_, s, k1) \<Rightarrow> (s\<lparr>m_isConnected := True\<rparr>, k1))"

definition CreateTCPSocket :: socket where "CreateTCPSocket = Socket (uint AF_INET) TCP 0"

definition CreateUDPSocket :: "'k os \<Rightarrow> 'k \<Rightarrow> socket \<times> 'k" where
  "CreateUDPSocket os k = (case newSock os (Socket (uint AF_INET) UDP 0, k) of (_, s, k1) \<Rightarrow> (s\<lparr>m_isConnected := True\<rparr>, k1))"

definition CreateTCPSocket6 :: socket where "CreateTCPSocket6 = Socket (uint AF_INET6) TCP 0"

definition CreateUDPSocket6 :: "'k os \<Rightarrow> 'k \<Rightarrow> socket \<times> 'k" where
  "CreateUDPSocket6 os k = (case newSock os (Socket (uint AF_INET6) UDP 0, k) of (_, s, k1) \<Rightarrow> (s\<lparr>m_isConnected := True\<rparr>, k1))"

definition CreateUnixTCPSocket :: socket where "CreateUnixTCPSocket = Socket (uint AF_UNIX) TCP 0"

definition CreateUnixUDPSocket :: socket where "CreateUnixUDPSocket = Socket (uint AF_UNIX) UDP 0"

section \<open>Time limits\<close>

text \<open>The limits of a socket in milliseconds; -1, or all bits set, is none.\<close>

definition getSendTimeout :: "'k os \<Rightarrow> socket \<Rightarrow> 'k \<Rightarrow> int" where
  "getSendTimeout os s k = (case os_fdctx os (m_sock s) k of Some (_, _, recv, send) \<Rightarrow> sint send | None \<Rightarrow> - 1)"

definition getRecvTimeout :: "'k os \<Rightarrow> socket \<Rightarrow> 'k \<Rightarrow> int" where
  "getRecvTimeout os s k = (case os_fdctx os (m_sock s) k of Some (_, _, recv, send) \<Rightarrow> sint recv | None \<Rightarrow> - 1)"

text \<open>The \<^verbatim>\<open>timeval\<close> of a limit: the division of C rounds towards 0, and the casts cut to an \<^verbatim>\<open>int\<close>.\<close>

definition timeval_of :: "int \<Rightarrow> so_value" where
  "timeval_of v = So_timeval (int32 (v sdiv 1000)) (int32 (v smod 1000 * 1000))"

definition setSendTimeout :: "'k os \<Rightarrow> int \<Rightarrow> ('k, unit) sk" where
  "setSendTimeout os v t = (case setOption os SOL_SOCKET opt_SNDTIMEO (timeval_of v) t of (_, t1) \<Rightarrow> ((), t1))"

definition setRecvTimeout :: "'k os \<Rightarrow> int \<Rightarrow> ('k, unit) sk" where
  "setRecvTimeout os v t = (case setOption os SOL_SOCKET opt_RCVTIMEO (timeval_of v) t of (_, t1) \<Rightarrow> ((), t1))"

section \<open>Addresses\<close>

definition empty_address :: "endian \<Rightarrow> int \<Rightarrow> address" where
  "empty_address h family =
     (if family = uint AF_INET then IPv4Address (new_IPv4Address h 0 0)
      else if family = uint AF_INET6 then IPv6Address new_IPv6Address
      else if family = uint AF_UNIX then new_UnixAddress
      else UnknownAddress_of h (nat family))"

definition sock_getRemoteAddress :: "endian \<Rightarrow> 'k os \<Rightarrow> ('k, address) sk" where
  "sock_getRemoteAddress h os t = (case t of (s, k) \<Rightarrow>
     case m_remoteAddress s of Some a \<Rightarrow> (a, s, k)
     | None \<Rightarrow>
       (case os_getpeername os (m_sock s) (empty_address h (m_family s)) k of
          (None, k1) \<Rightarrow> (UnknownAddress_of h (nat (m_family s)), s, k1)
        | (Some (a, len), k1) \<Rightarrow>
            (let a1 = (if m_family s = uint AF_UNIX then setAddrLen len a else a)
             in (a1, s\<lparr>m_remoteAddress := Some a1\<rparr>, k1))))"

definition sock_getLocalAddress :: "endian \<Rightarrow> 'k os \<Rightarrow> ('k, address) sk" where
  "sock_getLocalAddress h os t = (case t of (s, k) \<Rightarrow>
     case m_localAddress s of Some a \<Rightarrow> (a, s, k)
     | None \<Rightarrow>
       (case os_getsockname os (m_sock s) (empty_address h (m_family s)) k of
          (None, k1) \<Rightarrow> (UnknownAddress_of h (nat (m_family s)), s, k1)
        | (Some (a, len), k1) \<Rightarrow>
            (let a1 = (if m_family s = uint AF_UNIX then setAddrLen len a else a)
             in (a1, s\<lparr>m_localAddress := Some a1\<rparr>, k1))))"

section \<open>Opening and closing\<close>

definition sock_close :: "'k os \<Rightarrow> ('k, bool) sk" where
  "sock_close os t = (case t of (s, k) \<Rightarrow>
     if \<not> m_isConnected s \<and> m_sock s = - 1 then (True, s, k)
     else
       let s1 = s\<lparr>m_isConnected := False\<rparr> in
       if m_sock s1 \<noteq> - 1
       then (case os_close os (m_sock s1) k of (_, k1) \<Rightarrow> (False, s1\<lparr>m_sock := - 1\<rparr>, k1))
       else (False, s1, k))"

text \<open>The descriptor made by \<^verbatim>\<open>accept\<close> becomes that of a new socket, if its context is that of a socket.\<close>

definition sock_init :: "endian \<Rightarrow> 'k os \<Rightarrow> int \<Rightarrow> ('k, bool) sk" where
  "sock_init h os fd t = (case t of (s, k) \<Rightarrow>
     case os_fdctx os fd k of
       Some (isSocket, isClose, _) \<Rightarrow>
         (if isSocket \<and> \<not> isClose then
            (case initSock os (s\<lparr>m_sock := fd, m_isConnected := True\<rparr>, k) of (_, t1) \<Rightarrow>
               case sock_getLocalAddress h os t1 of (_, t2) \<Rightarrow>
                 case sock_getRemoteAddress h os t2 of (_, t3) \<Rightarrow> (True, t3))
          else (False, s, k))
     | None \<Rightarrow> (False, s, k))"

text \<open>A socket that goes out of scope is closed.\<close>

definition sock_accept :: "endian \<Rightarrow> 'k os \<Rightarrow> socket \<times> 'k \<Rightarrow> socket option \<times> 'k" where
  "sock_accept h os t = (case t of (s, k) \<Rightarrow>
     let sock = Socket (m_family s) (m_type s) (m_protocol s) in
     case os_accept os (m_sock s) k of (newsock, k1) \<Rightarrow>
       if newsock = - 1 then (None, snd (snd (sock_close os (sock, k1))))
       else case sock_init h os newsock (sock, k1) of (ok, sock1, k2) \<Rightarrow>
         if ok then (Some sock1, k2) else (None, snd (snd (sock_close os (sock1, k2)))))"

definition sock_connect :: "endian \<Rightarrow> 'k os \<Rightarrow> address \<Rightarrow> u64 \<Rightarrow> ('k, bool) sk" where
  "sock_connect h os addr timeout_ms t = (case t of (s, k) \<Rightarrow>
     let s1 = s\<lparr>m_remoteAddress := Some addr\<rparr> in
     case (if \<not> isValid s1 then snd (newSock os (s1, k)) else (s1, k)) of (s2, k2) \<Rightarrow>
       if \<not> isValid s2 then (False, s2, k2)
       else if int (getFamily h addr) \<noteq> m_family s2 then (False, s2, k2)
       else case os_connect os (m_sock s2) addr (if timeout_ms = - 1 then None else Some timeout_ms) k2 of (rt, k3) \<Rightarrow>
         if rt \<noteq> 0 then (False, snd (sock_close os (s2, k3)))
         else case sock_getRemoteAddress h os (s2\<lparr>m_isConnected := True\<rparr>, k3) of (_, t4) \<Rightarrow>
           case sock_getLocalAddress h os t4 of (_, t5) \<Rightarrow> (True, t5))"

definition sock_reconnect :: "endian \<Rightarrow> 'k os \<Rightarrow> u64 \<Rightarrow> ('k, bool) sk" where
  "sock_reconnect h os timeout_ms t = (case t of (s, k) \<Rightarrow>
     case m_remoteAddress s of
       None \<Rightarrow> (False, s, k)
     | Some a \<Rightarrow> sock_connect h os a timeout_ms (s\<lparr>m_localAddress := None\<rparr>, k))"

text \<open>For the address of a Unix socket: is there someone who listens? If not, the file is removed.\<close>

definition sock_bind :: "endian \<Rightarrow> 'k os \<Rightarrow> address \<Rightarrow> ('k, bool) sk" where
  "sock_bind h os addr t = (case t of (s, k) \<Rightarrow>
     let s1 = s\<lparr>m_localAddress := Some addr\<rparr> in
     case (if \<not> isValid s1 then snd (newSock os (s1, k)) else (s1, k)) of (s2, k2) \<Rightarrow>
       if \<not> isValid s2 then (False, s2, k2)
       else if int (getFamily h addr) \<noteq> m_family s2 then (False, s2, k2)
       else
         let (in_use, k3) = (case addr of
               UnixAddress u len \<Rightarrow>
                 (case sock_connect h os addr (- 1) (CreateUnixTCPSocket, k2) of (ok, sock, k') \<Rightarrow>
                    if ok then (True, snd (snd (sock_close os (sock, k'))))
                    else (False, os_unlink os (UnixAddress_getPath u len) (snd (snd (sock_close os (sock, k'))))))
             | _ \<Rightarrow> (False, k2)) in
         if in_use then (False, s2, k3)
         else case os_bind os (m_sock s2) addr k3 of (rt, k4) \<Rightarrow>
           if rt \<noteq> 0 then (False, s2, k4)
           else case sock_getLocalAddress h os (s2, k4) of (_, t5) \<Rightarrow> (True, t5))"

definition sock_listen :: "'k os \<Rightarrow> int \<Rightarrow> ('k, bool) sk" where
  "sock_listen os backlog t = (case t of (s, k) \<Rightarrow>
     if \<not> isValid s then (False, s, k)
     else case os_listen os (m_sock s) backlog k of (rt, k1) \<Rightarrow> (rt = 0, s, k1))"

section \<open>Sending and receiving\<close>

text \<open>The value of a call, an \<^verbatim>\<open>ssize_t\<close>, is returned as an \<^verbatim>\<open>int\<close>.\<close>

definition sock_send :: "'k os \<Rightarrow> str \<Rightarrow> int \<Rightarrow> ('k, int) sk" where
  "sock_send os buffer flags t = (case t of (s, k) \<Rightarrow>
     if m_isConnected s then (case os_send os (m_sock s) buffer flags k of (n, k1) \<Rightarrow> (int32 n, s, k1)) else (- 1, s, k))"

definition sock_sendmsg :: "'k os \<Rightarrow> str list \<Rightarrow> int \<Rightarrow> ('k, int) sk" where
  "sock_sendmsg os buffers flags t = (case t of (s, k) \<Rightarrow>
     if m_isConnected s then (case os_sendmsg os (m_sock s) buffers None flags k of (n, k1) \<Rightarrow> (int32 n, s, k1))
     else (- 1, s, k))"

definition sock_sendTo :: "'k os \<Rightarrow> str \<Rightarrow> address \<Rightarrow> int \<Rightarrow> ('k, int) sk" where
  "sock_sendTo os buffer to flags t = (case t of (s, k) \<Rightarrow>
     if m_isConnected s then (case os_sendto os (m_sock s) buffer flags to k of (n, k1) \<Rightarrow> (int32 n, s, k1)) else (- 1, s, k))"

definition sock_sendToMsg :: "'k os \<Rightarrow> str list \<Rightarrow> address \<Rightarrow> int \<Rightarrow> ('k, int) sk" where
  "sock_sendToMsg os buffers to flags t = (case t of (s, k) \<Rightarrow>
     if m_isConnected s then (case os_sendmsg os (m_sock s) buffers (Some to) flags k of (n, k1) \<Rightarrow> (int32 n, s, k1))
     else (- 1, s, k))"

definition sock_recv :: "'k os \<Rightarrow> nat \<Rightarrow> int \<Rightarrow> ('k, int \<times> str) sk" where
  "sock_recv os len flags t = (case t of (s, k) \<Rightarrow>
     if m_isConnected s then (case os_recv os (m_sock s) len flags k of (n, bs, k1) \<Rightarrow> ((int32 n, bs), s, k1))
     else ((- 1, []), s, k))"

definition sock_recvmsg :: "'k os \<Rightarrow> nat list \<Rightarrow> int \<Rightarrow> ('k, int \<times> str) sk" where
  "sock_recvmsg os lens flags t = (case t of (s, k) \<Rightarrow>
     if m_isConnected s then (case os_recvmsg os (m_sock s) lens None flags k of (n, bs, k1) \<Rightarrow> ((int32 n, bs), s, k1))
     else ((- 1, []), s, k))"

definition sock_recvFrom :: "'k os \<Rightarrow> nat \<Rightarrow> address \<Rightarrow> int \<Rightarrow> ('k, int \<times> str) sk" where
  "sock_recvFrom os len peer flags t = (case t of (s, k) \<Rightarrow>
     if m_isConnected s then (case os_recvfrom os (m_sock s) len flags peer k of (n, bs, k1) \<Rightarrow> ((int32 n, bs), s, k1))
     else ((- 1, []), s, k))"

definition sock_recvFromMsg :: "'k os \<Rightarrow> nat list \<Rightarrow> address \<Rightarrow> int \<Rightarrow> ('k, int \<times> str) sk" where
  "sock_recvFromMsg os lens peer flags t = (case t of (s, k) \<Rightarrow>
     if m_isConnected s then (case os_recvmsg os (m_sock s) lens (Some peer) flags k of (n, bs, k1) \<Rightarrow> ((int32 n, bs), s, k1))
     else ((- 1, []), s, k))"

section \<open>Events, and printing\<close>

definition sock_cancelRead :: "'k os \<Rightarrow> ('k, bool) sk" where
  "sock_cancelRead os t = (case t of (s, k) \<Rightarrow> case os_cancel os (m_sock s) 1 k of (b, k1) \<Rightarrow> (b, s, k1))"

definition sock_cancelWrite :: "'k os \<Rightarrow> ('k, bool) sk" where
  "sock_cancelWrite os t = (case t of (s, k) \<Rightarrow> case os_cancel os (m_sock s) 4 k of (b, k1) \<Rightarrow> (b, s, k1))"

definition sock_cancelAccept :: "'k os \<Rightarrow> ('k, bool) sk" where
  "sock_cancelAccept os t = (case t of (s, k) \<Rightarrow> case os_cancel os (m_sock s) 1 k of (b, k1) \<Rightarrow> (b, s, k1))"

definition sock_cancelAll :: "'k os \<Rightarrow> ('k, bool) sk" where
  "sock_cancelAll os t = (case t of (s, k) \<Rightarrow> case os_cancelAll os (m_sock s) k of (b, k1) \<Rightarrow> (b, s, k1))"

definition signed_decimal :: "int \<Rightarrow> str" where
  "signed_decimal n = (if n < 0 then 45 # decimal (nat (- n)) else decimal (nat n))"

definition sock_dump :: "endian \<Rightarrow> socket \<Rightarrow> str" where
  "sock_dump h s = chars ''[Socket sock='' @ signed_decimal (m_sock s)
     @ chars '' is_connected='' @ (if m_isConnected s then chars ''1'' else chars ''0'')
     @ chars '' family='' @ signed_decimal (m_family s) @ chars '' type='' @ signed_decimal (m_type s)
     @ chars '' protocol='' @ signed_decimal (m_protocol s)
     @ (case m_localAddress s of None \<Rightarrow> [] | Some a \<Rightarrow> chars '' local_address='' @ addr_toString h a)
     @ (case m_remoteAddress s of None \<Rightarrow> [] | Some a \<Rightarrow> chars '' remote_address='' @ addr_toString h a)
     @ chars '']''"

definition sock_toString :: "endian \<Rightarrow> socket \<Rightarrow> str" where
  "sock_toString h s = sock_dump h s"

end
