(* ===== verification/SocketStream.thy ===== *)
theory SocketStream
  imports Socket Stream ByteIov
begin

text \<open>
  \<^verbatim>\<open>server/socket_stream.h\<close> and \<^verbatim>\<open>server/socket_stream.cc\<close>: the stream of a socket, over plain buffers and
  over the buffers of a \<open>ByteArray\<close>. What the system promises of \<^verbatim>\<open>recv\<close> and \<^verbatim>\<open>send\<close> is a locale, from which
  the stream is a source and a sink of bytes; a connection that delivers given pieces is an instance of it.
\<close>

section \<open>The stream\<close>

text \<open>A stream has a socket, or a null pointer. The bytes of an array are characters with a sign outside.\<close>

type_synonym 'k ss = "socket option \<times> 'k"

definition as_bytes :: "str \<Rightarrow> u8 list" where
  "as_bytes = map of_int"

definition ss_isConnected :: "'k ss \<Rightarrow> bool" where
  "ss_isConnected t \<longleftrightarrow> (case fst t of None \<Rightarrow> False | Some s \<Rightarrow> m_isConnected s)"

definition ss_read :: "'k os \<Rightarrow> nat \<Rightarrow> 'k ss \<Rightarrow> int \<times> str \<times> 'k ss" where
  "ss_read os len t =
     (if \<not> ss_isConnected t then (- 1, [], t)
      else case sock_recv os len 0 (the (fst t), snd t) of ((n, bs), s, k) \<Rightarrow> (n, bs, Some s, k))"

text \<open>
  An exception out of the array takes its place: \<open>Inl\<close>. The bytes received are scattered over the buffers
  before the position is moved.
\<close>

definition ss_read_ba :: "'k os \<Rightarrow> nat \<Rightarrow> (ba_error + bytearray) \<times> 'k ss \<Rightarrow> int \<times> (ba_error + bytearray) \<times> 'k ss" where
  "ss_read_ba os len bt = (case bt of (Inl e, t) \<Rightarrow> (- 1, Inl e, t) | (Inr b, t) \<Rightarrow>
     if \<not> ss_isConnected t then (- 1, Inr b, t)
     else case getWriteBuffers len b of
       (Inl e, b1) \<Rightarrow> (- 1, Inl e, t)
     | (Inr (sz, iovs), b1) \<Rightarrow>
         (case sock_recvmsg os (map iov_len iovs) 0 (the (fst t), snd t) of ((rt, bs), s, k) \<Rightarrow>
            if rt > 0 then
              (case setPosition (m_position b1 + nat rt) (b1\<lparr>m_root := iov_scatter iovs (as_bytes bs) (m_root b1)\<rparr>) of
                 (Inl e, b2) \<Rightarrow> (- 1, Inl e, Some s, k)
               | (Inr u, b2) \<Rightarrow> (rt, Inr b2, Some s, k))
            else (rt, Inr b1, Some s, k)))"

definition ss_write :: "'k os \<Rightarrow> str \<Rightarrow> 'k ss \<Rightarrow> int \<times> 'k ss" where
  "ss_write os buffer t =
     (if \<not> ss_isConnected t then (- 1, t)
      else case sock_send os buffer 0 (the (fst t), snd t) of (n, s, k) \<Rightarrow> (n, Some s, k))"

definition ss_write_ba :: "'k os \<Rightarrow> nat \<Rightarrow> (ba_error + bytearray) \<times> 'k ss \<Rightarrow> int \<times> (ba_error + bytearray) \<times> 'k ss" where
  "ss_write_ba os len bt = (case bt of (Inl e, t) \<Rightarrow> (- 1, Inl e, t) | (Inr b, t) \<Rightarrow>
     if \<not> ss_isConnected t then (- 1, Inr b, t)
     else case getReadBuffers len b of
       Inl e \<Rightarrow> (- 1, Inl e, t)
     | Inr (sz, iovs) \<Rightarrow>
         (case sock_sendmsg os (map (\<lambda>v. as_chars (iov_bytes (m_root b) v)) iovs) 0 (the (fst t), snd t) of (rt, s, k) \<Rightarrow>
            if rt > 0 then
              (case setPosition (m_position b + nat rt) b of
                 (Inl e, b1) \<Rightarrow> (- 1, Inl e, Some s, k)
               | (Inr u, b1) \<Rightarrow> (rt, Inr b1, Some s, k))
            else (rt, Inr b, Some s, k)))"

definition ss_close :: "'k os \<Rightarrow> 'k ss \<Rightarrow> 'k ss" where
  "ss_close os t = (case t of (None, k) \<Rightarrow> (None, k)
     | (Some s, k) \<Rightarrow> (case sock_close os (s, k) of (_, s1, k1) \<Rightarrow> (Some s1, k1)))"

text \<open>The destructor; \<open>owner\<close> is \<^verbatim>\<open>m_owner\<close>.\<close>

definition ss_destroy :: "'k os \<Rightarrow> bool \<Rightarrow> 'k ss \<Rightarrow> 'k ss" where
  "ss_destroy os owner t = (if owner \<and> fst t \<noteq> None then ss_close os t else t)"

definition SocketStream :: "'k os \<Rightarrow> ('k ss, int, ba_error + bytearray) stream" where
  "SocketStream os = \<lparr>st_read = ss_read os, st_read_ba = ss_read_ba os, st_write = ss_write os,
     st_write_ba = ss_write_ba os, st_close = ss_close os\<rparr>"

definition ss_getRemoteAddress :: "endian \<Rightarrow> 'k os \<Rightarrow> 'k ss \<Rightarrow> address option \<times> 'k ss" where
  "ss_getRemoteAddress h os t = (case t of (None, k) \<Rightarrow> (None, t)
     | (Some s, k) \<Rightarrow> (case sock_getRemoteAddress h os (s, k) of (a, s1, k1) \<Rightarrow> (Some a, Some s1, k1)))"

definition ss_getLocalAddress :: "endian \<Rightarrow> 'k os \<Rightarrow> 'k ss \<Rightarrow> address option \<times> 'k ss" where
  "ss_getLocalAddress h os t = (case t of (None, k) \<Rightarrow> (None, t)
     | (Some s, k) \<Rightarrow> (case sock_getLocalAddress h os (s, k) of (a, s1, k1) \<Rightarrow> (Some a, Some s1, k1)))"

definition ss_getRemoteAddressString :: "endian \<Rightarrow> 'k os \<Rightarrow> 'k ss \<Rightarrow> str \<times> 'k ss" where
  "ss_getRemoteAddressString h os t = (case ss_getRemoteAddress h os t of (a, t1) \<Rightarrow>
     (case a of None \<Rightarrow> [] | Some a \<Rightarrow> addr_toString h a, t1))"

definition ss_getLocalAddressString :: "endian \<Rightarrow> 'k os \<Rightarrow> 'k ss \<Rightarrow> str \<times> 'k ss" where
  "ss_getLocalAddressString h os t = (case ss_getLocalAddress h os t of (a, t1) \<Rightarrow>
     (case a of None \<Rightarrow> [] | Some a \<Rightarrow> addr_toString h a, t1))"

section \<open>What the system promises\<close>

text \<open>
  How many buffers one call takes, \<^verbatim>\<open>UIO_MAXIOV\<close>: given more, \<^verbatim>\<open>recvmsg\<close> and \<^verbatim>\<open>sendmsg\<close> fail with \<^verbatim>\<open>EMSGSIZE\<close>
  and nothing is moved.
\<close>

definition IOV_MAX :: nat where
  "IOV_MAX = 1024"

text \<open>
  \<open>arriving fd\<close> are the bytes to come on a descriptor. A call that receives gives some of them, at most as
  many as it was asked for and never 2 GB, or fails; one for several buffers is one for their sum.
\<close>

locale kernel_in =
  fixes os :: "'k os" and arriving :: "int \<Rightarrow> 'k \<Rightarrow> str"
  assumes recv_some: "os_recv os fd n fl k = (len, bs, k1) \<Longrightarrow> 0 < n \<Longrightarrow> 0 < len
      \<Longrightarrow> int (length bs) = len \<and> len \<le> int n \<and> len < 2 ^ 31 \<and> arriving fd k = bs @ arriving fd k1"
    and recv_none: "os_recv os fd n fl k = (len, bs, k1) \<Longrightarrow> 0 < n \<Longrightarrow> len \<le> 0
      \<Longrightarrow> - 1 \<le> len \<and> arriving fd k1 = arriving fd k"
    and recvmsg_sum: "length lens \<le> IOV_MAX \<Longrightarrow> os_recvmsg os fd lens None fl k = os_recv os fd (sum_list lens) fl k"
    and recvmsg_many: "IOV_MAX < length lens \<Longrightarrow> os_recvmsg os fd lens None fl k = (len, bs, k1)
      \<Longrightarrow> len = - 1 \<and> arriving fd k1 = arriving fd k"

definition ss_pending :: "(int \<Rightarrow> 'k \<Rightarrow> str) \<Rightarrow> 'k ss \<Rightarrow> str" where
  "ss_pending arriving t = (if ss_isConnected t then arriving (m_sock (the (fst t))) (snd t) else [])"

sublocale kernel_in \<subseteq> src: byte_source "SocketStream os" "ss_pending arriving"
proof unfold_locales
  fix n t len bs t1
  assume r: "st_read (SocketStream os) n t = (len, bs, t1)" and n: "0 < n"
  obtain so k where t: "t = (so, k)" by (cases t)
  show "int (length bs) = len \<and> len \<le> int n \<and> ss_pending arriving t = bs @ ss_pending arriving t1" if len: "0 < len"
  proof -
    from r len t obtain s where s: "so = Some s" "m_isConnected s"
      by (cases so) (auto simp: SocketStream_def ss_read_def ss_isConnected_def split: if_splits)
    obtain len' bs' k1 where rv: "os_recv os (m_sock s) n 0 k = (len', bs', k1)" by (cases "os_recv os (m_sock s) n 0 k")
    have "len = int32 len'" "bs = bs'" "t1 = (Some s, k1)"
      using r s t rv by (auto simp: SocketStream_def ss_read_def ss_isConnected_def sock_recv_def)
    moreover have "0 < len'"
      using recv_none [OF rv n] len calculation(1) by (cases "0 < len'") (auto simp: int32_small)
    ultimately show ?thesis
      using recv_some [OF rv n] s t by (auto simp: ss_pending_def ss_isConnected_def int32_small)
  qed
  show "- (2 ^ 31) \<le> len \<and> ss_pending arriving t1 = ss_pending arriving t" if len: "len \<le> 0"
  proof (cases "ss_isConnected t")
    case False
    then show ?thesis using r by (auto simp: SocketStream_def ss_read_def)
  next
    case True
    then obtain s where s: "so = Some s" "m_isConnected s" using t by (auto simp: ss_isConnected_def split: option.splits)
    obtain len' bs' k1 where rv: "os_recv os (m_sock s) n 0 k = (len', bs', k1)" by (cases "os_recv os (m_sock s) n 0 k")
    have eq: "len = int32 len'" "t1 = (Some s, k1)"
      using r s t rv by (auto simp: SocketStream_def ss_read_def ss_isConnected_def sock_recv_def)
    then have "len' \<le> 0"
      using recv_some [OF rv n] len by (cases "0 < len'") (auto simp: int32_small)
    then show ?thesis using recv_none [OF rv n] eq s t by (auto simp: ss_pending_def ss_isConnected_def int32_small)
  qed
qed

locale live_kernel = kernel_in +
  assumes recv_live: "0 < n \<Longrightarrow> arriving fd k \<noteq> [] \<Longrightarrow> os_recv os fd n fl k = (len, bs, k1) \<Longrightarrow> 0 < len"

sublocale live_kernel \<subseteq> live: live_source "SocketStream os" "ss_pending arriving"
proof unfold_locales
  fix n t len bs t1
  assume n: "0 < n" and p: "ss_pending arriving t \<noteq> []" and r: "st_read (SocketStream os) n t = (len, bs, t1)"
  from p obtain s k where t: "t = (Some s, k)" "m_isConnected s" "arriving (m_sock s) k \<noteq> []"
    by (cases t) (auto simp: ss_pending_def ss_isConnected_def split: if_splits option.splits)
  obtain len' bs' k1 where rv: "os_recv os (m_sock s) n 0 k = (len', bs', k1)" by (cases "os_recv os (m_sock s) n 0 k")
  have "0 < len'" by (rule recv_live [OF n t(3) rv])
  then show "0 < len"
    using r t rv recv_some [OF rv n] by (auto simp: SocketStream_def ss_read_def ss_isConnected_def sock_recv_def int32_small)
qed

text \<open>
  \<open>gone fd\<close> are the bytes a descriptor has taken; a call that sends several buffers is one for the bytes they
  gather.
\<close>

locale kernel_out =
  fixes os :: "'k os" and gone :: "int \<Rightarrow> 'k \<Rightarrow> str"
  assumes send_some: "os_send os fd bs fl k = (len, k1) \<Longrightarrow> 0 < len
      \<Longrightarrow> len \<le> int (length bs) \<and> len < 2 ^ 31 \<and> gone fd k1 = gone fd k @ take (nat len) bs"
    and send_none: "os_send os fd bs fl k = (len, k1) \<Longrightarrow> len \<le> 0 \<Longrightarrow> - 1 \<le> len \<and> gone fd k1 = gone fd k"
    and sendmsg_sum: "length bss \<le> IOV_MAX \<Longrightarrow> os_sendmsg os fd bss None fl k = os_send os fd (concat bss) fl k"
    and sendmsg_many: "IOV_MAX < length bss \<Longrightarrow> os_sendmsg os fd bss None fl k = (len, k1)
      \<Longrightarrow> len = - 1 \<and> gone fd k1 = gone fd k"

definition ss_sent :: "(int \<Rightarrow> 'k \<Rightarrow> str) \<Rightarrow> 'k ss \<Rightarrow> str" where
  "ss_sent gone t = (if ss_isConnected t then gone (m_sock (the (fst t))) (snd t) else [])"

sublocale kernel_out \<subseteq> snk: byte_sink "SocketStream os" "ss_sent gone"
proof unfold_locales
  fix bs t len t1
  assume w: "st_write (SocketStream os) bs t = (len, t1)"
  obtain so k where t: "t = (so, k)" by (cases t)
  have conn: "\<exists>s len' k1. so = Some s \<and> m_isConnected s \<and> os_send os (m_sock s) bs 0 k = (len', k1) \<and> len = int32 len'
      \<and> t1 = (Some s, k1)" if "ss_isConnected t"
    using w that t by (auto simp: SocketStream_def ss_write_def ss_isConnected_def sock_send_def split: option.splits prod.splits)
  show "len \<le> int (length bs) \<and> ss_sent gone t1 = ss_sent gone t @ take (nat len) bs" if len: "0 < len"
  proof -
    have "ss_isConnected t" using w len by (auto simp: SocketStream_def ss_write_def split: if_splits)
    from conn [OF this] obtain s len' k1 where s: "so = Some s" "m_isConnected s"
      and sd: "os_send os (m_sock s) bs 0 k = (len', k1)" and eq: "len = int32 len'" "t1 = (Some s, k1)" by blast
    have "0 < len'" using send_none [OF sd] len eq(1) by (cases "0 < len'") (auto simp: int32_small)
    then show ?thesis using send_some [OF sd] s t eq by (auto simp: ss_sent_def ss_isConnected_def int32_small)
  qed
  show "- (2 ^ 31) \<le> len \<and> ss_sent gone t1 = ss_sent gone t" if len: "len \<le> 0"
  proof (cases "ss_isConnected t")
    case False
    then show ?thesis using w by (auto simp: SocketStream_def ss_write_def)
  next
    case True
    from conn [OF this] obtain s len' k1 where s: "so = Some s" "m_isConnected s"
      and sd: "os_send os (m_sock s) bs 0 k = (len', k1)" and eq: "len = int32 len'" "t1 = (Some s, k1)" by blast
    have "len' \<le> 0" using send_some [OF sd] len eq(1) by (cases "0 < len'") (auto simp: int32_small)
    then show ?thesis using send_none [OF sd] s t eq by (auto simp: ss_sent_def ss_isConnected_def int32_small)
  qed
qed

section \<open>A connection\<close>

text \<open>
  A peer whose bytes arrive in given pieces and who takes all it is sent: the state are the pieces to come
  and the bytes taken.
\<close>

type_synonym pipe = "str list \<times> str"

definition pipe_recv :: "int \<Rightarrow> nat \<Rightarrow> int \<Rightarrow> pipe \<Rightarrow> int \<times> str \<times> pipe" where
  "pipe_recv fd n fl k = (case dropWhile (\<lambda>c. c = []) (fst k) of
       [] \<Rightarrow> (0, [], [], snd k)
     | c # cs \<Rightarrow> (let q = min (2 ^ 31 - 1) n in (int (min q (length c)), take q c, drop q c # cs, snd k)))"

definition pipe_send :: "int \<Rightarrow> str \<Rightarrow> int \<Rightarrow> pipe \<Rightarrow> int \<times> pipe" where
  "pipe_send fd bs fl k = (int (min (2 ^ 31 - 1) (length bs)), fst k, snd k @ take (2 ^ 31 - 1) bs)"

definition pipe_os :: "pipe os" where
  "pipe_os = \<lparr>os_socket = (\<lambda>f t p k. (3, k)), os_close = (\<lambda>fd k. (0, k)), os_setsockopt = (\<lambda>fd l p v k. (0, k)),
     os_getsockopt = (\<lambda>fd l p k. (0, 0, k)), os_bind = (\<lambda>fd a k. (0, k)), os_listen = (\<lambda>fd b k. (0, k)),
     os_connect = (\<lambda>fd a t k. (0, k)), os_accept = (\<lambda>fd k. (4, k)), os_send = pipe_send,
     os_sendmsg = (\<lambda>fd bs a fl k. if IOV_MAX < length bs then (- 1, k) else pipe_send fd (concat bs) fl k), os_sendto = (\<lambda>fd bs fl a k. pipe_send fd bs fl k),
     os_recv = pipe_recv, os_recvmsg = (\<lambda>fd ls a fl k. if IOV_MAX < length ls then (- 1, [], k) else pipe_recv fd (sum_list ls) fl k),
     os_recvfrom = (\<lambda>fd n fl a k. pipe_recv fd n fl k), os_getpeername = (\<lambda>fd a k. (Some (a, 16), k)),
     os_getsockname = (\<lambda>fd a k. (Some (a, 16), k)), os_unlink = (\<lambda>p k. k), os_fdctx = (\<lambda>fd k. Some (True, False, - 1, - 1)),
     os_errno = (\<lambda>k. 0), os_cancel = (\<lambda>fd e k. (True, k)), os_cancelAll = (\<lambda>fd k. (True, k))\<rparr>"

text \<open>A socket with a connection.\<close>

definition open_socket :: socket where
  "open_socket = (Socket 2 TCP 0)\<lparr>m_sock := 7, m_isConnected := True\<rparr>"

lemma concat_dropWhile_Nil: "concat (dropWhile (\<lambda>c. c = []) cs) = concat cs"
  by (induction cs) auto

lemma pipe_recv_end:
  assumes "dropWhile (\<lambda>c. c = []) (fst k) = []" "pipe_recv fd n fl k = (len, bs, k1)"
  shows "len = 0 \<and> concat (fst k) = [] \<and> concat (fst k1) = []"
proof -
  have "concat (fst k) = []" using assms(1) concat_dropWhile_Nil [of "fst k"] by (simp del: dropWhile_eq_Nil_conv)
  moreover have "len = 0 \<and> k1 = ([], snd k)"
    using assms(2) unfolding pipe_recv_def assms(1) list.case by simp
  ultimately show ?thesis by simp
qed

lemma pipe_recv_piece:
  assumes d: "dropWhile (\<lambda>c. c = []) (fst k) = c # cs" and r: "pipe_recv fd n fl k = (len, bs, k1)" and n: "0 < n"
  shows "0 < len \<and> int (length bs) = len \<and> len \<le> int n \<and> len < 2 ^ 31 \<and> concat (fst k) = bs @ concat (fst k1)"
proof -
  define q :: nat where "q = min (2 ^ 31 - 1) n"
  have ne: "c \<noteq> []" using hd_dropWhile [of "\<lambda>c. c = []" "fst k"] unfolding d by simp
  have all: "concat (fst k) = c @ concat cs" using d concat_dropWhile_Nil [of "fst k"] by simp
  have len: "len = int (min q (length c))" and bs: "bs = take q c" and k1: "k1 = (drop q c # cs, snd k)"
    using r unfolding pipe_recv_def d list.case Let_def q_def [symmetric] by simp_all
  have "0 < q" using n by (simp add: q_def)
  moreover have "q \<le> n" "q < 2 ^ 31" by (simp_all add: q_def)
  ultimately show ?thesis using ne by (auto simp: len bs k1 all min.commute)
qed

lemma pipe_recv_cases:
  assumes "pipe_recv fd n fl k = (len, bs, k1)" "0 < n"
  shows "0 < len \<and> int (length bs) = len \<and> len \<le> int n \<and> len < 2 ^ 31 \<and> concat (fst k) = bs @ concat (fst k1)
    \<or> len = 0 \<and> concat (fst k) = [] \<and> concat (fst k1) = []"
  using pipe_recv_end [OF _ assms(1)] pipe_recv_piece [OF _ assms]
  by (cases "dropWhile (\<lambda>c. c = []) (fst k)") blast+

interpretation pipe: live_kernel pipe_os "\<lambda>fd k. concat (fst k)"
proof unfold_locales
  fix fd n fl k len bs k1
  assume r: "os_recv pipe_os fd n fl k = (len, bs, k1)" and n: "0 < n"
  have "pipe_recv fd n fl k = (len, bs, k1)" using r by (simp add: pipe_os_def)
  note c = pipe_recv_cases [OF this n]
  show "int (length bs) = len \<and> len \<le> int n \<and> len < 2 ^ 31 \<and> concat (fst k) = bs @ concat (fst k1)" if "0 < len"
    using c that by (elim disjE) simp_all
  show "- 1 \<le> len \<and> concat (fst k1) = concat (fst k)" if "len \<le> 0"
    using c that by (elim disjE) (simp_all only:, simp_all)
  show "0 < len" if "concat (fst k) \<noteq> []" using c that by (elim disjE) (simp_all only: simp_thms)
qed (simp_all add: pipe_os_def split: if_splits)

lemma pipe_send_counts:
  "pipe_send fd bs fl k = (len, k1) \<Longrightarrow> 0 \<le> len \<and> len \<le> int (length bs) \<and> len < 2 ^ 31 \<and> snd k1 = snd k @ take (nat len) bs"
  by (cases "length bs \<le> 2 ^ 31 - 1") (auto simp: pipe_send_def min_def)

interpretation pipe_out: kernel_out pipe_os "\<lambda>fd k. snd k"
proof unfold_locales
  fix fd bs fl k len k1
  assume "os_send pipe_os fd bs fl k = (len, k1)"
  then have "pipe_send fd bs fl k = (len, k1)" by (simp add: pipe_os_def)
  note c = pipe_send_counts [OF this]
  show "len \<le> int (length bs) \<and> len < 2 ^ 31 \<and> snd k1 = snd k @ take (nat len) bs" if "0 < len" using c by simp
  show "- 1 \<le> len \<and> snd k1 = snd k" if "len \<le> 0" using c that by simp
qed (simp_all add: pipe_os_def split: if_splits)

end
