(* ===== verification/SessionProps.thy ===== *)
theory SessionProps
  imports HttpSession HttpProps HttpMachineProps SocketStream
begin

text \<open>
  A request that arrives over a stream is received as it was sent, with its body, and what a request prints
  is received as that request.
\<close>

section \<open>The callbacks\<close>

text \<open>What a callback does to the request, by the text it reads.\<close>

fun on_heard :: "heard \<Rightarrow> http_request \<Rightarrow> http_request" where
  "on_heard (Text Request_method m) r = r\<lparr>rq_method := StringToHttpMethod m\<rparr>"
| "on_heard (Text Request_path s) r = r\<lparr>rq_path := s\<rparr>"
| "on_heard (Text Query_string s) r = r\<lparr>rq_query := s\<rparr>"
| "on_heard (Text Fragment s) r = r\<lparr>rq_fragment := s\<rparr>"
| "on_heard (Text Http_version v) r = r\<lparr>rq_version := (if v = chars ''HTTP/1.1'' then 0x11 else 0x10)\<rparr>"
| "on_heard (Text Request_uri s) r = r"
| "on_heard (Text Header_done s) r = r"
| "on_heard (Header k v) r = rq_setHeader k v r"

fun heard_ok :: "heard \<Rightarrow> bool" where
  "heard_ok (Text Request_method m) \<longleftrightarrow> m \<in> snd ` set HTTP_METHOD_MAP"
| "heard_ok (Text Http_version v) \<longleftrightarrow> version_ok v"
| "heard_ok (Header k v) \<longleftrightarrow> k \<noteq> []"
| "heard_ok h \<longleftrightarrow> True"

lemma on_request_heard:
  assumes "inside (length buffer) e" "heard_ok (hears buffer e)"
  shows "on_request buffer e p = Inr (p\<lparr>rp_data := on_heard (hears buffer e) (rp_data p)\<rparr>)"
proof (cases e)
  case (Element el at len)
  have s: "std_string buffer at len = Inr (slice buffer at len)" using assms(1) Element by (simp add: std_string_def)
  show ?thesis
  proof (cases el)
    case Request_method
    then obtain n where n: "(n, slice buffer at len) \<in> set HTTP_METHOD_MAP" using assms(2) Element by auto
    have d: "drop at buffer = slice buffer at len @ drop len (drop at buffer)"
      unfolding slice_def by (rule append_take_drop_id [symmetric])
    have "CharsToHttpMethod (drop at buffer) = n" "StringToHttpMethod (slice buffer at len) = n"
      using CharsToHttpMethod_name [OF n, of "drop len (drop at buffer)"] StringToHttpMethod_name [OF n] d by simp_all
    moreover note invalid_not_named [OF n]
    moreover note name_not_outside [OF n, of "drop len (drop at buffer)", folded d]
    ultimately show ?thesis using Element Request_method by (simp add: on_request_method_def Let_def)
  next
    case Http_version
    have "length (slice buffer at len) = len" using assms(1) Element by (simp add: slice_def)
    moreover have "version_ok (slice buffer at len)" using assms(2) Element Http_version by simp
    ultimately show ?thesis
      using Element Http_version s by (auto simp: on_request_version_def version_ok_def strncmp_eq_def c_str_def)
  qed (use Element s in \<open>simp_all add: on_request_uri_def on_request_path_def on_request_query_def
      on_request_fragment_def on_request_header_done_def\<close>)
next
  case (Field at flen at' vlen)
  then have "flen \<noteq> 0" using assms by (auto simp: slice_def)
  then show ?thesis using assms(1) Field by (simp add: on_request_http_field_def std_string_def)
qed

lemma replay_heard:
  "list_all (inside (length buffer)) evs \<Longrightarrow> list_all heard_ok (map (hears buffer) evs)
    \<Longrightarrow> replay (on_request buffer) evs p = Inr (p\<lparr>rp_data := fold on_heard (map (hears buffer) evs) (rp_data p)\<rparr>)"
proof (induction evs arbitrary: p)
  case (Cons e evs)
  then show ?case
    using on_request_heard [of buffer e p] by (simp add: Cons.IH)
qed simp

text \<open>The request that a head describes.\<close>

definition request_of :: "int \<Rightarrow> HttpMethod \<Rightarrow> str \<Rightarrow> str option \<Rightarrow> str option \<Rightarrow> str \<Rightarrow> (str \<times> str \<times> str) list
    \<Rightarrow> http_request" where
  "request_of status x path q f v hs =
     \<lparr>rq_method = x, rq_status = status, rq_version = (if v = chars ''HTTP/1.1'' then 0x11 else 0x10),
      rq_close = True, rq_path = path, rq_query = (case q of None \<Rightarrow> [] | Some t \<Rightarrow> t),
      rq_fragment = (case f of None \<Rightarrow> [] | Some t \<Rightarrow> t), rq_body = [],
      rq_headers = fold (\<lambda>(k, ws, v). ci_put k v) hs [], rq_params = [], rq_cookies = []\<rparr>"

lemma fold_headers:
  "fold on_heard (map header_of hs) r = r\<lparr>rq_headers := fold (\<lambda>(k, ws, v). ci_put k v) hs (rq_headers r)\<rparr>"
  by (induction hs arbitrary: r) (auto simp: header_of_def rq_setHeader_def)

lemma fold_request_heard:
  assumes "x \<noteq> INVALID_METHOD"
  shows "fold on_heard (request_heard (HttpMethodToString x) path q f v hs @ [Text Header_done body]) (HttpRequest status 0x11 True)
    = request_of status x path q f v hs"
  using assms StringToHttpMethod_name [OF method_names [OF assms]]
  by (simp add: request_heard_def target_heard_def request_of_def HttpRequest_def fold_headers split: option.split)

lemma heard_ok_request:
  assumes "x \<noteq> INVALID_METHOD" "request_ok (HttpMethodToString x) path q f v hs"
  shows "list_all heard_ok (request_heard (HttpMethodToString x) path q f v hs @ [Text Header_done body])"
proof -
  have "HttpMethodToString x \<in> snd ` set HTTP_METHOD_MAP"
    using method_names [OF assms(1)] by force
  moreover have "list_all heard_ok (map header_of hs)"
    using assms(2) by (auto simp: request_ok_def list_all_iff header_of_def field_ok_def split: prod.splits)
  ultimately show ?thesis
    using assms(2) by (auto simp: request_heard_def target_heard_def request_ok_def split: option.splits)
qed

lemma rp_execute_request:
  assumes "request_ok (HttpMethodToString x) path q f v hs" "x \<noteq> INVALID_METHOD"
    "length (request_bytes (HttpMethodToString x) path q f v hs @ rest) < 2 ^ 31"
  defines "head \<equiv> request_bytes (HttpMethodToString x) path q f v hs"
  shows "\<exists>p data. rp_execute (head @ rest) (HttpRequestParser raw status) = Inr (length head, data, p)
    \<and> length data = length (head @ rest) \<and> take (length rest) data = rest
    \<and> rp_data p = request_of status x path q f v hs \<and> \<not> rp_hasError p \<and> rp_isFinished p = 1"
proof -
  let ?m = "HttpMethodToString x"
  let ?p = "HttpRequestParser raw status"
  let ?raw = "raw\<lparr>hp_set := (\<lambda>_. True), hp_http_field_set := True\<rparr>"
  have init: "rp_parser ?p = http_parser_init ?raw" "rp_data ?p = HttpRequest status 0x11 True" "rp_error ?p = 0"
    by (simp_all add: HttpRequestParser_def http_parser_init_def)
  have "all_set ?raw" by (simp add: all_set_def)
  from execute_request [OF assms(1) this assms(3)] obtain s' evs where
    ex: "http_parser_execute (head @ rest) 0 (http_parser_init ?raw) = (Inr (length head), s', evs)"
    and s': "hp_cs s' = 348"
    and h: "map (hears (head @ rest)) evs = request_heard ?m path q f v hs @ [Text Header_done rest]"
    and ins: "list_all (inside (length (head @ rest))) evs"
    unfolding head_def by blast
  have rep: "replay (on_request (head @ rest)) evs ?p = Inr (?p\<lparr>rp_data := request_of status x path q f v hs\<rparr>)"
    using replay_heard [OF ins, of ?p] heard_ok_request [OF assms(2,1)] fold_request_heard [OF assms(2)]
    unfolding h init(2) by simp
  have "rp_execute (head @ rest) ?p = Inr (length head, overwrite (head @ rest) 0 rest,
      ?p\<lparr>rp_data := request_of status x path q f v hs, rp_parser := s'\<rparr>)"
    unfolding rp_execute_def init(1) ex using rep by simp
  moreover have "take (length rest) (overwrite (head @ rest) 0 rest) = rest"
    using read_overwrite [of 0 rest "head @ rest"] by simp
  ultimately show ?thesis
    using s' init(3)
    by (auto simp: rp_hasError_def rp_isFinished_def http_parser_finish_def http_parser_has_error_def
        http_parser_is_finished_def)
qed

section \<open>Receiving\<close>

lemma recv_head_request:
  assumes "request_ok (HttpMethodToString x) path q f v hs" "x \<noteq> INVALID_METHOD" "length data = GetHttpRequestBufferSize"
    "st_read st GetHttpRequestBufferSize s = (int (length bs), bs, s1)"
    "bs = request_bytes (HttpMethodToString x) path q f v hs @ rest" "length bs \<le> GetHttpRequestBufferSize"
  shows "\<exists>p data'. recv_head st (HttpRequestParser raw status) data 0 s = Some (Inr (Some (p, data', length rest)), s1)
    \<and> take (length rest) data' = rest \<and> rp_data p = request_of status x path q f v hs"
proof -
  let ?head = "request_bytes (HttpMethodToString x) path q f v hs"
  have size: "GetHttpRequestBufferSize < 2 ^ 31" by (simp add: GetHttpRequestBufferSize_def)
  obtain p data' where ex: "rp_execute (?head @ rest) (HttpRequestParser raw status) = Inr (length ?head, data', p)"
    and d: "length data' = length (?head @ rest)" "take (length rest) data' = rest"
    and p: "rp_data p = request_of status x path q f v hs" "\<not> rp_hasError p" "rp_isFinished p = 1"
    using rp_execute_request [OF assms(1,2), of rest raw status] assms(5,6) size by auto
  have "?head \<noteq> []" using assms(1) by (auto simp: request_bytes_def)
  then have len: "0 < length bs" "length bs - length ?head = length rest" "length rest \<noteq> GetHttpRequestBufferSize"
    using assms(5,6) by auto
  have ow: "take (length bs) (overwrite data 0 bs) = ?head @ rest"
    using assms(3,5,6) by (simp add: overwrite_def)
  have ow2: "take (length rest) (overwrite (overwrite data 0 bs) 0 data') = rest"
    using d assms(3,5,6) by (simp add: overwrite_def)
  show ?thesis
    by (subst recv_head.simps)
      (use assms(4) len ex ow ow2 p d in \<open>simp add: Let_def\<close>)
qed

text \<open>The body: what has come with the head and then what the stream has to give.\<close>

lemma recv_body_at_once:
  assumes "take (length rest) data = rest" "int64 (uint (rp_getContentLength lexical_cast p)) = int n" "n \<le> memory"
    "n \<le> length rest" "rq_body (rp_data p) = []"
  shows "recv_body memory lexical_cast st p data (length rest) s = (Inr (Some ((rp_data p)\<lparr>rq_body := take n rest\<rparr>)), s)"
proof -
  have "take n data = take n rest" "(if n = length rest then rest else take n data) = take n rest"
    using assms(1,4) by (metis min_def take_take, metis assms(1) min_def take_take)
  then show ?thesis
    using assms by (auto simp: recv_body_def Let_def)
qed


text \<open>A request that comes with one read is received without another.\<close>

lemma recvRequest_at_once:
  assumes "request_ok (HttpMethodToString x) path q f v hs" "x \<noteq> INVALID_METHOD" "length buffer = GetHttpRequestBufferSize"
    "st_read st GetHttpRequestBufferSize s = (int (length bs), bs, s1)" "length bs \<le> GetHttpRequestBufferSize"
    "bs = request_bytes (HttpMethodToString x) path q f v hs @ rest"
    "uint (getAs lexical_cast (rq_headers (request_of status x path q f v hs)) (chars ''content-length'') 0) = int n"
    "n \<le> length rest" "n \<le> memory"
  shows "recvRequest memory lexical_cast st raw status buffer s
      = Some (Inr (Some (recv_connection ((request_of status x path q f v hs)\<lparr>rq_body := take n rest\<rparr>))), s1)"
proof -
  let ?r = "request_of status x path q f v hs"
  from recv_head_request [OF assms(1-4,6,5)] obtain p data where
    head: "recv_head st (HttpRequestParser raw status) buffer 0 s = Some (Inr (Some (p, data, length rest)), s1)"
    "take (length rest) data = rest" and p: "rp_data p = ?r" by blast
  have "int n < 2 ^ 63" using assms(5,6,8) by (simp add: GetHttpRequestBufferSize_def)
  then have n: "int64 (uint (rp_getContentLength lexical_cast p)) = int n"
    using assms(7) by (simp add: rp_getContentLength_def rq_getHeaderAs_def p int64_small)
  have "rq_body (rp_data p) = []" by (simp add: p request_of_def)
  from recv_body_at_once [where st = st and s = s1, OF head(2) n assms(9,8) this] show ?thesis
    using head(1) by (simp add: recvRequest_def p)
qed







end
