(* ===== verification/Servlet.thy ===== *)
theory Servlet
  imports Http
begin

text \<open>
  \<^verbatim>\<open>server/http/servlet.h\<close> and \<^verbatim>\<open>server/http/servlet.cc\<close>: the servlets, and the dispatcher that finds the
  servlet of a request by its path: one for exactly this path, else the first pattern that matches, else the
  default. A pointer to a servlet may be null.
\<close>

section \<open>Servlets\<close>

text \<open>A servlet may change the request, the response and the session; \<open>'s\<close> is the state of the session.\<close>

record 's servlet =
  sl_name :: str
  sl_handle :: "http_request \<Rightarrow> http_response \<Rightarrow> 's \<Rightarrow> int \<times> http_request \<times> http_response \<times> 's"

type_synonym 's callback = "http_request \<Rightarrow> http_response \<Rightarrow> 's \<Rightarrow> int \<times> http_request \<times> http_response \<times> 's"

definition FunctionServlet :: "'s callback \<Rightarrow> 's servlet" where
  "FunctionServlet cb = \<lparr>sl_name = chars ''FunctionServlet'', sl_handle = cb\<rparr>"

definition not_found_body :: str where
  "not_found_body = chars ''<html><head><title>404 Not Found''
     @ chars ''</title></head><body><center><h1>404 Not Found</h1></center>''
     @ chars ''<hr><center>Hello, This is My Server!'' @ chars ''</center></body></html>''"

definition not_found_handle :: "'s callback" where
  "not_found_handle request response session =
     (0, request, (rs_setHeader (chars ''Content-Type'') (chars ''text/html'') (response\<lparr>rs_status := 404\<rparr>))
        \<lparr>rs_body := not_found_body\<rparr>, session)"

definition NotFoundServlet :: "'s servlet" where
  "NotFoundServlet = \<lparr>sl_name = chars ''NotFoundServlet'', sl_handle = not_found_handle\<rparr>"

section \<open>The dispatcher\<close>

record 's dispatch =
  m_datas :: "str \<Rightarrow> 's servlet option option"
  m_globs :: "(str \<times> 's servlet option) list"
  m_default :: "'s servlet option"

definition ServletDispatch :: "'s dispatch" where
  "ServletDispatch = \<lparr>m_datas = (\<lambda>_. None), m_globs = [], m_default = Some NotFoundServlet\<rparr>"

definition addServlet :: "str \<Rightarrow> 's servlet option \<Rightarrow> 's dispatch \<Rightarrow> 's dispatch" where
  "addServlet uri slt d = d\<lparr>m_datas := (m_datas d)(uri \<mapsto> slt)\<rparr>"

definition addServlet_cb :: "str \<Rightarrow> 's callback \<Rightarrow> 's dispatch \<Rightarrow> 's dispatch" where
  "addServlet_cb uri cb d = d\<lparr>m_datas := (m_datas d)(uri \<mapsto> Some (FunctionServlet cb))\<rparr>"

text \<open>The loops that erase the first pair with the pattern, and those that find it.\<close>

fun erase_first :: "str \<Rightarrow> (str \<times> 'a) list \<Rightarrow> (str \<times> 'a) list" where
  "erase_first uri [] = []"
| "erase_first uri ((u, slt) # globs) = (if u = uri then globs else (u, slt) # erase_first uri globs)"

definition addGlobServlet :: "str \<Rightarrow> 's servlet option \<Rightarrow> 's dispatch \<Rightarrow> 's dispatch" where
  "addGlobServlet uri slt d = d\<lparr>m_globs := erase_first uri (m_globs d) @ [(uri, slt)]\<rparr>"

definition addGlobServlet_cb :: "str \<Rightarrow> 's callback \<Rightarrow> 's dispatch \<Rightarrow> 's dispatch" where
  "addGlobServlet_cb uri cb d = addGlobServlet uri (Some (FunctionServlet cb)) d"

definition delServlet :: "str \<Rightarrow> 's dispatch \<Rightarrow> 's dispatch" where
  "delServlet uri d = d\<lparr>m_datas := (m_datas d)(uri := None)\<rparr>"

definition delGlobServlet :: "str \<Rightarrow> 's dispatch \<Rightarrow> 's dispatch" where
  "delGlobServlet uri d = d\<lparr>m_globs := erase_first uri (m_globs d)\<rparr>"

definition setDefault :: "'s servlet option \<Rightarrow> 's dispatch \<Rightarrow> 's dispatch" where
  "setDefault slt d = d\<lparr>m_default := slt\<rparr>"

definition getServlet :: "str \<Rightarrow> 's dispatch \<Rightarrow> 's servlet option" where
  "getServlet uri d = (case m_datas d uri of None \<Rightarrow> None | Some slt \<Rightarrow> slt)"

fun find_glob :: "(str \<Rightarrow> bool) \<Rightarrow> (str \<times> 'a) list \<Rightarrow> 'a option" where
  "find_glob P [] = None"
| "find_glob P ((u, slt) # globs) = (if P u then Some slt else find_glob P globs)"

definition getGlobServlet :: "str \<Rightarrow> 's dispatch \<Rightarrow> 's servlet option" where
  "getGlobServlet uri d = (case find_glob (\<lambda>u. u = uri) (m_globs d) of None \<Rightarrow> None | Some slt \<Rightarrow> slt)"

text \<open>\<open>fnmatch\<close> takes the pattern and the path, up to their first NUL.\<close>

definition getMatchedServlet :: "(str \<Rightarrow> str \<Rightarrow> int) \<Rightarrow> str \<Rightarrow> 's dispatch \<Rightarrow> 's servlet option" where
  "getMatchedServlet fnmatch uri d =
     (case m_datas d uri of
        Some slt \<Rightarrow> slt
      | None \<Rightarrow>
          (case find_glob (\<lambda>u. fnmatch (c_str u) (c_str uri) = 0) (m_globs d) of
             Some slt \<Rightarrow> slt
           | None \<Rightarrow> m_default d))"

definition dispatch_handle :: "(str \<Rightarrow> str \<Rightarrow> int) \<Rightarrow> 's dispatch \<Rightarrow> 's callback" where
  "dispatch_handle fnmatch d request response session =
     (case getMatchedServlet fnmatch (rq_path request) d of
        Some slt \<Rightarrow> (case sl_handle slt request response session of (_, rest) \<Rightarrow> (0, rest))
      | None \<Rightarrow> (0, request, response, session))"

section \<open>What is registered\<close>

text \<open>The operations, and what they make of the patterns: when each was last added, and its servlet.\<close>

datatype 's dispatch_op = AddServlet str "'s servlet option" | DelServlet str
  | AddGlob str "'s servlet option" | DelGlob str | SetDefault "'s servlet option"

fun dispatch_step :: "'s dispatch \<Rightarrow> 's dispatch_op \<Rightarrow> 's dispatch" where
  "dispatch_step d (AddServlet uri slt) = addServlet uri slt d"
| "dispatch_step d (DelServlet uri) = delServlet uri d"
| "dispatch_step d (AddGlob uri slt) = addGlobServlet uri slt d"
| "dispatch_step d (DelGlob uri) = delGlobServlet uri d"
| "dispatch_step d (SetDefault slt) = setDefault slt d"

fun exact_spec :: "'s dispatch_op list \<Rightarrow> str \<Rightarrow> 's servlet option option" where
  "exact_spec [] uri = None"
| "exact_spec (AddServlet u slt # ops) uri = (if u = uri then Some slt else exact_spec ops uri)"
| "exact_spec (DelServlet u # ops) uri = (if u = uri then None else exact_spec ops uri)"
| "exact_spec (_ # ops) uri = exact_spec ops uri"

fun glob_spec :: "'s dispatch_op list \<Rightarrow> str \<Rightarrow> (nat \<times> 's servlet option) option" where
  "glob_spec [] uri = None"
| "glob_spec (AddGlob u slt # ops) uri = (if u = uri then Some (length ops, slt) else glob_spec ops uri)"
| "glob_spec (DelGlob u # ops) uri = (if u = uri then None else glob_spec ops uri)"
| "glob_spec (_ # ops) uri = glob_spec ops uri"

fun default_spec :: "'s dispatch_op list \<Rightarrow> 's servlet option" where
  "default_spec [] = Some NotFoundServlet"
| "default_spec (SetDefault slt # ops) = slt"
| "default_spec (_ # ops) = default_spec ops"

text \<open>The patterns stand in the order in which they were last added, each once.\<close>

definition globs_inv :: "'s dispatch_op list \<Rightarrow> (str \<times> 's servlet option) list \<Rightarrow> bool" where
  "globs_inv ops globs \<longleftrightarrow> distinct (map fst globs)
     \<and> sorted_wrt (<) (map (\<lambda>(u, slt). fst (the (glob_spec ops u))) globs)
     \<and> (\<forall>u slt. (u, slt) \<in> set globs \<longleftrightarrow> (\<exists>t. glob_spec ops u = Some (t, slt)))"

lemma erase_first_filter: "distinct (map fst globs) \<Longrightarrow> erase_first uri globs = filter (\<lambda>e. fst e \<noteq> uri) globs"
proof (induction globs)
  case (Cons e globs)
  obtain u slt where e: "e = (u, slt)" by (cases e)
  have "filter (\<lambda>e. fst e \<noteq> u) globs = globs" using Cons.prems by (auto simp: e filter_id_conv)
  then show ?case using Cons by (auto simp: e)
qed simp

lemma glob_spec_time: "glob_spec ops u = Some (t, slt) \<Longrightarrow> t < length ops"
proof (induction ops)
  case (Cons op ops)
  then show ?case by (cases op) (auto split: if_splits)
qed simp

definition dispatch_of :: "'s dispatch_op list \<Rightarrow> 's dispatch" where
  "dispatch_of ops = foldr (\<lambda>op d. dispatch_step d op) ops ServletDispatch"

lemma dispatch_of_simps [simp]:
  "dispatch_of [] = ServletDispatch" "dispatch_of (op # ops) = dispatch_step (dispatch_of ops) op"
  by (simp_all add: dispatch_of_def)

lemmas dispatch_ops = addServlet_def delServlet_def addGlobServlet_def delGlobServlet_def setDefault_def ServletDispatch_def

lemma dispatch_datas: "m_datas (dispatch_of ops) = exact_spec ops"
proof (induction ops)
  case (Cons op ops)
  then show ?case by (cases op) (auto simp: dispatch_ops fun_eq_iff)
qed (simp add: dispatch_ops fun_eq_iff)

lemma dispatch_default: "m_default (dispatch_of ops) = default_spec ops"
proof (induction ops)
  case (Cons op ops)
  then show ?case by (cases op) (auto simp: dispatch_ops)
qed (simp add: dispatch_ops)

lemma globs_invD: "globs_inv ops globs \<Longrightarrow> distinct (map fst globs)"
  by (simp add: globs_inv_def)

lemma sorted_times_cong:
  assumes "sorted_wrt (<) (map (\<lambda>(u, slt). fst (the (f u))) globs)" "\<And>u slt. (u, slt) \<in> set globs \<Longrightarrow> g u = f u"
  shows "sorted_wrt (<) (map (\<lambda>(u, slt). fst (the (g u))) globs)"
proof -
  have "map (\<lambda>(u, slt). fst (the (g u))) globs = map (\<lambda>(u, slt). fst (the (f u))) globs"
    using assms(2) by (intro map_cong) auto
  then show ?thesis using assms(1) by (simp only:)
qed

lemma globs_inv_del:
  assumes "globs_inv ops globs"
  shows "globs_inv (DelGlob uri # ops) (filter (\<lambda>e. fst e \<noteq> uri) globs)"
proof -
  have "sorted_wrt (<) (map (\<lambda>(u, slt). fst (the (glob_spec ops u))) (filter (\<lambda>e. fst e \<noteq> uri) globs))"
    using assms unfolding globs_inv_def sorted_wrt_map by (blast intro: sorted_wrt_filter)
  then have "sorted_wrt (<) (map (\<lambda>(u, slt). fst (the (glob_spec (DelGlob uri # ops) u))) (filter (\<lambda>e. fst e \<noteq> uri) globs))"
    by (rule sorted_times_cong) auto
  then show ?thesis using assms by (auto simp: globs_inv_def distinct_map_filter)
qed

lemma globs_inv_add:
  assumes "globs_inv ops globs"
  shows "globs_inv (AddGlob uri slt # ops) (filter (\<lambda>e. fst e \<noteq> uri) globs @ [(uri, slt)])"
proof -
  let ?gs = "filter (\<lambda>e. fst e \<noteq> uri) globs" and ?ops = "AddGlob uri slt # ops"
  have "sorted_wrt (<) (map (\<lambda>(u, slt). fst (the (glob_spec ops u))) ?gs)"
    using assms unfolding globs_inv_def sorted_wrt_map by (blast intro: sorted_wrt_filter)
  then have s: "sorted_wrt (<) (map (\<lambda>(u, slt). fst (the (glob_spec ?ops u))) ?gs)"
    by (rule sorted_times_cong) auto
  have "t < length ops" if "t \<in> (\<lambda>(u, slt). fst (the (glob_spec ?ops u))) ` set ?gs" for t
    using that assms by (auto simp: globs_inv_def) (erule glob_spec_time)
  then have "sorted_wrt (<) (map (\<lambda>(u, slt). fst (the (glob_spec ?ops u))) (?gs @ [(uri, slt)]))"
    using s by (auto simp: sorted_wrt_append)
  moreover have "distinct (map fst (?gs @ [(uri, slt)]))" using assms by (auto simp: globs_inv_def distinct_map_filter)
  ultimately show ?thesis using assms by (auto simp: globs_inv_def)
qed

lemma globs_inv_other:
  assumes "globs_inv ops globs" "\<And>u. glob_spec (op # ops) u = glob_spec ops u"
  shows "globs_inv (op # ops) globs"
  using assms by (simp add: globs_inv_def)

lemma dispatch_globs: "globs_inv ops (m_globs (dispatch_of ops))"
proof (induction ops)
  case Nil
  then show ?case by (simp add: globs_inv_def dispatch_ops)
next
  case (Cons op ops)
  show ?case
  proof (cases op)
    case (AddGlob u slt)
    then show ?thesis
      using globs_inv_add [OF Cons] erase_first_filter [OF globs_invD [OF Cons]] by (simp add: dispatch_ops)
  next
    case (DelGlob u)
    then show ?thesis
      using globs_inv_del [OF Cons] erase_first_filter [OF globs_invD [OF Cons]] by (simp add: dispatch_ops)
  qed (use globs_inv_other [OF Cons] in \<open>simp_all add: dispatch_ops\<close>)
qed

text \<open>The first pattern that matches is the one added earliest.\<close>

lemma find_glob_None: "find_glob P globs = None \<longleftrightarrow> (\<forall>(u, slt) \<in> set globs. \<not> P u)"
  by (induction P globs rule: find_glob.induct) auto

lemma find_glob_Some:
  "find_glob P globs = Some slt \<Longrightarrow> sorted_wrt (<) (map (\<lambda>(u, slt). f u) globs)
    \<Longrightarrow> \<exists>u. (u, slt) \<in> set globs \<and> P u \<and> (\<forall>(u', slt') \<in> set globs. P u' \<longrightarrow> (f u :: nat) \<le> f u')"
proof (induction P globs rule: find_glob.induct)
  case (2 P u slt' globs)
  show ?case
  proof (cases "P u")
    case True
    then show ?thesis using 2(2,3) by (fastforce intro!: exI [of _ u])
  next
    case False
    then show ?thesis using 2 by auto
  qed
qed simp

section \<open>Claims\<close>

text \<open>
  C26. The servlet of a request: after any sequence of registrations, latest first in \<open>ops\<close>, it is the one
  registered for exactly the path, if there is one; else, of the patterns that match, the servlet of the one
  that was last added earliest; else the default.
\<close>

theorem matched_by_registration:
  fixes ops :: "'s dispatch_op list" and fnmatch :: "str \<Rightarrow> str \<Rightarrow> int" and uri :: str
  defines "matches u \<equiv> fnmatch (c_str u) (c_str uri) = 0"
  shows "case exact_spec ops uri of
      Some slt \<Rightarrow> getMatchedServlet fnmatch uri (dispatch_of ops) = slt
    | None \<Rightarrow>
        (\<exists>u t. glob_spec ops u = Some (t, getMatchedServlet fnmatch uri (dispatch_of ops)) \<and> matches u
           \<and> (\<forall>u' t' slt'. glob_spec ops u' = Some (t', slt') \<and> matches u' \<longrightarrow> t \<le> t'))
        \<or> (\<forall>u. matches u \<longrightarrow> glob_spec ops u = None)
          \<and> getMatchedServlet fnmatch uri (dispatch_of ops) = default_spec ops"
proof (cases "exact_spec ops uri")
  case (Some slt)
  then show ?thesis by (simp add: getMatchedServlet_def dispatch_datas)
next
  case None
  let ?globs = "m_globs (dispatch_of ops)"
  note inv = dispatch_globs [of ops, unfolded globs_inv_def]
  show ?thesis
  proof (cases "find_glob matches ?globs")
    case none: None
    then have "glob_spec ops u = None" if "matches u" for u
      using inv that by (cases "glob_spec ops u") (auto simp: find_glob_None)
    moreover have "getMatchedServlet fnmatch uri (dispatch_of ops) = default_spec ops"
      using None none [unfolded matches_def [abs_def]] by (simp add: getMatchedServlet_def dispatch_datas dispatch_default)
    ultimately show ?thesis using None by simp
  next
    case (Some slt)
    have g: "getMatchedServlet fnmatch uri (dispatch_of ops) = slt"
      using None Some [unfolded matches_def [abs_def]] by (simp add: getMatchedServlet_def dispatch_datas)
    obtain u where u: "(u, slt) \<in> set ?globs" "matches u"
      "\<forall>(u', slt') \<in> set ?globs. matches u' \<longrightarrow> fst (the (glob_spec ops u)) \<le> fst (the (glob_spec ops u'))"
      using find_glob_Some [OF Some, of "\<lambda>u. fst (the (glob_spec ops u))"] inv by blast
    obtain t where t: "glob_spec ops u = Some (t, slt)" using u(1) inv by blast
    have "t \<le> t'" if "glob_spec ops u' = Some (t', slt')" "matches u'" for u' t' slt'
    proof -
      have "(u', slt') \<in> set ?globs" using that(1) inv by blast
      then show ?thesis using u(3) that t by fastforce
    qed
    then have "\<exists>u t. glob_spec ops u = Some (t, slt) \<and> matches u
        \<and> (\<forall>u' t' slt'. glob_spec ops u' = Some (t', slt') \<and> matches u' \<longrightarrow> t \<le> t')"
      using t u(2) by blast
    then show ?thesis using None unfolding g by (simp only: option.case) blast
  qed
qed

text \<open>
  For the witness, patterns whose only special character is the star. The pattern added first takes the path
  although one added later matches too.
\<close>

fun star_match :: "str \<Rightarrow> str \<Rightarrow> bool" where
  "star_match [] s \<longleftrightarrow> s = []"
| "star_match (p # ps) s \<longleftrightarrow>
     (if p = 42 then list_ex (star_match ps) (map (\<lambda>k. drop k s) [0..<length s + 1])
      else s \<noteq> [] \<and> hd s = p \<and> star_match ps (tl s))"

definition star_fnmatch :: "str \<Rightarrow> str \<Rightarrow> int" where
  "star_fnmatch p s = (if star_match p s then 0 else 1)"

definition two_globs :: "nat dispatch_op list" where
  "two_globs = [AddGlob (chars ''*'') None, AddServlet (chars ''/b'') None, AddGlob (chars ''/a*'') (Some NotFoundServlet)]"

theorem matched_by_registration_witness:
  "getMatchedServlet star_fnmatch (chars ''/ab'') (dispatch_of two_globs) = Some NotFoundServlet"
proof -
  have m: "star_fnmatch (c_str (chars ''/a*'')) (c_str (chars ''/ab'')) = 0"
    by (simp add: star_fnmatch_def c_str_def upt_rec)
  have g: "glob_spec two_globs u = (if u = chars ''*'' then Some (2, None)
      else if u = chars ''/a*'' then Some (0, Some NotFoundServlet) else None)" for u
    by (auto simp: two_globs_def)
  have e: "exact_spec two_globs (chars ''/ab'') = None" by (simp add: two_globs_def)
  have ne: "chars ''/a*'' \<noteq> chars ''*''" by simp
  from matched_by_registration [where ops = two_globs and uri = "chars ''/ab''" and fnmatch = star_fnmatch, unfolded e option.case]
  consider (first) u t where "glob_spec two_globs u = Some (t, getMatchedServlet star_fnmatch (chars ''/ab'') (dispatch_of two_globs))"
      "\<forall>u' t' slt'. glob_spec two_globs u' = Some (t', slt') \<and> star_fnmatch (c_str u') (c_str (chars ''/ab'')) = 0 \<longrightarrow> t \<le> t'"
    | (none) "glob_spec two_globs (chars ''/a*'') = None"
    using m by (elim disjE exE conjE) simp_all
  then show ?thesis
  proof cases
    case first
    have "t \<le> 0" using first(2) m g [of "chars ''/a*''"] ne by (auto simp del: chars_simps)
    then show ?thesis using first(1) g [of u] by (auto split: if_splits simp del: chars_simps)
  next
    case none
    then show ?thesis using g [of "chars ''/a*''"] ne by (simp del: chars_simps)
  qed
qed

end
