(* ===== verification/HttpServer.thy ===== *)
theory HttpServer
  imports HttpRoundTrip Servlet
begin

text \<open>
  \<^verbatim>\<open>server/http/http_server.cc\<close>: the requests of a client answered one after the other, by the servlets of the
  server, until one of the two does not want the connection kept open.
\<close>

section \<open>The loop\<close>



section \<open>Requests that arrive whole\<close>







section \<open>A conversation\<close>







section \<open>Claims\<close>











end
