(* ===== verification/StreamBytes.thy ===== *)
theory StreamBytes
  imports SocketStream
begin

text \<open>
  Fixed-size transfers between the stream of a socket and a \<open>ByteArray\<close>: what the calls on a \<open>ByteArray\<close> do to
  the array and to the connection makes them instances of the contract of the loops.
\<close>

section \<open>Receiving into an array\<close>

lemma as_bytes_as_chars [simp]: "as_bytes (as_chars us) = us"
  by (simp add: as_bytes_def as_chars_def comp_def)

lemma length_as_bytes [simp]: "length (as_bytes bs) = length bs"
  by (simp add: as_bytes_def)

lemma length_as_chars [simp]: "length (as_chars us) = length us"
  by (simp add: as_chars_def)

lemma as_bytes_append [simp]: "as_bytes (xs @ ys) = as_bytes xs @ as_bytes ys"
  by (simp add: as_bytes_def)

lemma as_chars_append [simp]: "as_chars (xs @ ys) = as_chars xs @ as_chars ys"
  by (simp add: as_chars_def)

lemma as_chars_Nil [simp]: "as_chars [] = []"
  by (simp add: as_chars_def)

lemma as_bytes_Nil [simp]: "as_bytes [] = []"
  by (simp add: as_bytes_def)

lemma concat_as_chars: "concat (map (\<lambda>x. as_chars (f x)) xs) = as_chars (concat (map f xs))"
  by (induction xs) simp_all

text \<open>The bytes \<open>bs\<close> went from the connection into the array, behind its position.\<close>

definition got :: "(int \<Rightarrow> 'k \<Rightarrow> str) \<Rightarrow> (ba_error + bytearray) \<times> 'k ss \<Rightarrow> str \<Rightarrow> (ba_error + bytearray) \<times> 'k ss \<Rightarrow> bool" where
  "got arriving t bs t1 \<longleftrightarrow> (case (fst t, fst t1) of
     (Inr b, Inr b1) \<Rightarrow> ba_content b1 = overwrite (ba_content b) (m_position b) (as_bytes bs)
       \<and> m_position b1 = m_position b + length bs \<and> m_baseSize b1 = m_baseSize b
       \<and> ss_pending arriving (snd t) = bs @ ss_pending arriving (snd t1)
   | _ \<Rightarrow> False)"

definition whole :: "(ba_error + bytearray) \<times> 'k ss \<Rightarrow> bool" where
  "whole t \<longleftrightarrow> (case fst t of Inl e \<Rightarrow> False | Inr b \<Rightarrow> ba_inv b)"

lemma wholeE: "whole t \<Longrightarrow> (\<And>b s. t = (Inr b, s) \<Longrightarrow> ba_inv b \<Longrightarrow> thesis) \<Longrightarrow> thesis"
  by (cases t) (auto simp: whole_def split: sum.splits)

lemma getWriteBuffers_keeps:
  assumes "ba_inv b"
  shows "\<exists>vs. getWriteBuffers n b = (Inr (n, vs), addCapacity n b) \<and> sum_list (map iov_len vs) = n
    \<and> ba_inv (addCapacity n b) \<and> ba_content (addCapacity n b) = ba_content b"
proof -
  from getWriteBuffers_spec [OF assms, of n]
  obtain vs where "getWriteBuffers n b = (Inr (n, vs), addCapacity n b)" "sum_list (map iov_len vs) = n" by blast
  moreover note add = addCapacity_inv [OF assms, of n]
  obtain junk where junk: "ba_data (addCapacity n b) = ba_data b @ junk" using add(2) by blast
  have "m_size b \<le> length (ba_data b)" using assms ba_invD(7) [OF assms] by simp
  then have "ba_content (addCapacity n b) = ba_content b" using junk by (simp add: ba_content_def)
  ultimately show ?thesis using add(1) by blast
qed

text \<open>How many buffers the next \<open>n\<close> bytes take: one for each block they touch.\<close>

lemma iov_loop_count:
  "iov_loop len npos ncap i root = Inr vs \<Longrightarrow> 0 < len \<Longrightarrow> \<forall>x \<in> set root. length x = base \<Longrightarrow> 0 < base
    \<Longrightarrow> base * length vs < len + 2 * base \<and> (ncap = base \<longrightarrow> base * length vs < len + base)"
proof (induction len npos ncap i root arbitrary: vs rule: iov_loop.induct)
  case (1 len npos ncap i root)
  show ?case
  proof (cases "len \<le> ncap")
    case True
    then have "length vs = 1" using "1.prems"(1,2) by (subst (asm) iov_loop.simps) auto
    then show ?thesis using "1.prems"(2,4) by simp
  next
    case False
    then obtain j ws where j: "next_node root i = Some j" "iov_loop (len - ncap) 0 (length (root ! j)) j root = Inr ws"
      "length vs = Suc (length ws)"
      using "1.prems"(1,2) by (subst (asm) iov_loop.simps) (auto split: option.splits sum.splits)
    have "length (root ! j) = base" using j(1) "1.prems"(3) by (auto simp: next_node_def split: if_splits)
    then have "base * length ws < len - ncap + base"
      using "1.IH" [OF _ _ j(1) j(2)] "1.prems"(2-4) False by auto
    then show ?thesis using False j(3) by auto
  qed
qed

lemma getWriteBuffers_count:
  assumes "ba_inv b" "getWriteBuffers n b = (Inr (n, vs), addCapacity n b)" "n \<le> 1023 * m_baseSize b"
  shows "length vs \<le> IOV_MAX"
proof (cases "n = 0")
  case True
  then show ?thesis using assms(2) by (simp add: getWriteBuffers_def)
next
  case False
  let ?b = "addCapacity n b"
  have inv: "ba_inv ?b" "m_baseSize ?b = m_baseSize b" using addCapacity_inv(1) [OF assms(1), of n] by simp_all
  have blk: "\<forall>x \<in> set (m_root ?b). length x = m_baseSize b" and base: "0 < m_baseSize b"
    using ba_invD [OF inv(1)] inv(2) by auto
  have "iov_loop n (m_position b mod m_baseSize b) (m_baseSize b - m_position b mod m_baseSize b)
      (m_position b div m_baseSize b) (m_root ?b) = Inr vs"
    using getWriteBuffers_spec [OF assms(1), of n] assms(2) False by auto
  from iov_loop_count [OF this _ blk base] False
  have "m_baseSize b * length vs < n + 2 * m_baseSize b" by simp
  also have "\<dots> \<le> m_baseSize b * 1025" using assms(3) by simp
  finally show ?thesis using base by (simp add: IOV_MAX_def)
qed

context kernel_in
begin

lemma read_ba_disconnected:
  "\<not> ss_isConnected s \<Longrightarrow> ss_read_ba os n (Inr b, s) = (- 1, Inr b, s)"
  by (simp add: ss_read_ba_def)

lemma read_ba_connected:
  assumes "ba_inv b" "m_isConnected so" "0 < n" "os_recv os (m_sock so) n 0 k = (len, bs, k1)"
    "getWriteBuffers n b = (Inr (n, vs), addCapacity n b)" "length vs \<le> IOV_MAX"
  shows "if 0 < len
    then \<exists>b1. ss_read_ba os n (Inr b, Some so, k) = (len, Inr b1, Some so, k1) \<and> fill_iovecs n (as_bytes bs) b = (Inr (), b1)
    else ss_read_ba os n (Inr b, Some so, k) = (len, Inr (addCapacity n b), Some so, k1)"
proof -
  have vs: "getWriteBuffers n b = (Inr (n, vs), addCapacity n b)" "sum_list (map iov_len vs) = n"
    using getWriteBuffers_keeps [OF assms(1), of n] assms(5) by auto
  have len: "int32 len = len"
    using recv_some [OF assms(4,3)] recv_none [OF assms(4,3)] by (cases "0 < len") (auto simp: int32_small)
  have "sock_recvmsg os (map iov_len vs) 0 (so, k) = ((len, bs), so, k1)"
    using assms(2,4,6) len vs(2) by (simp add: sock_recvmsg_def recvmsg_sum)
  moreover have "length bs \<le> n \<and> nat len = length bs" if "0 < len" using recv_some [OF assms(4,3) that] by auto
  ultimately show ?thesis
    using assms(2) vs(1) fill_iovecs_spec [OF assms(1), of "as_bytes bs" n] assms(3)
    by (auto simp: ss_read_ba_def ss_isConnected_def fill_iovecs_def sx_bind_def)
qed

lemma read_ba_many:
  assumes "ba_inv b" "m_isConnected so" "getWriteBuffers n b = (Inr (n, vs), addCapacity n b)" "IOV_MAX < length vs"
  shows "\<exists>k1. ss_read_ba os n (Inr b, Some so, k) = (- 1, Inr (addCapacity n b), Some so, k1)
    \<and> arriving (m_sock so) k1 = arriving (m_sock so) k"
proof -
  obtain len bs k1 where r: "os_recvmsg os (m_sock so) (map iov_len vs) None 0 k = (len, bs, k1)" by (metis prod_cases3)
  from recvmsg_many [OF _ r] assms(4) have "len = - 1" "arriving (m_sock so) k1 = arriving (m_sock so) k" by simp_all
  then show ?thesis
    using assms r by (simp add: ss_read_ba_def ss_isConnected_def sock_recvmsg_def int32_small)
qed

lemma read_ba_moves:
  assumes c: "ss_read_ba os n t = (len, t1)" "whole t" "0 < n"
  shows "0 < len \<Longrightarrow> whole t1 \<and> (\<exists>bs. got arriving t bs t1 \<and> int (length bs) = len \<and> len \<le> int n)"
    and "len \<le> 0 \<Longrightarrow> - (2 ^ 31) \<le> len \<and> whole t1 \<and> got arriving t [] t1"
proof -
  from c(2) obtain b s where t: "t = (Inr b, s)" "ba_inv b" by (rule wholeE)
  have "(0 < len \<longrightarrow> whole t1 \<and> (\<exists>bs. got arriving t bs t1 \<and> int (length bs) = len \<and> len \<le> int n))
    \<and> (len \<le> 0 \<longrightarrow> - (2 ^ 31) \<le> len \<and> whole t1 \<and> got arriving t [] t1)"
  proof (cases "ss_isConnected s")
    case False
    then show ?thesis using c(1) t by (auto simp: read_ba_disconnected whole_def got_def)
  next
    case True
    then obtain so k where s: "s = (Some so, k)" "m_isConnected so"
      by (cases s) (auto simp: ss_isConnected_def split: option.splits)
    obtain len' bs k1 where rv: "os_recv os (m_sock so) n 0 k = (len', bs, k1)" by (cases "os_recv os (m_sock so) n 0 k")
    obtain vs where vs: "getWriteBuffers n b = (Inr (n, vs), addCapacity n b)" "ba_inv (addCapacity n b)"
      "ba_content (addCapacity n b) = ba_content b" using getWriteBuffers_keeps [OF t(2), of n] by blast
    note step = read_ba_connected [OF t(2) s(2) c(3) rv vs(1)]
    have pend: "ss_pending arriving (Some so, k') = arriving (m_sock so) k'" for k'
      using s(2) by (simp add: ss_pending_def ss_isConnected_def)
    consider (many) "IOV_MAX < length vs" | (some) "length vs \<le> IOV_MAX" "0 < len'" | (none) "length vs \<le> IOV_MAX" "len' \<le> 0"
      by linarith
    then show ?thesis
    proof cases
      case many
      from read_ba_many [OF t(2) s(2) vs(1) this, of k] show ?thesis
        using c(1) t s pend vs(2,3) by (auto simp: whole_def got_def)
    next
      case some
      then obtain b1 where b1: "len = len'" "t1 = (Inr b1, Some so, k1)" "fill_iovecs n (as_bytes bs) b = (Inr (), b1)"
        using step c(1) t s by auto
      have bs: "int (length bs) = len" "len \<le> int n" "arriving (m_sock so) k = bs @ arriving (m_sock so) k1"
        using recv_some [OF rv c(3) some(2)] b1(1) by auto
      have fill: "ba_inv b1 \<and> ba_content b1 = overwrite (ba_content b) (m_position b) (as_bytes bs)
          \<and> m_position b1 = m_position b + length bs \<and> m_baseSize b1 = m_baseSize b"
        using fill_iovecs_spec [OF t(2), of "as_bytes bs" n] b1(3) bs c(3) by auto
      show ?thesis using fill some b1 bs t s pend by (auto simp: whole_def got_def intro!: exI [of _ bs])
    next
      case none
      then show ?thesis
        using step c t s pend recv_none [OF rv c(3)] vs(2,3) by (auto simp: whole_def got_def)
    qed
  qed
  then show "0 < len \<Longrightarrow> whole t1 \<and> (\<exists>bs. got arriving t bs t1 \<and> int (length bs) = len \<and> len \<le> int n)"
    and "len \<le> 0 \<Longrightarrow> - (2 ^ 31) \<le> len \<and> whole t1 \<and> got arriving t [] t1" by blast+
qed

end

lemma got_Nil: "whole t \<Longrightarrow> got arriving t [] t"
  by (auto simp: got_def elim!: wholeE)

lemma got_append: "whole t \<Longrightarrow> got arriving t xs t1 \<Longrightarrow> got arriving t1 ys t2 \<Longrightarrow> got arriving t (xs @ ys) t2"
proof (elim wholeE)
  fix b s
  assume "t = (Inr b, s)" "ba_inv b" "got arriving t xs t1" "got arriving t1 ys t2"
  then show "got arriving t (xs @ ys) t2"
    using overwrite_overwrite_inside [of "m_position b" "ba_content b" "as_bytes xs" "as_bytes ys"] ba_invD(6) [of b]
    by (auto simp: got_def split: sum.splits)
qed

sublocale kernel_in \<subseteq> into: transfer "ss_read_ba os" "got arriving" whole
  by unfold_locales (fact got_Nil, fact got_append, (blast dest: read_ba_moves)+)

text \<open>What can be received without fail: bytes there are, in so many buffers as one call takes.\<close>

definition ba_ready :: "(int \<Rightarrow> 'k \<Rightarrow> str) \<Rightarrow> (ba_error + bytearray) \<times> 'k ss \<Rightarrow> nat" where
  "ba_ready arriving t = (case fst t of Inl e \<Rightarrow> 0
     | Inr b \<Rightarrow> min (length (ss_pending arriving (snd t))) (1023 * m_baseSize b))"

lemma ba_ready_less: "whole t \<Longrightarrow> got arriving t bs t1 \<Longrightarrow> ba_ready arriving t \<le> length bs + ba_ready arriving t1"
  by (auto simp: got_def ba_ready_def split: sum.splits)

context live_kernel
begin

lemma read_ba_live:
  assumes "ss_read_ba os n t = (len, t1)" "whole t" "0 < n" "n \<le> ba_ready arriving t"
  shows "0 < len"
proof -
  from assms(2) obtain b s where t: "t = (Inr b, s)" "ba_inv b" by (rule wholeE)
  have "ss_pending arriving s \<noteq> []" "n \<le> 1023 * m_baseSize b" using assms(3,4) t(1) by (auto simp: ba_ready_def)
  then obtain so k where s: "s = (Some so, k)" "m_isConnected so" "arriving (m_sock so) k \<noteq> []"
    by (cases s) (auto simp: ss_pending_def ss_isConnected_def split: if_splits option.splits)
  obtain vs where vs: "getWriteBuffers n b = (Inr (n, vs), addCapacity n b)" using getWriteBuffers_keeps [OF t(2), of n] by blast
  have few: "length vs \<le> IOV_MAX" by (rule getWriteBuffers_count [OF t(2) vs \<open>n \<le> 1023 * m_baseSize b\<close>])
  obtain len' bs k1 where rv: "os_recv os (m_sock so) n 0 k = (len', bs, k1)" by (cases "os_recv os (m_sock so) n 0 k")
  show ?thesis
    using read_ba_connected [OF t(2) s(2) assms(3) rv vs few] recv_live [OF assms(3) s(3) rv] assms(1) t(1) s(1) by auto
qed

end

sublocale live_kernel \<subseteq> into: live_transfer "ss_read_ba os" "got arriving" whole "ba_ready arriving"
  by unfold_locales (fact read_ba_live, fact ba_ready_less)

section \<open>Sending from an array\<close>

text \<open>The bytes \<open>bs\<close> were taken behind the position of the array and sent.\<close>

definition put_out :: "(int \<Rightarrow> 'k \<Rightarrow> str) \<Rightarrow> (ba_error + bytearray) \<times> 'k ss \<Rightarrow> str \<Rightarrow> (ba_error + bytearray) \<times> 'k ss \<Rightarrow> bool" where
  "put_out gone t bs t1 \<longleftrightarrow> (case (fst t, fst t1) of
     (Inr b, Inr b1) \<Rightarrow> bs = as_chars (take (length bs) (drop (m_position b) (ba_content b)))
       \<and> ba_content b1 = ba_content b \<and> m_position b1 = m_position b + length bs
       \<and> ss_sent gone (snd t1) = ss_sent gone (snd t) @ bs
   | _ \<Rightarrow> False)"

lemma put_out_Nil: "whole t \<Longrightarrow> put_out gone t [] t"
  by (auto simp: put_out_def elim!: wholeE)

lemma put_out_append: "put_out gone t xs t1 \<Longrightarrow> put_out gone t1 ys t2 \<Longrightarrow> put_out gone t (xs @ ys) t2"
  by (auto simp: put_out_def take_add add.commute split: sum.splits)

context kernel_out
begin

lemma write_ba_connected:
  assumes "ba_inv b" "m_isConnected so"
    "os_send os (m_sock so) (as_chars (take n (drop (m_position b) (ba_content b)))) 0 k = (len, k1)"
    "getReadBuffers n b = Inr (sz, vs)" "length vs \<le> IOV_MAX"
  shows "ss_write_ba os n (Inr b, Some so, k) = (len, Inr (if 0 < len then
      b\<lparr>m_position := m_position b + nat len,
        m_cur := cur_of (m_baseSize b) (length (m_root b)) (m_position b + nat len)\<rparr> else b), Some so, k1)"
    "0 < len \<Longrightarrow> m_position b + nat len \<le> m_size b"
proof -
  have vs: "getReadBuffers n b = Inr (sz, vs)"
    "concat (map (iov_bytes (m_root b)) vs) = take n (drop (m_position b) (ba_content b))"
    using getReadBuffers_spec [OF assms(1), of n] assms(4) by auto
  note inv = ba_invD [OF assms(1)]
  have len: "int32 len = len"
    using send_some [OF assms(3)] send_none [OF assms(3)] by (cases "0 < len") (auto simp: int32_small)
  have "sock_sendmsg os (map (\<lambda>v. as_chars (iov_bytes (m_root b) v)) vs) 0 (so, k) = (len, so, k1)"
    using assms(2,3,5) len vs(2) by (simp add: sock_sendmsg_def sendmsg_sum concat_as_chars)
  moreover show fit: "m_position b + nat len \<le> m_size b" if "0 < len"
    using send_some [OF assms(3) that] that assms(1) inv(6) by auto
  moreover have "setPosition (m_position b + nat len) b = (Inr (), b\<lparr>m_position := m_position b + nat len,
      m_cur := cur_of (m_baseSize b) (length (m_root b)) (m_position b + nat len)\<rparr>)" if "0 < len"
    using setPosition_spec [OF assms(1), of "m_position b + nat len"] fit [OF that] inv(7) by (simp add: max_absorb1)
  ultimately show "ss_write_ba os n (Inr b, Some so, k) = (len, Inr (if 0 < len then
      b\<lparr>m_position := m_position b + nat len,
        m_cur := cur_of (m_baseSize b) (length (m_root b)) (m_position b + nat len)\<rparr> else b), Some so, k1)"
    using assms(2) vs(1) by (simp add: ss_write_ba_def ss_isConnected_def)
qed

lemma write_ba_many:
  assumes "m_isConnected so" "getReadBuffers n b = Inr (sz, vs)" "IOV_MAX < length vs"
  shows "\<exists>k1. ss_write_ba os n (Inr b, Some so, k) = (- 1, Inr b, Some so, k1) \<and> gone (m_sock so) k1 = gone (m_sock so) k"
proof -
  let ?bss = "map (\<lambda>v. as_chars (iov_bytes (m_root b) v)) vs"
  obtain len k1 where r: "os_sendmsg os (m_sock so) ?bss None 0 k = (len, k1)" by fastforce
  from sendmsg_many [OF _ r] assms(3) have "len = - 1" "gone (m_sock so) k1 = gone (m_sock so) k" by simp_all
  then show ?thesis using assms r by (simp add: ss_write_ba_def ss_isConnected_def sock_sendmsg_def int32_small)
qed

lemma write_ba_moves:
  assumes c: "ss_write_ba os n t = (len, t1)" "whole t" "0 < n"
  shows "0 < len \<Longrightarrow> whole t1 \<and> (\<exists>bs. put_out gone t bs t1 \<and> int (length bs) = len \<and> len \<le> int n)"
    and "len \<le> 0 \<Longrightarrow> - (2 ^ 31) \<le> len \<and> whole t1 \<and> put_out gone t [] t1"
proof -
  from c(2) obtain b s where t: "t = (Inr b, s)" "ba_inv b" by (rule wholeE)
  have "(0 < len \<longrightarrow> whole t1 \<and> (\<exists>bs. put_out gone t bs t1 \<and> int (length bs) = len \<and> len \<le> int n))
    \<and> (len \<le> 0 \<longrightarrow> - (2 ^ 31) \<le> len \<and> whole t1 \<and> put_out gone t [] t1)"
  proof (cases "ss_isConnected s")
    case False
    then show ?thesis using c(1,2) t by (auto simp: ss_write_ba_def put_out_Nil)
  next
    case True
    then obtain so k where s: "s = (Some so, k)" "m_isConnected so"
      by (cases s) (auto simp: ss_isConnected_def split: option.splits)
    define us where "us = take n (drop (m_position b) (ba_content b))"
    obtain len' k1 where sd: "os_send os (m_sock so) (as_chars us) 0 k = (len', k1)" by fastforce
    obtain sz vs where vs: "getReadBuffers n b = Inr (sz, vs)" using getReadBuffers_spec [OF t(2), of n] by blast
    have sent: "ss_sent gone (Some so, k') = gone (m_sock so) k'" for k'
      using s(2) by (simp add: ss_sent_def ss_isConnected_def)
    show ?thesis
    proof (cases "length vs \<le> IOV_MAX")
      case False
      then have many: "IOV_MAX < length vs" by simp
      from write_ba_many [OF s(2) vs this, of k] show ?thesis
        using c(1) t s sent by (auto simp: whole_def put_out_def)
    next
    case few: True
    note step = write_ba_connected [OF t(2) s(2) sd [unfolded us_def] vs few]
    have len: "len = len'" using step(1) c(1) t s by simp
    show ?thesis
    proof (cases "0 < len'")
      case True
      define b1 where "b1 = b\<lparr>m_position := m_position b + nat len',
        m_cur := cur_of (m_baseSize b) (length (m_root b)) (m_position b + nat len')\<rparr>"
      have t1: "t1 = (Inr b1, Some so, k1)" using step(1) c(1) t s True len by (auto simp: b1_def)
      have "m_position b + nat len' \<le> m_capacity b" using step(2) [OF True] ba_invD(7) [OF t(2)] by simp
      from setPosition_inv [OF t(2) this] step(2) [OF True]
      have b1: "ba_inv b1" "ba_content b1 = ba_content b" "m_position b1 = m_position b + nat len'"
        by (simp_all add: b1_def max_absorb1 ba_content_def ba_data_def)
      have le: "len' \<le> int (length us)" "gone (m_sock so) k1 = gone (m_sock so) k @ as_chars (take (nat len') us)"
        using send_some [OF sd True] by (auto simp: as_chars_def take_map)
      moreover have "length us \<le> n" by (simp add: us_def)
      moreover have "take (nat len') us = take (nat len') (drop (m_position b) (ba_content b))"
        using le(1) True by (simp add: us_def min_absorb1 min_absorb2)
      moreover have "min (m_size b - m_position b) (nat len') = nat len'" using step(2) [OF True] by simp
      ultimately show ?thesis
        using b1 t t1 s sent True len by (auto simp: whole_def put_out_def intro!: exI [of _ "as_chars (take (nat len') us)"])
    next
      case False
      then show ?thesis using step c t s sent send_none [OF sd] by (auto simp: whole_def put_out_def)
    qed
    qed
  qed
  then show "0 < len \<Longrightarrow> whole t1 \<and> (\<exists>bs. put_out gone t bs t1 \<and> int (length bs) = len \<and> len \<le> int n)"
    and "len \<le> 0 \<Longrightarrow> - (2 ^ 31) \<le> len \<and> whole t1 \<and> put_out gone t [] t1" by blast+
qed

end

sublocale kernel_out \<subseteq> out: transfer "ss_write_ba os" "put_out gone" whole
  by unfold_locales (fact put_out_Nil, blast intro: put_out_append, (blast dest: write_ba_moves)+)

section \<open>The fixed sizes\<close>

lemma SocketStream_ba [simp]: "st_read_ba (SocketStream os) = ss_read_ba os" "st_write_ba (SocketStream os) = ss_write_ba os"
  by (simp_all add: SocketStream_def)

context kernel_out
begin

lemma writeFixSize_ba_moves:
  assumes "writeFixSize_ba (SocketStream os) n (Inr a, t) = (v, x, t1)" "ba_inv a" "n < 2 ^ 31"
  shows "\<exists>a1 bs. x = Inr a1 \<and> ba_inv a1 \<and> ba_content a1 = ba_content a \<and> m_position a1 = m_position a + length bs
    \<and> bs = take (length bs) (drop (m_position a) (ba_content a)) \<and> ss_sent gone t1 = ss_sent gone t @ as_chars bs
    \<and> (v = int n \<and> length bs = n \<or> v \<le> 0 \<and> length bs < n)"
proof -
  obtain r where r: "fix_loop (ss_write_ba os) (int64 (int n)) (Inr a, t) = (r, x, t1)" "v = fix_result n r"
    using assms(1) by (auto simp: writeFixSize_ba_def split: prod.splits)
  have "whole (Inr a, t)" using assms(2) by (simp add: whole_def)
  note m = out.fix_moves [OF r(1) this assms(3)]
  obtain bs where bs: "put_out gone (Inr a, t) bs (x, t1)" "case r of None \<Rightarrow> v = int n \<and> length bs = n
      | Some len \<Rightarrow> v \<le> 0 \<and> length bs < n"
    using m(2) r(2) by blast
  define us where "us = take (length bs) (drop (m_position a) (ba_content a))"
  from m(1) obtain a1 where x: "x = Inr a1" "ba_inv a1" by (rule wholeE) simp
  from bs(1)[unfolded put_out_def x] have a1: "ba_content a1 = ba_content a" "m_position a1 = m_position a + length bs"
      "bs = as_chars us" "ss_sent gone t1 = ss_sent gone t @ bs"
    by (simp_all only: us_def fst_conv snd_conv prod.case sum.case)
  have len: "length us = length bs" using arg_cong [OF a1(3), of length] by simp
  have "us = take (length us) (drop (m_position a) (ba_content a))" unfolding len by (rule us_def)
  moreover have "v = int n \<and> length us = n \<or> v \<le> 0 \<and> length us < n" using bs(2) len by (cases r) simp_all
  ultimately show ?thesis using x a1(1) a1(2) [folded len] a1(4) [unfolded a1(3)] by blast
qed

end

context live_kernel
begin

lemma readFixSize_ba_live:
  assumes "n \<le> length (ss_pending arriving u)" "ba_inv c" "n < 2 ^ 31" "n \<le> 1023 * m_baseSize c"
  shows "\<exists>c1 u1. readFixSize_ba (SocketStream os) n (Inr c, u) = (int n, Inr c1, u1) \<and> ba_inv c1
    \<and> ba_content c1 = overwrite (ba_content c) (m_position c) (as_bytes (take n (ss_pending arriving u)))
    \<and> m_position c1 = m_position c + n \<and> ss_pending arriving u1 = drop n (ss_pending arriving u)"
proof -
  obtain r x u1 where r: "fix_loop (ss_read_ba os) (int64 (int n)) (Inr c, u) = (r, x, u1)"
    by (cases "fix_loop (ss_read_ba os) (int64 (int n)) (Inr c, u)")
  have w: "whole (Inr c, u)" using assms(2) by (simp add: whole_def)
  have "r = None" using into.loop_live [OF r w] assms(1,3,4) by (simp add: int64_small ba_ready_def)
  with into.fix_moves [OF r w assms(3)] obtain bs where bs: "whole (x, u1)" "got arriving (Inr c, u) bs (x, u1)"
      "fix_result n r = int n" "length bs = n" by auto
  from bs(1,2) obtain c1 where x: "x = Inr c1" "ba_inv c1"
      "ba_content c1 = overwrite (ba_content c) (m_position c) (as_bytes bs)" "m_position c1 = m_position c + length bs"
      "ss_pending arriving u = bs @ ss_pending arriving u1"
    by (auto simp: got_def whole_def split: sum.splits)
  show ?thesis
    using x bs(3,4) r by (auto simp: readFixSize_ba_def)
qed

end

end
