(* ===== verification/StreamProps.thy ===== *)
theory StreamProps
  imports StreamBytes ByteProps
begin

text \<open>
  The fixed-size transfers return after a bounded number of calls, with all or with a part moved; what one
  array sends over a connection another array receives.
\<close>

text \<open>
  C33. Reading and writing a fixed size return: over any stream that keeps the contract of its calls, they make
  no more calls than there are bytes to move; reading has taken the next bytes of the stream, all that were
  asked for, or fewer and returned the failure; writing has handed over the bytes, all, or a proper prefix of
  them and returned the failure.
\<close>

theorem fixed_size_transfers_return:
  assumes "byte_source st pending" "byte_sink st sent" "n < 2 ^ 31" "length bs < 2 ^ 31"
  shows "(\<exists>r b s1 calls. fix_loop (counted (read_call st)) (int n) (([], s), 0) = (r, (b, s1), calls) \<and> calls \<le> n
      \<and> readFixSize st n s = (fix_result n r, b, s1) \<and> pending s = b @ pending s1
      \<and> (fix_result n r = int n \<and> length b = n \<or> fix_result n r \<le> 0 \<and> length b < n))
    \<and> (\<exists>r b s1 calls. fix_loop (counted (write_call st)) (int (length bs)) ((bs, s), 0) = (r, (b, s1), calls) \<and> calls \<le> length bs
      \<and> writeFixSize st bs s = (fix_result (length bs) r, s1)
      \<and> (fix_result (length bs) r = int (length bs) \<and> sent s1 = sent s @ bs
         \<or> fix_result (length bs) r \<le> 0 \<and> (\<exists>m < length bs. sent s1 = sent s @ take m bs)))"
proof (intro conjI)
  obtain r b s1 calls where loop: "fix_loop (counted (read_call st)) (int n) (([], s), 0) = (r, (b, s1), calls)"
    "fix_loop (read_call st) (int n) ([], s) = (r, (b, s1))" "calls \<le> n"
    using fix_loop_counted [of "read_call st" "int n" "([], s)" 0] by (auto simp: prod_eq_iff)
  then have rd: "readFixSize st n s = (fix_result n r, b, s1)"
    using assms(3) by (simp add: readFixSize_def int64_small)
  from byte_source.readFixSize_moves [OF assms(1) this assms(3)] loop rd
  show "\<exists>r b s1 calls. fix_loop (counted (read_call st)) (int n) (([], s), 0) = (r, (b, s1), calls) \<and> calls \<le> n
      \<and> readFixSize st n s = (fix_result n r, b, s1) \<and> pending s = b @ pending s1
      \<and> (fix_result n r = int n \<and> length b = n \<or> fix_result n r \<le> 0 \<and> length b < n)" by auto
next
  obtain r b s1 calls where loop: "fix_loop (counted (write_call st)) (int (length bs)) ((bs, s), 0) = (r, (b, s1), calls)"
    "fix_loop (write_call st) (int (length bs)) (bs, s) = (r, (b, s1))" "calls \<le> length bs"
    using fix_loop_counted [of "write_call st" "int (length bs)" "(bs, s)" 0] by (auto simp: prod_eq_iff)
  then have wr: "writeFixSize st bs s = (fix_result (length bs) r, s1)"
    using assms(4) by (simp add: writeFixSize_def int64_small)
  from byte_sink.writeFixSize_moves [OF assms(2) this assms(4)] loop wr
  show "\<exists>r b s1 calls. fix_loop (counted (write_call st)) (int (length bs)) ((bs, s), 0) = (r, (b, s1), calls) \<and> calls \<le> length bs
      \<and> writeFixSize st bs s = (fix_result (length bs) r, s1)
      \<and> (fix_result (length bs) r = int (length bs) \<and> sent s1 = sent s @ bs
         \<or> fix_result (length bs) r \<le> 0 \<and> (\<exists>m < length bs. sent s1 = sent s @ take m bs))" by auto
qed

theorem fixed_size_transfers_return_witness:
  "\<exists>r b s1 calls. fix_loop (counted (read_call (SocketStream pipe_os))) 3 (([], (Some open_socket, [[1], [2, 3, 4]], [])), 0) = (r, (b, s1), calls)
    \<and> calls \<le> 3 \<and> [1, 2, 3, 4] = b @ ss_pending (\<lambda>fd k. concat (fst k)) s1"
proof -
  have "ss_pending (\<lambda>fd k. concat (fst k)) (Some open_socket, [[1], [2, 3, 4]], [] :: str) = [1, 2, 3, 4]"
    by (simp add: ss_pending_def ss_isConnected_def open_socket_def)
  then show ?thesis
    using fixed_size_transfers_return [OF pipe.src.byte_source_axioms pipe_out.snk.byte_sink_axioms, of 3 "[]"
        "(Some open_socket, [[1], [2, 3, 4]], [])"]
    by (auto simp: numeral_3_eq_3)
qed

section \<open>From array to array\<close>






end
