(* ===== verification/SocketProps.thy ===== *)
theory SocketProps
  imports SocketStream
begin

text \<open>
  What holds of every socket, whatever is done with it and whatever the system answers: its family and type
  never change, and a connected one has a descriptor.
\<close>

section \<open>The operations\<close>

datatype sock_op = SetOption int int so_value | GetOption int int | SetSendTimeout int | SetRecvTimeout int
  | GetRemoteAddress | GetLocalAddress | Close | Connect address u64 | Reconnect u64 | Bind address | Listen int
  | Send str int | SendMsg "str list" int | SendTo str address int | SendToMsg "str list" address int
  | Recv nat int | RecvMsg "nat list" int | RecvFrom nat address int | RecvFromMsg "nat list" address int
  | CancelRead | CancelWrite | CancelAccept | CancelAll | GetError

fun sock_apply :: "endian \<Rightarrow> 'k os \<Rightarrow> sock_op \<Rightarrow> socket \<times> 'k \<Rightarrow> socket \<times> 'k" where
  "sock_apply h os (SetOption l p v) t = snd (setOption os l p v t)"
| "sock_apply h os (GetOption l p) t = snd (getOption os l p t)"
| "sock_apply h os (SetSendTimeout v) t = snd (setSendTimeout os v t)"
| "sock_apply h os (SetRecvTimeout v) t = snd (setRecvTimeout os v t)"
| "sock_apply h os GetRemoteAddress t = snd (sock_getRemoteAddress h os t)"
| "sock_apply h os GetLocalAddress t = snd (sock_getLocalAddress h os t)"
| "sock_apply h os Close t = snd (sock_close os t)"
| "sock_apply h os (Connect a ms) t = snd (sock_connect h os a ms t)"
| "sock_apply h os (Reconnect ms) t = snd (sock_reconnect h os ms t)"
| "sock_apply h os (Bind a) t = snd (sock_bind h os a t)"
| "sock_apply h os (Listen n) t = snd (sock_listen os n t)"
| "sock_apply h os (Send bs fl) t = snd (sock_send os bs fl t)"
| "sock_apply h os (SendMsg bs fl) t = snd (sock_sendmsg os bs fl t)"
| "sock_apply h os (SendTo bs a fl) t = snd (sock_sendTo os bs a fl t)"
| "sock_apply h os (SendToMsg bs a fl) t = snd (sock_sendToMsg os bs a fl t)"
| "sock_apply h os (Recv n fl) t = snd (sock_recv os n fl t)"
| "sock_apply h os (RecvMsg ns fl) t = snd (sock_recvmsg os ns fl t)"
| "sock_apply h os (RecvFrom n a fl) t = snd (sock_recvFrom os n a fl t)"
| "sock_apply h os (RecvFromMsg ns a fl) t = snd (sock_recvFromMsg os ns a fl t)"
| "sock_apply h os CancelRead t = snd (sock_cancelRead os t)"
| "sock_apply h os CancelWrite t = snd (sock_cancelWrite os t)"
| "sock_apply h os CancelAccept t = snd (sock_cancelAccept os t)"
| "sock_apply h os CancelAll t = snd (sock_cancelAll os t)"
| "sock_apply h os GetError t = snd (getError os t)"

section \<open>What they keep\<close>

definition sock_wf :: "socket \<Rightarrow> bool" where
  "sock_wf s \<longleftrightarrow> (m_isConnected s \<longrightarrow> isValid s)"

definition same_kind :: "socket \<Rightarrow> socket \<Rightarrow> bool" where
  "same_kind s s' \<longleftrightarrow> m_family s' = m_family s \<and> m_type s' = m_type s \<and> m_protocol s' = m_protocol s"

text \<open>Most operations touch neither the descriptor nor the connection.\<close>

definition same_state :: "socket \<Rightarrow> socket \<Rightarrow> bool" where
  "same_state s s' \<longleftrightarrow> same_kind s s' \<and> m_sock s' = m_sock s \<and> m_isConnected s' = m_isConnected s"

lemma same_state_refl [simp]: "same_state s s" "same_kind s s"
  by (simp_all add: same_state_def same_kind_def)

lemma same_state_wf: "same_state s s' \<Longrightarrow> sock_wf s \<Longrightarrow> sock_wf s'"
  by (simp add: same_state_def sock_wf_def isValid_def)

lemma same_state_trans: "same_state s s' \<Longrightarrow> same_state s' s'' \<Longrightarrow> same_state s s''"
  by (simp add: same_state_def same_kind_def)

lemma options_same_state [simp]:
  "fst (snd (setOption os l p v t)) = fst t" "fst (snd (getOption os l p t)) = fst t" "fst (snd (initSock os t)) = fst t"
  "fst (snd (setSendTimeout os n t)) = fst t" "fst (snd (setRecvTimeout os n t)) = fst t" "fst (snd (getError os t)) = fst t"
  by (simp_all add: setOption_def getOption_def initSock_def setSendTimeout_def setRecvTimeout_def getError_def
      split: prod.splits)

lemma addresses_same_state:
  "same_state (fst t) (fst (snd (sock_getRemoteAddress h os t)))" "same_state (fst t) (fst (snd (sock_getLocalAddress h os t)))"
  by (cases t; auto simp: sock_getRemoteAddress_def sock_getLocalAddress_def same_state_def same_kind_def Let_def
      split: prod.splits option.splits)+

lemma transfers_same [simp]:
  "fst (snd (sock_listen os n t)) = fst t" "fst (snd (sock_send os bs fl t)) = fst t" "fst (snd (sock_sendmsg os bss fl t)) = fst t"
  "fst (snd (sock_sendTo os bs a fl t)) = fst t" "fst (snd (sock_sendToMsg os bss a fl t)) = fst t"
  "fst (snd (sock_recv os m fl t)) = fst t" "fst (snd (sock_recvmsg os ms fl t)) = fst t"
  "fst (snd (sock_recvFrom os m a fl t)) = fst t" "fst (snd (sock_recvFromMsg os ms a fl t)) = fst t"
  "fst (snd (sock_cancelRead os t)) = fst t" "fst (snd (sock_cancelWrite os t)) = fst t"
  "fst (snd (sock_cancelAccept os t)) = fst t" "fst (snd (sock_cancelAll os t)) = fst t"
  by (cases t; simp add: sock_listen_def sock_send_def sock_sendmsg_def sock_sendTo_def sock_sendToMsg_def sock_recv_def
      sock_recvmsg_def sock_recvFrom_def sock_recvFromMsg_def sock_cancelRead_def sock_cancelWrite_def sock_cancelAccept_def
      sock_cancelAll_def split: prod.split)+

lemma close_closed: "\<not> m_isConnected (fst (snd (sock_close os t))) \<and> m_sock (fst (snd (sock_close os t))) = - 1
    \<and> same_kind (fst t) (fst (snd (sock_close os t)))"
  by (cases t) (auto simp: sock_close_def Let_def same_kind_def split: prod.splits)

lemma newSock_keeps:
  "m_isConnected (fst (snd (newSock os t))) = m_isConnected (fst t) \<and> same_kind (fst t) (fst (snd (newSock os t)))
    \<and> m_localAddress (fst (snd (newSock os t))) = m_localAddress (fst t)"
  using options_same_state(3) [of os]
  by (cases t) (auto simp: newSock_def same_kind_def split: prod.splits)

text \<open>A socket that is not valid gets a descriptor, and only such a one.\<close>

definition opened :: "'k os \<Rightarrow> socket \<times> 'k \<Rightarrow> socket \<times> 'k" where
  "opened os t = (if \<not> isValid (fst t) then snd (newSock os t) else t)"

lemma opened_keeps: "sock_wf (fst t) \<Longrightarrow> sock_wf (fst (opened os t)) \<and> same_kind (fst t) (fst (opened os t))
    \<and> m_localAddress (fst (opened os t)) = m_localAddress (fst t)"
  using newSock_keeps [of os t] by (auto simp: opened_def sock_wf_def)

definition kept :: "socket \<Rightarrow> socket \<Rightarrow> bool" where
  "kept s s' \<longleftrightarrow> sock_wf s' \<and> same_kind s s'"

lemma kept_same_state: "sock_wf s \<Longrightarrow> same_state s s' \<Longrightarrow> kept s s'"
  by (simp add: kept_def same_state_wf) (simp add: same_state_def)

lemma kept_closed: "kept s (fst (snd (sock_close os (s, k))))"
  using close_closed [of os "(s, k)"] by (simp add: kept_def sock_wf_def)

lemma kept_trans: "kept s s' \<Longrightarrow> kept s' s'' \<Longrightarrow> kept s s''"
  by (simp add: kept_def same_kind_def)

lemma connect_keeps:
  assumes "sock_wf s"
  shows "kept s (fst (snd (sock_connect h os a ms (s, k))))"
    "fst (sock_connect h os a ms (s, k)) \<longrightarrow> m_isConnected (fst (snd (sock_connect h os a ms (s, k))))"
proof -
  let ?t = "(s\<lparr>m_remoteAddress := Some a\<rparr>, k)"
  have wf: "sock_wf (fst ?t)" "same_kind s (fst ?t)" using assms by (simp_all add: sock_wf_def isValid_def same_kind_def)
  obtain s2 k2 where o: "opened os ?t = (s2, k2)" by (cases "opened os ?t")
  have s2: "kept s s2" using opened_keeps [OF wf(1), of os] wf(2) o by (auto simp: kept_def same_kind_def)
  define c where "c k3 = sock_getRemoteAddress h os (s2\<lparr>m_isConnected := True\<rparr>, k3)" for k3
  define d where "d k3 = sock_getLocalAddress h os (snd (c k3))" for k3
  have d: "same_state (s2\<lparr>m_isConnected := True\<rparr>) (fst (snd (d k3)))" for k3
    using same_state_trans [OF addresses_same_state(1) addresses_same_state(2)] by (auto simp: c_def d_def)
  have eq: "sock_connect h os a ms (s, k) =
     (if \<not> isValid s2 then (False, s2, k2)
       else if int (getFamily h a) \<noteq> m_family s2 then (False, s2, k2)
       else case os_connect os (m_sock s2) a (if ms = - 1 then None else Some ms) k2 of (rt, k3) \<Rightarrow>
         if rt \<noteq> 0 then (False, snd (sock_close os (s2, k3))) else (True, snd (d k3)))"
    using o by (auto simp: sock_connect_def opened_def c_def d_def Let_def split: prod.split)
  have v: "kept s (fst (snd (d k3)))" "m_isConnected (fst (snd (d k3)))" if "isValid s2" for k3
  proof -
    have "sock_wf (s2\<lparr>m_isConnected := True\<rparr>)" using that by (simp add: sock_wf_def isValid_def)
    from kept_same_state [OF this d] show "kept s (fst (snd (d k3)))" using s2 by (simp add: kept_def same_kind_def)
    show "m_isConnected (fst (snd (d k3)))" using d [of k3] by (simp add: same_state_def)
  qed
  show "kept s (fst (snd (sock_connect h os a ms (s, k))))"
    unfolding eq using s2 v kept_trans [OF s2 kept_closed [of _ os]] by (simp split: prod.split)
  show "fst (sock_connect h os a ms (s, k)) \<longrightarrow> m_isConnected (fst (snd (sock_connect h os a ms (s, k))))"
    unfolding eq using v by (simp split: prod.split)
qed

lemma bind_keeps:
  assumes "sock_wf s"
  shows "kept s (fst (snd (sock_bind h os a (s, k))))"
    "fst (sock_bind h os a (s, k)) \<longrightarrow> isValid (fst (snd (sock_bind h os a (s, k))))"
    "m_localAddress (fst (snd (sock_bind h os a (s, k)))) = Some a"
proof -
  let ?t = "(s\<lparr>m_localAddress := Some a\<rparr>, k)"
  have wf: "sock_wf (fst ?t)" "same_kind s (fst ?t)" using assms by (simp_all add: sock_wf_def isValid_def same_kind_def)
  obtain s2 k2 where o: "opened os ?t = (s2, k2)" by (cases "opened os ?t")
  have s2: "kept s s2" "m_localAddress s2 = Some a"
    using opened_keeps [OF wf(1), of os] wf(2) o by (auto simp: kept_def same_kind_def)
  have loc: "sock_getLocalAddress h os (s2, k3) = (a, s2, k3)" for k3
    using s2(2) by (simp add: sock_getLocalAddress_def)
  define r where "r = sock_bind h os a (s, k)"
  have "fst (snd r) = s2 \<and> (fst r \<longrightarrow> isValid s2)"
    using o by (simp add: r_def sock_bind_def opened_def Let_def loc split: prod.split)
  then show "kept s (fst (snd (sock_bind h os a (s, k))))"
    "fst (sock_bind h os a (s, k)) \<longrightarrow> isValid (fst (snd (sock_bind h os a (s, k))))"
    "m_localAddress (fst (snd (sock_bind h os a (s, k)))) = Some a"
    using s2 unfolding r_def [symmetric] by auto
qed

lemma reconnect_keeps:
  assumes "sock_wf s"
  shows "kept s (fst (snd (sock_reconnect h os ms (s, k))))"
proof (cases "m_remoteAddress s")
  case None
  then show ?thesis using assms by (simp add: sock_reconnect_def kept_def)
next
  case (Some a)
  have "sock_wf (s\<lparr>m_localAddress := None\<rparr>)" using assms by (simp add: sock_wf_def isValid_def)
  from connect_keeps(1) [OF this, of h os a ms k] show ?thesis
    using Some by (simp add: sock_reconnect_def kept_def same_kind_def)
qed

lemma sock_apply_keeps: "sock_wf (fst t) \<Longrightarrow> kept (fst t) (fst (sock_apply h os op t))"
proof -
  assume wf: "sock_wf (fst t)"
  obtain s k where t: "t = (s, k)" by (cases t)
  have s: "sock_wf s" "kept s s" using wf t by (simp_all add: kept_def)
  note adr = kept_same_state [OF s(1) addresses_same_state(1) [of "(s, k)" h os, unfolded fst_conv]]
    kept_same_state [OF s(1) addresses_same_state(2) [of "(s, k)" h os, unfolded fst_conv]]
  show ?thesis
    unfolding t
    using s(2) adr kept_closed [of s os k] connect_keeps(1) [OF s(1), of h os _ _ k] bind_keeps(1) [OF s(1), of h os _ k]
      reconnect_keeps [OF s(1), of h os _ k]
    by (cases op) simp_all
qed

lemma sock_run_keeps: "sock_wf s \<Longrightarrow> kept s (fst (foldl (\<lambda>t op. sock_apply h os op t) (s, k) ops))"
proof (induction ops arbitrary: s k)
  case (Cons op ops)
  obtain s1 k1 where a: "sock_apply h os op (s, k) = (s1, k1)" by (cases "sock_apply h os op (s, k)")
  have k1: "kept s s1" using sock_apply_keeps [of "(s, k)" h os op] Cons.prems a by simp
  then have "kept s1 (fst (foldl (\<lambda>t op. sock_apply h os op t) (s1, k1) ops))"
    using Cons.IH by (simp add: kept_def)
  with k1 show ?case by (simp add: a kept_trans)
qed (simp add: kept_def)

lemma accept_keeps:
  assumes "sock_accept h os (s, k) = (Some c, k1)"
  shows "m_isConnected c \<and> isValid c \<and> same_kind s c"
proof -
  obtain fd k2 where a: "os_accept os (m_sock s) k = (fd, k2)" by (cases "os_accept os (m_sock s) k")
  let ?c = "Socket (m_family s) (m_type s) (m_protocol s)"
  have fd: "fd \<noteq> - 1" using assms a by (auto simp: sock_accept_def split: if_splits)
  obtain ok k3 where i: "sock_init h os fd (?c, k2) = (ok, c, k3)" "ok"
    using assms a fd by (auto simp: sock_accept_def Let_def split: prod.splits if_splits)
  define c1 where "c1 = sock_getLocalAddress h os (snd (initSock os (?c\<lparr>m_sock := fd, m_isConnected := True\<rparr>, k2)))"
  define c2 where "c2 = sock_getRemoteAddress h os (snd c1)"
  have "c = fst (snd c2)"
    using i by (auto simp: sock_init_def c1_def c2_def split: option.splits prod.splits if_splits)
  moreover have "same_state (?c\<lparr>m_sock := fd, m_isConnected := True\<rparr>) (fst (snd c1))"
    using addresses_same_state(2) [of "snd (initSock os (?c\<lparr>m_sock := fd, m_isConnected := True\<rparr>, k2))" h os]
    by (simp add: c1_def)
  moreover have "same_state (fst (snd c1)) (fst (snd c2))" by (simp add: c2_def addresses_same_state)
  ultimately show ?thesis
    using fd by (auto simp: same_state_def same_kind_def isValid_def Socket_def)
qed

section \<open>Claims\<close>

text \<open>
  C34. Whatever is done with a TCP socket and whatever the system answers, it keeps its family, type and
  protocol, and when it says it is connected it has a descriptor; a client it accepts is a socket of the same
  kind that is connected and has a descriptor.
\<close>

theorem connected_has_descriptor:
  fixes os :: "'k os" and ops :: "sock_op list" and h :: endian and a :: address and k :: 'k
  defines "t \<equiv> foldl (\<lambda>t op. sock_apply h os op t) (CreateTCP h a, k) ops"
  shows "(m_isConnected (fst t) \<longrightarrow> m_sock (fst t) \<noteq> - 1)
    \<and> m_family (fst t) = int (getFamily h a) \<and> m_type (fst t) = TCP \<and> m_protocol (fst t) = 0
    \<and> (case sock_accept h os t of (None, k1) \<Rightarrow> True
       | (Some c, k1) \<Rightarrow> m_isConnected c \<and> m_sock c \<noteq> - 1 \<and> m_family c = int (getFamily h a) \<and> m_type c = TCP)"
proof -
  have "sock_wf (CreateTCP h a)" by (simp add: sock_wf_def CreateTCP_def Socket_def)
  from sock_run_keeps [OF this, of h os k ops] have "kept (CreateTCP h a) (fst t)" by (simp add: t_def)
  then have kind: "m_isConnected (fst t) \<longrightarrow> m_sock (fst t) \<noteq> - 1" "m_family (fst t) = int (getFamily h a)"
    "m_type (fst t) = TCP" "m_protocol (fst t) = 0"
    by (auto simp: kept_def sock_wf_def same_kind_def isValid_def CreateTCP_def Socket_def)
  have "m_isConnected c \<and> m_sock c \<noteq> - 1 \<and> same_kind (fst t) c" if "sock_accept h os t = (Some c, k1)" for c k1
    using accept_keeps [of h os "fst t" "snd t"] that by (auto simp: isValid_def)
  then show ?thesis using kind by (auto simp: same_kind_def split: prod.split option.split)
qed

definition loopback :: address where
  "loopback = IPv4Address (new_IPv4Address LITTLE_ENDIAN 0x7F000001 80)"

theorem connected_has_descriptor_witness:
  "m_isConnected (fst (foldl (\<lambda>t op. sock_apply LITTLE_ENDIAN pipe_os op t) (CreateTCP LITTLE_ENDIAN loopback, ([], [])) [Connect loopback (- 1)]))
   \<and> m_sock (fst (foldl (\<lambda>t op. sock_apply LITTLE_ENDIAN pipe_os op t) (CreateTCP LITTLE_ENDIAN loopback, ([], [])) [Connect loopback (- 1)])) \<noteq> - 1"
proof -
  let ?t = "foldl (\<lambda>t op. sock_apply LITTLE_ENDIAN pipe_os op t) (CreateTCP LITTLE_ENDIAN loopback, ([], [])) [Connect loopback (- 1)]"
  have "m_isConnected (fst ?t)"
    by (simp add: sock_connect_def CreateTCP_def Socket_def isValid_def newSock_def pipe_os_def initSock_def setOption_def
        sock_getRemoteAddress_def sock_getLocalAddress_def Let_def)
  then show ?thesis
    using connected_has_descriptor [where h = LITTLE_ENDIAN and os = pipe_os and a = loopback and k = "([], [])" and ops = "[Connect loopback (- 1)]"]
    by blast
qed

section \<open>Where the code falls short\<close>

text \<open>A datagram socket says it is connected even when the system gave it no descriptor.\<close>

lemma udp_without_descriptor:
  "os_socket os (uint AF_INET) UDP 0 k = (- 1, k1)
    \<Longrightarrow> m_isConnected (fst (CreateUDPSocket os k)) \<and> \<not> isValid (fst (CreateUDPSocket os k))"
  by (simp add: CreateUDPSocket_def newSock_def Socket_def isValid_def)

text \<open>\<^verbatim>\<open>bind\<close> keeps the address it was given as the local one also when it fails.\<close>

lemma failed_bind_keeps_address:
  "sock_wf s \<Longrightarrow> int (getFamily h a) \<noteq> m_family s
    \<Longrightarrow> \<not> fst (sock_bind h os a (s, k)) \<and> m_localAddress (fst (snd (sock_bind h os a (s, k)))) = Some a"
proof -
  assume wf: "sock_wf s" and f: "int (getFamily h a) \<noteq> m_family s"
  obtain s2 k2 where o: "opened os (s\<lparr>m_localAddress := Some a\<rparr>, k) = (s2, k2)"
    by (cases "opened os (s\<lparr>m_localAddress := Some a\<rparr>, k)")
  have "m_family s2 = m_family s"
    using opened_keeps [of "(s\<lparr>m_localAddress := Some a\<rparr>, k)" os] wf o by (simp add: sock_wf_def isValid_def same_kind_def)
  then have "\<not> fst (sock_bind h os a (s, k))"
    using f o by (simp add: sock_bind_def opened_def)
  then show ?thesis using bind_keeps(3) [OF wf, of h os a k] by simp
qed

end
