(* ===== verification/TcpServer.thy ===== *)
theory TcpServer
  imports SocketProps
begin

text \<open>
  \<^verbatim>\<open>server/tcp_server.h\<close> and \<^verbatim>\<open>server/tcp_server.cc\<close>: the listening sockets of a server, the fibers that accept
  on them, and the clients handed on. The sockets are shared with the fibers, so they stand in a heap; what is
  given to the two workers is kept in lists.
\<close>

section \<open>The server\<close>

text \<open>What the worker for accepting is given; the worker for clients is given sockets to handle.\<close>

datatype server_task = StartAccept nat | CloseAll

record 'k tcp_server =
  ts_heap :: "nat \<Rightarrow> socket"
  ts_next :: nat
  ts_socks :: "nat list"
  ts_recvTimeout :: u64
  ts_name :: str
  ts_type :: str
  ts_isStop :: bool
  ts_tasks :: "server_task list"
  ts_clients :: "socket list"
  ts_sys :: 'k

definition tcp_server_read_timeout :: u64 where "tcp_server_read_timeout = 60 * 1000 * 2"
definition SOMAXCONN :: int where "SOMAXCONN = 4096"

definition TcpServer :: "(nat \<Rightarrow> socket) \<Rightarrow> 'k \<Rightarrow> 'k tcp_server" where
  "TcpServer heap k = \<lparr>ts_heap = heap, ts_next = 0, ts_socks = [], ts_recvTimeout = tcp_server_read_timeout,
     ts_name = chars ''will/1.0.0'', ts_type = chars ''tcp'', ts_isStop = True, ts_tasks = [], ts_clients = [], ts_sys = k\<rparr>"

text \<open>An operation of a socket of the heap.\<close>

definition on_sock :: "nat \<Rightarrow> ('k, 'a) sk \<Rightarrow> 'k tcp_server \<Rightarrow> 'a \<times> 'k tcp_server" where
  "on_sock i f v = (case f (ts_heap v i, ts_sys v) of (a, s, k) \<Rightarrow> (a, v\<lparr>ts_heap := (ts_heap v)(i := s), ts_sys := k\<rparr>))"

definition new_sock :: "socket \<Rightarrow> 'k tcp_server \<Rightarrow> nat \<times> 'k tcp_server" where
  "new_sock s v = (ts_next v, v\<lparr>ts_heap := (ts_heap v)(ts_next v := s), ts_next := ts_next v + 1\<rparr>)"

definition close_sock :: "'k os \<Rightarrow> nat \<Rightarrow> 'k tcp_server \<Rightarrow> 'k tcp_server" where
  "close_sock os i v = snd (on_sock i (sock_close os) v)"

section \<open>Binding\<close>

text \<open>A socket that fails is dropped, and so closed. \<open>fails\<close> is the vector of the caller.\<close>

fun bind_loop :: "endian \<Rightarrow> 'k os \<Rightarrow> address list \<Rightarrow> address list \<Rightarrow> 'k tcp_server \<Rightarrow> address list \<times> 'k tcp_server" where
  "bind_loop h os [] fails v = (fails, v)"
| "bind_loop h os (addr # addrs) fails v =
     (case new_sock (CreateTCP h addr) v of (i, v1) \<Rightarrow>
        case on_sock i (sock_bind h os addr) v1 of (ok, v2) \<Rightarrow>
          if \<not> ok then bind_loop h os addrs (fails @ [addr]) (close_sock os i v2)
          else case on_sock i (sock_listen os SOMAXCONN) v2 of (ok, v3) \<Rightarrow>
            if \<not> ok then bind_loop h os addrs (fails @ [addr]) (close_sock os i v3)
            else bind_loop h os addrs fails (v3\<lparr>ts_socks := ts_socks v3 @ [i]\<rparr>))"

text \<open>\<^verbatim>\<open>m_socks.clear()\<close> closes the sockets that no accepting fiber holds.\<close>

definition clear_socks :: "'k os \<Rightarrow> 'k tcp_server \<Rightarrow> 'k tcp_server" where
  "clear_socks os v =
     (foldl (\<lambda>v i. if StartAccept i \<in> set (ts_tasks v) then v else close_sock os i v) v (ts_socks v))\<lparr>ts_socks := []\<rparr>"

definition ts_bind :: "endian \<Rightarrow> 'k os \<Rightarrow> address list \<Rightarrow> address list \<Rightarrow> 'k tcp_server \<Rightarrow> bool \<times> address list \<times> 'k tcp_server" where
  "ts_bind h os addrs fails v =
     (case bind_loop h os addrs fails v of (fails1, v1) \<Rightarrow>
        if fails1 \<noteq> [] then (False, fails1, clear_socks os v1) else (True, fails1, v1))"

definition ts_bind_one :: "endian \<Rightarrow> 'k os \<Rightarrow> address \<Rightarrow> 'k tcp_server \<Rightarrow> bool \<times> 'k tcp_server" where
  "ts_bind_one h os addr v = (case ts_bind h os [addr] [] v of (ok, fails, v1) \<Rightarrow> (ok, v1))"

section \<open>Running\<close>

definition ts_start :: "'k tcp_server \<Rightarrow> bool \<times> 'k tcp_server" where
  "ts_start v =
     (if \<not> ts_isStop v then (True, v)
      else (True, v\<lparr>ts_isStop := False, ts_tasks := ts_tasks v @ map StartAccept (ts_socks v)\<rparr>))"

definition ts_stop :: "'k tcp_server \<Rightarrow> 'k tcp_server" where
  "ts_stop v = v\<lparr>ts_isStop := True, ts_tasks := ts_tasks v @ [CloseAll]\<rparr>"

text \<open>
  One round of \<^verbatim>\<open>startAccept\<close>: the value says whether the loop goes on. The time limit, a \<^verbatim>\<open>uint64_t\<close>, becomes an
  \<^verbatim>\<open>int64_t\<close>. The task stays in the list until its loop ends, as the fiber holds the socket.
\<close>

definition accept_round :: "endian \<Rightarrow> 'k os \<Rightarrow> nat \<Rightarrow> 'k tcp_server \<Rightarrow> bool \<times> 'k tcp_server" where
  "accept_round h os i v =
     (if ts_isStop v then (False, v\<lparr>ts_tasks := remove1 (StartAccept i) (ts_tasks v)\<rparr>)
      else case sock_accept h os (ts_heap v i, ts_sys v) of
        (None, k) \<Rightarrow> (True, v\<lparr>ts_sys := k\<rparr>)
      | (Some client, k) \<Rightarrow>
          (case setRecvTimeout os (sint (ts_recvTimeout v)) (client, k) of (_, client1, k1) \<Rightarrow>
             (True, v\<lparr>ts_clients := ts_clients v @ [client1], ts_sys := k1\<rparr>)))"

definition cancel_and_close :: "'k os \<Rightarrow> nat \<Rightarrow> 'k tcp_server \<Rightarrow> 'k tcp_server" where
  "cancel_and_close os i v = close_sock os i (snd (on_sock i (sock_cancelAll os) v))"

text \<open>The function that \<^verbatim>\<open>stop\<close> schedules.\<close>

definition close_all :: "'k os \<Rightarrow> 'k tcp_server \<Rightarrow> 'k tcp_server" where
  "close_all os v =
     (foldl (\<lambda>v i. cancel_and_close os i v) v (ts_socks v))\<lparr>ts_socks := [], ts_tasks := remove1 CloseAll (ts_tasks v)\<rparr>"

text \<open>The destructor.\<close>

definition ts_destroy :: "'k os \<Rightarrow> 'k tcp_server \<Rightarrow> 'k tcp_server" where
  "ts_destroy os v = (foldl (\<lambda>v i. close_sock os i v) v (ts_socks v))\<lparr>ts_socks := []\<rparr>"

definition ts_toString :: "endian \<Rightarrow> str \<Rightarrow> str option \<Rightarrow> str option \<Rightarrow> 'k tcp_server \<Rightarrow> str" where
  "ts_toString h prefix io accept v =
     prefix @ chars ''[type='' @ ts_type v @ chars '' name='' @ ts_name v
     @ chars '' io_worker='' @ (case io of None \<Rightarrow> [] | Some n \<Rightarrow> n) @ chars '' accept='' @ (case accept of None \<Rightarrow> [] | Some n \<Rightarrow> n)
     @ chars '' recv_timeout='' @ decimal (unat (ts_recvTimeout v)) @ chars '']'' @ [10]
     @ (let pfx = (if prefix = [] then chars ''    '' else prefix) in
        concat (map (\<lambda>i. pfx @ pfx @ sock_dump h (ts_heap v i) @ [10]) (ts_socks v)))"

section \<open>What binding does\<close>

definition ts_wf :: "'k tcp_server \<Rightarrow> bool" where
  "ts_wf v \<longleftrightarrow> (\<forall>i \<in> set (ts_socks v). i < ts_next v \<and> isValid (ts_heap v i)) \<and> distinct (ts_socks v)
     \<and> (\<forall>i. StartAccept i \<in> set (ts_tasks v) \<longrightarrow> i < ts_next v)"

text \<open>The loop touches only sockets it makes; each is listening at its address, or closed again.\<close>

definition listening :: "endian \<Rightarrow> address \<Rightarrow> socket \<Rightarrow> bool" where
  "listening h a s \<longleftrightarrow> isValid s \<and> m_localAddress s = Some a \<and> m_family s = int (getFamily h a) \<and> m_type s = TCP"

definition closed :: "socket \<Rightarrow> bool" where
  "closed s \<longleftrightarrow> \<not> isValid s \<and> \<not> m_isConnected s"

definition grown :: "'k tcp_server \<Rightarrow> 'k tcp_server \<Rightarrow> bool" where
  "grown v v1 \<longleftrightarrow> ts_next v \<le> ts_next v1 \<and> (\<forall>i < ts_next v. ts_heap v1 i = ts_heap v i)
     \<and> ts_isStop v1 = ts_isStop v \<and> ts_tasks v1 = ts_tasks v \<and> ts_clients v1 = ts_clients v \<and> ts_name v1 = ts_name v
     \<and> ts_recvTimeout v1 = ts_recvTimeout v \<and> ts_type v1 = ts_type v"

lemma grown_refl: "grown v v"
  by (simp add: grown_def)

lemma grown_trans: "grown v v1 \<Longrightarrow> grown v1 v2 \<Longrightarrow> grown v v2"
  by (simp add: grown_def)

lemma close_sock_closed: "closed (ts_heap (close_sock os i v) i)"
  using close_closed [of os "(ts_heap v i, ts_sys v)"]
  by (cases "sock_close os (ts_heap v i, ts_sys v)") (simp add: close_sock_def on_sock_def closed_def isValid_def)

lemma close_sock_other: "j \<noteq> i \<Longrightarrow> ts_heap (close_sock os i v) j = ts_heap v j"
  by (simp add: close_sock_def on_sock_def split: prod.split)

lemma close_sock_frame [simp]:
  "ts_next (close_sock os i v) = ts_next v" "ts_socks (close_sock os i v) = ts_socks v"
  "ts_isStop (close_sock os i v) = ts_isStop v" "ts_tasks (close_sock os i v) = ts_tasks v"
  "ts_clients (close_sock os i v) = ts_clients v" "ts_name (close_sock os i v) = ts_name v"
  "ts_recvTimeout (close_sock os i v) = ts_recvTimeout v" "ts_type (close_sock os i v) = ts_type v"
  by (simp_all add: close_sock_def on_sock_def split: prod.split)

text \<open>One address: the socket is made, and \<open>Some i\<close> when it listens.\<close>

definition bind_round :: "endian \<Rightarrow> 'k os \<Rightarrow> address \<Rightarrow> 'k tcp_server \<Rightarrow> bool \<times> 'k tcp_server" where
  "bind_round h os addr v =
     (case new_sock (CreateTCP h addr) v of (i, v1) \<Rightarrow>
        case on_sock i (sock_bind h os addr) v1 of (ok, v2) \<Rightarrow>
          if \<not> ok then (False, close_sock os i v2)
          else case on_sock i (sock_listen os SOMAXCONN) v2 of (ok, v3) \<Rightarrow>
            if \<not> ok then (False, close_sock os i v3) else (True, v3\<lparr>ts_socks := ts_socks v3 @ [i]\<rparr>))"

lemma bind_loop_round:
  "bind_loop h os (addr # addrs) fails v = (case bind_round h os addr v of (ok, v1) \<Rightarrow>
     bind_loop h os addrs (if ok then fails else fails @ [addr]) v1)"
  by (simp add: bind_round_def split: prod.split)

lemma bind_round_spec:
  assumes "bind_round h os addr v = (ok, v1)"
  shows "grown v v1" "ts_next v1 = ts_next v + 1"
    "ts_socks v1 = (if ok then ts_socks v @ [ts_next v] else ts_socks v)"
    "if ok then listening h addr (ts_heap v1 (ts_next v)) else closed (ts_heap v1 (ts_next v))"
proof -
  let ?i = "ts_next v" and ?s = "CreateTCP h addr"
  have wf: "sock_wf ?s" by (simp add: sock_wf_def CreateTCP_def Socket_def)
  obtain okb sb kb where b: "sock_bind h os addr (?s, ts_sys v) = (okb, sb, kb)" by (cases "sock_bind h os addr (?s, ts_sys v)")
  have sb: "okb \<longrightarrow> isValid sb" "m_localAddress sb = Some addr" "same_kind ?s sb"
    using bind_keeps [OF wf, of h os addr "ts_sys v"] b by (simp_all add: kept_def)
  obtain okl kl where l: "sock_listen os SOMAXCONN (sb, kb) = (okl, sb, kl)"
    using transfers_same(1) [of os SOMAXCONN "(sb, kb)"] by (cases "sock_listen os SOMAXCONN (sb, kb)") auto
  show "grown v v1" "ts_next v1 = ts_next v + 1" "ts_socks v1 = (if ok then ts_socks v @ [ts_next v] else ts_socks v)"
    using assms b l by (auto simp: bind_round_def new_sock_def on_sock_def grown_def close_sock_other split: if_splits)
  show "if ok then listening h addr (ts_heap v1 (ts_next v)) else closed (ts_heap v1 (ts_next v))"
    using assms b l sb close_sock_closed [of os ?i]
    by (auto simp: bind_round_def new_sock_def on_sock_def listening_def same_kind_def CreateTCP_def Socket_def split: if_splits)
qed

lemma bind_loop_spec:
  "bind_loop h os addrs fails v = (fails1, v1)
    \<Longrightarrow> \<exists>oks. length oks = length addrs \<and> grown v v1 \<and> ts_next v1 = ts_next v + length addrs
      \<and> fails1 = fails @ map fst (filter (\<lambda>p. \<not> snd p) (zip addrs oks))
      \<and> ts_socks v1 = ts_socks v @ map fst (filter snd (zip [ts_next v ..< ts_next v + length addrs] oks))
      \<and> (\<forall>j < length addrs. if oks ! j then listening h (addrs ! j) (ts_heap v1 (ts_next v + j))
           else closed (ts_heap v1 (ts_next v + j)))"
proof (induction addrs arbitrary: fails v)
  case Nil
  then show ?case by (simp add: grown_refl)
next
  case (Cons a addrs)
  obtain ok v2 where b: "bind_round h os a v = (ok, v2)" by (cases "bind_round h os a v")
  note r = bind_round_spec [OF b]
  have "bind_loop h os addrs (if ok then fails else fails @ [a]) v2 = (fails1, v1)"
    using Cons.prems b by (simp only: bind_loop_round prod.case)
  from Cons.IH [OF this] obtain oks where oks: "length oks = length addrs" "grown v2 v1" "ts_next v1 = ts_next v2 + length addrs"
    "fails1 = (if ok then fails else fails @ [a]) @ map fst (filter (\<lambda>p. \<not> snd p) (zip addrs oks))"
    "ts_socks v1 = ts_socks v2 @ map fst (filter snd (zip [ts_next v2 ..< ts_next v2 + length addrs] oks))"
    "\<forall>j < length addrs. if oks ! j then listening h (addrs ! j) (ts_heap v1 (ts_next v2 + j))
       else closed (ts_heap v1 (ts_next v2 + j))"
    by blast
  have upt: "[ts_next v ..< ts_next v + length (a # addrs)] = ts_next v # [ts_next v2 ..< ts_next v2 + length addrs]"
    using r(2) by (simp add: upt_conv_Cons del: upt_Suc)
  have same: "ts_heap v1 (ts_next v) = ts_heap v2 (ts_next v)" using oks(2) r(2) by (simp add: grown_def)
  have nth: "if (ok # oks) ! j then listening h ((a # addrs) ! j) (ts_heap v1 (ts_next v + j)) else closed (ts_heap v1 (ts_next v + j))"
    if "j < length (a # addrs)" for j
  proof (cases j)
    case 0
    then show ?thesis using r(4) same by simp
  next
    case (Suc j')
    then show ?thesis using oks(6) [rule_format, of j'] that r(2) by (cases "oks ! j'") simp_all
  qed
  show ?case
    unfolding upt
    using oks r(1-3) nth grown_trans [OF r(1) oks(2)] by (intro exI [of _ "ok # oks"]) auto
qed

text \<open>
  What the system was asked for: from the state \<open>k\<close> the socket that is made for an address is bound, the last call of
  which is \<^verbatim>\<open>::bind\<close> with success, and then put to listening with success, which leaves \<open>k'\<close>; and one address
  after the other so.
\<close>

definition listens_from :: "endian \<Rightarrow> 'k os \<Rightarrow> address \<Rightarrow> 'k \<Rightarrow> socket \<Rightarrow> 'k \<Rightarrow> bool" where
  "listens_from h os a k s k' \<longleftrightarrow> listening h a s \<and> (\<exists>k1 kb. sock_bind h os a (CreateTCP h a, k) = (True, s, k1)
     \<and> os_bind os (m_sock s) a kb = (0, k1) \<and> os_listen os (m_sock s) SOMAXCONN k1 = (0, k'))"

fun all_listen :: "endian \<Rightarrow> 'k os \<Rightarrow> (nat \<Rightarrow> socket) \<Rightarrow> address list \<Rightarrow> nat list \<Rightarrow> 'k \<Rightarrow> 'k \<Rightarrow> bool" where
  "all_listen h os heap [] [] k k' \<longleftrightarrow> k = k'"
| "all_listen h os heap (a # as) (i # is) k k' \<longleftrightarrow>
     (\<exists>k1. listens_from h os a k (heap i) k1 \<and> all_listen h os heap as is k1 k')"
| "all_listen h os heap _ _ k k' \<longleftrightarrow> False"

lemma sock_bind_bound:
  assumes "sock_wf s" "sock_bind h os a (s, k) = (True, s1, k1)"
  shows "\<exists>kb. os_bind os (m_sock s1) a kb = (0, k1)"
proof -
  let ?t = "(s\<lparr>m_localAddress := Some a\<rparr>, k)"
  have wf: "sock_wf (fst ?t)" using assms(1) by (simp add: sock_wf_def isValid_def)
  obtain s2 k2 where o: "opened os ?t = (s2, k2)" by (cases "opened os ?t")
  have "m_localAddress s2 = Some a" using opened_keeps [OF wf(1), of os] o by (auto simp: same_kind_def)
  then have loc: "sock_getLocalAddress h os (s2, k3) = (a, s2, k3)" for k3
    by (simp add: sock_getLocalAddress_def)
  show ?thesis
    using assms(2) o by (auto simp: sock_bind_def opened_def Let_def loc split: prod.splits if_splits)
qed

lemma bind_round_listens:
  assumes "bind_round h os addr v = (True, v1)"
  shows "listens_from h os addr (ts_sys v) (ts_heap v1 (ts_next v)) (ts_sys v1)"
proof -
  let ?i = "ts_next v" and ?s = "CreateTCP h addr"
  have wf: "sock_wf ?s" by (simp add: sock_wf_def CreateTCP_def Socket_def)
  have l1: "listening h addr (ts_heap v1 ?i)" using bind_round_spec(4) [OF assms] by simp
  obtain okb sb kb where b: "sock_bind h os addr (?s, ts_sys v) = (okb, sb, kb)" by (cases "sock_bind h os addr (?s, ts_sys v)")
  obtain okl kl where l: "sock_listen os SOMAXCONN (sb, kb) = (okl, sb, kl)"
    using transfers_same(1) [of os SOMAXCONN "(sb, kb)"] by (cases "sock_listen os SOMAXCONN (sb, kb)") auto
  have r: "okb" "okl" "ts_heap v1 ?i = sb" "ts_sys v1 = kl"
    using assms b l by (auto simp: bind_round_def new_sock_def on_sock_def split: if_splits)
  have "os_listen os (m_sock sb) SOMAXCONN kb = (0, kl)"
    using l r(2) by (auto simp: sock_listen_def split: if_splits prod.splits)
  moreover obtain k0 where "os_bind os (m_sock sb) addr k0 = (0, kb)" using sock_bind_bound [OF wf] b r(1) by metis
  ultimately show ?thesis using b r l1 by (auto simp: listens_from_def)
qed

lemma bind_loop_listens:
  "bind_loop h os addrs fails v = (fails, v1)
    \<Longrightarrow> all_listen h os (ts_heap v1) addrs [ts_next v ..< ts_next v + length addrs] (ts_sys v) (ts_sys v1)"
proof (induction addrs arbitrary: v)
  case (Cons a addrs)
  obtain ok v2 where b: "bind_round h os a v = (ok, v2)" by (cases "bind_round h os a v")
  note r = bind_round_spec [OF b]
  have l: "bind_loop h os addrs (if ok then fails else fails @ [a]) v2 = (fails, v1)"
    using Cons.prems b by (simp only: bind_loop_round prod.case)
  obtain oks where oks: "grown v2 v1" "fails = (if ok then fails else fails @ [a]) @ map fst (filter (\<lambda>p. \<not> snd p) (zip addrs oks))"
    using bind_loop_spec [OF l] by blast
  have ok
  proof (rule ccontr)
    assume "\<not> ok"
    then have "length fails = length ((fails @ [a]) @ map fst (filter (\<lambda>p. \<not> snd p) (zip addrs oks)))" using oks(2) by simp
    then show False by simp
  qed
  have upt: "[ts_next v ..< ts_next v + length (a # addrs)] = ts_next v # [ts_next v2 ..< ts_next v2 + length addrs]"
    using r(2) by (simp add: upt_conv_Cons del: upt_Suc)
  have "ts_heap v1 (ts_next v) = ts_heap v2 (ts_next v)" using oks(1) r(2) by (simp add: grown_def)
  then show ?case
    unfolding upt using bind_round_listens [of h os a v v2] b \<open>ok\<close> Cons.IH [of v2] l by auto
qed simp

lemma close_loop:
  "distinct is \<Longrightarrow> foldl (\<lambda>v i. if P i then v else close_sock os i v) v is = v1
    \<Longrightarrow> ts_next v1 = ts_next v \<and> ts_tasks v1 = ts_tasks v \<and> ts_isStop v1 = ts_isStop v \<and> ts_clients v1 = ts_clients v
      \<and> (\<forall>i. if i \<in> set is \<and> \<not> P i then closed (ts_heap v1 i) else ts_heap v1 i = ts_heap v i)"
proof (induction "is" arbitrary: v)
  case (Cons i "is")
  let ?v = "if P i then v else close_sock os i v"
  have IH: "ts_next v1 = ts_next ?v \<and> ts_tasks v1 = ts_tasks ?v \<and> ts_isStop v1 = ts_isStop ?v \<and> ts_clients v1 = ts_clients ?v
      \<and> (\<forall>j. if j \<in> set is \<and> \<not> P j then closed (ts_heap v1 j) else ts_heap v1 j = ts_heap ?v j)"
    using Cons by simp
  have "if j \<in> set (i # is) \<and> \<not> P j then closed (ts_heap v1 j) else ts_heap v1 j = ts_heap v j" for j
  proof (cases "j = i")
    case True
    then show ?thesis using IH Cons.prems(1) close_sock_closed [of os i v] by (metis distinct.simps(2) list.set_intros(1))
  next
    case False
    then show ?thesis using IH close_sock_other [of j i os v] by (metis set_ConsD list.set_intros(2))
  qed
  then show ?case using IH by (cases "P i") simp_all
qed simp

section \<open>Claims\<close>

text \<open>
  C35. Binding is all or nothing: when \<open>bind\<close> of some addresses succeeds, each address has a new socket of its
  family for which the system has answered \<^verbatim>\<open>::bind\<close> to this address and then \<^verbatim>\<open>::listen\<close> with success, and these stand
  behind the sockets of before in the order of the addresses; when it fails, it names addresses among those
  given, the server has no socket, and every socket the call made is closed. The server's sockets are valid
  before, and its accepting fibers hold sockets it made.
\<close>

theorem bind_all_or_nothing:
  assumes "ts_wf v" "ts_bind h os addrs [] v = (ok, fails, v1)"
  defines "made \<equiv> [ts_next v ..< ts_next v + length addrs]"
  shows "if ok then fails = [] \<and> ts_socks v1 = ts_socks v @ made
        \<and> all_listen h os (ts_heap v1) addrs made (ts_sys v) (ts_sys v1)
      else fails \<noteq> [] \<and> set fails \<subseteq> set addrs \<and> ts_socks v1 = [] \<and> list_all (\<lambda>i. closed (ts_heap v1 i)) made"
proof -
  obtain fails1 v2 where l: "bind_loop h os addrs [] v = (fails1, v2)" by (cases "bind_loop h os addrs [] v")
  from bind_loop_spec [OF l] obtain oks where oks: "length oks = length addrs" "grown v v2" "ts_next v2 = ts_next v + length addrs"
    "fails1 = map fst (filter (\<lambda>p. \<not> snd p) (zip addrs oks))"
    "ts_socks v2 = ts_socks v @ map fst (filter snd (zip made oks))"
    "\<forall>j < length addrs. if oks ! j then listening h (addrs ! j) (ts_heap v2 (ts_next v + j))
       else closed (ts_heap v2 (ts_next v + j))"
    by (auto simp: made_def)
  show ?thesis
  proof (cases "fails1 = []")
    case True
    have "all_listen h os (ts_heap v2) addrs made (ts_sys v) (ts_sys v2)"
      using bind_loop_listens [of h os addrs "[]" v v2] l True by (simp add: made_def)
    moreover have all: "\<forall>p \<in> set (zip addrs oks). snd p" using True oks(4) by (auto simp: filter_empty_conv)
    moreover have "filter snd (zip made oks) = zip made oks"
      using oks(1) all by (auto simp: filter_id_conv set_zip made_def)
    ultimately show ?thesis
      using True assms(2) l oks(1,5) by (auto simp: ts_bind_def made_def)
  next
    case False
    then have r: "ok = False" "fails = fails1" "v1 = clear_socks os v2" using assms(2) l by (auto simp: ts_bind_def)
    have tasks: "StartAccept i \<notin> set (ts_tasks v2)" if "ts_next v \<le> i" for i
      using assms(1) oks(2) that by (auto simp: ts_wf_def grown_def)
    have "\<forall>i \<in> set (map fst (filter snd (zip made oks))). ts_next v \<le> i" by (auto simp: made_def dest: set_zip_leftD)
    moreover have "distinct (map fst (filter snd (zip made oks)))"
      using oks(1) by (intro distinct_map_filter) (simp add: made_def)
    ultimately have d: "distinct (ts_socks v2)" using assms(1) oks(5) by (fastforce simp: ts_wf_def)
    define v3 where "v3 = foldl (\<lambda>v i. if StartAccept i \<in> set (ts_tasks v) then v else close_sock os i v) v2 (ts_socks v2)"
    have eq: "v3 = foldl (\<lambda>v i. if StartAccept i \<in> set (ts_tasks v2) then v else close_sock os i v) v2 (ts_socks v2)"
    proof -
      have "foldl (\<lambda>v i. if StartAccept i \<in> set (ts_tasks v) then v else close_sock os i v) w xs
          = foldl (\<lambda>v i. if StartAccept i \<in> set T then v else close_sock os i v) w xs" if "ts_tasks w = T" for w xs T
        using that by (induction xs arbitrary: w) auto
      then show ?thesis by (simp add: v3_def)
    qed
    note c = close_loop [OF d eq [symmetric], THEN conjunct2, THEN conjunct2, THEN conjunct2, THEN conjunct2]
    have "closed (ts_heap v3 i)" if "i \<in> set made" for i
    proof -
      define j where "j = i - ts_next v"
      have j: "j < length addrs" "i = ts_next v + j" using that by (auto simp: made_def j_def)
      show ?thesis
      proof (cases "oks ! j")
        case True
        have "(i, True) \<in> set (zip made oks)"
          using j oks(1) True by (auto simp: set_zip made_def intro!: exI [of _ j])
        then have "i \<in> set (ts_socks v2)" unfolding oks(5) by force
        then show ?thesis using c tasks [of i] j by auto
      next
        case False
        then have "closed (ts_heap v2 i)" using oks(6) j by auto
        then show ?thesis using c by metis
      qed
    qed
    then have "list_all (\<lambda>i. closed (ts_heap v1 i)) made" "ts_socks v1 = []"
      using r(3) by (auto simp: clear_socks_def v3_def list_all_iff)
    moreover have "set fails \<subseteq> set addrs" using r(2) oks(4) by (auto dest: set_zip_leftD)
    ultimately show ?thesis using False r by simp
  qed
qed

definition new_server :: "pipe tcp_server" where
  "new_server = TcpServer (\<lambda>_. CreateTCPSocket) ([], [])"

theorem bind_all_or_nothing_witness:
  "\<exists>v1. ts_bind LITTLE_ENDIAN pipe_os [loopback] [] new_server = (True, [], v1) \<and> ts_socks v1 = [0]
    \<and> listening LITTLE_ENDIAN loopback (ts_heap v1 0)"
proof -
  obtain ok fails v1 where b: "ts_bind LITTLE_ENDIAN pipe_os [loopback] [] new_server = (ok, fails, v1)"
    by (cases "ts_bind LITTLE_ENDIAN pipe_os [loopback] [] new_server")
  have "ts_wf new_server" by (simp add: ts_wf_def new_server_def TcpServer_def)
  note all = bind_all_or_nothing [OF this b]
  have v: "ok" "fails = []" "ts_socks v1 = [0]"
    using b
    by (auto simp: ts_bind_def new_sock_def on_sock_def new_server_def TcpServer_def sock_bind_def CreateTCP_def Socket_def
        isValid_def newSock_def pipe_os_def initSock_def setOption_def loopback_def sock_getLocalAddress_def sock_listen_def
        Let_def)
  have "all_listen LITTLE_ENDIAN pipe_os (ts_heap v1) [loopback] [0] (ts_sys new_server) (ts_sys v1)"
    using all v(1) by (simp add: new_server_def TcpServer_def)
  then have "listening LITTLE_ENDIAN loopback (ts_heap v1 0)" by (auto simp: listens_from_def)
  then show ?thesis using b v by (intro exI [of _ v1]) simp
qed

section \<open>Where the code falls short\<close>

text \<open>
  A server started again before the function that \<^verbatim>\<open>stop\<close> scheduled has run: its sockets are closed under the
  accepting fibers, whose loops go on with the descriptor -1.
\<close>

lemma restart_accepts_on_closed:
  fixes os :: "'k os"
  assumes "ts_socks v = [i]"
  defines "v1 \<equiv> close_all os (snd (ts_start (ts_stop v)))"
  shows "\<not> ts_isStop v1 \<and> StartAccept i \<in> set (ts_tasks v1) \<and> closed (ts_heap v1 i) \<and> ts_socks v1 = []"
  using assms(1) close_sock_closed [of os i]
  by (simp add: v1_def close_all_def ts_start_def ts_stop_def cancel_and_close_def on_sock_def split: prod.split)

lemma closed_accept_goes_on:
  assumes "\<not> ts_isStop v" "closed (ts_heap v i)" "os_accept os (- 1) (ts_sys v) = (- 1, k)"
  shows "accept_round h os i v = (True, v\<lparr>ts_sys := k\<rparr>)"
  using assms by (simp add: accept_round_def sock_accept_def closed_def isValid_def sock_close_def Socket_def Let_def)

end
