(* ===== verification/Log.thy ===== *)
theory Log
  imports Http
begin

text \<open>
  \<^verbatim>\<open>server/log.h\<close> and \<^verbatim>\<open>server/log.cc\<close>: the levels, the formatter with the little machine that reads its
  pattern, the two appenders with the file that is opened again every three seconds, the loggers and their
  manager. Formatters, appenders and loggers are shared, so they stand in heaps; the locks are left out.
\<close>

section \<open>Levels\<close>

datatype log_level = FATAL | ALERT | CRIT | ERROR | WARN | NOTICE | INFO | DEBUG | NOTSET

fun level_num :: "log_level \<Rightarrow> int" where
  "level_num FATAL = 0"
| "level_num ALERT = 100"
| "level_num CRIT = 200"
| "level_num ERROR = 300"
| "level_num WARN = 400"
| "level_num NOTICE = 500"
| "level_num INFO = 600"
| "level_num DEBUG = 700"
| "level_num NOTSET = 800"

lemma level_num_inj: "level_num a = level_num b \<Longrightarrow> a = b"
  by (cases a; cases b) simp_all

text \<open>Levels are compared by their numbers.\<close>

instantiation log_level :: linorder
begin

definition less_eq_log_level :: "log_level \<Rightarrow> log_level \<Rightarrow> bool" where
  "less_eq_log_level a b \<longleftrightarrow> level_num a \<le> level_num b"

definition less_log_level :: "log_level \<Rightarrow> log_level \<Rightarrow> bool" where
  "less_log_level a b \<longleftrightarrow> level_num a < level_num b"

instance
  by standard (auto simp: less_eq_log_level_def less_log_level_def level_num_inj)

end

fun level_ToString :: "log_level \<Rightarrow> str" where
  "level_ToString FATAL = chars ''FATAL''"
| "level_ToString ALERT = chars ''ALERT''"
| "level_ToString CRIT = chars ''CRIT''"
| "level_ToString ERROR = chars ''ERROR''"
| "level_ToString WARN = chars ''WARN''"
| "level_ToString NOTICE = chars ''NOTICE''"
| "level_ToString INFO = chars ''INFO''"
| "level_ToString DEBUG = chars ''DEBUG''"
| "level_ToString NOTSET = chars ''NOTSET''"

definition level_names :: "(log_level \<times> str) list" where
  "level_names = [(FATAL, chars ''fatal''), (ALERT, chars ''alert''), (CRIT, chars ''crit''), (ERROR, chars ''error''),
     (WARN, chars ''warn''), (NOTICE, chars ''notice''), (INFO, chars ''info''), (DEBUG, chars ''debug''),
     (FATAL, chars ''FATAL''), (ALERT, chars ''ALERT''), (CRIT, chars ''CRIT''), (ERROR, chars ''ERROR''),
     (WARN, chars ''WARN''), (NOTICE, chars ''NOTICE''), (INFO, chars ''INFO''), (DEBUG, chars ''DEBUG'')]"

definition level_FromString :: "str \<Rightarrow> log_level" where
  "level_FromString s = (case List.find (\<lambda>(l, v). s = v) level_names of Some (l, v) \<Rightarrow> l | None \<Rightarrow> NOTSET)"

section \<open>Events\<close>

record log_event =
  le_level :: log_level
  le_content :: str
  le_file :: str
  le_line :: int
  le_elapse :: int
  le_threadId :: u32
  le_fiberId :: u64
  le_time :: int
  le_threadName :: str
  le_loggerName :: str

definition LogEvent :: "str \<Rightarrow> log_level \<Rightarrow> str \<Rightarrow> int \<Rightarrow> int \<Rightarrow> u32 \<Rightarrow> u64 \<Rightarrow> int \<Rightarrow> str \<Rightarrow> log_event" where
  "LogEvent logger_name level file line elapse thread_id fiber_id time thread_name =
     \<lparr>le_level = level, le_content = [], le_file = file, le_line = line, le_elapse = elapse, le_threadId = thread_id,
      le_fiberId = fiber_id, le_time = time, le_threadName = thread_name, le_loggerName = logger_name\<rparr>"

section \<open>The formatter\<close>

datatype format_item = MessageItem | LevelItem | ElapseItem | LoggerNameItem | ThreadIdItem | FiberIdItem
  | ThreadNameItem | DateTimeItem str | FileNameItem | LineItem | NewLineItem | StringItem str | TabItem | PercentSignItem

definition default_date :: str where "default_date = chars ''%Y-%m-%d %H:%M:%S''"

definition DateTimeFormatItem :: "str \<Rightarrow> format_item" where
  "DateTimeFormatItem fmt = DateTimeItem (if fmt = [] then default_date else fmt)"

text \<open>\<open>date\<close> is \<^verbatim>\<open>localtime_r\<close> and \<^verbatim>\<open>strftime\<close> into 64 characters. Negative numbers have a sign.\<close>

definition int_text :: "int \<Rightarrow> str" where
  "int_text n = (if n < 0 then 45 # decimal (nat (- n)) else decimal (nat n))"

fun item_format :: "(str \<Rightarrow> int \<Rightarrow> str) \<Rightarrow> format_item \<Rightarrow> log_event \<Rightarrow> str" where
  "item_format date MessageItem e = le_content e"
| "item_format date LevelItem e = level_ToString (le_level e)"
| "item_format date ElapseItem e = int_text (le_elapse e)"
| "item_format date LoggerNameItem e = le_loggerName e"
| "item_format date ThreadIdItem e = decimal (unat (le_threadId e))"
| "item_format date FiberIdItem e = decimal (unat (le_fiberId e))"
| "item_format date ThreadNameItem e = le_threadName e"
| "item_format date (DateTimeItem fmt) e = date (c_str fmt) (le_time e)"
| "item_format date FileNameItem e = le_file e"
| "item_format date LineItem e = int_text (le_line e)"
| "item_format date NewLineItem e = [10]"
| "item_format date (StringItem s) e = s"
| "item_format date TabItem e = [9]"
| "item_format date PercentSignItem e = [37]"

text \<open>
  The first loop of \<^verbatim>\<open>init\<close>, over what is left of the pattern. A pattern that ends with \<^verbatim>\<open>%d\<close> makes it read the
  character two behind the last.
\<close>

datatype scan = Scanned "(int \<times> str) list" str str | NotClosed | ReadsBehind

lemma dropWhile_shorter: "dropWhile P xs = y # ys \<Longrightarrow> length ys < length xs"
  using length_dropWhile_le [of P xs] by simp

function scan_pattern :: "str \<Rightarrow> bool \<Rightarrow> (int \<times> str) list \<Rightarrow> str \<Rightarrow> str \<Rightarrow> scan" where
  "scan_pattern [] parsing_string patterns tmp dateformat = Scanned patterns tmp dateformat"
| "scan_pattern (c # cs) parsing_string patterns tmp dateformat =
     (if c = 37 then
        (if parsing_string
         then scan_pattern cs False (if tmp \<noteq> [] then patterns @ [(0, tmp)] else patterns) [] dateformat
         else scan_pattern cs True (patterns @ [(1, [c])]) tmp dateformat)
      else if parsing_string then scan_pattern cs True patterns (tmp @ [c]) dateformat
      else if c \<noteq> 100 then scan_pattern cs True (patterns @ [(1, [c])]) tmp dateformat
      else (case cs of
          [] \<Rightarrow> ReadsBehind
        | b # bs \<Rightarrow>
            if b \<noteq> 123 then scan_pattern cs True (patterns @ [(1, [c])]) tmp dateformat
            else (case dropWhile (\<lambda>x. x \<noteq> 125) bs of
                [] \<Rightarrow> NotClosed
              | x # rest \<Rightarrow>
                  scan_pattern rest True (patterns @ [(1, [c])]) tmp (dateformat @ takeWhile (\<lambda>x. x \<noteq> 125) bs))))"
  by pat_completeness auto
termination
  by (relation "measure (\<lambda>(cs, _). length cs)") (auto dest: dropWhile_shorter)

declare scan_pattern.simps(2) [simp del]

definition s_format_items :: "(str \<times> format_item) list" where
  "s_format_items = [(chars ''m'', MessageItem), (chars ''p'', LevelItem), (chars ''c'', LoggerNameItem),
     (chars ''r'', ElapseItem), (chars ''f'', FileNameItem), (chars ''l'', LineItem), (chars ''t'', ThreadIdItem),
     (chars ''F'', FiberIdItem), (chars ''N'', ThreadNameItem), (chars ''%'', PercentSignItem), (chars ''T'', TabItem),
     (chars ''n'', NewLineItem)]"

text \<open>The second loop: the items, and whether there was an error, which ends it.\<close>

fun make_items :: "str \<Rightarrow> (int \<times> str) list \<Rightarrow> format_item list \<times> bool" where
  "make_items dateformat [] = ([], False)"
| "make_items dateformat ((k, s) # patterns) =
     (if k = 0 then map_prod (Cons (StringItem s)) id (make_items dateformat patterns)
      else if s = chars ''d'' then map_prod (Cons (DateTimeFormatItem dateformat)) id (make_items dateformat patterns)
      else case map_of s_format_items s of
          None \<Rightarrow> ([], True)
        | Some item \<Rightarrow> map_prod (Cons item) id (make_items dateformat patterns))"

record log_formatter =
  lf_pattern :: str
  lf_items :: "format_item list"
  lf_error :: bool

text \<open>\<open>None\<close> stands for reading outside the pattern.\<close>

definition LogFormatter :: "str \<Rightarrow> log_formatter option" where
  "LogFormatter pattern =
     (case scan_pattern pattern True [] [] [] of
        ReadsBehind \<Rightarrow> None
      | NotClosed \<Rightarrow> Some \<lparr>lf_pattern = pattern, lf_items = [], lf_error = True\<rparr>
      | Scanned patterns tmp dateformat \<Rightarrow>
          (case make_items dateformat (if tmp \<noteq> [] then patterns @ [(0, tmp)] else patterns) of (items, error) \<Rightarrow>
             Some \<lparr>lf_pattern = pattern, lf_items = items, lf_error = error\<rparr>))"

definition default_pattern :: str where
  "default_pattern = chars ''%d{%Y-%m-%d %H:%M:%S} [%rms]%T%t%T%N%T%F%T[%p]%T[%c]%T%f:%l%T%m%n''"

definition formatter_format :: "(str \<Rightarrow> int \<Rightarrow> str) \<Rightarrow> log_formatter \<Rightarrow> log_event \<Rightarrow> str" where
  "formatter_format date f e = concat (map (\<lambda>i. item_format date i e) (lf_items f))"

section \<open>Appenders\<close>

text \<open>
  A file stream: whether a file is open in it and whether it has failed. \<^verbatim>\<open>close\<close> without an open file and \<^verbatim>\<open>open\<close>
  with one fail.
\<close>

record file_stream =
  fs_open :: bool
  fs_fail :: bool

text \<open>
  The rest of the system: what stands on the standard output and in the files, which files can be opened and
  which can be written to.
\<close>

record log_sys =
  ls_stdout :: str
  ls_files :: "str \<Rightarrow> str"
  ls_can_open :: "str \<Rightarrow> bool"
  ls_can_write :: "str \<Rightarrow> bool"

definition ofstream :: file_stream where "ofstream = \<lparr>fs_open = False, fs_fail = False\<rparr>"

definition fs_close :: "file_stream \<Rightarrow> file_stream" where
  "fs_close f = (if fs_open f then f\<lparr>fs_open := False\<rparr> else f\<lparr>fs_fail := True\<rparr>)"

definition fs_open_app :: "str \<Rightarrow> log_sys \<Rightarrow> file_stream \<Rightarrow> file_stream" where
  "fs_open_app name k f =
     (if fs_open f then f\<lparr>fs_fail := True\<rparr>
      else if ls_can_open k name then \<lparr>fs_open = True, fs_fail = False\<rparr> else f\<lparr>fs_fail := True\<rparr>)"

definition fs_write :: "str \<Rightarrow> str \<Rightarrow> file_stream \<times> log_sys \<Rightarrow> file_stream \<times> log_sys" where
  "fs_write name text t = (case t of (f, k) \<Rightarrow>
     if fs_fail f then (f, k)
     else if \<not> fs_open f \<or> \<not> ls_can_write k name then (f\<lparr>fs_fail := True\<rparr>, k)
     else (f, k\<lparr>ls_files := (ls_files k)(name := ls_files k name @ text)\<rparr>))"

definition print_out :: "str \<Rightarrow> log_sys \<Rightarrow> log_sys" where
  "print_out s k = k\<lparr>ls_stdout := ls_stdout k @ s\<rparr>"

record file_appender =
  fa_filename :: str
  fa_filestream :: file_stream
  fa_lastTime :: u64
  fa_reopenError :: bool

datatype appender_kind = StdoutAppender | FileAppender file_appender

record appender =
  ap_formatter :: "log_formatter option"
  ap_default :: log_formatter
  ap_kind :: appender_kind

definition setFormatter :: "log_formatter option \<Rightarrow> appender \<Rightarrow> appender" where
  "setFormatter val a = a\<lparr>ap_formatter := val\<rparr>"

definition getFormatter :: "appender \<Rightarrow> log_formatter" where
  "getFormatter a = (case ap_formatter a of Some f \<Rightarrow> f | None \<Rightarrow> ap_default a)"

definition the_default_formatter :: log_formatter where
  "the_default_formatter = the (LogFormatter default_pattern)"

definition StdoutLogAppender :: appender where
  "StdoutLogAppender = \<lparr>ap_formatter = None, ap_default = the_default_formatter, ap_kind = StdoutAppender\<rparr>"

definition reopen :: "log_sys \<Rightarrow> file_appender \<Rightarrow> bool \<times> file_appender" where
  "reopen k a =
     (let f = (if \<not> fs_fail (fa_filestream a) then fs_close (fa_filestream a) else fa_filestream a);
          f1 = fs_open_app (fa_filename a) k f
      in (\<not> fs_fail f1, a\<lparr>fa_filestream := f1, fa_reopenError := fs_fail f1\<rparr>))"

definition reopen_message :: "str \<Rightarrow> str" where
  "reopen_message name = chars ''reopen file '' @ name @ chars '' error'' @ [10]"

definition FileLogAppender :: "str \<Rightarrow> log_sys \<Rightarrow> appender \<times> log_sys" where
  "FileLogAppender file k =
     (case reopen k \<lparr>fa_filename = file, fa_filestream = ofstream, fa_lastTime = 0, fa_reopenError = False\<rparr> of (ok, a) \<Rightarrow>
        (\<lparr>ap_formatter = None, ap_default = the_default_formatter, ap_kind = FileAppender a\<rparr>,
         if fa_reopenError a then print_out (reopen_message file) k else k))"

definition file_log :: "(str \<Rightarrow> int \<Rightarrow> str) \<Rightarrow> log_formatter \<Rightarrow> log_event \<Rightarrow> file_appender \<times> log_sys \<Rightarrow> file_appender \<times> log_sys" where
  "file_log date fmt e t = (case t of (a, k) \<Rightarrow>
     let now = of_int (le_time e) :: u64;
         (a1, k1) = (if fa_lastTime a + 3 \<le> now
           then (let a' = snd (reopen k a) in
                 (a'\<lparr>fa_lastTime := now\<rparr>, if fa_reopenError a' then print_out (reopen_message (fa_filename a)) k else k))
           else (a, k))
     in if fa_reopenError a1 then (a1, k1)
        else (case fs_write (fa_filename a1) (formatter_format date fmt e) (fa_filestream a1, k1) of (f, k2) \<Rightarrow>
          (a1\<lparr>fa_filestream := f\<rparr>,
           if fs_fail f then print_out (chars ''[ERROR] FileLogAppender::log() format error'' @ [10]) k2 else k2)))"

definition appender_log :: "(str \<Rightarrow> int \<Rightarrow> str) \<Rightarrow> log_event \<Rightarrow> appender \<times> log_sys \<Rightarrow> appender \<times> log_sys" where
  "appender_log date e t = (case t of (a, k) \<Rightarrow>
     (case ap_kind a of
       StdoutAppender \<Rightarrow> (a, print_out (formatter_format date (getFormatter a) e) k)
     | FileAppender fa \<Rightarrow>
         (case file_log date (getFormatter a) e (fa, k) of (fa1, k1) \<Rightarrow> (a\<lparr>ap_kind := FileAppender fa1\<rparr>, k1))))"

section \<open>Loggers\<close>

record logger =
  lg_name :: str
  lg_level :: log_level
  lg_appenders :: "nat list"
  lg_createTime :: u64

record log_manager =
  lm_appenders :: "nat \<Rightarrow> appender"
  lm_heap :: "nat \<Rightarrow> logger"
  lm_next :: nat
  lm_loggers :: "str \<Rightarrow> nat option"
  lm_root :: nat
  lm_sys :: log_sys

text \<open>\<open>now\<close> is \<^verbatim>\<open>GetElapsedMS\<close>.\<close>

definition Logger :: "str \<Rightarrow> u64 \<Rightarrow> logger" where
  "Logger name now = \<lparr>lg_name = name, lg_level = INFO, lg_appenders = [], lg_createTime = now\<rparr>"

definition setLevel :: "log_level \<Rightarrow> logger \<Rightarrow> logger" where "setLevel level lg = lg\<lparr>lg_level := level\<rparr>"

definition addAppender :: "nat \<Rightarrow> logger \<Rightarrow> logger" where
  "addAppender a lg = lg\<lparr>lg_appenders := lg_appenders lg @ [a]\<rparr>"

definition delAppender :: "nat \<Rightarrow> logger \<Rightarrow> logger" where
  "delAppender a lg = lg\<lparr>lg_appenders := remove1 a (lg_appenders lg)\<rparr>"

definition clearAppenders :: "logger \<Rightarrow> logger" where
  "clearAppenders lg = lg\<lparr>lg_appenders := []\<rparr>"

definition log_with :: "(str \<Rightarrow> int \<Rightarrow> str) \<Rightarrow> log_event \<Rightarrow> nat \<Rightarrow> log_manager \<Rightarrow> log_manager" where
  "log_with date e i m = (case appender_log date e (lm_appenders m i, lm_sys m) of (a, k) \<Rightarrow>
     m\<lparr>lm_appenders := (lm_appenders m)(i := a), lm_sys := k\<rparr>)"

definition logger_log :: "(str \<Rightarrow> int \<Rightarrow> str) \<Rightarrow> logger \<Rightarrow> log_event \<Rightarrow> log_manager \<Rightarrow> log_manager" where
  "logger_log date lg e m =
     (if le_level e \<le> lg_level lg then fold (log_with date e) (lg_appenders lg) m else m)"

text \<open>
  A statement of the macros: nothing when the level is above that of the logger, else an event is made and, with
  the text streamed into it, logged when the wrapper is destroyed.
\<close>

definition WILL_LOG_LEVEL :: "(str \<Rightarrow> int \<Rightarrow> str) \<Rightarrow> logger \<Rightarrow> log_level \<Rightarrow> (log_level \<Rightarrow> log_event) \<Rightarrow> str \<Rightarrow> log_manager \<Rightarrow> log_manager" where
  "WILL_LOG_LEVEL date lg level event text m =
     (if level \<le> lg_level lg then logger_log date lg ((event level)\<lparr>le_content := text\<rparr>) m else m)"

definition LoggerManager :: "u64 \<Rightarrow> log_sys \<Rightarrow> log_manager" where
  "LoggerManager now k =
     \<lparr>lm_appenders = (\<lambda>_. StdoutLogAppender), lm_heap = (\<lambda>_. addAppender 0 (Logger (chars ''root'') now)), lm_next = 1,
      lm_loggers = [chars ''root'' \<mapsto> 0], lm_root = 0, lm_sys = k\<rparr>"

definition getLogger :: "u64 \<Rightarrow> str \<Rightarrow> log_manager \<Rightarrow> nat \<times> log_manager" where
  "getLogger now name m =
     (case lm_loggers m name of
        Some i \<Rightarrow> (i, m)
      | None \<Rightarrow> (let i = lm_next m in (i, m\<lparr>lm_heap := (lm_heap m)(i := Logger name now), lm_next := i + 1,
          lm_loggers := (lm_loggers m)(name \<mapsto> i)\<rparr>)))"

end
