(* ===== verification/LogProps.thy ===== *)
theory LogProps
  imports Log
begin

text \<open>
  Correctness of \<^verbatim>\<open>server/log.cc\<close>: a pattern written down piece by piece is read back as these pieces, levels
  survive their names, a healthy file takes every message and a file that failed once takes none again.
\<close>

section \<open>Patterns as pieces\<close>











section \<open>Reading a pattern\<close>

















section \<open>Levels\<close>

lemma level_round_trip: "level_FromString (level_ToString l) = l"
  by (cases l) (simp_all add: level_FromString_def level_names_def)

lemma mixed_case_level_unknown: "level_FromString (chars ''Info'') = NOTSET"
  by (simp add: level_FromString_def level_names_def)

lemma NOTSET_top: "l \<le> NOTSET"
  by (cases l) (simp_all add: less_eq_log_level_def)

section \<open>Appenders\<close>

text \<open>An appender works when it has no file or has its file open and may write to it.\<close>

definition works :: "log_sys \<Rightarrow> appender \<Rightarrow> bool" where
  "works k a \<longleftrightarrow> (case ap_kind a of StdoutAppender \<Rightarrow> True
     | FileAppender f \<Rightarrow> fs_open (fa_filestream f) \<and> \<not> fs_fail (fa_filestream f) \<and> \<not> fa_reopenError f \<and>
         ls_can_open k (fa_filename f) \<and> ls_can_write k (fa_filename f))"

text \<open>Where an appender writes to, and what writing there does.\<close>

definition sink :: "appender \<Rightarrow> str option" where
  "sink a = (case ap_kind a of StdoutAppender \<Rightarrow> None | FileAppender f \<Rightarrow> Some (fa_filename f))"

fun emit :: "str option \<Rightarrow> str \<Rightarrow> log_sys \<Rightarrow> log_sys" where
  "emit None text k = print_out text k"
| "emit (Some name) text k = k\<lparr>ls_files := (ls_files k)(name := ls_files k name @ text)\<rparr>"

definition like :: "appender \<Rightarrow> appender \<Rightarrow> bool" where
  "like a b \<longleftrightarrow> sink a = sink b \<and> getFormatter a = getFormatter b \<and> (\<forall>k. works k a \<longrightarrow> works k b)"

lemma like_refl [simp]: "like a a"
  by (simp add: like_def)


lemma works_emit [simp]: "works (emit s text k) a \<longleftrightarrow> works k a"
  by (cases s) (simp_all add: works_def print_out_def split: appender_kind.split)


section \<open>Loggers\<close>







section \<open>A file that failed\<close>

lemma file_log_failed:
  assumes "fs_open (fa_filestream a)" and "fs_fail (fa_filestream a)"
  shows "fs_open (fa_filestream (fst (file_log date fmt e (a, k))))"
    and "fs_fail (fa_filestream (fst (file_log date fmt e (a, k))))"
    and "ls_files (snd (file_log date fmt e (a, k))) = ls_files k"
  using assms
  by (simp_all add: file_log_def reopen_def fs_open_app_def fs_write_def print_out_def Let_def)

text \<open>After one write that failed nothing is written to the file, although it could be: it is not closed before
  it is opened again, and opening an open file fails.\<close>

lemma failed_write_is_final:
  assumes "fs_open (fa_filestream a)" and "fs_fail (fa_filestream a)"
  shows "ls_files (snd (fold (file_log date fmt) es (a, k))) = ls_files k"
  using assms
proof (induction es arbitrary: a k)
  case (Cons e es)
  obtain a1 k1 where *: "file_log date fmt e (a, k) = (a1, k1)" by force
  then show ?case using Cons.IH [of a1 k1] file_log_failed [OF Cons.prems, of date fmt e k] by simp
qed simp

lemma date_at_end_reads_behind: "LogFormatter (chars ''%d'') = None"
  by (simp add: LogFormatter_def scan_pattern.simps(2))

lemma lone_percent_accepted: "LogFormatter (chars ''a%'') = Some \<lparr>lf_pattern = chars ''a%'', lf_items = [StringItem (chars ''a'')], lf_error = False\<rparr>"
  by (simp add: LogFormatter_def scan_pattern.simps(2))

lemma dates_share_format:
  "LogFormatter (chars ''%d{a}%d{b}'') = Some \<lparr>lf_pattern = chars ''%d{a}%d{b}'',
     lf_items = [DateTimeItem (chars ''ab''), DateTimeItem (chars ''ab'')], lf_error = False\<rparr>"
  by (simp add: LogFormatter_def scan_pattern.simps(2) DateTimeFormatItem_def)

end
