(* ===== verification/Util.thy ===== *)
theory Util
  imports Http
begin

text \<open>
  \<^verbatim>\<open>server/util.h\<close> and \<^verbatim>\<open>server/util.cc\<close>: clocks, thread names and the removal of a file. What the system calls
  give is an argument.
\<close>

section \<open>Clocks\<close>

text \<open>Seconds and nanoseconds of the monotonic clock, seconds and microseconds of the time of day.\<close>

definition GetElapsedMS :: "int \<Rightarrow> int \<Rightarrow> u64" where
  "GetElapsedMS tv_sec tv_nsec = of_int (tv_sec * 1000 + tv_nsec div 1000000)"

definition GetCurrentMS :: "int \<Rightarrow> int \<Rightarrow> u64" where
  "GetCurrentMS tv_sec tv_usec = of_int tv_sec * 1000 + of_int (tv_usec div 1000)"

definition GetCurrentUS :: "int \<Rightarrow> int \<Rightarrow> u64" where
  "GetCurrentUS tv_sec tv_usec = of_int (tv_sec * 1000) * 1000 + of_int tv_usec"

text \<open>The two readings of one time of day agree as long as the microseconds fit into their word.\<close>

lemma current_units_agree:
  assumes "0 \<le> tv_sec" and "0 \<le> tv_usec" and "tv_usec < 1000000" and "tv_sec * 1000000 + tv_usec < 2 ^ 64"
  shows "unat (GetCurrentMS tv_sec tv_usec) = unat (GetCurrentUS tv_sec tv_usec) div 1000"
proof -
  have ms: "GetCurrentMS tv_sec tv_usec = word_of_int (tv_sec * 1000 + tv_usec div 1000)"
    by (simp add: GetCurrentMS_def)
  have us: "GetCurrentUS tv_sec tv_usec = word_of_int (tv_sec * 1000000 + tv_usec)"
    by (simp add: GetCurrentUS_def)
  have "uint (GetCurrentMS tv_sec tv_usec) = tv_sec * 1000 + tv_usec div 1000"
    unfolding ms using assms by (simp only: uint_word_of_int) (simp add: take_bit_int_eq_self)
  moreover have "uint (GetCurrentUS tv_sec tv_usec) = tv_sec * 1000000 + tv_usec"
    unfolding us using assms by (simp only: uint_word_of_int) (simp add: take_bit_int_eq_self)
  moreover have "(tv_sec * 1000000 + tv_usec) div 1000 = tv_sec * 1000 + tv_usec div 1000" by simp
  ultimately show ?thesis by (simp add: unat_eq_nat_uint nat_div_distrib)
qed

section \<open>Names of threads\<close>

text \<open>A thread of the system has a name of at most 15 characters.\<close>

definition SetThreadName :: "str \<Rightarrow> str" where
  "SetThreadName name = c_str (take 15 name)"

definition GetThreadName :: "str \<Rightarrow> str" where
  "GetThreadName thread_name = c_str (take 16 thread_name)"

lemma thread_name_read_back:
  assumes "\<forall>c \<in> set name. c mod 256 \<noteq> 0"
  shows "GetThreadName (SetThreadName name) = take 15 name"
proof -
  have "c_str (take 15 name) = take 15 name"
    using assms by (auto simp: c_str_def takeWhile_eq_all_conv dest!: in_set_takeD)
  then show ?thesis by (simp add: GetThreadName_def SetThreadName_def)
qed

section \<open>Files\<close>

text \<open>What \<^verbatim>\<open>lstat\<close> and \<^verbatim>\<open>unlink\<close> return, and whether the file was removed. A file that is not there counts as removed.\<close>

definition Unlink :: "bool \<Rightarrow> int \<Rightarrow> int \<Rightarrow> bool" where
  "Unlink exist lstat_ret unlink_ret = (if \<not> exist \<and> lstat_ret \<noteq> 0 then True else unlink_ret = 0)"

end
