(* ===== verification/Thread.thy ===== *)
theory Thread
  imports Mutex Util
begin

text \<open>
  \<^verbatim>\<open>server/thread.h\<close> and \<^verbatim>\<open>server/thread.cc\<close>: a thread object between the thread that makes it and the thread it
  stands for. Both run in single steps in any order; the constructor waits on a semaphore for the new thread.
\<close>

section \<open>The object and its two threads\<close>

record 'cb thread =
  m_id :: int
  m_thread :: bool
  m_cb :: "'cb option"
  m_name :: str
  m_semaphore :: nat

text \<open>How far the maker and the function \<^verbatim>\<open>run\<close> of the new thread are.\<close>

datatype maker = Before | Waiting | Constructed | Thrown | Joined | Destroyed

datatype run_pc = NotCreated | Entered | Named | Identified | Labelled | Swapped | Notified | Returned

text \<open>
  The thread-local variables are those of the new thread; \<open>t_thread\<close> is whether it points to the object. The
  callback that was swapped out is a local of \<^verbatim>\<open>run\<close>. \<open>dangling\<close> remembers an access to the object after its end.
\<close>

record 'cb thread_sys =
  th_obj :: "'cb thread"
  th_maker :: maker
  th_pc :: run_pc
  t_thread :: bool
  t_thread_name :: str
  th_local :: "'cb option"
  th_os_name :: str
  th_calls :: "'cb list"
  dangling :: bool

definition UNKNOW :: str where "UNKNOW = chars ''UNKNOW''"

text \<open>Every access to the object goes through this.\<close>

definition touch :: "('cb thread \<Rightarrow> 'cb thread) \<Rightarrow> 'cb thread_sys \<Rightarrow> 'cb thread_sys" where
  "touch f s = (if th_maker s = Destroyed then s\<lparr>dangling := True\<rparr> else s\<lparr>th_obj := f (th_obj s)\<rparr>)"

section \<open>Operations\<close>

definition thread_start :: "'cb thread_sys" where
  "thread_start = \<lparr>th_obj = \<lparr>m_id = - 1, m_thread = False, m_cb = None, m_name = [], m_semaphore = Semaphore 0\<rparr>,
     th_maker = Before, th_pc = NotCreated, t_thread = False, t_thread_name = UNKNOW, th_local = None, th_os_name = [],
     th_calls = [], dangling = False\<rparr>"

text \<open>The constructor up to the wait, with the result of \<^verbatim>\<open>pthread_create\<close>.\<close>

definition Thread_create :: "'cb \<Rightarrow> str \<Rightarrow> int \<Rightarrow> 'cb thread_sys \<Rightarrow> 'cb thread_sys" where
  "Thread_create cb name rt s =
     (let s1 = s\<lparr>th_obj := (th_obj s)\<lparr>m_cb := Some cb, m_name := (if name = [] then UNKNOW else name)\<rparr>\<rparr>
      in if rt \<noteq> 0 then s1\<lparr>th_maker := Thrown\<rparr>
         else s1\<lparr>th_obj := (th_obj s1)\<lparr>m_thread := True\<rparr>, th_maker := Waiting, th_pc := Entered\<rparr>)"

definition Thread_wait :: "'cb thread_sys \<Rightarrow> 'cb thread_sys option" where
  "Thread_wait s = (case Semaphore_wait (m_semaphore (th_obj s)) of
       None \<Rightarrow> None
     | Some n \<Rightarrow> Some (s\<lparr>th_obj := (th_obj s)\<lparr>m_semaphore := n\<rparr>, th_maker := Constructed\<rparr>))"

text \<open>
  \<open>join\<close> with the result of \<^verbatim>\<open>pthread_join\<close>, which without an error waits for the end of the thread. \<open>None\<close> is an
  exception.
\<close>

definition Thread_join :: "int \<Rightarrow> 'cb thread_sys \<Rightarrow> 'cb thread_sys option" where
  "Thread_join rt s =
     (if m_thread (th_obj s)
      then (if rt \<noteq> 0 then None else Some (s\<lparr>th_obj := (th_obj s)\<lparr>m_thread := False\<rparr>, th_maker := Joined\<rparr>))
      else Some s)"

text \<open>The destructor lets a thread that was not joined run on.\<close>

definition Thread_destroy :: "'cb thread_sys \<Rightarrow> 'cb thread_sys" where
  "Thread_destroy s = s\<lparr>th_maker := Destroyed\<rparr>"

definition Thread_SetName :: "str \<Rightarrow> 'cb thread_sys \<Rightarrow> 'cb thread_sys" where
  "Thread_SetName name s =
     (if name = [] then s
      else (if t_thread s then touch (\<lambda>t. t\<lparr>m_name := name\<rparr>) s else s)\<lparr>t_thread_name := name\<rparr>)"

text \<open>One step of \<^verbatim>\<open>run\<close>, in a thread with the number \<open>tid\<close>.\<close>

fun run_step :: "int \<Rightarrow> run_pc \<Rightarrow> 'cb thread_sys \<Rightarrow> 'cb thread_sys" where
  "run_step tid NotCreated s = s"
| "run_step tid Entered s =
     (touch id s)\<lparr>t_thread := True, t_thread_name := m_name (th_obj s), th_pc := Named\<rparr>"
| "run_step tid Named s = (touch (\<lambda>t. t\<lparr>m_id := tid\<rparr>) s)\<lparr>th_pc := Identified\<rparr>"
| "run_step tid Identified s = (touch id s)\<lparr>th_os_name := SetThreadName (m_name (th_obj s)), th_pc := Labelled\<rparr>"
| "run_step tid Labelled s =
     (touch (\<lambda>t. t\<lparr>m_cb := None\<rparr>) s)\<lparr>th_local := m_cb (th_obj s), th_pc := Swapped\<rparr>"
| "run_step tid Swapped s =
     (touch (\<lambda>t. t\<lparr>m_semaphore := Semaphore_notify (m_semaphore t)\<rparr>) s)\<lparr>th_pc := Notified\<rparr>"
| "run_step tid Notified s =
     s\<lparr>th_calls := th_calls s @ (case th_local s of None \<Rightarrow> [] | Some cb \<Rightarrow> [cb]), th_pc := Returned\<rparr>"
| "run_step tid Returned s = s"

section \<open>Interleaving\<close>

text \<open>
  The maker constructs, joins and destroys the object once it is constructed; the new thread runs, and while it
  runs its callback it may set its name. \<open>late\<close> says whether it may also do so when the object is destroyed
  already. \<^verbatim>\<open>pthread_join\<close> succeeds when the thread has returned.
\<close>

inductive thread_step :: "bool \<Rightarrow> int \<Rightarrow> 'cb \<Rightarrow> str \<Rightarrow> 'cb thread_sys \<Rightarrow> 'cb thread_sys \<Rightarrow> bool" for late tid cb name where
  create: "th_maker s = Before \<Longrightarrow> thread_step late tid cb name s (Thread_create cb name rt s)"
| wake: "th_maker s = Waiting \<Longrightarrow> Thread_wait s = Some s1 \<Longrightarrow> thread_step late tid cb name s s1"
| join: "th_maker s = Constructed \<Longrightarrow> th_pc s = Returned \<Longrightarrow> Thread_join 0 s = Some s1 \<Longrightarrow> thread_step late tid cb name s s1"
| destroy: "th_maker s = Constructed \<or> th_maker s = Joined \<Longrightarrow> thread_step late tid cb name s (Thread_destroy s)"
| run: "thread_step late tid cb name s (run_step tid (th_pc s) s)"
| rename: "th_pc s = Notified \<Longrightarrow> late \<or> th_maker s \<noteq> Destroyed \<Longrightarrow> thread_step late tid cb name s (Thread_SetName n s)"

inductive_cases thread_stepE: "thread_step late tid cb name s s1"

inductive thread_reachable :: "bool \<Rightarrow> int \<Rightarrow> 'cb \<Rightarrow> str \<Rightarrow> 'cb thread_sys \<Rightarrow> bool" for late tid cb name where
  init: "thread_reachable late tid cb name thread_start"
| step: "thread_reachable late tid cb name s \<Longrightarrow> thread_step late tid cb name s s1 \<Longrightarrow> thread_reachable late tid cb name s1"

section \<open>The handing over\<close>


definition full_name :: "str \<Rightarrow> str" where
  "full_name name = (if name = [] then UNKNOW else name)"


lemma touch_alive: "th_maker s \<noteq> Destroyed \<Longrightarrow> touch f s = s\<lparr>th_obj := f (th_obj s)\<rparr>"
  by (simp add: touch_def)







text \<open>The steps of a thread up to its notification, and of the constructor that waits for it.\<close>

definition constructed_thread :: "int \<Rightarrow> 'cb \<Rightarrow> str \<Rightarrow> 'cb thread_sys" where
  "constructed_thread tid cb name =
     the (Thread_wait (run_step tid Swapped (run_step tid Labelled (run_step tid Identified (run_step tid Named
       (run_step tid Entered (Thread_create cb name 0 thread_start)))))))"

lemmas thread_run_simps = constructed_thread_def thread_start_def Thread_create_def touch_def Thread_wait_def
  Semaphore_def Semaphore_wait_def Semaphore_notify_def Let_def

lemma constructed_thread_value:
  "constructed_thread tid cb name =
     \<lparr>th_obj = \<lparr>m_id = tid, m_thread = True, m_cb = None, m_name = full_name name, m_semaphore = 0\<rparr>,
      th_maker = Constructed, th_pc = Notified, t_thread = True, t_thread_name = full_name name, th_local = Some cb,
      th_os_name = SetThreadName (full_name name), th_calls = [], dangling = False\<rparr>"
  by (simp add: thread_run_simps full_name_def)

lemma constructed_thread_reachable: "thread_reachable late tid cb name (constructed_thread tid cb name)"
proof -
  let ?R = "thread_reachable late tid cb name"
  have run: "?R (run_step tid pc s)" if "?R s" "th_pc s = pc" for s pc
    using thread_reachable.step [OF that(1) thread_step.run] that(2) by simp
  have "?R (Thread_create cb name 0 thread_start)"
    by (rule thread_reachable.step [OF thread_reachable.init thread_step.create]) (simp add: thread_start_def)
  then have "?R (run_step tid Swapped (run_step tid Labelled (run_step tid Identified (run_step tid Named
      (run_step tid Entered (Thread_create cb name 0 thread_start))))))"
    by (intro run) (simp_all add: thread_run_simps)
  then show ?thesis
    by (rule thread_reachable.step [OF _ thread_step.wake]) (simp_all add: thread_run_simps)
qed


text \<open>A thread that sets its name after its object was destroyed writes to the object.\<close>

lemma late_SetName_dangles:
  "\<exists>s. thread_reachable True tid cb name s \<and> th_pc s = Notified \<and> dangling (Thread_SetName [119] s)"
proof (intro exI conjI)
  show "thread_reachable True tid cb name (Thread_destroy (constructed_thread tid cb name))"
    by (rule thread_reachable.step [OF constructed_thread_reachable thread_step.destroy])
      (simp add: constructed_thread_value)
qed (simp_all add: Thread_destroy_def constructed_thread_value Thread_SetName_def touch_def)

end
