(* ===== verification/ClientRun.thy ===== *)
theory ClientRun
  imports ClientProps
begin

text \<open>
  Runs of the response machine over the parts of a well-formed response: the status line, the header fields and
  the empty line. The machine looks for the names Connection, Content-Length and Transfer-Encoding on the way, so that a name
  or a value may be read in many states; they are grouped by what they do.
\<close>

section \<open>The states of a name\<close>

text \<open>How the states of a name end, in the three ways the generator wrote it.\<close>

definition token_rest :: "int \<Rightarrow> label" where
  "token_rest c =
    (if c < 45 then (if c > 39 then (if 42 \<le> c \<and> c \<le> 43 then St 21 else St 0) else if c \<ge> 35 then St 21 else St 0)
     else if c > 46 then
       (if c < 65 then (if 48 \<le> c \<and> c \<le> 57 then St 21 else St 0)
        else if c > 90 then (if 94 \<le> c \<and> c \<le> 122 then St 21 else St 0) else St 21)
     else St 21)"

definition token_rest_a :: "int \<Rightarrow> label" where
  "token_rest_a c =
    (if c < 45 then (if c > 39 then (if 42 \<le> c \<and> c \<le> 43 then St 21 else St 0) else if c \<ge> 35 then St 21 else St 0)
     else if c > 46 then
       (if c < 66 then (if 48 \<le> c \<and> c \<le> 57 then St 21 else St 0)
        else if c > 90 then (if 94 \<le> c \<and> c \<le> 122 then St 21 else St 0) else St 21)
     else St 21)"

definition token_rest_minus :: "int \<Rightarrow> label" where
  "token_rest_minus c =
    (if c < 48 then (if c > 39 then (if 42 \<le> c \<and> c \<le> 43 then St 21 else St 0) else if c \<ge> 35 then St 21 else St 0)
     else if c > 57 then
       (if c > 90 then (if 94 \<le> c \<and> c \<le> 122 then St 21 else St 0) else if c \<ge> 65 then St 21 else St 0)
     else St 21)"

lemma token_rests:
  assumes "token_char c" "c \<noteq> 33" "c \<noteq> 124" "c \<noteq> 126"
  shows "token_rest c = St 21" "c \<noteq> 65 \<Longrightarrow> token_rest_a c = St 21"
    "c \<noteq> 45 \<Longrightarrow> c \<noteq> 46 \<Longrightarrow> token_rest_minus c = St 21"
  using assms by (auto simp: token_char_def token_rest_def token_rest_a_def token_rest_minus_def)

lemmas name_cases = client_case_21_def client_case_25_def client_case_26_def client_case_27_def client_case_28_def
  client_case_29_def client_case_30_def client_case_31_def client_case_32_def client_case_33_def client_case_34_def
  client_case_44_def client_case_45_def client_case_46_def client_case_47_def client_case_48_def client_case_49_def
  client_case_50_def client_case_51_def client_case_52_def client_case_53_def client_case_54_def client_case_55_def
  client_case_56_def client_case_57_def client_case_58_def client_case_59_def client_case_60_def
  client_case_101_def client_case_102_def client_case_103_def client_case_104_def client_case_105_def
  client_case_106_def client_case_107_def client_case_108_def client_case_109_def client_case_110_def
  client_case_111_def

lemmas name_cases_short = name_cases [folded token_rest_def token_rest_a_def token_rest_minus_def]

definition name_states :: "nat list" where
  "name_states = 21 # [25..<35] @ [44..<61] @ [101..<112]"

lemma name_states: "set name_states = {21, 25, 26, 27, 28, 29, 30, 31, 32, 33, 34, 44, 45, 46, 47, 48, 49, 50, 51, 52, 53,
   54, 55, 56, 57, 58, 59, 60, 101, 102, 103, 104, 105, 106, 107, 108, 109, 110, 111}"
  by (simp add: name_states_def upt_rec)

definition goes_on :: "nat set \<Rightarrow> label \<Rightarrow> bool" where
  "goes_on N l \<longleftrightarrow> (\<exists>m \<in> N. l = St m)"

lemma goes_on_St [simp]: "goes_on N (St m) \<longleftrightarrow> m \<in> N"
  by (simp add: goes_on_def)

lemma name_token:
  assumes "n \<in> set name_states" "token_char c"
  shows "goes_on (set name_states) (client_dispatch n c)"
proof -
  have "c \<noteq> 58" using assms(2) by (auto simp: token_char_def)
  then show ?thesis
    using assms(1) unfolding name_states
    by (elim insertE emptyE) (simp_all add: client_dispatch_def name_cases_short token_rests [OF assms(2)])
qed
text \<open>A transition by the actions \<open>A\<close> to one of the states \<open>N\<close>.\<close>

definition turns :: "client_action list \<Rightarrow> nat set \<Rightarrow> label \<Rightarrow> bool" where
  "turns A N l \<longleftrightarrow> (\<exists>k m. l = Tr k \<and> client_transition k = (A, Go m) \<and> m \<in> N)"

lemma turns_Tr [simp]: "turns A N (Tr k) \<longleftrightarrow> (\<exists>m \<in> N. client_transition k = (A, Go m))"
  by (auto simp: turns_def)

abbreviation value_starts :: "nat set" where "value_starts \<equiv> {22, 35, 61, 112}"
abbreviation value_states :: "nat set" where
  "value_states \<equiv> {23, 81, 82, 83, 84, 85, 86, 87, 96, 97, 98, 99, 100, 119}"
abbreviation line_ends :: "nat set" where "line_ends \<equiv> {24, 71, 88}"
abbreviation line_starts :: "nat set" where "line_starts \<equiv> {20, 43}"

lemma name_end: "n \<in> set name_states \<Longrightarrow> turns [cl_write_field] value_starts (client_dispatch n 58)"
  unfolding name_states
  by (elim insertE emptyE)
    (simp_all add: client_dispatch_def name_cases_short client_transition_def client_tr_defs)

lemma value_space: "n \<in> value_starts \<Longrightarrow> turns [cl_start_value] value_starts (client_dispatch n 32)"
  by (elim insertE emptyE)
    (simp_all add: client_dispatch_def client_case_22_def client_case_35_def client_case_61_def client_case_112_def
      client_transition_def client_tr_defs)

lemma value_start:
  "n \<in> value_starts \<Longrightarrow> \<not> c_isspace c \<Longrightarrow> turns [cl_start_value] value_states (client_dispatch n c)"
  by (elim insertE emptyE)
    (auto simp: client_dispatch_def client_case_22_def client_case_35_def client_case_61_def client_case_112_def
      client_transition_def client_tr_defs c_isspace_def)

lemmas value_cases = client_case_23_def client_case_81_def client_case_82_def client_case_83_def client_case_84_def
  client_case_85_def client_case_86_def client_case_87_def client_case_96_def client_case_97_def client_case_98_def
  client_case_99_def client_case_100_def client_case_119_def

lemma value_on: "n \<in> value_states \<Longrightarrow> c \<noteq> 10 \<Longrightarrow> c \<noteq> 13 \<Longrightarrow> goes_on value_states (client_dispatch n c)"
  by (elim insertE emptyE) (simp_all add: client_dispatch_def value_cases)

lemma value_end:
  "n \<in> value_states \<Longrightarrow> turns [cl_write_value] line_ends (client_dispatch n 13) \<or>
     turns [cl_write_content_len, cl_write_value] line_ends (client_dispatch n 13)"
  by (elim insertE emptyE) (simp_all add: client_dispatch_def value_cases client_transition_def client_tr_defs)

lemma line_end:
  "n \<in> line_ends \<Longrightarrow> goes_on line_starts (client_dispatch n 10) \<or> turns [cl_trans_chunked] line_starts (client_dispatch n 10)"
  by (elim insertE emptyE)
    (simp_all add: client_dispatch_def client_case_24_def client_case_71_def client_case_88_def client_transition_def
      client_tr_defs)

lemma line_start:
  assumes "n \<in> line_starts" and "token_char c"
  shows "turns [cl_start_field] (set name_states) (client_dispatch n c) \<or>
     turns [cl_write_connection_close, cl_start_field] (set name_states) (client_dispatch n c)"
proof -
  have c: "c \<noteq> 10" "c \<noteq> 13" using assms(2) by (auto simp: token_char_def)
  show ?thesis
    using assms unfolding name_states
    by (elim insertE emptyE)
      (auto simp: client_dispatch_def client_case_20_def client_case_43_def client_transition_def client_tr_defs c
        token_char_def)
qed

section \<open>Pieces of a run\<close>

text \<open>
  What the callbacks read; that of the status reads a number from its place on, whatever the length, and the name
  of a field might lie outside the memory.
\<close>

datatype cl_heard = Cl_text cl_element "int list" | Cl_status int | Cl_header "int list" "int list" | Cl_outside

fun cl_hears :: "int list \<Rightarrow> cl_event \<Rightarrow> cl_heard" where
  "cl_hears mem (Cl_element e at len) =
     (if e = Status_code then Cl_status (int32 (strtol 10 (drop at mem))) else Cl_text e (slice mem at len))"
| "cl_hears mem (Cl_field at flen at' vlen) =
     (if at + flen \<le> length mem then Cl_header (slice mem at flen) (slice mem at' vlen) else Cl_outside)"

definition cl_prepend :: "cl_event list \<Rightarrow> nat \<times> nat \<times> client_parser \<times> cl_event list
    \<Rightarrow> nat \<times> nat \<times> client_parser \<times> cl_event list" where
  "cl_prepend evs r = (case r of (p, cs, s, evs') \<Rightarrow> (p, cs, s, evs @ evs'))"

lemma cl_prepend_simps [simp]: "cl_prepend [] r = r" "cl_prepend e1 (cl_prepend e2 r) = cl_prepend (e1 @ e2) r"
  "cl_prepend e (p, cs, s, e') = (p, cs, s, e @ e')"
  by (simp_all add: cl_prepend_def split: prod.splits)

text \<open>
  After \<open>pre\<close>, in the state \<open>n\<close>, the machine reads \<open>xs\<close>, whatever follows, makes the calls \<open>hs\<close> and is then where
  \<open>Q\<close> holds.
\<close>

definition cl_goes :: "int list \<Rightarrow> nat \<Rightarrow> client_parser \<Rightarrow> int list \<Rightarrow> cl_heard list \<Rightarrow> (nat \<Rightarrow> client_parser \<Rightarrow> bool) \<Rightarrow> bool" where
  "cl_goes pre n s xs hs Q \<longleftrightarrow> (\<forall>ys zs. \<exists>n' s' evs. Q n' s' \<and>
     client_run (pre @ xs @ ys @ zs) (xs @ ys) (length pre) n s =
       cl_prepend evs (client_run (pre @ xs @ ys @ zs) ys (length pre + length xs) n' s') \<and>
     map (cl_hears (pre @ xs @ ys @ zs)) evs = hs)"

lemma cl_goes_Nil: "Q n s \<Longrightarrow> cl_goes pre n s [] [] Q"
  by (force simp: cl_goes_def)

lemma cl_goes_trans:
  assumes "cl_goes pre n s xs hs Q" and "\<And>n' s'. Q n' s' \<Longrightarrow> cl_goes (pre @ xs) n' s' ys hs' R"
  shows "cl_goes pre n s (xs @ ys) (hs @ hs') R"
  unfolding cl_goes_def
proof (intro allI)
  fix us zs
  obtain n1 s1 e1 where 1: "Q n1 s1" "client_run (pre @ xs @ ys @ us @ zs) (xs @ ys @ us) (length pre) n s
      = cl_prepend e1 (client_run (pre @ xs @ ys @ us @ zs) (ys @ us) (length pre + length xs) n1 s1)"
    "map (cl_hears (pre @ xs @ ys @ us @ zs)) e1 = hs"
    using assms(1) unfolding cl_goes_def by (metis append_assoc)
  obtain n2 s2 e2 where 2: "R n2 s2" "client_run ((pre @ xs) @ ys @ us @ zs) (ys @ us) (length (pre @ xs)) n1 s1
      = cl_prepend e2 (client_run ((pre @ xs) @ ys @ us @ zs) us (length (pre @ xs) + length ys) n2 s2)"
    "map (cl_hears ((pre @ xs) @ ys @ us @ zs)) e2 = hs'"
    using assms(2) [OF 1(1)] unfolding cl_goes_def by metis
  show "\<exists>n' s' evs. R n' s' \<and> client_run (pre @ (xs @ ys) @ us @ zs) ((xs @ ys) @ us) (length pre) n s =
      cl_prepend evs (client_run (pre @ (xs @ ys) @ us @ zs) us (length pre + length (xs @ ys)) n' s') \<and>
      map (cl_hears (pre @ (xs @ ys) @ us @ zs)) evs = hs @ hs'"
    using 1 2 by (intro exI [of _ n2] exI [of _ s2] exI [of _ "e1 @ e2"]) (simp add: add.assoc)
qed

lemma cl_goes_Cons:
  assumes "cl_goes pre n s [c] hs Q" and "\<And>n' s'. Q n' s' \<Longrightarrow> cl_goes (pre @ [c]) n' s' xs hs' R"
  shows "cl_goes pre n s (c # xs) (hs @ hs') R"
  using cl_goes_trans [OF assms] by simp

lemma cl_goes_weaken: "cl_goes pre n s xs hs Q \<Longrightarrow> (\<And>n' s'. Q n' s' \<Longrightarrow> R n' s') \<Longrightarrow> cl_goes pre n s xs hs R"
  unfolding cl_goes_def by metis

lemma cl_goes_on:
  assumes "goes_on N (client_dispatch n c)" and "0 \<notin> N" and "\<And>m. m \<in> N \<Longrightarrow> Q m s"
  shows "cl_goes pre n s [c] [] Q"
proof -
  obtain m where m: "m \<in> N" "client_dispatch n c = St m" using assms(1) by (auto simp: goes_on_def)
  then have "m \<noteq> 0" using assms(2) by metis
  then show ?thesis unfolding cl_goes_def using m assms(3) by (intro allI exI [of _ m] exI [of _ s] exI [of _ "[]"]) simp
qed

lemma cl_turns:
  assumes "turns A N (client_dispatch n c)"
    and "\<And>mem pe. \<exists>s'. cl_do_all A mem (length pre) pe s = (s', evs) \<and> (\<forall>m \<in> N. Q m s')"
    and "\<And>ys. map (cl_hears (pre @ c # ys)) evs = hs"
  shows "cl_goes pre n s [c] hs Q"
proof -
  obtain k m where m: "client_dispatch n c = Tr k" "client_transition k = (A, Go m)" "m \<in> N"
    using assms(1) by (auto simp: turns_def)
  show ?thesis unfolding cl_goes_def
  proof (intro allI)
    fix ys zs
    obtain s' where "cl_do_all A (pre @ [c] @ ys @ zs) (length pre) (length pre + 1 + length ys) s = (s', evs)" "Q m s'"
      using assms(2) m(3) by blast
    then show "\<exists>n' s' evs. Q n' s' \<and> client_run (pre @ [c] @ ys @ zs) ([c] @ ys) (length pre) n s =
        cl_prepend evs (client_run (pre @ [c] @ ys @ zs) ys (length pre + length [c]) n' s') \<and>
        map (cl_hears (pre @ [c] @ ys @ zs)) evs = hs"
      using m assms(3) by (intro exI [of _ m] exI [of _ s'] exI [of _ evs]) (simp add: cl_prepend_def split: prod.splits)
  qed
qed

lemma cl_goes_loop:
  assumes "\<And>n c. n \<in> N \<Longrightarrow> P c \<Longrightarrow> goes_on N (client_dispatch n c)" and "0 \<notin> N"
    and "n \<in> N" and "\<forall>c \<in> set xs. P c" and "\<And>m. m \<in> N \<Longrightarrow> Q m s"
  shows "cl_goes pre n s xs [] Q"
  using assms(3,4)
proof (induction xs arbitrary: pre n)
  case (Cons c xs)
  have "cl_goes pre n s [c] [] (\<lambda>m s'. m \<in> N \<and> s' = s)"
    using cl_goes_on [OF assms(1) assms(2), of n c] Cons.prems by auto
  from cl_goes_Cons [OF this] Cons show ?case by auto
qed (auto intro: cl_goes_Nil assms(5))

section \<open>Header fields\<close>

definition cl_all_set :: "client_parser \<Rightarrow> bool" where
  "cl_all_set s \<longleftrightarrow> cp_set s = (\<lambda>_. True) \<and> cp_http_field_set s"

definition cl_field_ok :: "int list \<times> int list \<Rightarrow> bool" where
  "cl_field_ok h = (case h of (name, value) \<Rightarrow> name \<noteq> [] \<and> list_all token_char name \<and> value \<noteq> []
     \<and> \<not> c_isspace (hd value) \<and> 10 \<notin> set value \<and> 13 \<notin> set value)"

definition cl_field_line :: "int list \<times> int list \<Rightarrow> int list" where
  "cl_field_line h = (case h of (name, value) \<Rightarrow> name @ [58, 32] @ value @ [13, 10])"

text \<open>At the beginning of a line, and inside one with the marks as they are there.\<close>

definition at_line :: "nat \<Rightarrow> client_parser \<Rightarrow> bool" where
  "at_line n s \<longleftrightarrow> n \<in> line_starts \<and> cl_all_set s"

definition in_field :: "nat set \<Rightarrow> nat \<Rightarrow> nat \<Rightarrow> client_parser \<Rightarrow> bool" where
  "in_field N a n s \<longleftrightarrow> n \<in> N \<and> cl_all_set s \<and> cp_field_start s = a"

definition in_value :: "nat set \<Rightarrow> nat \<Rightarrow> nat \<Rightarrow> nat \<Rightarrow> client_parser \<Rightarrow> bool" where
  "in_value N a l n s \<longleftrightarrow> in_field N a n s \<and> cp_field_len s = l"

definition marked_value :: "nat set \<Rightarrow> nat \<Rightarrow> nat \<Rightarrow> nat \<Rightarrow> nat \<Rightarrow> client_parser \<Rightarrow> bool" where
  "marked_value N a l b n s \<longleftrightarrow> in_value N a l n s \<and> cp_mark s = b"

lemmas field_states = at_line_def in_field_def in_value_def marked_value_def cl_all_set_def

lemma goes_name_start:
  assumes "at_line n s" "token_char c"
  shows "cl_goes pre n s [c] [] (in_field (set name_states) (length pre))"
proof -
  have "n \<in> line_starts" using assms(1) by (simp add: at_line_def)
  from line_start [OF this assms(2)] show ?thesis
    using assms(1) by (elim disjE cl_turns [where evs = "[]"]) (simp_all add: client_actions field_states)
qed

lemma goes_name:
  assumes "in_field (set name_states) a n s" "list_all token_char xs"
  shows "cl_goes pre n s xs [] (in_field (set name_states) a)"
  using assms
  by (intro cl_goes_loop [where N = "set name_states" and P = token_char, OF name_token])
    (auto simp: in_field_def name_states list_all_iff)

lemma goes_colon:
  assumes "in_field (set name_states) a n s" "a \<le> length pre" "length pre < 2 ^ 64"
  shows "cl_goes pre n s [58] [] (in_value value_starts a (length pre - a))"
  using assms name_end [of n]
  by (intro cl_turns [where evs = "[]" and A = "[cl_write_field]" and N = value_starts])
    (simp_all add: client_actions field_states)

lemma goes_value_space:
  assumes "in_value value_starts a l n s"
  shows "cl_goes pre n s [32] [] (in_value value_starts a l)"
  using assms value_space [of n]
  by (intro cl_turns [where evs = "[]" and A = "[cl_start_value]" and N = value_starts])
    (simp_all add: client_actions field_states)

lemma goes_value_start:
  assumes "in_value value_starts a l n s" "\<not> c_isspace c"
  shows "cl_goes pre n s [c] [] (marked_value value_states a l (length pre))"
  using assms value_start [of n c]
  by (intro cl_turns [where evs = "[]" and A = "[cl_start_value]" and N = value_states])
    (simp_all add: client_actions field_states)

lemma goes_value:
  assumes "marked_value value_states a l b n s" "10 \<notin> set xs" "13 \<notin> set xs"
  shows "cl_goes pre n s xs [] (marked_value value_states a l b)"
  using assms
  by (intro cl_goes_loop [where N = value_states and P = "\<lambda>c. c \<noteq> 10 \<and> c \<noteq> 13"])
    (auto simp: field_states value_on)

lemma goes_value_end:
  fixes p0 k v :: "int list"
  defines "pre \<equiv> p0 @ k @ [58, 32] @ v"
  assumes "marked_value value_states (length p0) (length k) (length p0 + length k + 2) n s" "length pre < 2 ^ 64"
  shows "cl_goes pre n s [13] [Cl_header k v] (\<lambda>n s. n \<in> line_ends \<and> cl_all_set s)"
proof -
  let ?e = "Cl_field (length p0) (length k) (length p0 + length k + 2) (length v)"
  have len: "sub64 (length pre) (length p0 + length k + 2) = length v"
    using assms(3) by (simp add: pre_def)
  have hear: "map (cl_hears (pre @ 13 # ys)) [?e] = [Cl_header k v]" for ys
    by (simp add: pre_def slice_def)
  have "n \<in> value_states" using assms(2) by (simp add: field_states)
  from value_end [OF this] show ?thesis
    using assms(2) by (elim disjE cl_turns [where evs = "[?e]"])
      (use len hear in \<open>simp_all add: client_actions field_states\<close>)
qed

lemma goes_line_end:
  assumes "n \<in> line_ends" "cl_all_set s"
  shows "cl_goes pre n s [10] [] at_line"
proof (cases "goes_on line_starts (client_dispatch n 10)")
  case True
  then show ?thesis by (rule cl_goes_on) (use assms in \<open>auto simp: at_line_def\<close>)
next
  case False
  then have "turns [cl_trans_chunked] line_starts (client_dispatch n 10)" using line_end [OF assms(1)] by blast
  then show ?thesis
    by (rule cl_turns [where evs = "[]"]) (use assms in \<open>simp_all add: client_actions at_line_def cl_all_set_def\<close>)
qed

lemma cl_goes_field:
  assumes "at_line n s" "cl_field_ok (k, v)" "length pre + length (cl_field_line (k, v)) < 2 ^ 64"
  shows "cl_goes pre n s (cl_field_line (k, v)) [Cl_header k v] at_line"
proof -
  obtain k0 ks where k: "k = k0 # ks" using assms(2) by (cases k) (auto simp: cl_field_ok_def)
  obtain v0 vs where v: "v = v0 # vs" using assms(2) by (cases v) (auto simp: cl_field_ok_def)
  have ok: "token_char k0" "list_all token_char ks" "\<not> c_isspace v0" "10 \<notin> set vs" "13 \<notin> set vs"
    using assms(2) by (auto simp: cl_field_ok_def k v)
  have len: "length pre + length k + 2 + length v < 2 ^ 64"
    using assms(3) by (simp add: cl_field_line_def)
  have 1: "cl_goes pre n s k [] (in_field (set name_states) (length pre))"
    unfolding k using cl_goes_Cons [OF goes_name_start [OF assms(1) ok(1)] goes_name [OF _ ok(2)]] by simp
  have 2: "cl_goes (pre @ k) n' s' [58] [] (in_value value_starts (length pre) (length k))"
    if "in_field (set name_states) (length pre) n' s'" for n' s'
    using goes_colon [OF that, of "pre @ k"] len by simp
  have 3: "cl_goes (((pre @ k) @ [58]) @ [32]) n' s' v []
      (marked_value value_states (length pre) (length k) (length pre + length k + 2))"
    if "in_value value_starts (length pre) (length k) n' s'" for n' s'
    unfolding v
    using cl_goes_Cons [OF goes_value_start [OF that ok(3)] goes_value [OF _ ok(4,5)], of "pre @ k @ [58, 32]"]
    by simp
  have 4: "cl_goes ((((pre @ k) @ [58]) @ [32]) @ v) n' s' [13, 10] [Cl_header k v] at_line"
    if "marked_value value_states (length pre) (length k) (length pre + length k + 2) n' s'" for n' s'
    using cl_goes_Cons [OF goes_value_end [OF that] goes_line_end] len by simp
  have 5: "cl_goes ((pre @ k) @ [58]) n' s' (32 # v @ [13, 10]) [Cl_header k v] at_line"
    if "in_value value_starts (length pre) (length k) n' s'" for n' s'
    using cl_goes_Cons [OF goes_value_space [OF that] cl_goes_trans [OF 3 4]] by simp
  show ?thesis
    using cl_goes_trans [OF 1 cl_goes_Cons [OF 2 5]] by (simp add: cl_field_line_def)
qed

lemma cl_goes_fields:
  assumes "at_line n s" "list_all cl_field_ok hs" "length pre + length (concat (map cl_field_line hs)) < 2 ^ 64"
  shows "cl_goes pre n s (concat (map cl_field_line hs)) (map (\<lambda>(k, v). Cl_header k v) hs) at_line"
  using assms
proof (induction hs arbitrary: pre n s)
  case (Cons h hs)
  obtain k v where h: "h = (k, v)" by force
  have "cl_goes pre n s (cl_field_line h) [Cl_header k v] at_line"
    using cl_goes_field Cons.prems by (simp add: h)
  moreover have "cl_goes (pre @ cl_field_line h) n' s' (concat (map cl_field_line hs)) (map (\<lambda>(k, v). Cl_header k v) hs) at_line"
    if "at_line n' s'" for n' s'
    using Cons.IH [OF that] Cons.prems by simp
  ultimately show ?case using cl_goes_trans [of pre n s "cl_field_line h"] by (fastforce simp: h)
qed (simp add: cl_goes_Nil)

section \<open>The status line\<close>

lemma cl_goes_version:
  assumes "version_ok v" "cl_all_set s"
  shows "cl_goes [] 1 s (v @ [32]) [Cl_text Cl_http_version v] (\<lambda>n s. n = 16 \<and> cl_all_set s)"
  unfolding cl_goes_def
proof (intro allI)
  fix ys zs
  obtain d where v: "v = [72, 84, 84, 80, 47, 49, 46, d]" "d = 48 \<or> d = 49"
    using assms(1) by (auto simp: version_ok_def)
  then show "\<exists>n' s' evs. (n' = 16 \<and> cl_all_set s') \<and> client_run ([] @ (v @ [32]) @ ys @ zs) ((v @ [32]) @ ys) (length []) 1 s =
      cl_prepend evs (client_run ([] @ (v @ [32]) @ ys @ zs) ys (length [] + length (v @ [32])) n' s') \<and>
      map (cl_hears ([] @ (v @ [32]) @ ys @ zs)) evs = [Cl_text Cl_http_version v]"
    using assms(2)
    by (intro exI [of _ 16] exI [of _ "s\<lparr>cp_mark := 0\<rparr>"] exI [of _ "[Cl_element Cl_http_version 0 8]"])
      (auto simp: client_dispatch_def client_case_defs client_transition_def client_tr_defs client_actions cl_all_set_def
        cl_prepend_def slice_def split: prod.splits)
qed

definition digit_char :: "int \<Rightarrow> bool" where
  "digit_char c \<longleftrightarrow> 48 \<le> c \<and> c \<le> 57"

lemma takeWhile_digits:
  assumes "list_all digit_char ds"
  shows "takeWhile (\<lambda>c. digit_value c < 10) ds = ds" "takeWhile (\<lambda>c. digit_value c < 10) (ds @ 32 # ys) = ds"
  using assms by (induction ds) (auto simp: digit_char_def digit_value_def)

lemma strtol_digits:
  assumes "ds \<noteq> []" "list_all digit_char ds" "number_of 10 ds < 2 ^ 31"
  shows "strtol 10 (ds @ 32 # ys) = number_of 10 ds"
proof -
  have "0 \<le> foldl (\<lambda>n c. n * 10 + digit_value c) a cs" if "0 \<le> a" "list_all digit_char cs" for a cs
    using that by (induction cs arbitrary: a) (auto simp: digit_char_def digit_value_def)
  then have "0 \<le> number_of 10 ds" using assms(2) by (simp add: number_of_def takeWhile_digits)
  moreover obtain d ds' where "ds = d # ds'" using assms(1) by (cases ds) auto
  moreover have "skip_prefix 10 t = t" for t by (induction "10 :: int" t rule: skip_prefix.induct) simp_all
  ultimately show ?thesis
    using assms takeWhile_digits [OF assms(2)]
    by (auto simp: strtol_def digit_char_def c_isspace_def number_of_def Let_def)
qed

lemma cl_goes_status:
  assumes "ds \<noteq> []" "list_all digit_char ds" "number_of 10 ds < 2 ^ 31" "cl_all_set s" "length pre + length ds < 2 ^ 64"
  shows "cl_goes pre 16 s (ds @ [32]) [Cl_status (number_of 10 ds)] (\<lambda>n s. n = 18 \<and> cl_all_set s)"
proof -
  obtain d ds' where d: "ds = d # ds'" using assms(1) by (cases ds) auto
  let ?s = "s\<lparr>cp_mark := length pre\<rparr>" and ?e = "Cl_element Status_code (length pre) (length ds)"
  have dig: "digit_char d" "\<forall>c \<in> set ds'. digit_char c" using assms(2) by (auto simp: d list_all_iff)
  have 1: "cl_goes pre 16 s [d] [] (\<lambda>n s. n = 17 \<and> s = ?s)"
    by (rule cl_turns [where evs = "[]" and A = "[cl_mark]" and N = "{17}"])
      (use dig(1) in \<open>simp_all add: client_dispatch_def client_case_16_def digit_char_def client_transition_def client_tr_27_def
        client_actions\<close>)
  have 2: "cl_goes pre' 17 ?s ds' [] (\<lambda>n s. n = 17 \<and> s = ?s)" for pre'
    by (rule cl_goes_loop [where N = "{17}" and P = digit_char])
      (use dig(2) in \<open>auto simp: client_dispatch_def client_case_17_def digit_char_def\<close>)
  have num: "int32 (strtol 10 (ds @ 32 # ys)) = number_of 10 ds" for ys
  proof -
    have "0 \<le> foldl (\<lambda>n c. n * 10 + digit_value c) a cs" if "0 \<le> a" "list_all digit_char cs" for a cs
      using that by (induction cs arbitrary: a) (auto simp: digit_char_def digit_value_def)
    then have "0 \<le> number_of 10 ds" using assms(2) by (simp add: number_of_def takeWhile_digits)
    then show ?thesis using assms(3) by (simp add: strtol_digits [OF assms(1-3)] int32_small)
  qed
  have 3: "cl_goes (pre @ ds) 17 ?s [32] [Cl_status (number_of 10 ds)] (\<lambda>n s. n = 18 \<and> cl_all_set s)"
    by (rule cl_turns [where evs = "[?e]" and A = "[cl_status_code]" and N = "{18}"])
      (use assms(4,5) num in \<open>simp_all add: client_dispatch_def client_case_17_def client_transition_def client_tr_28_def
        client_actions cl_all_set_def Let_def\<close>)
  have 4: "cl_goes pre 16 s ds [] (\<lambda>n s. n = 17 \<and> s = ?s)"
    unfolding d using cl_goes_Cons [OF 1] 2 by fastforce
  show ?thesis using cl_goes_trans [OF 4] 3 by fastforce
qed

lemma cl_goes_reason:
  assumes "r \<noteq> []" "10 \<notin> set r" "13 \<notin> set r" "cl_all_set s" "length pre + length r < 2 ^ 64"
  shows "cl_goes pre 18 s (r @ [13, 10]) [Cl_text Reason_phrase r] at_line"
proof -
  obtain c cs where c: "r = c # cs" using assms(1) by (cases r) auto
  let ?s = "s\<lparr>cp_mark := length pre\<rparr>" and ?e = "Cl_element Reason_phrase (length pre) (length r)"
  have 1: "cl_goes pre 18 s [c] [] (\<lambda>n s. n = 19 \<and> s = ?s)"
    by (rule cl_turns [where evs = "[]" and A = "[cl_mark]" and N = "{19}"])
      (use assms(2) c in \<open>simp_all add: client_dispatch_def client_case_18_def client_transition_def client_tr_30_def
        client_actions\<close>)
  have 2: "cl_goes pre' 19 ?s cs [] (\<lambda>n s. n = 19 \<and> s = ?s)" for pre'
    by (rule cl_goes_loop [where N = "{19}" and P = "\<lambda>c. c \<noteq> 10 \<and> c \<noteq> 13"])
      (use assms(2,3) c in \<open>auto simp: client_dispatch_def client_case_19_def\<close>)
  have 3: "cl_goes (pre @ r) 19 ?s [13] [Cl_text Reason_phrase r] (\<lambda>n s. n \<in> line_ends \<and> cl_all_set s)"
    by (rule cl_turns [where evs = "[?e]" and A = "[cl_reason_phrase]" and N = "{24}"])
      (use assms(4,5) in \<open>simp_all add: client_dispatch_def client_case_19_def client_transition_def client_tr_33_def
        client_actions cl_all_set_def\<close>)
  have 4: "cl_goes pre 18 s r [] (\<lambda>n s. n = 19 \<and> s = ?s)"
    unfolding c using cl_goes_Cons [OF 1] 2 by fastforce
  have 5: "cl_goes (pre @ r) 19 ?s [13, 10] [Cl_text Reason_phrase r] at_line"
    using cl_goes_Cons [OF 3 goes_line_end] by fastforce
  show ?thesis using cl_goes_trans [OF 4] 5 by fastforce
qed

section \<open>The head of a response\<close>

definition response_ok :: "int list \<Rightarrow> int list \<Rightarrow> int list \<Rightarrow> (int list \<times> int list) list \<Rightarrow> bool" where
  "response_ok v code reason hs \<longleftrightarrow> version_ok v \<and> code \<noteq> [] \<and> list_all digit_char code \<and> number_of 10 code < 2 ^ 31
     \<and> reason \<noteq> [] \<and> 10 \<notin> set reason \<and> 13 \<notin> set reason \<and> list_all cl_field_ok hs"

definition response_head :: "int list \<Rightarrow> int list \<Rightarrow> int list \<Rightarrow> (int list \<times> int list) list \<Rightarrow> int list" where
  "response_head v code reason hs = v @ [32] @ code @ [32] @ reason @ [13, 10] @ concat (map cl_field_line hs) @ [13, 10]"

definition response_heard :: "int list \<Rightarrow> int list \<Rightarrow> int list \<Rightarrow> (int list \<times> int list) list \<Rightarrow> cl_heard list" where
  "response_heard v code reason hs =
     [Cl_text Cl_http_version v, Cl_status (number_of 10 code), Cl_text Reason_phrase reason] @ map (\<lambda>(k, v). Cl_header k v) hs"

lemma cl_goes_lines:
  assumes "response_ok v code reason hs" "cl_all_set s"
    "length (v @ [32] @ code @ [32] @ reason @ [13, 10] @ concat (map cl_field_line hs)) < 2 ^ 64"
  shows "cl_goes [] 1 s (v @ [32] @ code @ [32] @ reason @ [13, 10] @ concat (map cl_field_line hs))
    (response_heard v code reason hs) at_line"
proof -
  note ok = assms(1) [unfolded response_ok_def]
  have 1: "cl_goes [] 1 s (v @ [32]) [Cl_text Cl_http_version v] (\<lambda>n s. n = 16 \<and> cl_all_set s)"
    using cl_goes_version ok assms(2) by blast
  have 2: "cl_goes ([] @ v @ [32]) n s (code @ [32]) [Cl_status (number_of 10 code)] (\<lambda>n s. n = 18 \<and> cl_all_set s)"
    if "n = 16 \<and> cl_all_set s" for n s
    using cl_goes_status ok that assms(3) by simp
  have 3: "cl_goes (([] @ v @ [32]) @ code @ [32]) n s (reason @ [13, 10]) [Cl_text Reason_phrase reason] at_line"
    if "n = 18 \<and> cl_all_set s" for n s
    using cl_goes_reason ok that assms(3) by simp
  have 4: "cl_goes ((([] @ v @ [32]) @ code @ [32]) @ reason @ [13, 10]) n s (concat (map cl_field_line hs))
      (map (\<lambda>(k, v). Cl_header k v) hs) at_line" if "at_line n s" for n s
    using cl_goes_fields [OF that] ok assms(3) by simp
  have 5: "cl_goes (([] @ v @ [32]) @ code @ [32]) n s ((reason @ [13, 10]) @ concat (map cl_field_line hs))
      ([Cl_text Reason_phrase reason] @ map (\<lambda>(k, v). Cl_header k v) hs) at_line" if "n = 18 \<and> cl_all_set s" for n s
    by (rule cl_goes_trans [OF 3 [OF that] 4])
  have 6: "cl_goes ([] @ v @ [32]) n s ((code @ [32]) @ (reason @ [13, 10]) @ concat (map cl_field_line hs))
      ([Cl_status (number_of 10 code)] @ [Cl_text Reason_phrase reason] @ map (\<lambda>(k, v). Cl_header k v) hs) at_line"
    if "n = 16 \<and> cl_all_set s" for n s
    by (rule cl_goes_trans [OF 2 [OF that] 5])
  show ?thesis using cl_goes_trans [OF 1 6] by (simp add: response_heard_def)
qed

lemma run_header_end:
  assumes "at_line n s"
  shows "\<exists>s'. client_run mem (13 # 10 # rest) p n s = (p + 2, 120, s', [Cl_element Cl_header_done (p + 2) (length rest)])"
proof -
  have done_step: "client_run mem (10 # rest) (p + 1) 3 t = (p + 2, 120, t\<lparr>cp_body_start := p + 2\<rparr>,
      [Cl_element Cl_header_done (p + 2) (length rest)])" if "cl_all_set t" for t
    using that by (simp add: cl_all_set_def client_dispatch_def client_case_3_def client_transition_def client_tr_7_def
        client_actions)
  have "client_dispatch 20 13 = St 3" "client_dispatch 43 13 = Tr 75"
    by (simp_all add: client_dispatch_def client_case_20_def client_case_43_def)
  then consider "client_dispatch n 13 = St 3" | "client_dispatch n 13 = Tr 75"
    using assms by (auto simp: at_line_def)
  then show ?thesis
  proof cases
    case 1
    then show ?thesis using done_step [of s] assms by (simp add: at_line_def)
  next
    case 2
    have "cl_all_set (s\<lparr>cp_close := True\<rparr>)" using assms by (simp add: at_line_def cl_all_set_def)
    then show ?thesis
      using done_step 2 by (simp add: client_transition_def client_tr_75_def client_actions)
  qed
qed

lemma execute_response:
  assumes "response_ok v code reason hs" "cl_all_set s" "length (response_head v code reason hs @ rest) < 2 ^ 31"
  defines "mem \<equiv> response_head v code reason hs @ rest @ [0]"
  shows "\<exists>s' evs. client_execute mem (length (response_head v code reason hs @ rest)) 0 (client_parser_init s)
      = (Inr (int (length (response_head v code reason hs))), s', evs)
    \<and> cp_cs s' = 120 \<and> map (cl_hears mem) evs = response_heard v code reason hs @ [Cl_text Cl_header_done rest]
    \<and> list_all (cl_inside (length (response_head v code reason hs @ rest))) evs"
proof -
  let ?s = "(client_parser_init s)\<lparr>cp_nread := 0, cp_mark := 0, cp_field_len := 0, cp_field_start := 0\<rparr>"
  define ls where "ls = v @ [32] @ code @ [32] @ reason @ [13, 10] @ concat (map cl_field_line hs)"
  let ?len = "length (response_head v code reason hs @ rest)"
  have head: "response_head v code reason hs = ls @ [13, 10]" by (simp add: response_head_def ls_def)
  have "cl_all_set ?s" using assms(2) by (simp add: cl_all_set_def client_parser_init_def)
  moreover have "length ls < 2 ^ 64" using assms(3) by (simp add: head)
  ultimately have "cl_goes [] 1 ?s ls (response_heard v code reason hs) at_line"
    unfolding ls_def by (intro cl_goes_lines assms(1))
  then obtain n' s1 evs where
    run: "at_line n' s1" "client_run mem (ls @ 13 # 10 # rest) 0 1 ?s
      = cl_prepend evs (client_run mem (13 # 10 # rest) (length ls) n' s1)"
      "map (cl_hears mem) evs = response_heard v code reason hs"
    unfolding cl_goes_def by (elim allE [of _ "13 # 10 # rest"] allE [of _ "[0]"]) (auto simp: mem_def head)
  obtain s2 where "client_run mem (13 # 10 # rest) (length ls) n' s1
      = (length ls + 2, 120, s2, [Cl_element Cl_header_done (length ls + 2) (length rest)])"
    using run_header_end [OF run(1)] by blast
  moreover have "take ?len mem = ls @ 13 # 10 # rest" by (simp add: mem_def head)
  ultimately have "client_run mem (take ?len mem) 0 1 ?s
      = (length ls + 2, 120, s2, evs @ [Cl_element Cl_header_done (length ls + 2) (length rest)])"
    using run(2) by simp
  from client_execute_new [OF _ _ _ _ this] have
    "client_execute mem ?len 0 (client_parser_init s) = (Inr (int (length ls + 2)),
       s2\<lparr>cp_cs := 120, cp_nread := length ls + 2\<rparr>, evs @ [Cl_element Cl_header_done (length ls + 2) (length rest)])"
    "list_all (cl_inside ?len) (evs @ [Cl_element Cl_header_done (length ls + 2) (length rest)])"
    using assms(3) by (auto simp: mem_def head nth_append)
  moreover have "cl_hears mem (Cl_element Cl_header_done (length ls + 2) (length rest)) = Cl_text Cl_header_done rest"
    by (simp add: mem_def head slice_def)
  ultimately show ?thesis using run(3) by (simp add: head)
qed

text \<open>
  C15. A well-formed response is parsed: executed on a status line with one of the two versions, a number and a
  reason, header fields with any names, those the machine looks for among them, and the empty line, with any bytes
  behind it, a new parser consumes exactly the head, is finished, and calls its callbacks in order with the version, the
  number, the reason, the name and value of each field, and the bytes behind the head.
\<close>

theorem well_formed_response_parsed:
  assumes "response_ok v code reason hs" "cl_all_set s" "length (response_head v code reason hs @ rest) < 2 ^ 31"
  shows "\<exists>s' evs. client_execute (response_head v code reason hs @ rest @ [0])
      (length (response_head v code reason hs @ rest)) 0 (client_parser_init s)
      = (Inr (int (length (response_head v code reason hs))), s', evs)
    \<and> client_parser_finish s' = 1
    \<and> map (cl_hears (response_head v code reason hs @ rest @ [0])) evs
      = response_heard v code reason hs @ [Cl_text Cl_header_done rest]"
  using execute_response [OF assms]
  by (auto simp: client_parser_finish_def client_parser_has_error_def client_parser_is_finished_def)

text \<open>\<^verbatim>\<open>HTTP/1.1 404 No\<close> with the fields \<^verbatim>\<open>Connection: close\<close> and \<^verbatim>\<open>Cookie: a b\<close>, and a byte behind.\<close>

definition small_response :: "int list" where
  "small_response = [72, 84, 84, 80, 47, 49, 46, 49, 32, 52, 48, 52, 32, 78, 111, 13, 10,
     67, 111, 110, 110, 101, 99, 116, 105, 111, 110, 58, 32, 99, 108, 111, 115, 101, 13, 10,
     67, 111, 111, 107, 105, 101, 58, 32, 97, 32, 98, 13, 10, 13, 10]"

theorem well_formed_response_parsed_witness:
  "\<exists>s' evs. client_execute (small_response @ [7, 0]) 52 0 (client_parser_init raw_client) = (Inr 51, s', evs)
    \<and> client_parser_finish s' = 1
    \<and> map (cl_hears (small_response @ [7, 0])) evs = [Cl_text Cl_http_version [72, 84, 84, 80, 47, 49, 46, 49],
        Cl_status 404, Cl_text Reason_phrase [78, 111],
        Cl_header [67, 111, 110, 110, 101, 99, 116, 105, 111, 110] [99, 108, 111, 115, 101],
        Cl_header [67, 111, 111, 107, 105, 101] [97, 32, 98], Cl_text Cl_header_done [7]]"
proof -
  let ?hs = "[([67, 111, 110, 110, 101, 99, 116, 105, 111, 110], [99, 108, 111, 115, 101]),
    ([67, 111, 111, 107, 105, 101], [97, 32, 98])] :: (int list \<times> int list) list"
  let ?v = "[72, 84, 84, 80, 47, 49, 46, 49] :: int list" and ?code = "[52, 48, 52] :: int list"
  have num: "number_of 10 ?code = 404" by (simp add: number_of_def digit_value_def)
  have ok: "response_ok ?v ?code [78, 111] ?hs"
    unfolding response_ok_def num
    by (simp add: version_ok_def digit_char_def cl_field_ok_def token_char_def c_isspace_def)
  have set: "cl_all_set raw_client" by (simp add: cl_all_set_def raw_client_def)
  have head: "response_head ?v ?code [78, 111] ?hs = small_response"
    by (simp add: response_head_def cl_field_line_def small_response_def)
  have len: "length small_response = 51" "length (small_response @ [7]) = 52" by (simp_all add: small_response_def)
  have "length (response_head ?v ?code [78, 111] ?hs @ [7]) < 2 ^ 31" unfolding head len by simp
  from well_formed_response_parsed [OF ok set this] show ?thesis
    unfolding head len by (simp add: response_heard_def num)
qed

end
