(* ===== verification/ResponseRoundTrip.thy ===== *)
theory ResponseRoundTrip
  imports ClientRun HttpServer
begin

text \<open>
  What a response prints is parsed as that response: the text of a response is a head of the grammar of the
  response machine and a body, and \<^verbatim>\<open>HttpResponseParser\<close> makes the response of it again.
\<close>

section \<open>The callbacks\<close>









section \<open>The text of a response\<close>










section \<open>The header fields parsed\<close>







end
