(* ===== verification/AddressProps.thy ===== *)
theory AddressProps
  imports Address
begin

text \<open>
  What a printed address says: a reader of the dotted and of the compressed notation, which does not know the
  printing, gets the bytes of the address back, from the parts \<^verbatim>\<open>Lookup\<close> takes the printed text into.
  Also the order of the addresses and the number of bits of a mask.
\<close>

section \<open>Reading numbers and addresses\<close>

definition digit_of :: "int \<Rightarrow> nat option" where
  "digit_of c = (if 48 \<le> c \<and> c \<le> 57 then Some (nat (c - 48)) else if 97 \<le> c \<and> c \<le> 102 then Some (nat (c - 87)) else None)"

definition is_digit :: "nat \<Rightarrow> int \<Rightarrow> bool" where
  "is_digit base c = (case digit_of c of None \<Rightarrow> False | Some d \<Rightarrow> d < base)"

definition read_number :: "nat \<Rightarrow> str \<Rightarrow> nat option" where
  "read_number base s = (if s \<noteq> [] \<and> list_all (is_digit base) s
     then Some (foldl (\<lambda>n c. base * n + the (digit_of c)) 0 s) else None)"

fun fields :: "int \<Rightarrow> str \<Rightarrow> str list" where
  "fields sep [] = [[]]"
| "fields sep (c # s) = (if c = sep then [] # fields sep s else (c # hd (fields sep s)) # tl (fields sep s))"

definition read_ipv4 :: "str \<Rightarrow> nat list option" where
  "read_ipv4 s = (case those (map (read_number 10) (fields 46 s)) of
     Some bs \<Rightarrow> if length bs = 4 then Some bs else None | None \<Rightarrow> None)"

text \<open>The two sides of the first \<^verbatim>\<open>::\<close>, which stands for as many zeros as are missing.\<close>

fun cut_gap :: "str \<Rightarrow> (str \<times> str) option" where
  "cut_gap (a # b # s) = (if a = 58 \<and> b = 58 then Some ([], s) else map_option (apfst (Cons a)) (cut_gap (b # s)))"
| "cut_gap s = None"

definition read_groups :: "str \<Rightarrow> nat list option" where
  "read_groups s = (if s = [] then Some [] else those (map (read_number 16) (fields 58 s)))"

definition read_ipv6 :: "str \<Rightarrow> nat list option" where
  "read_ipv6 s = (case cut_gap s of
     None \<Rightarrow> (case read_groups s of Some gs \<Rightarrow> if length gs = 8 then Some gs else None | None \<Rightarrow> None)
   | Some (l, r) \<Rightarrow> (case (read_groups l, read_groups r) of
       (Some ls, Some rs) \<Rightarrow> if length ls + length rs < 8 then Some (ls @ replicate (8 - length ls - length rs) 0 @ rs) else None
     | _ \<Rightarrow> None))"

section \<open>Digits\<close>

lemma read_number_snoc:
  assumes "read_number base s = Some n" "digit_of c = Some d" "d < base"
  shows "read_number base (s @ [c]) = Some (base * n + d)"
  using assms by (auto simp: read_number_def is_digit_def split: if_splits)

lemma read_number_single: "digit_of c = Some d \<Longrightarrow> d < base \<Longrightarrow> read_number base [c] = Some d"
  by (simp add: read_number_def is_digit_def)

lemma digit_of_hexa: "d < 16 \<Longrightarrow> digit_of (hexa_digit d) = Some d"
  by (auto simp: digit_of_def hexa_digit_def)

lemma read_hexadecimal: "read_number 16 (hexadecimal n) = Some n"
proof (induction n rule: hexadecimal.induct)
  case (1 n)
  then show ?case
    using read_number_snoc [of 16 "hexadecimal (n div 16)" "n div 16" _ "n mod 16"]
    by (subst hexadecimal.simps) (simp add: read_number_single digit_of_hexa)
qed

lemma read_decimal: "read_number 10 (decimal n) = Some n"
proof (induction n rule: decimal.induct)
  case (1 n)
  have "digit_of (48 + int (n mod 10)) = Some (n mod 10)" by (simp add: digit_of_def)
  with 1 show ?case
    using read_number_snoc [of 10 "decimal (n div 10)" "n div 10" _ "n mod 10"]
    by (subst decimal.simps) (auto simp: read_number_single)
qed

lemma read_number_text:
  assumes "read_number base s = Some n"
  shows "s \<noteq> []" "58 \<notin> set s" "46 \<notin> set s" "93 \<notin> set s" "hd s \<noteq> 91"
proof -
  have "c \<noteq> 58 \<and> c \<noteq> 46 \<and> c \<noteq> 93 \<and> c \<noteq> 91" if "c \<in> set s" for c
    using assms that by (auto simp: read_number_def is_digit_def digit_of_def list_all_iff split: if_splits)
  moreover show "s \<noteq> []" using assms by (auto simp: read_number_def)
  ultimately show "58 \<notin> set s" "46 \<notin> set s" "93 \<notin> set s" "hd s \<noteq> 91" by auto
qed

lemmas hexadecimal_text [simp] = read_number_text [OF read_hexadecimal]
lemmas decimal_text [simp] = read_number_text [OF read_decimal]

section \<open>Fields\<close>

lemma fields_ne [simp]: "fields sep s \<noteq> []"
  by (cases s) auto

lemma fields_one: "sep \<notin> set f \<Longrightarrow> fields sep f = [f]"
  by (induction f) auto

lemma fields_more: "sep \<notin> set f \<Longrightarrow> fields sep (f @ sep # s) = f # fields sep s"
  by (induction f) auto

text \<open>Numbers with a colon between them.\<close>

fun joined :: "nat list \<Rightarrow> str" where
  "joined [] = []"
| "joined (g # gs) = hexadecimal g @ (if gs = [] then [] else 58 # joined gs)"

lemma joined_ne [simp]: "joined gs = [] \<longleftrightarrow> gs = []"
  by (cases gs) auto

lemma hd_hexadecimal [simp]: "hd (hexadecimal n) \<noteq> 58"
  using hd_in_set [OF hexadecimal_text(1) [of n]] hexadecimal_text(2) [of n] by metis

lemma hd_joined: "gs \<noteq> [] \<Longrightarrow> hd (joined gs) \<noteq> 58"
  by (cases gs) auto

lemma read_joined: "read_groups (joined gs) = Some gs"
proof (induction gs)
  case (Cons g gs)
  then show ?case
    by (cases "gs = []") (auto simp: read_groups_def fields_one fields_more read_hexadecimal)
qed (simp add: read_groups_def)

lemma cut_gap_field: "58 \<notin> set f \<Longrightarrow> cut_gap (f @ s) = map_option (apfst (append f)) (cut_gap s)"
proof (induction f)
  case (Cons c f)
  then have "cut_gap (c # (f @ s)) = map_option (apfst (Cons c)) (cut_gap (f @ s))" by (cases "f @ s") auto
  with Cons show ?case by (cases "cut_gap s") auto
qed (cases "cut_gap s", auto)

lemma cut_gap_colon: "s = [] \<or> hd s \<noteq> 58 \<Longrightarrow> cut_gap (58 # s) = map_option (apfst (Cons 58)) (cut_gap s)"
  by (cases s) auto

lemma cut_gap_joined: "cut_gap (joined gs) = None"
  by (induction gs) (auto simp: cut_gap_field cut_gap_field [where s = "[]", simplified] cut_gap_colon hd_joined)

lemma cut_gap_joined_gap: "cut_gap (joined ls @ 58 # 58 # t) = Some (joined ls, t)"
proof (induction ls)
  case (Cons g gs)
  then show ?case
    by (cases "gs = []") (auto simp: cut_gap_field cut_gap_colon hd_joined)
qed simp

lemma read_ipv6_joined:
  "length gs = 8 \<Longrightarrow> read_ipv6 (joined gs) = Some gs"
  "length ls + length rs < 8
     \<Longrightarrow> read_ipv6 (joined ls @ 58 # 58 # joined rs) = Some (ls @ replicate (8 - length ls - length rs) 0 @ rs)"
  by (simp_all add: read_ipv6_def cut_gap_joined cut_gap_joined_gap read_joined)

section \<open>The printed groups\<close>

definition group_value :: "endian \<Rightarrow> u16 \<Rightarrow> nat" where
  "group_value h w = unat (byteswapOnLittleEndian16 h w)"

lemma group_value_0 [simp]: "group_value h 0 = 0"
  by (simp add: group_value_def byteswapOnLittleEndian16_def unat_byteswap byteswap_bytes_def numeral_2_eq_2)

lemma joined_concat: "joined (g # gs) = hexadecimal g @ concat (map (\<lambda>g. 58 # hexadecimal g) gs)"
  by (induction gs arbitrary: g) auto

lemma insert_used:
  "insert_groups h (Some p) True ws = (concat (map (\<lambda>g. 58 # hexadecimal g) (map (group_value h) ws)), True)"
  by (induction ws arbitrary: p) (simp_all add: group_value_def)

lemma insert_zeros: "insert_groups h (Some 0) False (replicate k 0 @ ws) = insert_groups h (Some 0) False ws"
  by (induction k) simp_all

lemma insert_gap:
  "w \<noteq> 0 \<Longrightarrow> insert_groups h (Some 0) False (w # ws) = (58 # 58 # joined (map (group_value h) (w # ws)), True)"
  using insert_used [of h w ws] by (simp add: joined_concat group_value_def del: joined.simps)

lemma insert_nonzeros:
  "list_all (\<lambda>w. w \<noteq> 0) ls \<Longrightarrow> ls \<noteq> [] \<Longrightarrow> prev \<noteq> Some 0 \<Longrightarrow> insert_groups h prev False (ls @ ws)
     = apfst (append ((if prev = None then [] else [58]) @ joined (map (group_value h) ls)))
         (insert_groups h (Some (last ls)) False ws)"
proof (induction ls arbitrary: prev)
  case (Cons w ls)
  show ?case
  proof (cases "ls = []")
    case True
    then show ?thesis using Cons.prems by (auto simp: group_value_def split: prod.splits)
  next
    case False
    then show ?thesis
      using Cons.IH [of "Some w"] Cons.prems
      by (cases "insert_groups h (Some (last ls)) False ws") (auto simp: group_value_def)
  qed
qed simp

lemma split_at_zeros:
  "\<exists>ls k rs. gs = ls @ replicate k 0 @ rs \<and> list_all (\<lambda>w. w \<noteq> 0) ls \<and> (k = 0 \<longrightarrow> rs = [])
     \<and> (rs \<noteq> [] \<longrightarrow> hd rs \<noteq> 0)" for gs :: "u16 list"
proof -
  define ws where "ws = dropWhile (\<lambda>w. w \<noteq> 0) gs"
  have hd0: "ws \<noteq> [] \<longrightarrow> hd ws = 0"
    using hd_dropWhile [of "\<lambda>w. w \<noteq> 0" gs] unfolding ws_def by blast
  have "gs = takeWhile (\<lambda>w. w \<noteq> 0) gs @ takeWhile (\<lambda>w. w = 0) ws @ dropWhile (\<lambda>w. w = 0) ws"
    by (simp add: ws_def)
  moreover have "takeWhile (\<lambda>w. w = 0) ws = replicate (length (takeWhile (\<lambda>w. w = 0) ws)) 0"
    by (rule replicate_eqI) (auto dest: set_takeWhileD)
  moreover have "takeWhile (\<lambda>w. w = 0) ws = [] \<longrightarrow> dropWhile (\<lambda>w. w = 0) ws = []"
    using hd0 by (cases ws) simp_all
  moreover have "dropWhile (\<lambda>w. w = 0) ws \<noteq> [] \<longrightarrow> hd (dropWhile (\<lambda>w. w = 0) ws) \<noteq> 0"
    using hd_dropWhile [of "\<lambda>w. w = 0" ws] by auto
  moreover have "list_all (\<lambda>w. w \<noteq> 0) (takeWhile (\<lambda>w. w \<noteq> 0) gs)"
    by (auto simp: list_all_iff dest: set_takeWhileD)
  ultimately show ?thesis
    by (intro exI [of _ "takeWhile (\<lambda>w. w \<noteq> 0) gs"] exI [of _ "length (takeWhile (\<lambda>w. w = 0) ws)"]
        exI [of _ "dropWhile (\<lambda>w. w = 0) ws"] conjI) (simp_all only: length_0_conv)
qed

text \<open>The text between the brackets.\<close>

definition ipv6_text :: "endian \<Rightarrow> u16 list \<Rightarrow> str" where
  "ipv6_text h gs = (case insert_groups h None False gs of (os, used_zeros) \<Rightarrow>
     os @ (if \<not> used_zeros \<and> gs ! 7 = 0 then chars ''::'' else []))"

lemma ipv6_text_read:
  assumes "length gs = 8"
  shows "read_ipv6 (ipv6_text h gs) = Some (map (group_value h) gs)"
proof -
  obtain ls k rs where gs: "gs = ls @ replicate k 0 @ rs" "list_all (\<lambda>w. w \<noteq> 0) ls" "k = 0 \<longrightarrow> rs = []"
    "rs \<noteq> [] \<longrightarrow> hd rs \<noteq> 0" using split_at_zeros by blast
  let ?L = "map (group_value h) ls" and ?R = "map (group_value h) rs"
  have pre: "insert_groups h None False gs = apfst (append (joined ?L))
      (insert_groups h (if ls = [] then None else Some (last ls)) False (replicate k 0 @ rs))"
    using insert_nonzeros [OF gs(2), of None h "replicate k 0 @ rs"] gs(1)
    by (cases "ls = []"; cases "insert_groups h None False (replicate k 0 @ rs)") simp_all
  consider "k = 0" | j where "k = Suc j" "rs = []" | j w ws where "k = Suc j" "rs = w # ws" "w \<noteq> 0"
    using gs(4) by (cases k; cases rs) auto
  then show ?thesis
  proof cases
    case 1
    then have "gs = ls" using gs(1,3) by simp
    then have "gs ! 7 \<noteq> 0" using gs(2) assms by (simp add: list_all_length)
    then show ?thesis using pre 1 gs(3) \<open>gs = ls\<close> assms by (simp add: ipv6_text_def read_ipv6_joined)
  next
    case 2
    have "gs \<noteq> []" using assms by auto
    then have "gs ! 7 = last gs" using assms by (simp add: last_conv_nth)
    also have "\<dots> = 0" using gs(1) 2 by simp
    finally have z: "gs ! 7 = 0" .
    have "insert_groups h None False gs = (joined ?L, False)"
      using pre 2 insert_zeros [of h j "[]"] by (simp)
    then have "ipv6_text h gs = joined ?L @ 58 # 58 # joined []" using z by (simp add: ipv6_text_def)
    moreover have "8 - length ls = k" using gs(1) 2 assms by auto
    ultimately show ?thesis
      using read_ipv6_joined(2) [of ?L "[]"] gs(1) 2 assms by simp
  next
    case 3
    have "insert_groups h None False gs = (joined ?L @ 58 # 58 # joined ?R, True)"
      using pre 3 insert_zeros [of h j rs] insert_gap [OF 3(3), of h ws] by (simp)
    then have "ipv6_text h gs = joined ?L @ 58 # 58 # joined ?R" by (simp add: ipv6_text_def)
    moreover have "8 - length ls - length rs = k" "length ls + length rs < 8" using gs(1) 3(1) assms by auto
    ultimately show ?thesis
      using read_ipv6_joined(2) [of ?L ?R] gs(1) by simp
  qed
qed

section \<open>The bytes of an address\<close>

text \<open>The groups of an IPv6 address are in network order, whatever the host's is.\<close>

fun net_groups :: "u8 list \<Rightarrow> nat list" where
  "net_groups (x # y # bs) = of_mem_bytes BIG_ENDIAN [x, y] # net_groups bs"
| "net_groups bs = []"

lemma group_value_bytes: "group_value h (of_nat (of_mem_bytes h [x, y])) = of_mem_bytes BIG_ENDIAN [x, y]"
proof -
  have "of_le_bytes [b, c] < 65536" for b c :: u8 using of_le_bytes_bound [of "[b, c]"] by simp
  then have w: "unat (of_nat (of_le_bytes [b, c]) :: u16) = of_le_bytes [b, c]" for b c :: u8
    by (simp add: unat_of_nat take_bit_eq_mod del: of_le_bytes.simps)
  have "le_bytes 2 (of_le_bytes [x, y]) = [x, y]" by (rule le_bytes_of_le_bytes) simp
  then have "byteswap_bytes 2 (of_le_bytes [x, y]) = of_le_bytes [y, x]" by (simp add: byteswap_bytes_def del: of_le_bytes.simps)
  then show ?thesis
    using w by (cases h) (simp_all add: group_value_def of_mem_bytes_def byteswapOnLittleEndian16_def unat_byteswap del: of_le_bytes.simps)
qed

lemma groups_net: "map (group_value h) (groups h bs) = net_groups bs"
  by (induction h bs rule: groups.induct) (simp_all add: group_value_bytes)

lemma length_groups: "length (groups h bs) = length bs div 2"
  by (induction h bs rule: groups.induct) simp_all

lemma insert_groups_text: "93 \<notin> set (fst (insert_groups h prev used gs))"
proof (induction gs arbitrary: prev used)
  case (Cons w ws)
  have "fst (insert_groups h prev used (w # ws)) =
      (if w = 0 \<and> \<not> used then fst (insert_groups h (Some w) used ws)
       else (if prev = Some 0 \<and> \<not> used then [58] else []) @ (if prev \<noteq> None then [58] else [])
         @ hexadecimal (unat (byteswapOnLittleEndian16 h w))
         @ fst (insert_groups h (Some w) (used \<or> prev = Some 0 \<and> \<not> used) ws))"
    by (simp add: Let_def case_prod_beta)
  then show ?case using Cons [of "Some w"] Cons [of "Some 0" False] by auto
qed simp

lemma ipv6_text_bracket: "93 \<notin> set (ipv6_text h gs)"
  using insert_groups_text [of h None False gs] by (cases "insert_groups h None False gs") (simp add: ipv6_text_def)

lemma IPv6Address_insert_text:
  "IPv6Address_insert h a = 91 # ipv6_text h (groups h (sin6_addr a))
     @ 93 # 58 # decimal (unat (byteswapOnLittleEndian16 h (sin6_port a)))"
  by (simp add: IPv6Address_insert_def ipv6_text_def Let_def split: prod.splits)

lemma lookup_split_ipv6:
  assumes "93 \<notin> set t" "t \<noteq> []"
  shows "lookup_split (91 # t @ 93 # 58 # port) = (t, Some port)"
proof -
  have "takeWhile (\<lambda>x. x \<noteq> 93) (t @ 93 # 58 # port) = t" "dropWhile (\<lambda>x. x \<noteq> 93) (t @ 93 # 58 # port) = 93 # 58 # port"
    using assms(1) by (induction t) auto
  then show ?thesis using assms(2) by (simp add: lookup_split_def memchr_def)
qed

lemma lookup_split_ipv4:
  assumes "58 \<notin> set t" "58 \<notin> set port" "t \<noteq> []" "hd t \<noteq> 91"
  shows "lookup_split (t @ 58 # port) = (t, Some port)"
proof -
  have "takeWhile (\<lambda>x. x \<noteq> 58) (t @ 58 # port) = t" "dropWhile (\<lambda>x. x \<noteq> 58) (t @ 58 # port) = 58 # port"
    using assms(1) by (induction t) auto
  then show ?thesis using assms(2-4) by (simp add: lookup_split_def memchr_def)
qed

text \<open>The four numbers of an IPv4 address.\<close>

definition ipv4_text :: "u32 \<Rightarrow> str" where
  "ipv4_text addr = decimal (unat (drop_bit 24 addr AND 0xff)) @ 46 # decimal (unat (drop_bit 16 addr AND 0xff))
     @ 46 # decimal (unat (drop_bit 8 addr AND 0xff)) @ 46 # decimal (unat (addr AND 0xff))"

lemma IPv4Address_insert_text:
  "IPv4Address_insert h a = ipv4_text (byteswapOnLittleEndian32 h (sin_addr a))
     @ 58 # decimal (unat (byteswapOnLittleEndian16 h (sin_port a)))"
  by (simp add: IPv4Address_insert_def ipv4_text_def Let_def)

lemma unat_and_ff: "unat (w AND 0xff) = unat w mod 256" for w :: u32
proof -
  have "w AND 0xff = take_bit 8 w" by (simp add: take_bit_eq_mask mask_eq_exp_minus_1)
  then show ?thesis by (simp add: unsigned_take_bit_eq take_bit_eq_mod unat_mod)
qed

lemma net_bytes: "mem_bytes h 4 (unat a) = rev (le_bytes 4 (unat (byteswapOnLittleEndian32 h a)))"
  by (cases h) (simp_all add: mem_bytes_def byteswapOnLittleEndian32_def unat_byteswap del: le_bytes_numeral)

lemma ipv4_text_read: "read_ipv4 (ipv4_text addr) = Some (map unat (rev (le_bytes 4 (unat addr))))"
  by (simp add: ipv4_text_def read_ipv4_def fields_more fields_one read_decimal unat_and_ff unat_drop_bit_div unat_of_nat_u8
      div_mult2_eq [symmetric])

lemma ipv4_text_plain: "58 \<notin> set (ipv4_text addr)" "ipv4_text addr \<noteq> []" "hd (ipv4_text addr) \<noteq> 91"
  by (simp_all add: ipv4_text_def)

text \<open>
  C14. What is printed of an IPv4 or IPv6 address, \<^verbatim>\<open>Lookup\<close> takes apart into a host and a service, and read by the
  rules of the dotted and of the compressed notation the host is the bytes of the address in network order and the
  service is its port, on hosts of either byte order; the address of \<^verbatim>\<open>0.0.0.0\<close> or \<^verbatim>\<open>::\<close>, zeros at the
  start, in the middle, in several places or at the end included.
\<close>

theorem printed_address_looked_up:
  assumes "length (sin6_addr b) = 16"
  shows "(\<exists>host service. lookup_split (addr_toString h (IPv4Address a)) = (host, Some service)
      \<and> read_ipv4 host = Some (map unat (mem_bytes h 4 (unat (sin_addr a))))
      \<and> read_number 10 service = map_option unat (getPort h (IPv4Address a)))
    \<and> (\<exists>host service. lookup_split (addr_toString h (IPv6Address b)) = (host, Some service)
      \<and> read_ipv6 host = Some (net_groups (sin6_addr b))
      \<and> read_number 10 service = map_option unat (getPort h (IPv6Address b)))"
proof
  have port: "unat (ucast p :: u32) = unat p" for p :: u16
    using unat_bound [of p] by (simp add: unsigned_ucast_eq take_bit_nat_eq_self_iff)
  show "\<exists>host service. lookup_split (addr_toString h (IPv4Address a)) = (host, Some service)
      \<and> read_ipv4 host = Some (map unat (mem_bytes h 4 (unat (sin_addr a))))
      \<and> read_number 10 service = map_option unat (getPort h (IPv4Address a))"
    by (simp add: addr_toString_def IPv4Address_insert_text lookup_split_ipv4 ipv4_text_plain ipv4_text_read net_bytes
        read_decimal port del: le_bytes_numeral)
  have "length (groups h (sin6_addr b)) = 8" using assms by (simp add: length_groups)
  note ip = ipv6_text_read [OF this]
  have "ipv6_text h (groups h (sin6_addr b)) \<noteq> []"
    using ip [of h] by (intro notI) (simp add: read_ipv6_def read_groups_def)
  from lookup_split_ipv6 [OF ipv6_text_bracket this] ip
  show "\<exists>host service. lookup_split (addr_toString h (IPv6Address b)) = (host, Some service)
      \<and> read_ipv6 host = Some (net_groups (sin6_addr b))
      \<and> read_number 10 service = map_option unat (getPort h (IPv6Address b))"
    by (simp add: addr_toString_def IPv6Address_insert_text groups_net read_decimal port)
qed

text \<open>For the witness: \<^verbatim>\<open>[2001:db8::1:0:2]:8080\<close> on a little-endian host.\<close>

definition documentation_address :: sockaddr_in6 where
  "documentation_address = IPv6Address_of LITTLE_ENDIAN
     [0x20, 0x01, 0x0d, 0xb8, 0, 0, 0, 0, 0, 0, 0, 1, 0, 0, 0, 2] 8080"

theorem printed_address_looked_up_witness:
  "\<exists>host service. lookup_split (addr_toString LITTLE_ENDIAN (IPv6Address documentation_address)) = (host, Some service)
    \<and> read_ipv6 host = Some [0x2001, 0xdb8, 0, 0, 0, 1, 0, 2] \<and> read_number 10 service = Some 8080"
proof -
  have "length (sin6_addr documentation_address) = 16"
    by (simp add: documentation_address_def IPv6Address_of_def)
  moreover have "net_groups (sin6_addr documentation_address) = [0x2001, 0xdb8, 0, 0, 0, 1, 0, 2]"
    by (simp add: documentation_address_def IPv6Address_of_def of_mem_bytes_def)
  moreover have "map_option unat (getPort LITTLE_ENDIAN (IPv6Address documentation_address)) = Some 8080"
    by (simp add: documentation_address_def IPv6Address_of_def)
  ultimately show ?thesis
    using printed_address_looked_up [of documentation_address LITTLE_ENDIAN] by simp
qed

section \<open>The order of addresses\<close>

lemma addr_wf_len: "addr_wf a \<Longrightarrow> getAddrLen a \<le> length (getAddr h a)"
  by (cases a) simp_all

text \<open>\<^verbatim>\<open>memcmp\<close> over the common length and then the lengths: the lexicographic order.\<close>

lemma memcmp_lexordp:
  "ord_class.lexordp xs ys \<longleftrightarrow> memcmp xs ys < 0 \<or> memcmp xs ys = 0 \<and> length xs < length ys"
  by (induction xs ys rule: memcmp.induct) (auto simp: word_less_def word_uint_eq_iff neq_Nil_conv)

lemma memcmp_take: "memcmp (take (min (length xs) (length ys)) xs) (take (min (length xs) (length ys)) ys) = memcmp xs ys"
  by (induction xs ys rule: memcmp.induct) simp_all

lemma memcmp_eq: "length xs = length ys \<Longrightarrow> memcmp xs ys = 0 \<longleftrightarrow> xs = ys"
  by (induction xs ys rule: memcmp.induct) (auto simp: word_uint_eq_iff)

definition addr_bytes :: "endian \<Rightarrow> address \<Rightarrow> u8 list" where
  "addr_bytes h a = take (getAddrLen a) (getAddr h a)"

lemma addr_less_lexordp:
  assumes "addr_wf a" "addr_wf b"
  shows "addr_less h a b \<longleftrightarrow> ord_class.lexordp (addr_bytes h a) (addr_bytes h b)"
proof -
  have len: "length (addr_bytes h a) = getAddrLen a" "length (addr_bytes h b) = getAddrLen b"
    using addr_wf_len [OF assms(1), of h] addr_wf_len [OF assms(2), of h] by (simp_all add: addr_bytes_def)
  have "take (min (getAddrLen a) (getAddrLen b)) (getAddr h a) = take (min (getAddrLen a) (getAddrLen b)) (addr_bytes h a)"
    "take (min (getAddrLen a) (getAddrLen b)) (getAddr h b) = take (min (getAddrLen a) (getAddrLen b)) (addr_bytes h b)"
    by (simp_all add: addr_bytes_def)
  then show ?thesis
    using memcmp_take [of "addr_bytes h a" "addr_bytes h b"] len
    by (auto simp: addr_less_def Let_def memcmp_lexordp)
qed

lemma addr_eq_bytes:
  assumes "addr_wf a" "addr_wf b"
  shows "addr_eq h a b \<longleftrightarrow> addr_bytes h a = addr_bytes h b"
proof -
  have len: "length (addr_bytes h a) = getAddrLen a" "length (addr_bytes h b) = getAddrLen b"
    using addr_wf_len [OF assms(1), of h] addr_wf_len [OF assms(2), of h] by (simp_all add: addr_bytes_def)
  show ?thesis
  proof (cases "getAddrLen a = getAddrLen b")
    case True
    then show ?thesis using memcmp_eq [of "addr_bytes h a" "addr_bytes h b"] len by (simp add: addr_eq_def addr_bytes_def)
  next
    case False
    then show ?thesis using len by (auto simp: addr_eq_def)
  qed
qed

text \<open>Exactly one of the three holds of two addresses, and the order is transitive.\<close>

lemma addr_order:
  assumes "addr_wf a" "addr_wf b" "addr_wf c"
  shows "addr_less h a b \<longleftrightarrow> \<not> addr_eq h a b \<and> \<not> addr_less h b a"
    and "addr_less h a b \<Longrightarrow> addr_less h b c \<Longrightarrow> addr_less h a c"
  using lexordp_linear [of "addr_bytes h a" "addr_bytes h b"] lexordp_antisym [of "addr_bytes h a" "addr_bytes h b"]
    lexordp_irreflexive' [of "addr_bytes h a"] lexordp_trans [of "addr_bytes h a" "addr_bytes h b" "addr_bytes h c"]
  by (auto simp: addr_less_lexordp addr_eq_bytes assms lexordp_irreflexive')

section \<open>Where the code falls short\<close>

text \<open>
  A host that is an IPv6 address without brackets has several colons: it is not split, but \<^verbatim>\<open>service\<close> is left at its
  first colon and handed to \<^verbatim>\<open>getaddrinfo\<close>.
\<close>

lemma service_of_raw_ipv6: "lookup_split (chars ''fe80::1'') = (chars ''fe80::1'', Some (chars ''::1''))"
  by (simp add: lookup_split_def memchr_def)

end
