(* ===== verification/HttpTarget.thy ===== *)
theory HttpTarget
  imports HttpMachine
begin

text \<open>
  The states of the request machine that read the target: from each of them a character leads to another one of
  them, or it is the space behind the target, or the request is rejected.
\<close>

section \<open>The states of the target\<close>

text \<open>
  A character of a target: printing and no space, or a byte above 127, which is negative, or one of the five control
  characters that the grammar of the IPv6 addresses lets in.
\<close>

definition target_char :: "int \<Rightarrow> bool" where
  "target_char c \<longleftrightarrow> c < 0 \<or> 2 \<le> c \<and> c \<le> 6 \<or> 33 \<le> c \<and> c \<le> 126"

fun tgt :: "int \<Rightarrow> label \<Rightarrow> bool" where
  "tgt c (St n) \<longleftrightarrow> n = 0 \<or> target_char c \<and> 19 \<le> n \<and> n \<le> 174"
| "tgt c (Tr k) \<longleftrightarrow> (if k \<in> {6, 37, 44, 47, 54, 58} then c = 32
     else target_char c \<and> k \<in> {7, 8, 9, 10, 11, 12, 39, 42, 43, 45, 53, 55, 56, 59, 203, 204})"

lemma tgt_if: "tgt c (if b then x else y) \<longleftrightarrow> (b \<longrightarrow> tgt c x) \<and> (\<not> b \<longrightarrow> tgt c y)"
  by simp

lemma tgt_ifI: "(b \<Longrightarrow> tgt c x) \<Longrightarrow> (\<not> b \<Longrightarrow> tgt c y) \<Longrightarrow> tgt c (if b then x else y)"
  by simp

lemma tgt_eqI: "(c = k \<Longrightarrow> tgt k x) \<Longrightarrow> tgt c y \<Longrightarrow> tgt c (if c = k then x else y)"
  by simp

lemma widec_cases:
  "c \<in> {94, 123, 125} \<or> widec r c = c"
  by (auto simp: widec_def)

lemma tgt_cases:
   "tgt c (http_case_22 r c)" "tgt c (http_case_23 r c)" "tgt c (http_case_24 r c)" "tgt c (http_case_25 r c)"
    "tgt c (http_case_27 r c)" "tgt c (http_case_28 r c)" "tgt c (http_case_31 r c)" "tgt c (http_case_32 r c)"
    "tgt c (http_case_36 r c)" "tgt c (http_case_37 r c)" "tgt c (http_case_40 r c)" "tgt c (http_case_41 r c)"
    "tgt c (http_case_44 r c)" "tgt c (http_case_45 r c)" "tgt c (http_case_46 r c)" "tgt c (http_case_47 r c)"
    "tgt c (http_case_48 r c)" "tgt c (http_case_49 r c)" "tgt c (http_case_50 r c)" "tgt c (http_case_51 r c)"
    "tgt c (http_case_52 r c)" "tgt c (http_case_53 r c)" "tgt c (http_case_54 r c)" "tgt c (http_case_55 r c)"
    "tgt c (http_case_56 r c)" "tgt c (http_case_57 r c)" "tgt c (http_case_58 r c)" "tgt c (http_case_59 r c)"
    "tgt c (http_case_60 r c)" "tgt c (http_case_61 r c)" "tgt c (http_case_62 r c)" "tgt c (http_case_63 r c)"
    "tgt c (http_case_64 r c)" "tgt c (http_case_65 r c)" "tgt c (http_case_66 r c)" "tgt c (http_case_67 r c)"
    "tgt c (http_case_68 r c)" "tgt c (http_case_69 r c)" "tgt c (http_case_70 r c)" "tgt c (http_case_71 r c)"
    "tgt c (http_case_72 r c)" "tgt c (http_case_73 r c)" "tgt c (http_case_74 r c)" "tgt c (http_case_75 r c)"
    "tgt c (http_case_76 r c)" "tgt c (http_case_77 r c)" "tgt c (http_case_78 r c)" "tgt c (http_case_79 r c)"
    "tgt c (http_case_80 r c)" "tgt c (http_case_81 r c)" "tgt c (http_case_82 r c)" "tgt c (http_case_83 r c)"
    "tgt c (http_case_84 r c)" "tgt c (http_case_85 r c)" "tgt c (http_case_86 r c)" "tgt c (http_case_87 r c)"
    "tgt c (http_case_88 r c)" "tgt c (http_case_89 r c)" "tgt c (http_case_90 r c)" "tgt c (http_case_91 r c)"
    "tgt c (http_case_92 r c)" "tgt c (http_case_93 r c)" "tgt c (http_case_94 r c)" "tgt c (http_case_95 r c)"
    "tgt c (http_case_96 r c)" "tgt c (http_case_97 r c)" "tgt c (http_case_98 r c)" "tgt c (http_case_99 r c)"
    "tgt c (http_case_100 r c)" "tgt c (http_case_101 r c)" "tgt c (http_case_102 r c)" "tgt c (http_case_103 r c)"
    "tgt c (http_case_104 r c)" "tgt c (http_case_105 r c)" "tgt c (http_case_106 r c)" "tgt c (http_case_107 r c)"
    "tgt c (http_case_108 r c)" "tgt c (http_case_109 r c)" "tgt c (http_case_110 r c)" "tgt c (http_case_111 r c)"
    "tgt c (http_case_112 r c)" "tgt c (http_case_113 r c)" "tgt c (http_case_114 r c)" "tgt c (http_case_115 r c)"
    "tgt c (http_case_116 r c)" "tgt c (http_case_117 r c)" "tgt c (http_case_118 r c)" "tgt c (http_case_119 r c)"
    "tgt c (http_case_120 r c)" "tgt c (http_case_121 r c)" "tgt c (http_case_122 r c)" "tgt c (http_case_123 r c)"
    "tgt c (http_case_124 r c)" "tgt c (http_case_125 r c)" "tgt c (http_case_126 r c)" "tgt c (http_case_127 r c)"
    "tgt c (http_case_128 r c)" "tgt c (http_case_129 r c)" "tgt c (http_case_130 r c)" "tgt c (http_case_131 r c)"
    "tgt c (http_case_132 r c)" "tgt c (http_case_133 r c)" "tgt c (http_case_134 r c)" "tgt c (http_case_135 r c)"
    "tgt c (http_case_136 r c)" "tgt c (http_case_137 r c)" "tgt c (http_case_138 r c)" "tgt c (http_case_139 r c)"
    "tgt c (http_case_140 r c)" "tgt c (http_case_141 r c)" "tgt c (http_case_142 r c)" "tgt c (http_case_143 r c)"
    "tgt c (http_case_144 r c)" "tgt c (http_case_145 r c)" "tgt c (http_case_146 r c)" "tgt c (http_case_147 r c)"
    "tgt c (http_case_148 r c)" "tgt c (http_case_149 r c)" "tgt c (http_case_150 r c)" "tgt c (http_case_151 r c)"
    "tgt c (http_case_152 r c)" "tgt c (http_case_153 r c)" "tgt c (http_case_154 r c)" "tgt c (http_case_155 r c)"
    "tgt c (http_case_156 r c)" "tgt c (http_case_157 r c)" "tgt c (http_case_158 r c)" "tgt c (http_case_159 r c)"
    "tgt c (http_case_160 r c)" "tgt c (http_case_161 r c)" "tgt c (http_case_162 r c)" "tgt c (http_case_163 r c)"
    "tgt c (http_case_164 r c)" "tgt c (http_case_165 r c)" "tgt c (http_case_166 r c)" "tgt c (http_case_167 r c)"
    "tgt c (http_case_168 r c)" "tgt c (http_case_169 r c)" "tgt c (http_case_170 r c)"
  unfolding http_case_22_def http_case_23_def http_case_24_def http_case_25_def http_case_27_def http_case_28_def
    http_case_31_def http_case_32_def http_case_36_def http_case_37_def http_case_40_def http_case_41_def
    http_case_44_def http_case_45_def http_case_46_def http_case_47_def http_case_48_def http_case_49_def
    http_case_50_def http_case_51_def http_case_52_def http_case_53_def http_case_54_def http_case_55_def
    http_case_56_def http_case_57_def http_case_58_def http_case_59_def http_case_60_def http_case_61_def
    http_case_62_def http_case_63_def http_case_64_def http_case_65_def http_case_66_def http_case_67_def
    http_case_68_def http_case_69_def http_case_70_def http_case_71_def http_case_72_def http_case_73_def
    http_case_74_def http_case_75_def http_case_76_def http_case_77_def http_case_78_def http_case_79_def
    http_case_80_def http_case_81_def http_case_82_def http_case_83_def http_case_84_def http_case_85_def
    http_case_86_def http_case_87_def http_case_88_def http_case_89_def http_case_90_def http_case_91_def
    http_case_92_def http_case_93_def http_case_94_def http_case_95_def http_case_96_def http_case_97_def
    http_case_98_def http_case_99_def http_case_100_def http_case_101_def http_case_102_def http_case_103_def
    http_case_104_def http_case_105_def http_case_106_def http_case_107_def http_case_108_def http_case_109_def
    http_case_110_def http_case_111_def http_case_112_def http_case_113_def http_case_114_def http_case_115_def
    http_case_116_def http_case_117_def http_case_118_def http_case_119_def http_case_120_def http_case_121_def
    http_case_122_def http_case_123_def http_case_124_def http_case_125_def http_case_126_def http_case_127_def
    http_case_128_def http_case_129_def http_case_130_def http_case_131_def http_case_132_def http_case_133_def
    http_case_134_def http_case_135_def http_case_136_def http_case_137_def http_case_138_def http_case_139_def
    http_case_140_def http_case_141_def http_case_142_def http_case_143_def http_case_144_def http_case_145_def
    http_case_146_def http_case_147_def http_case_148_def http_case_149_def http_case_150_def http_case_151_def
    http_case_152_def http_case_153_def http_case_154_def http_case_155_def http_case_156_def http_case_157_def
    http_case_158_def http_case_159_def http_case_160_def http_case_161_def http_case_162_def http_case_163_def
    http_case_164_def http_case_165_def http_case_166_def http_case_167_def http_case_168_def http_case_169_def
    http_case_170_def
  by (rule tgt_eqI tgt_ifI | simp add: target_char_def)+

lemma tgt_special_cases:
  assumes "c \<in> {94, 123, 125}"
  shows "tgt c (http_case_3 r c)" "tgt c (http_case_19 r c)" "tgt c (http_case_20 r c)" "tgt c (http_case_21 r c)"
    "tgt c (http_case_26 r c)" "tgt c (http_case_29 r c)" "tgt c (http_case_30 r c)" "tgt c (http_case_33 r c)"
    "tgt c (http_case_34 r c)" "tgt c (http_case_35 r c)" "tgt c (http_case_38 r c)" "tgt c (http_case_39 r c)"
    "tgt c (http_case_42 r c)" "tgt c (http_case_43 r c)" "tgt c (http_case_171 r c)" "tgt c (http_case_172 r c)"
    "tgt c (http_case_173 r c)" "tgt c (http_case_174 r c)"
  using assms
  by (elim insertE emptyE; cases r; simp add: widec_def target_char_def
   http_case_3_def http_case_19_def http_case_20_def http_case_21_def http_case_26_def http_case_29_def
    http_case_30_def http_case_33_def http_case_34_def http_case_35_def http_case_38_def http_case_39_def
    http_case_42_def http_case_43_def http_case_171_def http_case_172_def http_case_173_def http_case_174_def)+

lemma tgt_same_1:
  assumes "widec r c = c" "c < 128"
  shows "tgt c (http_case_3 r c)" "tgt c (http_case_19 r c)" "tgt c (http_case_20 r c)"
  unfolding Let_def assms(1) http_case_3_def http_case_19_def http_case_20_def
  using assms(2) by (rule tgt_eqI tgt_ifI | simp add: target_char_def)+

lemma tgt_same_2:
  assumes "widec r c = c" "c < 128"
  shows "tgt c (http_case_21 r c)" "tgt c (http_case_26 r c)" "tgt c (http_case_29 r c)"
  unfolding Let_def assms(1) http_case_21_def http_case_26_def http_case_29_def
  using assms(2) by (rule tgt_eqI tgt_ifI | simp add: target_char_def)+

lemma tgt_same_3:
  assumes "widec r c = c" "c < 128"
  shows "tgt c (http_case_30 r c)" "tgt c (http_case_33 r c)" "tgt c (http_case_34 r c)"
  unfolding Let_def assms(1) http_case_30_def http_case_33_def http_case_34_def
  using assms(2) by (rule tgt_eqI tgt_ifI | simp add: target_char_def)+

lemma tgt_same_4:
  assumes "widec r c = c" "c < 128"
  shows "tgt c (http_case_35 r c)" "tgt c (http_case_38 r c)" "tgt c (http_case_39 r c)"
  unfolding Let_def assms(1) http_case_35_def http_case_38_def http_case_39_def
  using assms(2) by (rule tgt_eqI tgt_ifI | simp add: target_char_def)+

lemma tgt_same_5:
  assumes "widec r c = c" "c < 128"
  shows "tgt c (http_case_42 r c)" "tgt c (http_case_43 r c)" "tgt c (http_case_171 r c)"
  unfolding Let_def assms(1) http_case_42_def http_case_43_def http_case_171_def
  using assms(2) by (rule tgt_eqI tgt_ifI | simp add: target_char_def)+

lemma tgt_same_6:
  assumes "widec r c = c" "c < 128"
  shows "tgt c (http_case_172 r c)" "tgt c (http_case_173 r c)" "tgt c (http_case_174 r c)"
  unfolding Let_def assms(1) http_case_172_def http_case_173_def http_case_174_def
  using assms(2) by (rule tgt_eqI tgt_ifI | simp add: target_char_def)+

lemmas tgt_same_cases = tgt_same_1 tgt_same_2 tgt_same_3 tgt_same_4 tgt_same_5 tgt_same_6

lemma dispatch_tgt:
  assumes "cs = 3 \<or> 19 \<le> cs \<and> cs \<le> 174" "c < 128"
  shows "tgt c (http_dispatch r cs c)"
proof -
  note sp = tgt_special_cases [of c r] and sm = tgt_same_cases [OF _ assms(2), of r]
  have wide: "tgt c (http_case_3 r c)" "tgt c (http_case_19 r c)" "tgt c (http_case_20 r c)" "tgt c (http_case_21 r c)"
    "tgt c (http_case_26 r c)" "tgt c (http_case_29 r c)" "tgt c (http_case_30 r c)" "tgt c (http_case_33 r c)"
    "tgt c (http_case_34 r c)" "tgt c (http_case_35 r c)" "tgt c (http_case_38 r c)" "tgt c (http_case_39 r c)"
    "tgt c (http_case_42 r c)" "tgt c (http_case_43 r c)" "tgt c (http_case_171 r c)" "tgt c (http_case_172 r c)"
    "tgt c (http_case_173 r c)" "tgt c (http_case_174 r c)"
    by (rule disjE [OF widec_cases [of c r]], rule sp, assumption, rule sm, assumption)+
  have "tgt c (http_dispatch r cs c)" if cs: "19 \<le> cs" "cs \<le> 174"
    unfolding http_dispatch_def
    by (subst if_P, use cs in linarith, intro tgt_ifI tgt_cases wide; (use cs in linarith))
  moreover have "tgt c (http_dispatch r 3 c)" using wide(1) by (simp add: http_dispatch_def)
  ultimately show ?thesis using assms(1) by blast
qed

end
