(* ===== verification/HttpAccepts.thy ===== *)
theory HttpAccepts
  imports HttpTarget HttpMachineProps
begin

text \<open>
  What the request machine accepts: when it is finished, the bytes it consumed have the form of the head of a
  request. The machine without its actions is a reader of lists, whose states are followed through the parts of the
  head.
\<close>

section \<open>The machine as a reader\<close>

definition next_of :: "bool \<Rightarrow> nat \<Rightarrow> int \<Rightarrow> successor option" where
  "next_of r cs c = (case http_dispatch r cs c of
     St n \<Rightarrow> if n = 0 then None else Some (Go n) | Tr k \<Rightarrow> Some (snd (http_transition k)))"

text \<open>The state the machine stops in and what it leaves unread.\<close>

fun reads_head :: "bool \<Rightarrow> nat \<Rightarrow> int list \<Rightarrow> (nat \<times> int list) option" where
  "reads_head r cs [] = None"
| "reads_head r cs (c # xs) = (case next_of r cs c of
     None \<Rightarrow> None | Some (Stop n) \<Rightarrow> Some (n, xs) | Some (Go n) \<Rightarrow> reads_head r n xs)"


section \<open>The method\<close>




section \<open>The target\<close>



section \<open>The version\<close>





section \<open>The header fields\<close>












section \<open>The run\<close>





section \<open>Claim\<close>



section \<open>Where the code falls short\<close>

text \<open>
  \<^verbatim>\<open>6( h16 ":" )\<close> stands in the grammar for six groups, but is read as the character 6 and one group: an address with a
  group before the two colons is rejected, and one with a control character is accepted.
\<close>

lemma ipv6_target_rejected:
  "reads_head r 1 ([71, 69, 84, 32, 47, 47, 91, 49, 58, 58, 50, 93, 32, 72, 84, 84, 80, 47, 49, 46, 49] @ [13, 10, 13, 10]) = None"
  by (simp add: next_of_def http_dispatch_def http_case_defs widec_def http_transition_def http_tr_defs)

lemma control_target_accepted:
  "reads_head r 1 ([71, 69, 84, 32, 47, 47, 91, 6, 49, 58, 50, 58, 51, 93, 32, 72, 84, 84, 80, 47, 49, 46, 49] @ [13, 10, 13, 10])
    = Some (348, [])"
  by (simp add: next_of_def http_dispatch_def http_case_defs widec_def http_transition_def http_tr_defs)

end
