(* ===== verification/Exchange.thy ===== *)
theory Exchange
  imports ResponseRoundTrip
begin

text \<open>
  A whole exchange: what a server writes during a conversation, read with the response parser of the repository, are
  the answers of its servlets.
\<close>

section \<open>Reading the answers\<close>






section \<open>Claim\<close>






end
