(* ===== verification/Runtime.thy ===== *)
theory Runtime
  imports IOManagerProps Hook
begin

text \<open>
  What a thread keeps of its own, and how the runtime begins and ends: the thread-local variables of
  \<^verbatim>\<open>server/scheduler.cc\<close> and \<^verbatim>\<open>server/hook.cc\<close>, the beginning of \<^verbatim>\<open>Scheduler::run\<close>, the lookup of the hooked
  functions, \<^verbatim>\<open>Scheduler::stop\<close> on an \<^verbatim>\<open>IOManager\<close> and the destructors, and the printing of epoll's operations and
  events. It is about who is the scheduler of a thread, before, during and after the life of the scheduler.
\<close>

section \<open>The variables of a thread\<close>

text \<open>A null pointer is \<open>None\<close>; schedulers and fibers are named by their addresses.\<close>

record thread_vars =
  t_scheduler :: "nat option"
  t_scheduler_fiber :: "nat option"
  t_hook_enable :: bool

definition new_thread_vars :: thread_vars where
  "new_thread_vars = \<lparr>t_scheduler = None, t_scheduler_fiber = None, t_hook_enable = False\<rparr>"

definition Scheduler_GetThis :: "thread_vars \<Rightarrow> nat option" where
  "Scheduler_GetThis t = t_scheduler t"

definition GetMainFiber :: "thread_vars \<Rightarrow> nat option" where
  "GetMainFiber t = t_scheduler_fiber t"

definition setThis :: "nat \<Rightarrow> thread_vars \<Rightarrow> thread_vars" where
  "setThis me t = t\<lparr>t_scheduler := Some me\<rparr>"

definition is_hook_enable :: "thread_vars \<Rightarrow> bool" where
  "is_hook_enable t = t_hook_enable t"

definition set_hook_enable :: "bool \<Rightarrow> thread_vars \<Rightarrow> thread_vars" where
  "set_hook_enable flag t = t\<lparr>t_hook_enable := flag\<rparr>"

text \<open>\<open>is_iom\<close> says which schedulers are objects of the class \<^verbatim>\<open>IOManager\<close>: the \<^verbatim>\<open>dynamic_cast\<close> gives null for the others.\<close>

definition IOManager_GetThis :: "(nat \<Rightarrow> bool) \<Rightarrow> thread_vars \<Rightarrow> nat option" where
  "IOManager_GetThis is_iom t =
     (case Scheduler_GetThis t of None \<Rightarrow> None | Some s \<Rightarrow> if is_iom s then Some s else None)"

section \<open>The life of a scheduler\<close>

text \<open>
  The constructor on the thread \<open>tid\<close>, for the object at \<open>me\<close>; \<open>root\<close> is the address of the new root fiber. The fields of
  the object are those of the theory \<open>Scheduler\<close>.
\<close>

definition Scheduler_here :: "nat \<Rightarrow> nat \<Rightarrow> bool \<Rightarrow> int \<Rightarrow> nat \<Rightarrow> thread_vars
    \<Rightarrow> (sched_error + 'f scheduler) \<times> thread_vars" where
  "Scheduler_here me threads use_caller tid root t =
     (case Scheduler threads use_caller (Scheduler_GetThis t \<noteq> None) tid root of
        Inl e \<Rightarrow> (Inl e, t)
      | Inr s \<Rightarrow> (Inr s, if use_caller then t\<lparr>t_scheduler := Some me, t_scheduler_fiber := Some root\<rparr> else t))"

text \<open>The beginning of \<^verbatim>\<open>run\<close> on the thread \<open>tid\<close>, whose main fiber has the address \<open>main_fiber\<close>.\<close>

definition run_enter :: "nat \<Rightarrow> int \<Rightarrow> nat \<Rightarrow> 'f scheduler \<Rightarrow> thread_vars \<Rightarrow> thread_vars" where
  "run_enter me tid main_fiber s t =
     (let t1 = setThis me (set_hook_enable True t)
      in if tid \<noteq> m_rootThread s then t1\<lparr>t_scheduler_fiber := Some main_fiber\<rparr> else t1)"

text \<open>
  \<^verbatim>\<open>Scheduler::idle\<close>: what \<^verbatim>\<open>stopping\<close> sees whenever the idle fiber is resumed, and how often the fiber has
  yielded when it returns. \<open>None\<close> says that it still waits.
\<close>

fun base_idle :: "'f scheduler list \<Rightarrow> nat option" where
  "base_idle [] = None"
| "base_idle (s # seen) = (if stopping s then Some 0 else map_option Suc (base_idle seen))"

definition Scheduler_dtor :: "nat \<Rightarrow> 'f scheduler \<Rightarrow> thread_vars \<Rightarrow> (sched_error + unit) \<times> thread_vars" where
  "Scheduler_dtor me s t =
     (if \<not> m_stopping s then (Inl SchedAssert, t)
      else (Inr (), if Scheduler_GetThis t = Some me then t\<lparr>t_scheduler := None\<rparr> else t))"

text \<open>
  \<^verbatim>\<open>Scheduler::stop\<close> with the virtual functions of \<^verbatim>\<open>IOManager\<close>, up to the resumption of the root fiber and the joins:
  the threads to join. \<open>mine\<close> says whether the calling thread's scheduler is this one.
\<close>

definition io_stop :: "u64 \<Rightarrow> bool \<Rightarrow> ('f, int list) io" where
  "io_stop now mine s =
     (case io_stopping now s of ((done_all, timeout), s1) \<Rightarrow>
        if done_all then (Inr [], s1)
        else
          let sc = (scheds s1 (self s1))\<lparr>m_stopping := True\<rparr>; s2 = s1\<lparr>scheds := (scheds s1)(self s1 := sc)\<rparr>
          in if m_useCaller sc \<noteq> mine then (Inl IoAssert, s2)
             else
               let s3 = (io_tickle ^^ (m_threadCount sc + (if m_rootFiber sc \<noteq> None then 1 else 0))) s2
               in (Inr (m_threads sc), s3\<lparr>scheds := (scheds s3)(self s3 := (scheds s3 (self s3))\<lparr>m_threads := []\<rparr>)\<rparr>))"

text \<open>
  \<^verbatim>\<open>~IOManager\<close> and then \<^verbatim>\<open>~Scheduler\<close>, on a thread with the variables \<open>t\<close>: the descriptor contexts that are deleted, in
  their order. \<open>rest\<close> is what the root fiber and the other threads do to the manager until the joins return.
\<close>

definition IOManager_dtor :: "('f iomanager \<Rightarrow> io_error + 'f iomanager) \<Rightarrow> u64 \<Rightarrow> 'f iomanager \<Rightarrow> thread_vars
    \<Rightarrow> io_error + (nat list \<times> thread_vars)" where
  "IOManager_dtor rest now s t =
     (case io_stop now (Scheduler_GetThis t = Some (self s)) s of
        (Inl e, s1) \<Rightarrow> Inl e
      | (Inr joined, s1) \<Rightarrow>
          (case rest s1 of
             Inl e \<Rightarrow> Inl e
           | Inr s2 \<Rightarrow>
               (case Scheduler_dtor (self s2) (scheds s2 (self s2)) t of
                  (Inl e, t1) \<Rightarrow> Inl IoAssert
                | (Inr u, t1) \<Rightarrow> Inr (m_fdContexts s2, t1))))"

section \<open>The hooked functions\<close>

definition HOOK_FUN :: "string list" where
  "HOOK_FUN = [''sleep'', ''usleep'', ''nanosleep'', ''socket'', ''connect'', ''accept'', ''read'', ''readv'', ''recv'',
     ''recvfrom'', ''recvmsg'', ''write'', ''writev'', ''send'', ''sendto'', ''sendmsg'', ''close'', ''fcntl'', ''ioctl'',
     ''getsockopt'', ''setsockopt'']"

text \<open>The pointers \<^verbatim>\<open>name_f\<close>, the guard inside \<^verbatim>\<open>hook_init\<close>, and the time limit of \<^verbatim>\<open>connect\<close>. \<open>dlsym\<close> is the dynamic linker.\<close>

record hook_vars =
  is_inited :: bool
  fun_f :: "string \<Rightarrow> nat option"
  s_connect_timeout :: u64

definition new_hook_vars :: hook_vars where
  "new_hook_vars = \<lparr>is_inited = False, fun_f = (\<lambda>name. None), s_connect_timeout = - 1\<rparr>"

definition hook_init :: "(string \<Rightarrow> nat option) \<Rightarrow> hook_vars \<Rightarrow> hook_vars" where
  "hook_init dlsym v =
     (if is_inited v then v else v\<lparr>fun_f := fold (\<lambda>name f. f(name := dlsym name)) HOOK_FUN (fun_f v)\<rparr>)"

definition HookIniter :: "(string \<Rightarrow> nat option) \<Rightarrow> hook_vars \<Rightarrow> hook_vars" where
  "HookIniter dlsym v = (hook_init dlsym v)\<lparr>s_connect_timeout := 5000\<rparr>"

text \<open>The first lines of the hooked \<^verbatim>\<open>sleep\<close>: who makes the thread wait.\<close>

datatype sleeper = SleepInKernel | SleepOn nat | SleepOnNull

definition sleep_enter :: "(nat \<Rightarrow> bool) \<Rightarrow> thread_vars \<Rightarrow> sleeper" where
  "sleep_enter is_iom t =
     (if \<not> is_hook_enable t then SleepInKernel
      else case IOManager_GetThis is_iom t of None \<Rightarrow> SleepOnNull | Some m \<Rightarrow> SleepOn m)"

section \<open>What the log prints of epoll\<close>

definition EPOLL_EVENT_NAMES :: "(string \<times> u32) list" where
  "EPOLL_EVENT_NAMES = [(''EPOLLIN'', 0x1), (''EPOLLPRI'', 0x2), (''EPOLLOUT'', 0x4), (''EPOLLRDNORM'', 0x40),
     (''EPOLLRDBAND'', 0x80), (''EPOLLWRNORM'', 0x100), (''EPOLLWRBAND'', 0x200), (''EPOLLMSG'', 0x400), (''EPOLLERR'', 0x8),
     (''EPOLLHUP'', 0x10), (''EPOLLRDHUP'', 0x2000), (''EPOLLONESHOT'', 0x40000000), (''EPOLLET'', 0x80000000)]"

fun events_loop :: "(string \<times> u32) list \<Rightarrow> u32 \<Rightarrow> bool \<Rightarrow> string \<Rightarrow> string" where
  "events_loop [] ev first os = os"
| "events_loop ((name, e) # rest) ev first os =
     (if ev AND e \<noteq> 0 then events_loop rest ev False ((if first then os else os @ ''|'') @ name)
      else events_loop rest ev first os)"

definition epoll_events_text :: "u32 \<Rightarrow> string" where
  "epoll_events_text ev = (if ev = 0 then ''0'' else events_loop EPOLL_EVENT_NAMES ev True [])"

section \<open>What holds of them\<close>

lemma base_idle_iff:
  "base_idle seen = Some n \<longleftrightarrow> n < length seen \<and> stopping (seen ! n) \<and> (\<forall>i<n. \<not> stopping (seen ! i))"
proof (induction seen arbitrary: n)
  case (Cons s seen)
  then show ?case by (cases n) (auto simp: less_Suc_eq_0_disj)
qed simp

text \<open>
  The thread that makes a scheduler with \<^verbatim>\<open>use_caller\<close> has it as its scheduler and the root fiber as its main fiber, also while
  it runs \<^verbatim>\<open>run\<close>; any other thread that runs it has its own main fiber.
\<close>

lemma caller_thread:
  assumes "Scheduler_here me n True tid root t = (Inr s, t1)"
  shows "Scheduler_GetThis t = None" "Scheduler_GetThis t1 = Some me" "GetMainFiber t1 = Some root"
    "run_enter me tid main_fiber s t1 = set_hook_enable True t1"
    "tid' \<noteq> tid \<Longrightarrow> GetMainFiber (run_enter me tid' main_fiber s t2) = Some main_fiber"
  using assms
  by (auto simp: Scheduler_here_def Scheduler_def Scheduler_GetThis_def GetMainFiber_def run_enter_def setThis_def
      set_hook_enable_def split: if_splits)

text \<open>While its scheduler lives a thread cannot make a second one; afterwards it can.\<close>

lemma one_scheduler_per_thread:
  assumes "Scheduler_here me n True tid root t = (Inr s, t1)"
  shows "Scheduler_here me' n True tid root' t1 = (Inl SchedAssert, t1)"
    and "m_stopping s' \<Longrightarrow> Scheduler_dtor me s' (run_enter me tid main_fiber s t1) = (Inr (), t2)
      \<Longrightarrow> \<exists>s2. Scheduler_here me' n True tid root' t2 = (Inr s2, t2\<lparr>t_scheduler := Some me', t_scheduler_fiber := Some root'\<rparr>)"
  using assms
  by (auto simp: Scheduler_here_def Scheduler_def Scheduler_GetThis_def Scheduler_dtor_def run_enter_def setThis_def
      set_hook_enable_def split: if_splits)

subsection \<open>The hooks of a thread outlive its scheduler\<close>

text \<open>
  \<^verbatim>\<open>run\<close> enables the hooks of the thread that stops a scheduler with \<^verbatim>\<open>use_caller\<close>, and nothing disables them again: once the
  manager is gone the next \<^verbatim>\<open>sleep\<close> of that thread calls \<^verbatim>\<open>addTimer\<close> on a null pointer. Its main fiber still is the
  root fiber, which was deleted with the scheduler.
\<close>

lemma hooks_outlive_scheduler:
  assumes "Scheduler_here me n True tid root new_thread_vars = (Inr s, t1)" "m_stopping s'"
    "Scheduler_dtor me s' (run_enter me tid main_fiber s t1) = (Inr (), t2)"
  shows "sleep_enter is_iom t2 = SleepOnNull" "GetMainFiber t2 = Some root"
  using assms
  by (auto simp: Scheduler_here_def Scheduler_def Scheduler_GetThis_def Scheduler_dtor_def run_enter_def setThis_def
      set_hook_enable_def new_thread_vars_def sleep_enter_def is_hook_enable_def IOManager_GetThis_def GetMainFiber_def
      split: if_splits)

text \<open>The same happens in any task of a scheduler that is not an \<^verbatim>\<open>IOManager\<close>: its threads have the hooks enabled as well.\<close>

lemma sleep_in_plain_scheduler: "\<not> is_iom me \<Longrightarrow> sleep_enter is_iom (run_enter me tid main_fiber s t) = SleepOnNull"
  and sleep_in_manager: "is_iom me \<Longrightarrow> sleep_enter is_iom (run_enter me tid main_fiber s t) = SleepOn me"
  by (simp_all add: run_enter_def setThis_def set_hook_enable_def sleep_enter_def is_hook_enable_def IOManager_GetThis_def
      Scheduler_GetThis_def Let_def)

subsection \<open>The end of a manager\<close>

lemma io_tickles_frame [simp]:
  "scheds ((io_tickle ^^ n) s) = scheds s" "self ((io_tickle ^^ n) s) = self s"
  "m_fdContexts ((io_tickle ^^ n) s) = m_fdContexts s" "ctx_next ((io_tickle ^^ n) s) = ctx_next s"
  "ctx_at ((io_tickle ^^ n) s) = ctx_at s" "epoll ((io_tickle ^^ n) s) = epoll s"
  "m_pendingEventCount ((io_tickle ^^ n) s) = m_pendingEventCount s"
  by (induction n) (simp_all add: io_tickle_def)

lemma io_stopping_frame:
  "io_stopping now s = (r, s1) \<Longrightarrow> fst r \<Longrightarrow> stopping (scheds s (self s))"
  "io_stopping now s = (r, s1) \<Longrightarrow> \<exists>tm. s1 = s\<lparr>timers := tm\<rparr>"
  by (auto simp: io_stopping_def split: prod.splits)

lemma io_stop_spec:
  assumes "io_stop now mine s = (Inr joined, s1)"
  shows "m_stopping (scheds s1 (self s1)) \<and> self s1 = self s \<and> m_fdContexts s1 = m_fdContexts s \<and> ctx_next s1 = ctx_next s
    \<and> (m_useCaller (scheds s (self s)) = mine \<or> stopping (scheds s (self s)))"
proof -
  obtain done_all timeout s0 where s0: "io_stopping now s = ((done_all, timeout), s0)" by (metis prod.exhaust)
  obtain tm where tm: "s0 = s\<lparr>timers := tm\<rparr>" using io_stopping_frame(2) [OF s0] by blast
  show ?thesis
  proof (cases done_all)
    case True
    then have "stopping (scheds s (self s))" using io_stopping_frame(1) [OF s0] by simp
    then show ?thesis using assms s0 tm True by (auto simp: io_stop_def stopping_def)
  next
    case False
    then show ?thesis using assms s0 tm by (auto simp: io_stop_def Let_def split: if_splits)
  qed
qed

lemma io_stop_succeeds:
  assumes "m_useCaller (scheds s (self s)) = mine"
  shows "\<exists>joined s1. io_stop now mine s = (Inr joined, s1)"
proof -
  obtain done_all timeout s0 where s0: "io_stopping now s = ((done_all, timeout), s0)" by (metis prod.exhaust)
  obtain tm where "s0 = s\<lparr>timers := tm\<rparr>" using io_stopping_frame(2) [OF s0] by blast
  then show ?thesis using assms s0 by (simp add: io_stop_def Let_def)
qed

text \<open>No context is lost: those in the vector are all that were ever made.\<close>

definition all_kept :: "'f iomanager \<Rightarrow> bool" where
  "all_kept s \<longleftrightarrow> length (m_fdContexts s) = ctx_next s"

lemma same_vectorD: "same_vector s s' \<Longrightarrow> all_kept s \<Longrightarrow> all_kept s' \<and> same_stop s s'"
  by (simp add: same_vector_def all_kept_def)

lemma io_step_kept:
  assumes "io_step s found s' found'" "all_kept s"
  shows "all_kept s' \<and> same_stop s s'"
  using assms(1)
proof cases
  case (grow t fd a)
  then have "s' = contextResize (fd * 3 div 2) s" by (auto simp: addEvent_grow_def Let_def split: if_splits)
  then show ?thesis
    using assms(2) grow(3) by (simp add: all_kept_def same_stop_def contextResize_def Let_def)
qed (use assms(2) same_vectorD io_apply_same_vector addEvent_locked_same_vector same_vector_refl in blast)+

text \<open>The steps of the threads from one state to a later one.\<close>

inductive io_path :: "'f iomanager \<Rightarrow> (nat \<Rightarrow> (nat \<times> nat option) option)
    \<Rightarrow> 'f iomanager \<Rightarrow> (nat \<Rightarrow> (nat \<times> nat option) option) \<Rightarrow> bool" where
  io_path_refl: "io_path s found s found"
| io_path_step: "io_path s found s1 found1 \<Longrightarrow> io_step s1 found1 s2 found2 \<Longrightarrow> io_path s found s2 found2"

lemma io_path_kept:
  assumes "io_path s found s' found'" "all_kept s" "io_inv s" "found_ok s found"
  shows "all_kept s' \<and> io_inv s' \<and> found_ok s' found' \<and> same_stop s s'"
  using assms
proof (induction rule: io_path.induct)
  case (io_path_step s found s1 found1 s2 found2)
  then have s1: "all_kept s1" "io_inv s1" "found_ok s1 found1" "same_stop s s1" by blast+
  show ?case
    using io_step_kept [OF io_path_step.hyps(2) s1(1)] io_step_inv [OF io_path_step.hyps(2) s1(2,3)] s1(4)
    by (simp add: same_stop_def)
qed (simp add: same_stop_def)

lemma io_running_kept: "io_running s found \<Longrightarrow> all_kept s"
proof (induction rule: io_running.induct)
  case (io_start me sc now ids others)
  then show ?case by (simp add: all_kept_def IOManager_def contextResize_def Let_def)
next
  case (io_next s found s' found')
  then show ?case using io_step_kept by blast
qed

lemma io_stop_inv:
  assumes "io_stop now mine s = (r, s1)" "io_inv s"
  shows "io_inv s1"
proof -
  obtain done_all timeout s0 where s0: "io_stopping now s = ((done_all, timeout), s0)" by (metis prod.exhaust)
  obtain tm where tm: "s0 = s\<lparr>timers := tm\<rparr>" using io_stopping_frame(2) [OF s0] by blast
  have "m_fdContexts s1 = m_fdContexts s \<and> ctx_at s1 = ctx_at s \<and> ctx_next s1 = ctx_next s \<and> epoll s1 = epoll s
      \<and> m_pendingEventCount s1 = m_pendingEventCount s"
    using assms(1) s0 tm by (auto simp: io_stop_def Let_def split: if_splits)
  then show ?thesis using assms(2) io_inv_cong [of s1 s] by blast
qed

text \<open>
  When a manager, in any state its threads have brought about, is destroyed by the thread that may stop it, the destructor
  gets through, whatever steps the threads still take until the joins return: each context that was ever made is deleted
  exactly once, and the thread is left without the scheduler.
\<close>

lemma manager_destroyed:
  assumes "io_running s found" "m_useCaller (scheds s (self s)) = (Scheduler_GetThis t = Some (self s))"
    "rest (snd (io_stop now (Scheduler_GetThis t = Some (self s)) s)) = Inr s2"
    "io_path (snd (io_stop now (Scheduler_GetThis t = Some (self s)) s)) found s2 found'"
  shows "\<exists>deleted t'. IOManager_dtor rest now s t = Inr (deleted, t') \<and> distinct deleted \<and> set deleted = {..<ctx_next s2}
    \<and> Scheduler_GetThis t' \<noteq> Some (self s) \<and> is_hook_enable t' = is_hook_enable t"
proof -
  let ?mine = "Scheduler_GetThis t = Some (self s)"
  obtain joined s1 where s1: "io_stop now ?mine s = (Inr joined, s1)"
    using io_stop_succeeds [OF assms(2)] by blast
  note stop = io_stop_spec [OF s1] and inv = io_running_inv [OF assms(1)]
  have "all_kept s1" "found_ok s1 found"
    using io_running_kept [OF assms(1)] inv stop by (simp_all add: all_kept_def found_ok_def)
  then have s2: "all_kept s2" "io_inv s2" "same_stop s1 s2"
    using io_path_kept [of s1 found s2 found'] assms(4) s1 io_stop_inv [OF s1 conjunct1 [OF inv]] by simp_all
  have self: "self s2 = self s1" "self s1 = self s" and "m_stopping (scheds s1 (self s1))"
    using s2(3) stop unfolding same_stop_def by blast+
  then have "m_stopping (scheds s2 (self s2))" "self s2 = self s" using s2(3) by (simp_all add: same_stop_def)
  then obtain t' where t': "Scheduler_dtor (self s2) (scheds s2 (self s2)) t = (Inr (), t')"
    "Scheduler_GetThis t' \<noteq> Some (self s)" "is_hook_enable t' = is_hook_enable t"
    by (auto simp: Scheduler_dtor_def Scheduler_GetThis_def is_hook_enable_def)
  have "set (m_fdContexts s2) \<subseteq> {..<ctx_next s2}" using io_invD(2) [OF s2(2)] by blast
  moreover have "card (set (m_fdContexts s2)) = card {..<ctx_next s2}"
    using distinct_card [OF io_invD(1) [OF s2(2)]] s2(1) by (simp add: all_kept_def)
  ultimately have "set (m_fdContexts s2) = {..<ctx_next s2}" by (intro card_subset_eq) simp_all
  then show ?thesis
    using s1 assms(3) t' io_invD(1) [OF s2(2)] by (auto simp: IOManager_dtor_def)
qed

subsection \<open>Start-up of the hooks, and the texts\<close>

text \<open>After the start-up every hooked name has the function the linker gives, and no other name is touched.\<close>

lemma hook_init_fun:
  "\<not> is_inited v \<Longrightarrow> fun_f (hook_init dlsym v) name = (if name \<in> set HOOK_FUN then dlsym name else fun_f v name)"
proof -
  have "fold (\<lambda>name f. f(name := dlsym name)) xs g name = (if name \<in> set xs then dlsym name else g name)" for xs g
    by (induction xs arbitrary: g) auto
  then show "\<not> is_inited v \<Longrightarrow> ?thesis" by (simp add: hook_init_def)
qed

lemma hooks_resolved:
  "fun_f (HookIniter dlsym new_hook_vars) name = (if name \<in> set HOOK_FUN then dlsym name else None)"
  "s_connect_timeout (HookIniter dlsym new_hook_vars) = 5000"
  by (simp_all add: HookIniter_def hook_init_fun new_hook_vars_def)

text \<open>The guard inside \<^verbatim>\<open>hook_init\<close> is never set: a second call looks all names up again.\<close>

lemma guard_never_set: "is_inited (hook_init dlsym v) = is_inited v"
  by (simp add: hook_init_def)

lemma looked_up_again:
  assumes "\<not> is_inited v"
  shows "fun_f (hook_init dlsym2 (hook_init dlsym1 v)) = fun_f (hook_init dlsym2 v)"
  using assms by (intro ext) (simp add: hook_init_fun guard_never_set)

text \<open>The text of a set of events: the names of its bits, with bars between them.\<close>

fun with_bars :: "string list \<Rightarrow> string" where
  "with_bars [] = []"
| "with_bars [name] = name"
| "with_bars (name # names) = name @ ''|'' @ with_bars names"

definition event_names :: "(string \<times> u32) list \<Rightarrow> u32 \<Rightarrow> string list" where
  "event_names table ev = map fst (filter (\<lambda>(name, e). ev AND e \<noteq> 0) table)"

lemma with_bars_Cons: "with_bars (name # names) = name @ concat (map (\<lambda>n. ''|'' @ n) names)"
  by (induction names arbitrary: name) simp_all

lemma events_loop_later: "events_loop table ev False os = os @ concat (map (\<lambda>n. ''|'' @ n) (event_names table ev))"
  by (induction table arbitrary: os) (auto simp: event_names_def)

lemma events_loop_first: "events_loop table ev True [] = with_bars (event_names table ev)"
  by (induction table) (auto simp: event_names_def events_loop_later [unfolded event_names_def] with_bars_Cons)

lemma epoll_events_text_names:
  "ev \<noteq> 0 \<Longrightarrow> epoll_events_text ev = with_bars (event_names EPOLL_EVENT_NAMES ev)"
  by (simp add: epoll_events_text_def events_loop_first)

text \<open>The set of the pipe, and one of bits that have no name: nothing is printed for the latter.\<close>

lemma epoll_texts: "epoll_events_text 0x80000001 = ''EPOLLIN|EPOLLET''" "epoll_events_text 0x8000000 = []"
  by (simp_all add: epoll_events_text_def EPOLL_EVENT_NAMES_def)

end
