(* ===== verification/Spec2Isabelle.thy ===== *)
theory Spec2Isabelle
  imports ByteProps TimerProps Mutex FiberProps SchedulerProps IOManagerProps HookProps HttpMachineProps
    HttpProps ClientProps HttpServer StreamProps TcpServer LogProps Thread ResponseRoundTrip AddressProps HttpAccepts Exchange Runtime
begin

text \<open>
  \<^bold>\<open>A fiber-based server framework, and what makes it correct.\<close>

  The repository is a network library in C++11: fibers that a pool of threads runs, an epoll loop with timers,
  system calls that let other fibers run instead of blocking the thread, and on top of these sockets, byte streams,
  an HTTP/1.x parser and an HTTP server. This development models the code under \<^verbatim>\<open>server/\<close> operation by operation and
  proves what each part promises to the one above it.

  \<^bold>\<open>How the parts stand on each other\<close>

  A \<^verbatim>\<open>HttpServer\<close> is a \<^verbatim>\<open>TcpServer\<close>: it binds addresses, and accepting loops give each client to a worker. The worker reads
  requests over a \<^verbatim>\<open>HttpSession\<close>, which is a \<^verbatim>\<open>SocketStream\<close> with the request parser, finds the servlet of the path and
  writes the response. Each call on the socket goes through a hooked system call: if it would block, the fiber
  registers an event with the \<^verbatim>\<open>IOManager\<close>, perhaps with a timer, and yields; the idle fiber of some thread waits in
  epoll, triggers the events that are ready and the timers that are due, and the scheduler resumes the fibers.

  \<^bold>\<open>Theories\<close>

  \<^item> \<^verbatim>\<open>Prelude\<close>: 32-bit and 64-bit arithmetic with its wrap-around, a monad of state and exceptions, and lists that are
    written in place.
  \<^item> \<^verbatim>\<open>Endian\<close> (\<^verbatim>\<open>endian.h\<close>); \<^verbatim>\<open>ByteStore\<close>, \<^verbatim>\<open>ByteArray\<close>, \<^verbatim>\<open>ByteCodec\<close>, \<^verbatim>\<open>ByteIov\<close> (\<^verbatim>\<open>bytearray.cc\<close>): the chain of blocks with its cursor, the
    typed readers and writers over it, and its buffers for scattered input and output. The interface of a store of bytes is
    the locale of \<^verbatim>\<open>ByteStore\<close>, in which the codecs are proved, and which the chain interprets. \<^verbatim>\<open>ByteProps\<close> has the
    claims: the chain refines a flat growing array, what is written is read back, and the buffers are the bytes.
  \<^item> \<^verbatim>\<open>StdSet\<close>, \<^verbatim>\<open>StdMap\<close>: \<^verbatim>\<open>std::set\<close> and \<^verbatim>\<open>std::map\<close> with a comparison of their own, as locales over its laws.
  \<^item> \<^verbatim>\<open>Timer\<close> (\<^verbatim>\<open>timer.cc\<close>), with \<^verbatim>\<open>TimerProps\<close>: the set of timers stays ordered, exactly the due timers are returned, and
    a thread that sleeps as long as it was told misses none.
  \<^item> \<^verbatim>\<open>Mutex\<close> (\<^verbatim>\<open>mutex.h\<close>): locks, guards and the semaphore, over any interleaving of threads.
  \<^item> \<^verbatim>\<open>Util\<close>, \<^verbatim>\<open>Thread\<close> (\<^verbatim>\<open>util.cc\<close>, \<^verbatim>\<open>thread.cc\<close>): handing a callback to a new thread, in single steps of both.
  \<^item> \<^verbatim>\<open>Fiber\<close> (\<^verbatim>\<open>fiber.cc\<close>), with \<^verbatim>\<open>FiberProps\<close>: a step relation of threads that resume and yield; no fiber runs twice.
  \<^item> \<^verbatim>\<open>Scheduler\<close> (\<^verbatim>\<open>scheduler.cc\<close>), with \<^verbatim>\<open>SchedulerProps\<close>: workers that take tasks in any order; no task is lost or
    done twice, and stopping means that all are done.
  \<^item> \<^verbatim>\<open>IOManager\<close> (\<^verbatim>\<open>iomanager.cc\<close>), with \<^verbatim>\<open>IOManagerProps\<close>: the kernel's interest list, the event contexts and the counter
    of pending events stay one and the same, and events trigger once.
  \<^item> \<^verbatim>\<open>FdManager\<close>, \<^verbatim>\<open>Hook\<close> (\<^verbatim>\<open>fd_manager.cc\<close>, \<^verbatim>\<open>hook.cc\<close>), with \<^verbatim>\<open>HookProps\<close>: a hooked call behaves as a blocking one with
    a time limit, and the user's flags are kept apart from the kernel's.
  \<^item> \<^verbatim>\<open>Runtime\<close> (\<^verbatim>\<open>scheduler.cc\<close>, \<^verbatim>\<open>iomanager.cc\<close>, \<^verbatim>\<open>hook.cc\<close>): the variables of a thread, start-up and destructors: a manager
    that is destroyed deletes each context it ever made exactly once, but leaves the hooks of its thread enabled.
  \<^item> \<^verbatim>\<open>HttpStates1\<close> to \<^verbatim>\<open>HttpStates3\<close>, \<^verbatim>\<open>HttpMachine\<close> (\<^verbatim>\<open>http11_parser.rl.cc\<close>): the generated request machine, each of its 347
    states and its actions. \<^verbatim>\<open>HttpRun\<close> and \<^verbatim>\<open>HttpInside\<close> follow it over the grammar and over any bytes; \<^verbatim>\<open>HttpMachineProps\<close> has
    the claims. \<^verbatim>\<open>HttpTarget\<close> and \<^verbatim>\<open>HttpAccepts\<close> go the other way: whatever is accepted has the form of a request.
  \<^item> \<^verbatim>\<open>ClientStates\<close>, \<^verbatim>\<open>ClientMachine\<close> (\<^verbatim>\<open>httpclient_parser.rl.cc\<close>): the response machine with its 123 states; \<^verbatim>\<open>ClientProps\<close> and
    \<^verbatim>\<open>ClientRun\<close> show that it stays inside its buffer and reads chunk headers and responses.
  \<^item> \<^verbatim>\<open>Http\<close> (\<^verbatim>\<open>http.h\<close>, \<^verbatim>\<open>http.cc\<close>) and \<^verbatim>\<open>HttpParser\<close> (\<^verbatim>\<open>http_parser.cc\<close>): messages, their header maps, their printing, and the
    callbacks that make them of what a machine reads; \<^verbatim>\<open>HttpProps\<close>, \<^verbatim>\<open>HttpRoundTrip\<close> and \<^verbatim>\<open>ResponseRoundTrip\<close>: what is printed
    is received as it was.
  \<^item> \<^verbatim>\<open>Stream\<close>, \<^verbatim>\<open>SocketStream\<close>, \<^verbatim>\<open>HttpSession\<close>: streams as records of functions, with the contracts of their calls as
    locales (reading, writing, and a source of bytes), interpreted by the socket stream; \<^verbatim>\<open>StreamBytes\<close> puts the chain of blocks
    and the socket stream together, as instances of the same contract; \<^verbatim>\<open>StreamProps\<close> and \<^verbatim>\<open>SessionProps\<close> have the claims:
    transfers of a fixed size return, and what one array sends another receives.
  \<^item> \<^verbatim>\<open>Address\<close> (\<^verbatim>\<open>address.cc\<close>), with \<^verbatim>\<open>AddressProps\<close>: printed addresses are read back by the rules of their notation, and
    the order of addresses is the lexicographic one of their bytes.
  \<^item> \<^verbatim>\<open>Socket\<close> (\<^verbatim>\<open>socket.cc\<close>), with \<^verbatim>\<open>SocketProps\<close>; \<^verbatim>\<open>TcpServer\<close> (\<^verbatim>\<open>tcp_server.cc\<close>): binding, accepting, and stopping.
  \<^item> \<^verbatim>\<open>Servlet\<close> (\<^verbatim>\<open>servlet.cc\<close>) and \<^verbatim>\<open>HttpServer\<close> (\<^verbatim>\<open>http_server.cc\<close>): the choice of a servlet, and the conversation with a
    client from the bytes that arrive to the bytes that are sent. \<^verbatim>\<open>Exchange\<close>: read with the response parser,
    these bytes are the answers of the servlets.
  \<^item> \<^verbatim>\<open>Log\<close> (\<^verbatim>\<open>log.cc\<close>), with \<^verbatim>\<open>LogProps\<close>: the reading of a pattern and the way of a message to its appenders.

  \<^bold>\<open>How the code is read\<close>

  A class is a record with the names of its members; an operation is a function of the state before to the state
  behind, with every branch of the code, and a failed assertion, an exception and a read outside a buffer are
  values. Objects that the code shares by pointers stand in heaps from numbers to records. Integers are words of their width, or
  integers with the wrap-around written out. Threads are steps of a relation or elements of a list of operations, and
  what is proved holds for every such list. What comes from outside, the kernel, the clock, \<^verbatim>\<open>boost::lexical_cast\<close>,
  \<^verbatim>\<open>fnmatch\<close> and \<^verbatim>\<open>strftime\<close>, is a parameter, and a claim that relies on it says what it relies on.

  Loops over data are recursions on it. The loops of a stream end because each call moves at least a byte; the loops of
  the server and of a hooked call may go on for ever, and are partial functions with the value \<^verbatim>\<open>None\<close> then, so that the
  claims about them say that they return. No fuel is used.

  Below the claims of each theory stand lemmas for where the code falls short of what it means to do.

  \<^bold>\<open>Not modelled\<close>

  The machine context of \<^verbatim>\<open>ucontext\<close> and the stacks of fibers, the memory orders of atomic operations, the buffering of file
  streams, the text of log messages inside the operations, and the classes and macros without state of
  \<^verbatim>\<open>singleton.h\<close>, \<^verbatim>\<open>noncopyable.h\<close>, \<^verbatim>\<open>macro.h\<close> and \<^verbatim>\<open>will.h\<close>. The inputs of the generator are not modelled, its output is.
\<close>

end
